(* ===== verification/Lo_Prelude.thy ===== *)
theory Lo_Prelude
  imports Main "HOL-Library.Finite_Map"
begin

text \<open>
  Shared vocabulary of the development.

  \<^item> Go's \<open>int\<close> and \<open>int64\<close> are 64-bit two's complement on the platforms the
    repository builds for (\<open>linux/amd64\<close>). A value of such a variable is an
    \<open>int\<close>; \<open>i64\<close> wraps the exact result of an operation into the range of the type.
  \<^item> Go maps with string keys are finite maps \<open>(string, 'v) fmap\<close>. Go iterates over a
    map in an unspecified order, so a loop over a map takes the order as an argument
    (\<open>iter_order\<close> says which lists are orders of a map).
  \<^item> \<open>fmt.Sprintf("%d", n)\<close> is \<open>dec_int\<close>; it is injective, which is what makes the
    store's generated identifiers distinct.
\<close>

subsection \<open>Collections of rules\<close>

named_theorems i64_simps \<open>rewriting of wrapped 64-bit arithmetic\<close>
named_theorems frame_simps \<open>fields that an operation leaves alone\<close>

type_synonym 'v smap = "(string, 'v) fmap"

subsection \<open>64-bit signed integers\<close>

definition i64 :: "int \<Rightarrow> int" where
  "i64 x = (x + 2 ^ 63) mod 2 ^ 64 - 2 ^ 63"

definition in64 :: "int \<Rightarrow> bool" where
  "in64 x \<longleftrightarrow> - (2 ^ 63) \<le> x \<and> x < 2 ^ 63"

definition MaxInt64 :: int where
  "MaxInt64 = 2 ^ 63 - 1"

lemma in64_i64 [simp, intro]: "in64 (i64 x)"
  unfolding in64_def i64_def by simp

lemma i64_id: "in64 x \<Longrightarrow> i64 x = x"
  unfolding in64_def i64_def by (simp add: mod_pos_pos_trivial)

lemma i64_small: "- (2 ^ 62) \<le> x \<Longrightarrow> x < 2 ^ 62 \<Longrightarrow> i64 x = x"
  by (rule i64_id) (simp add: in64_def)

lemma i64_0 [simp]: "i64 0 = 0"
  by (simp add: i64_def)

lemma i64_i64 [simp]: "i64 (i64 x) = i64 x"
  by (rule i64_id) simp

lemma i64_add_left [i64_simps]: "i64 (i64 a + b) = i64 (a + b)"
proof -
  have "(i64 a + b + 2 ^ 63) mod 2 ^ 64 = ((a + 2 ^ 63) mod 2 ^ 64 + b) mod 2 ^ 64"
    unfolding i64_def by (simp add: algebra_simps)
  also have "\<dots> = (a + 2 ^ 63 + b) mod 2 ^ 64"
    by (rule mod_add_left_eq)
  finally show ?thesis
    unfolding i64_def [of "i64 a + b"] i64_def [of "a + b"] by (simp add: algebra_simps)
qed

lemma i64_add_right [i64_simps]: "i64 (a + i64 b) = i64 (a + b)"
  using i64_add_left [of b a] by (simp add: add.commute)

text \<open>A sum accumulated with wrapping is the wrapped exact sum, whatever the order.\<close>

lemma i64_foldl_add: "foldl (\<lambda>acc x. i64 (acc + f x)) (i64 a) xs = i64 (a + (\<Sum>x\<leftarrow>xs. f x))"
  by (induction xs arbitrary: a) (simp_all add: i64_simps add.assoc)

subsection \<open>Division as Go truncates it\<close>

definition quot :: "int \<Rightarrow> int \<Rightarrow> int" where
  "quot a b = sgn a * sgn b * (\<bar>a\<bar> div \<bar>b\<bar>)"

definition rem :: "int \<Rightarrow> int \<Rightarrow> int" where
  "rem a b = a - quot a b * b"

lemma quot_nonneg_eq: "0 \<le> a \<Longrightarrow> 0 < b \<Longrightarrow> quot a b = a div b"
  by (simp add: quot_def sgn_if)

lemma rem_nonneg_eq: "0 \<le> a \<Longrightarrow> 0 < b \<Longrightarrow> rem a b = a mod b"
  by (simp add: rem_def quot_nonneg_eq minus_div_mult_eq_mod)

subsection \<open>Decimal text\<close>

fun dec_nat :: "nat \<Rightarrow> string" where
  "dec_nat n = (if n < 10 then [char_of (48 + n)] else dec_nat (n div 10) @ [char_of (48 + n mod 10)])"

declare dec_nat.simps [simp del]

definition dec_int :: "int \<Rightarrow> string" where
  "dec_int n = (if n < 0 then ''-'' @ dec_nat (nat (- n)) else dec_nat (nat n))"

definition undec :: "string \<Rightarrow> nat" where
  "undec = foldl (\<lambda>acc c. 10 * acc + (of_char c - 48)) 0"

lemma dec_nat_nonempty [simp]: "dec_nat n \<noteq> []"
  by (subst dec_nat.simps) simp

lemma undec_dec_nat: "undec (dec_nat n) = n"
proof (induction n rule: dec_nat.induct)
  case (1 n)
  show ?case
  proof (cases "n < 10")
    case True
    then show ?thesis by (subst dec_nat.simps) (simp add: undec_def)
  next
    case False
    have "undec (dec_nat n) = 10 * undec (dec_nat (n div 10)) + n mod 10"
      using False by (subst dec_nat.simps) (simp add: undec_def)
    with "1.IH" False show ?thesis by simp
  qed
qed

lemma dec_nat_inject [simp]: "dec_nat m = dec_nat n \<longleftrightarrow> m = n"
  by (metis undec_dec_nat)

lemma dec_nat_digits: "c \<in> set (dec_nat n) \<Longrightarrow> 48 \<le> (of_char c :: nat) \<and> (of_char c :: nat) < 58"
proof (induction n rule: dec_nat.induct)
  case (1 n)
  show ?case
  proof (cases "n < 10")
    case True
    with "1.prems" show ?thesis by (subst (asm) dec_nat.simps) auto
  next
    case False
    from "1.prems" False have "c \<in> set (dec_nat (n div 10)) \<or> c = char_of (48 + n mod 10)"
      by (subst (asm) dec_nat.simps) auto
    then show ?thesis
    proof
      assume "c \<in> set (dec_nat (n div 10))"
      with "1.IH" False show ?thesis by blast
    qed simp
  qed
qed

lemma dec_nat_no_minus: "dec_nat n \<noteq> CHR ''-'' # xs"
  using dec_nat_digits [of "CHR ''-''" n] by auto

lemma dec_int_inject [simp]: "dec_int m = dec_int n \<longleftrightarrow> m = n"
  unfolding dec_int_def
  by (auto simp: dec_nat_no_minus dest: sym split: if_splits)

subsection \<open>Finite maps and their iteration orders\<close>

text \<open>Reading a Go map at a missing key gives the zero value of the element type.\<close>

definition get_or :: "'v \<Rightarrow> ('k, 'v) fmap \<Rightarrow> 'k \<Rightarrow> 'v" where
  "get_or z m k = (case fmlookup m k of None \<Rightarrow> z | Some v \<Rightarrow> v)"

lemma get_or_Some [simp]: "fmlookup m k = Some v \<Longrightarrow> get_or z m k = v"
  by (simp add: get_or_def)

lemma get_or_None [simp]: "fmlookup m k = None \<Longrightarrow> get_or z m k = z"
  by (simp add: get_or_def)

lemma get_or_fmupd [simp]: "get_or z (fmupd k v m) k' = (if k = k' then v else get_or z m k')"
  by (simp add: get_or_def)

definition iter_order :: "'k list \<Rightarrow> ('k, 'v) fmap \<Rightarrow> bool" where
  "iter_order ord m \<longleftrightarrow> distinct ord \<and> fset_of_list ord = fmdom m"

lemma iter_order_distinct: "iter_order ord m \<Longrightarrow> distinct ord"
  by (simp add: iter_order_def)

lemma iter_order_set: "iter_order ord m \<Longrightarrow> k \<in> set ord \<longleftrightarrow> (\<exists>v. fmlookup m k = Some v)"
  by (metis iter_order_def fset_of_list_elem fmlookup_dom_iff)

lemma iter_order_exists: "\<exists>ord. iter_order ord m"
proof -
  have "finite (fset (fmdom m))" by simp
  then obtain ord where "distinct ord" "set ord = fset (fmdom m)"
    using finite_distinct_list by blast
  then have "iter_order ord m"
    unfolding iter_order_def by (metis fset_inverse fset_of_list.rep_eq)
  then show ?thesis ..
qed

lemma iter_order_length: "iter_order ord m \<Longrightarrow> length ord = fcard (fmdom m)"
  by (metis iter_order_def distinct_card fcard.rep_eq fset_of_list.rep_eq)

end
