(* ===== verification/Go_Float.thy ===== *)
theory Go_Float
  imports Lo_Prelude "HOL-Library.Log_Nat"
begin

text \<open>
  Go's \<open>float64\<close> (IEEE 754 binary64, round to nearest, ties to even) as the
  \<open>linux/amd64\<close> compiler evaluates it: every operation computes the exact result and
  rounds it once. A finite value is its exact rational; positive and negative zero are one value
  (the code compares with zero and never divides by a negative zero).

  \<open>rnd64\<close> rounds a rational to a multiple of the last place of its binade (53 significant
  bits, and no finer than \<open>2 ^ -1074\<close>); \<open>mk_float\<close> turns a magnitude of
  \<open>2 ^ 1024\<close> or more into an infinity.
\<close>

subsection \<open>Rounding\<close>

definition flog2 :: "rat \<Rightarrow> int" where
  "flog2 x = (let (n, d) = quotient_of x; e = bitlen n - bitlen d
     in if 2 powi e \<le> x then e else e - 1)"

definition round_even :: "rat \<Rightarrow> int" where
  "round_even x = (let f = \<lfloor>x\<rfloor>; r = x - of_int f
     in if r < 1 / 2 then f else if 1 / 2 < r then f + 1 else if even f then f else f + 1)"

definition ulp_exp :: "rat \<Rightarrow> int" where
  "ulp_exp x = max (flog2 \<bar>x\<bar> - 52) (- 1074)"

definition rnd64 :: "rat \<Rightarrow> rat" where
  "rnd64 x = (if x = 0 then 0
     else of_int (round_even (x / 2 powi ulp_exp x)) * 2 powi ulp_exp x)"

lemma flog2_bounds:
  assumes "0 < x"
  shows "2 powi flog2 x \<le> x" and "x < 2 powi (flog2 x + 1)"
proof -
  obtain n d where q: "quotient_of x = (n, d)" by force
  then have d: "0 < d" and xq: "x = of_int n / of_int d"
    by (auto simp: quotient_of_denom_pos quotient_of_div)
  with assms have n: "0 < n" by (simp add: zero_less_divide_iff)
  have pw: "(of_int (2 ^ nat k) :: rat) = 2 powi k" if "0 \<le> k" for k
    using that by (simp add: power_int_def)
  have lo: "2 powi (bitlen k - 1) \<le> (of_int k :: rat)" and hi: "(of_int k :: rat) < 2 powi bitlen k"
    if "0 < k" for k
  proof -
    have b: "2 ^ nat (bitlen k - 1) \<le> k \<and> k < 2 ^ nat (bitlen k)"
      using bitlen_bounds [OF that] .
    have p: "1 \<le> bitlen k" using that bitlen_ge_iff_power [of 1 k] by simp
    show "2 powi (bitlen k - 1) \<le> (of_int k :: rat)"
      using b p pw [of "bitlen k - 1"] by (metis diff_ge_0_iff_ge of_int_le_iff)
    show "(of_int k :: rat) < 2 powi bitlen k"
      using b p pw [of "bitlen k"] by (metis of_int_less_iff order_trans zero_le_one)
  qed
  let ?e = "bitlen n - bitlen d"
  have dr: "(0 :: rat) < of_int d" using d by simp
  have up: "x < 2 powi (?e + 1)"
  proof -
    have "x < 2 powi bitlen n / of_int d"
      unfolding xq using hi [OF n] dr by (simp add: divide_strict_right_mono)
    also have "\<dots> \<le> 2 powi bitlen n / 2 powi (bitlen d - 1)"
      using lo [OF d] dr by (intro divide_left_mono mult_pos_pos) auto
    also have "\<dots> = 2 powi (?e + 1)"
      by (simp add: power_int_diff power_int_add)
    finally show ?thesis .
  qed
  have dn: "2 powi (?e - 1) \<le> x"
  proof -
    have "2 powi (?e - 1) = (2 powi (bitlen n - 1) / 2 powi bitlen d :: rat)"
      by (simp add: power_int_diff)
    also have "\<dots> \<le> of_int n / 2 powi bitlen d"
      using lo [OF n] by (simp add: divide_right_mono)
    also have "\<dots> \<le> x"
      unfolding xq using hi [OF d] n dr by (intro divide_left_mono mult_pos_pos) (auto simp: less_imp_le)
    finally show ?thesis .
  qed
  have f: "flog2 x = (if 2 powi ?e \<le> x then ?e else ?e - 1)"
    by (simp add: flog2_def q Let_def)
  show "2 powi flog2 x \<le> x" using dn f by auto
  show "x < 2 powi (flog2 x + 1)" using up f by auto
qed

lemma flog2_mono: "0 < x \<Longrightarrow> x \<le> y \<Longrightarrow> flog2 x \<le> flog2 y"
proof (rule ccontr)
  assume a: "0 < x" "x \<le> y" "\<not> flog2 x \<le> flog2 y"
  then have "(2 :: rat) powi (flog2 y + 1) \<le> 2 powi flog2 x"
    by (intro power_int_increasing) auto
  with flog2_bounds(1) [OF a(1)] flog2_bounds(2) [of y] a(1,2) show False by simp
qed

lemma round_even_of_int [simp]: "round_even (of_int n) = n"
  by (simp add: round_even_def)

lemma round_even_power [simp]: "round_even (2 ^ n) = 2 ^ n"
  using round_even_of_int [of "2 ^ n"] by (simp del: round_even_of_int)

lemma round_even_bounds: "\<lfloor>x\<rfloor> \<le> round_even x" "round_even x \<le> \<lfloor>x\<rfloor> + 1"
  by (auto simp: round_even_def Let_def)

lemma round_even_mono: "x \<le> y \<Longrightarrow> round_even x \<le> round_even y"
proof -
  assume le: "x \<le> y"
  then have f: "\<lfloor>x\<rfloor> \<le> \<lfloor>y\<rfloor>" by (rule floor_mono)
  show ?thesis
  proof (cases "\<lfloor>x\<rfloor> = \<lfloor>y\<rfloor>")
    case True
    with le show ?thesis by (auto simp: round_even_def Let_def)
  next
    case False
    with f have "\<lfloor>x\<rfloor> + 1 \<le> \<lfloor>y\<rfloor>" by simp
    then show ?thesis using round_even_bounds [of x] round_even_bounds [of y] by linarith
  qed
qed

lemma round_even_minus: "round_even (- x) = - round_even x"
proof (cases "x = of_int \<lfloor>x\<rfloor>")
  case True
  then show ?thesis by (metis of_int_minus round_even_of_int)
next
  case False
  have "\<lfloor>- x\<rfloor> = - \<lfloor>x\<rfloor> - 1"
    using False by (intro floor_unique) (auto, linarith+)
  then show ?thesis by (auto simp: round_even_def Let_def)
qed

lemma ulp_exp_minus [simp]: "ulp_exp (- x) = ulp_exp x"
  by (simp add: ulp_exp_def)

lemma rnd64_0 [simp]: "rnd64 0 = 0"
  by (simp add: rnd64_def)

lemma rnd64_minus: "rnd64 (- x) = - rnd64 x"
  by (simp add: rnd64_def round_even_minus)

lemma rnd64_eq: "rnd64 x = of_int (round_even (x / 2 powi ulp_exp x)) * 2 powi ulp_exp x"
  by (simp add: rnd64_def round_even_def)

lemma rnd64_nonneg: "0 \<le> x \<Longrightarrow> 0 \<le> rnd64 x"
  using round_even_mono [of 0 "x / 2 powi ulp_exp x"]
  by (simp add: rnd64_eq round_even_def [of 0])

text \<open>A value below a power of two that is not finer than the grid rounds to at most that power.\<close>

lemma rnd64_le_powi:
  assumes "0 < x" "x \<le> 2 powi k" "ulp_exp x \<le> k"
  shows "rnd64 x \<le> 2 powi k"
proof -
  let ?q = "ulp_exp x"
  have "x / 2 powi ?q \<le> 2 powi (k - ?q)"
    using assms(2) by (simp add: power_int_diff divide_right_mono)
  also have "\<dots> = of_int (2 ^ nat (k - ?q))"
    using assms(3) by (simp add: power_int_def)
  finally have "round_even (x / 2 powi ?q) \<le> 2 ^ nat (k - ?q)"
    using round_even_mono [of "x / 2 powi ?q" "2 ^ nat (k - ?q)"] by simp
  then have "(of_int (round_even (x / 2 powi ?q)) :: rat) \<le> of_int (2 ^ nat (k - ?q))"
    by (simp only: of_int_le_iff)
  also have "\<dots> = 2 powi (k - ?q)"
    using assms(3) by (simp add: power_int_def)
  finally have "rnd64 x \<le> 2 powi (k - ?q) * 2 powi ?q"
    by (simp add: rnd64_eq mult_right_mono)
  then show ?thesis by (simp add: power_int_diff)
qed

lemma powi_le_rnd64:
  assumes "0 < x" "2 powi k \<le> x" "ulp_exp x \<le> k"
  shows "2 powi k \<le> rnd64 x"
proof -
  let ?q = "ulp_exp x"
  have "of_int (2 ^ nat (k - ?q)) = (2 powi (k - ?q) :: rat)"
    using assms(3) by (simp add: power_int_def)
  also have "\<dots> \<le> x / 2 powi ?q"
    using assms(2) by (simp add: power_int_diff divide_right_mono)
  finally have "2 ^ nat (k - ?q) \<le> round_even (x / 2 powi ?q)"
    using round_even_mono [of "2 ^ nat (k - ?q)" "x / 2 powi ?q"] by simp
  then have "(of_int (2 ^ nat (k - ?q)) :: rat) \<le> of_int (round_even (x / 2 powi ?q))"
    by (simp only: of_int_le_iff)
  then have "2 powi (k - ?q) * 2 powi ?q \<le> rnd64 x"
    using assms(3) by (simp add: rnd64_eq mult_right_mono power_int_def)
  then show ?thesis by (simp add: power_int_diff)
qed

lemma rnd64_mono_pos:
  assumes "0 < x" "x \<le> y"
  shows "rnd64 x \<le> rnd64 y"
proof -
  have fl: "flog2 x \<le> flog2 y" using assms by (rule flog2_mono)
  have ax: "\<bar>x\<bar> = x" "\<bar>y\<bar> = y" and y0: "0 < y" using assms by auto
  show ?thesis
  proof (cases "ulp_exp x = ulp_exp y")
    case True
    have "round_even (x / 2 powi ulp_exp y) \<le> round_even (y / 2 powi ulp_exp y)"
      using assms by (intro round_even_mono divide_right_mono) auto
    with True show ?thesis by (simp add: rnd64_eq mult_right_mono)
  next
    case False
    with fl have lt: "flog2 x < flog2 y" and uy: "ulp_exp y = flog2 y - 52" and
      u: "ulp_exp x < ulp_exp y"
      by (auto simp: ulp_exp_def ax max_def split: if_splits)
    have "x \<le> 2 powi flog2 y"
    proof -
      have "x < 2 powi (flog2 x + 1)" using assms(1) by (rule flog2_bounds)
      also have "\<dots> \<le> 2 powi flog2 y" using lt by (intro power_int_increasing) auto
      finally show ?thesis by simp
    qed
    then have "rnd64 x \<le> 2 powi flog2 y"
      using assms(1) u uy by (intro rnd64_le_powi) auto
    also have "\<dots> \<le> rnd64 y"
      using y0 uy flog2_bounds(1) [OF y0] by (intro powi_le_rnd64) auto
    finally show ?thesis .
  qed
qed

lemma rnd64_mono: "x \<le> y \<Longrightarrow> rnd64 x \<le> rnd64 y"
proof -
  assume le: "x \<le> y"
  consider "0 < x" | "x \<le> 0" "0 \<le> y" | "y < 0" using le by linarith
  then show ?thesis
  proof cases
    case 1
    then show ?thesis using le by (rule rnd64_mono_pos)
  next
    case 2
    then show ?thesis
      using rnd64_nonneg [of "- x"] rnd64_nonneg [of y] by (simp add: rnd64_minus)
  next
    case 3
    then have "rnd64 (- y) \<le> rnd64 (- x)" using le by (intro rnd64_mono_pos) auto
    then show ?thesis by (simp add: rnd64_minus)
  qed
qed

text \<open>A multiple of a power of two with at most 53 significant bits is exact.\<close>

lemma rnd64_grid:
  assumes n: "\<bar>n\<bar> \<le> 2 ^ 53" and k: "- 1074 \<le> k" and x: "x = of_int n * 2 powi k"
  shows "rnd64 x = x"
proof (cases "n = 0")
  case False
  let ?q = "ulp_exp x"
  have pos: "0 < \<bar>x\<bar>" using False x by simp
  have "(of_int \<bar>n\<bar> :: rat) \<le> of_int (2 ^ 53)" using n by (simp only: of_int_le_iff)
  then have "\<bar>of_int n :: rat\<bar> \<le> 2 powi 53" by simp
  then have "\<bar>x\<bar> \<le> 2 powi 53 * 2 powi k"
    unfolding x abs_mult by (intro mult_mono) auto
  then have le: "\<bar>x\<bar> \<le> 2 powi (53 + k)"
    by (simp add: power_int_add)
  have "(2 :: rat) powi (53 + k) < 2 powi flog2 \<bar>x\<bar>" if "53 + k < flog2 \<bar>x\<bar>"
    using that by (intro power_int_strict_increasing) auto
  with le flog2_bounds(1) [OF pos] have fl: "flog2 \<bar>x\<bar> \<le> 53 + k" by linarith
  show ?thesis
  proof (cases "?q \<le> k")
    case True
    have "x / 2 powi ?q = of_int n * 2 powi (k - ?q)"
      by (simp add: x power_int_diff)
    also have "\<dots> = of_int (n * 2 ^ nat (k - ?q))"
      using True by (simp add: power_int_def)
    finally have e: "x / 2 powi ?q = of_int (n * 2 ^ nat (k - ?q))" .
    then have "round_even (x / 2 powi ?q) = n * 2 ^ nat (k - ?q)"
      by (simp only: round_even_of_int)
    then have "rnd64 x = x / 2 powi ?q * 2 powi ?q"
      by (simp only: rnd64_eq e)
    then show ?thesis by simp
  next
    case q: False
    with fl k have f: "flog2 \<bar>x\<bar> = 53 + k" and u: "ulp_exp \<bar>x\<bar> \<le> 53 + k"
      by (auto simp: ulp_exp_def max_def split: if_splits)
    from flog2_bounds(1) [OF pos] f le have eq: "\<bar>x\<bar> = 2 powi (53 + k)" by simp
    have "rnd64 \<bar>x\<bar> \<le> 2 powi (53 + k)" "2 powi (53 + k) \<le> rnd64 \<bar>x\<bar>"
      using rnd64_le_powi [OF pos _ u] powi_le_rnd64 [OF pos _ u] eq by simp_all
    with eq have "rnd64 \<bar>x\<bar> = \<bar>x\<bar>" by linarith
    then show ?thesis by (cases "0 \<le> x") (auto simp: rnd64_minus)
  qed
qed (simp add: x)

lemma rnd64_of_int: "\<bar>n\<bar> \<le> 2 ^ 53 \<Longrightarrow> rnd64 (of_int n) = of_int n"
  by (rule rnd64_grid [of n 0]) auto

lemma rnd64_dyadic: "\<bar>n\<bar> \<le> 2 ^ 53 \<Longrightarrow> k \<le> 1074 \<Longrightarrow> rnd64 (of_int n / 2 ^ k) = of_int n / 2 ^ k"
  by (rule rnd64_grid [of n "- int k"]) (auto simp: power_int_minus divide_inverse)

subsection \<open>Values and operations\<close>

datatype float64 = Fin rat | PInf | NInf | NaN

definition mk_float :: "rat \<Rightarrow> float64" where
  "mk_float x = (let y = rnd64 x in
     if 2 ^ 1024 \<le> y then PInf else if y \<le> - (2 ^ 1024) then NInf else Fin y)"

definition fzero :: float64 where
  "fzero = Fin 0"

text \<open>The conversion \<open>float64(n)\<close> of an integer, and a constant of the source.\<close>

definition f_of_int :: "int \<Rightarrow> float64" where
  "f_of_int n = mk_float (of_int n)"

fun fneg :: "float64 \<Rightarrow> float64" where
  "fneg (Fin x) = Fin (- x)"
| "fneg PInf = NInf"
| "fneg NInf = PInf"
| "fneg NaN = NaN"

fun fadd :: "float64 \<Rightarrow> float64 \<Rightarrow> float64" where
  "fadd (Fin x) (Fin y) = mk_float (x + y)"
| "fadd NaN _ = NaN"
| "fadd _ NaN = NaN"
| "fadd PInf NInf = NaN"
| "fadd NInf PInf = NaN"
| "fadd PInf _ = PInf"
| "fadd _ PInf = PInf"
| "fadd NInf _ = NInf"
| "fadd _ NInf = NInf"

definition fsub :: "float64 \<Rightarrow> float64 \<Rightarrow> float64" where
  "fsub a b = fadd a (fneg b)"

definition inf_sign :: "rat \<Rightarrow> float64 \<Rightarrow> float64" where
  "inf_sign x i = (if 0 < x then i else if x < 0 then fneg i else NaN)"

fun fmul :: "float64 \<Rightarrow> float64 \<Rightarrow> float64" where
  "fmul (Fin x) (Fin y) = mk_float (x * y)"
| "fmul NaN _ = NaN"
| "fmul _ NaN = NaN"
| "fmul (Fin x) i = inf_sign x i"
| "fmul i (Fin x) = inf_sign x i"
| "fmul PInf i = i"
| "fmul NInf i = fneg i"

text \<open>Division by zero does not panic in Go: it gives an infinity, or NaN for \<open>0 / 0\<close>.\<close>

fun fdiv :: "float64 \<Rightarrow> float64 \<Rightarrow> float64" where
  "fdiv (Fin x) (Fin y) = (if y = 0 then inf_sign x PInf else mk_float (x / y))"
| "fdiv NaN _ = NaN"
| "fdiv _ NaN = NaN"
| "fdiv (Fin x) _ = Fin 0"
| "fdiv i (Fin y) = (if y < 0 then fneg i else i)"
| "fdiv _ _ = NaN"

fun fless :: "float64 \<Rightarrow> float64 \<Rightarrow> bool" where
  "fless (Fin x) (Fin y) = (x < y)"
| "fless NaN _ = False"
| "fless _ NaN = False"
| "fless PInf _ = False"
| "fless NInf y = (y \<noteq> NInf)"
| "fless (Fin x) y = (y = PInf)"

fun feq :: "float64 \<Rightarrow> float64 \<Rightarrow> bool" where
  "feq NaN _ = False"
| "feq _ NaN = False"
| "feq a b = (a = b)"

definition fle :: "float64 \<Rightarrow> float64 \<Rightarrow> bool" where
  "fle a b \<longleftrightarrow> fless a b \<or> feq a b"

definition is_nan :: "float64 \<Rightarrow> bool" where
  "is_nan a \<longleftrightarrow> a = NaN"

definition is_fin :: "float64 \<Rightarrow> bool" where
  "is_fin a \<longleftrightarrow> (case a of Fin _ \<Rightarrow> True | _ \<Rightarrow> False)"

subsection \<open>Laws\<close>

named_theorems float_simps \<open>evaluation of comparisons on finite values\<close>

lemma feq_iff: "feq a b \<longleftrightarrow> a = b \<and> a \<noteq> NaN"
  by (cases a; cases b) auto

lemma fless_irrefl [simp]: "\<not> fless a a"
  by (cases a) auto

lemma fless_Fin [float_simps]: "fless (Fin x) (Fin y) \<longleftrightarrow> x < y"
  by simp

lemma fle_Fin [simp, float_simps]: "fle (Fin x) (Fin y) \<longleftrightarrow> x \<le> y"
  by (auto simp: fle_def)

lemma fle_NaN [simp]: "\<not> fle NaN a" "\<not> fle a NaN"
  by (cases a; simp add: fle_def)+

lemma fless_NaN [simp]: "\<not> fless NaN a" "\<not> fless a NaN"
  by (cases a; simp)+

lemma fle_not_less: "a \<noteq> NaN \<Longrightarrow> b \<noteq> NaN \<Longrightarrow> fle a b \<longleftrightarrow> \<not> fless b a"
  by (cases a; cases b) (auto simp: fle_def)

lemma fless_imp_not_less: "fless a b \<Longrightarrow> \<not> fless b a"
  by (cases a; cases b) auto

lemma fless_trans: "fless a b \<Longrightarrow> fless b c \<Longrightarrow> fless a c"
  by (cases a; cases b; cases c) auto

lemma fle_trans: "fle a b \<Longrightarrow> fle b c \<Longrightarrow> fle a c"
  by (cases a; cases b; cases c) (auto simp: fle_def)

lemma fle_less_trans: "fle a b \<Longrightarrow> fless b c \<Longrightarrow> fless a c"
  by (cases a; cases b; cases c) (auto simp: fle_def)

lemma mk_float_not_NaN [simp]: "mk_float x \<noteq> NaN"
  by (simp add: mk_float_def Let_def)

lemma f_of_int_not_NaN [simp]: "f_of_int n \<noteq> NaN"
  by (simp add: f_of_int_def)

lemma mk_float_mono: "x \<le> y \<Longrightarrow> fle (mk_float x) (mk_float y)"
  using rnd64_mono [of x y] by (auto simp: mk_float_def Let_def fle_def)

lemma mk_float_of_int: "\<bar>n\<bar> \<le> 2 ^ 53 \<Longrightarrow> mk_float (of_int n) = Fin (of_int n)"
proof -
  assume b: "\<bar>n\<bar> \<le> 2 ^ 53"
  have "(of_int \<bar>n\<bar> :: rat) \<le> of_int (2 ^ 53)" using b by (simp only: of_int_le_iff)
  also have "\<dots> < 2 ^ 1024" by simp
  finally have "of_int \<bar>n\<bar> < (2 ^ 1024 :: rat)" .
  with rnd64_of_int [OF b] show ?thesis by (auto simp: mk_float_def Let_def)
qed

lemma mk_float_dyadic:
  assumes "\<bar>n\<bar> \<le> 2 ^ 53" "k \<le> 1074"
  shows "mk_float (of_int n / 2 ^ k) = Fin (of_int n / 2 ^ k)"
proof -
  have "(of_int \<bar>n\<bar> :: rat) \<le> of_int (2 ^ 53)" using assms(1) by (simp only: of_int_le_iff)
  then have "of_int \<bar>n\<bar> / 2 ^ k \<le> (2 ^ 53 :: rat)"
    by (simp add: divide_le_eq order_trans [OF _ mult_left_mono [of 1 "2 ^ k"]])
  also have "\<dots> < 2 ^ 1024" by simp
  finally have b: "\<bar>of_int n / 2 ^ k\<bar> < (2 ^ 1024 :: rat)" by (simp add: abs_divide)
  have "\<not> 2 ^ 1024 \<le> (of_int n / 2 ^ k :: rat)" "\<not> of_int n / 2 ^ k \<le> (- (2 ^ 1024) :: rat)"
    using abs_ge_self [of "of_int n / 2 ^ k :: rat"] abs_ge_minus_self [of "of_int n / 2 ^ k :: rat"] b
    by linarith+
  then show ?thesis unfolding mk_float_def rnd64_dyadic [OF assms] Let_def by (simp only: if_False)
qed

lemma f_of_int_exact: "\<bar>n\<bar> \<le> 2 ^ 53 \<Longrightarrow> f_of_int n = Fin (of_int n)"
  by (simp add: f_of_int_def mk_float_of_int)

lemma f_of_int_mono: "m \<le> n \<Longrightarrow> fle (f_of_int m) (f_of_int n)"
  by (simp add: f_of_int_def mk_float_mono)

lemma f_of_int_0 [simp]: "f_of_int 0 = Fin 0"
  by (simp add: f_of_int_exact)

lemma mk_float_range:
  assumes "of_int lo \<le> x" "x \<le> of_int hi" "\<bar>lo\<bar> \<le> 2 ^ 53" "\<bar>hi\<bar> \<le> 2 ^ 53"
  shows "\<exists>q. mk_float x = Fin q \<and> of_int lo \<le> q \<and> q \<le> of_int hi"
proof -
  have "fle (Fin (of_int lo)) (mk_float x)" "fle (mk_float x) (Fin (of_int hi))"
    using mk_float_mono [OF assms(1)] mk_float_mono [OF assms(2)] assms(3,4)
    by (simp_all add: mk_float_of_int)
  then show ?thesis by (cases "mk_float x") (auto simp: fle_def)
qed

text \<open>The percentages of the code: \<open>float64(part) * 100 / float64(whole)\<close>.\<close>

definition fpercent :: "int \<Rightarrow> int \<Rightarrow> float64" where
  "fpercent part whole = fdiv (fmul (f_of_int part) (f_of_int 100)) (f_of_int whole)"

lemma fpercent_range:
  assumes "0 \<le> part" "part \<le> whole" "0 < whole" "whole \<le> 2 ^ 46"
  shows "\<exists>q. fpercent part whole = Fin q \<and> 0 \<le> q \<and> q \<le> 100"
proof -
  have e: "f_of_int part = Fin (of_int part)" "f_of_int whole = Fin (of_int whole)"
    "f_of_int 100 = Fin 100"
    using assms f_of_int_exact [of 100] by (auto intro!: f_of_int_exact)
  have "mk_float (of_int (part * 100)) = Fin (of_int (part * 100))"
    using assms by (intro mk_float_of_int) auto
  then have m: "fpercent part whole = mk_float (of_int part * 100 / of_int whole)"
    using assms(3) by (simp add: fpercent_def e)
  have "of_int part \<le> (of_int whole :: rat)" using assms(2) by simp
  then have "of_int part * 100 / of_int whole \<le> (of_int 100 :: rat)"
    using assms(3) by (simp add: divide_le_eq)
  moreover have "of_int 0 \<le> of_int part * 100 / (of_int whole :: rat)"
    using assms by simp
  ultimately show ?thesis unfolding m using mk_float_range [of 0 _ 100] by fastforce
qed

lemma fpercent_full: "0 < n \<Longrightarrow> n \<le> 2 ^ 46 \<Longrightarrow> fpercent n n = Fin 100"
proof -
  assume n: "0 < n" "n \<le> 2 ^ 46"
  have e: "f_of_int n = Fin (of_int n)" "f_of_int 100 = Fin 100"
    using n f_of_int_exact [of 100] by (auto intro!: f_of_int_exact)
  have "mk_float (of_int (n * 100)) = Fin (of_int (n * 100))"
    using n by (intro mk_float_of_int) auto
  then show ?thesis
    using n mk_float_of_int [of 100] by (simp add: fpercent_def e)
qed

end
