(* ===== verification/Core_Types.thy ===== *)
theory Core_Types
  imports Go_Float
begin

text \<open>
  The data of \<open>internal/core/types.go\<close> (and \<open>ServerConfig\<close> of
  \<open>internal/core/provenance.go\<close>): one record per struct, fields in the source's order
  under the source's names with a prefix per struct. The named string types
  (\<open>LoadMode\<close>, \<open>CachePolicy\<close>, \<open>TargetType\<close>, \<open>ArrivalPattern\<close>) hold any
  string, as in Go. A pointer to \<open>RunSamples\<close> is an option. Texts that the code builds with
  format verbs (\<open>Reason\<close>, \<open>Message\<close>) are values that record the format chosen and its
  arguments.
\<close>

subsection \<open>Constants\<close>

definition MaxVUs :: int where "MaxVUs = 500"
definition MaxRPS :: int where "MaxRPS = 2000"
definition MaxDurationSeconds :: int where "MaxDurationSeconds = 60 * 60"
definition MaxModelTokens :: int where "MaxModelTokens = 1000000"

lemmas core_limits [simp] = MaxVUs_def MaxRPS_def MaxDurationSeconds_def MaxModelTokens_def

abbreviation LoadModeVU :: string where "LoadModeVU \<equiv> ''vu''"
abbreviation LoadModeRPS :: string where "LoadModeRPS \<equiv> ''rps''"
abbreviation CachePolicyMixed :: string where "CachePolicyMixed \<equiv> ''mixed''"
abbreviation CachePolicyReuse :: string where "CachePolicyReuse \<equiv> ''reuse''"
abbreviation CachePolicyBypass :: string where "CachePolicyBypass \<equiv> ''bypass''"
abbreviation TargetTypeWeb :: string where "TargetTypeWeb \<equiv> ''web''"
abbreviation TargetTypeModel :: string where "TargetTypeModel \<equiv> ''model''"
abbreviation ArrivalUniform :: string where "ArrivalUniform \<equiv> ''uniform''"
abbreviation ArrivalPoisson :: string where "ArrivalPoisson \<equiv> ''poisson''"

subsection \<open>Targets, server configuration and run configuration\<close>

record Target =
  tgt_ID :: string
  tgt_Name :: string
  tgt_Type :: string
  tgt_URL :: string
  tgt_Model :: string
  tgt_APIKey :: string
  tgt_HasAPIKey :: bool

record ServerConfig =
  sc_Version :: string
  sc_Model :: string
  sc_MaxNumSeqs :: int
  sc_MaxNumBatchedTokens :: int
  sc_GPUMemoryUtilization :: float64
  sc_BlockSize :: int
  sc_TensorParallelSize :: int
  sc_PrefixCaching :: string
  sc_ChunkedPrefill :: string

record LoadStage =
  stg_DurationSeconds :: int
  stg_TargetLoad :: int

record TraceEvent =
  tev_TimestampMillis :: int
  tev_Name :: string
  tev_Prompt :: string
  tev_PromptTokens :: int
  tev_MaxTokens :: int

record ScenarioTask =
  tsk_Name :: string
  tsk_Prompt :: string
  tsk_Weight :: int
  tsk_ThinkTimeMillis :: int
  tsk_MaxTokens :: int
  tsk_PromptTokens :: int

record UserJourney =
  jr_Name :: string
  jr_Weight :: int
  jr_AgentWorkflow :: bool
  jr_Scenario :: "ScenarioTask list"

record RunConfig =
  rc_TargetID :: string
  rc_Mode :: string
  rc_VUs :: int
  rc_RPS :: int
  rc_DurationSeconds :: int
  rc_Prompt :: string
  rc_MaxTokens :: int
  rc_MaxErrorPercent :: float64
  rc_MaxP95Millis :: int
  rc_MaxTTFTP95Millis :: int
  rc_MinOutputTokensPerSecond :: float64
  rc_CachePolicy :: string
  rc_VariationPercent :: int
  rc_WorkloadID :: string
  rc_Shards :: int
  rc_MaxInFlight :: int
  rc_WarmupRequests :: int
  rc_CooldownSeconds :: int
  rc_MaxTTPOTP95Millis :: int
  rc_MinGoodputPercent :: float64
  rc_Stages :: "LoadStage list"
  rc_Scenario :: "ScenarioTask list"
  rc_AgentWorkflow :: bool
  rc_Journeys :: "UserJourney list"
  rc_DrainSeconds :: int
  rc_SteadyStateSeconds :: int
  rc_MinCompletionPercent :: float64
  rc_IgnoreEOS :: bool
  rc_Server :: ServerConfig
  rc_AccumulateContext :: bool
  rc_ArrivalPattern :: string
  rc_OutputTokensStdev :: int
  rc_PromptPadTokens :: int
  rc_PromptPadStdev :: int
  rc_Trace :: "TraceEvent list"
  rc_TraceTimeScale :: float64
  rc_SessionsPerVU :: int

subsection \<open>Captured sessions\<close>

record CaptureEvent =
  cev_TimestampMillis :: int
  cev_PromptTokens :: int
  cev_MaxTokens :: int
  cev_OutputTokens :: int
  cev_ToolCalls :: int
  cev_FinishReason :: string
  cev_LatencyMillis :: int
  cev_TTFTMillis :: int
  cev_StatusCode :: int

record CaptureSession =
  cs_ID :: string
  cs_TargetID :: string
  cs_Client :: string
  cs_StartedUnixMillis :: int
  cs_UpdatedUnixMillis :: int
  cs_Events :: "CaptureEvent list"

record CaptureSettings =
  cset_Configured :: bool
  cset_Enabled :: bool
  cset_TokenHash :: string
  cset_SessionIdleMinutes :: int
  cset_MaxEventsPerSession :: int
  cset_RetentionSessions :: int
  cset_DefaultReplayVUs :: int
  cset_ReplayThinkTimeScale :: float64
  cset_ReplayBufferSeconds :: int
  cset_ReplayDrainSeconds :: int

subsection \<open>Results\<close>

record Distribution =
  ds_MinMillis :: int
  ds_AvgMillis :: int
  ds_P50Millis :: int
  ds_P95Millis :: int
  ds_P99Millis :: int
  ds_MaxMillis :: int

record TokenUsage =
  tu_Prompt :: int
  tu_Completion :: int
  tu_Reasoning :: int
  tu_OutputPerSecond :: float64

record TimelinePoint =
  tp_Second :: int
  tp_Requests :: int
  tp_Successes :: int
  tp_Failures :: int
  tp_P95Millis :: int
  tp_Issued :: int
  tp_Completed :: int
  tp_Cancelled :: int
  tp_Active :: int
  tp_Waiting :: int
  tp_TargetLoad :: int

record RunSamples =
  smp_Latency :: "int list"
  smp_TTFT :: "int list"
  smp_TTFO :: "int list"
  smp_ITL :: "int list"
  smp_TPOT :: "int list"
  smp_Decimated :: bool

record ScenarioResult =
  scr_Name :: string
  scr_Issued :: int
  scr_Completed :: int
  scr_Failures :: int
  scr_Cancelled :: int
  scr_CompletionPercent :: float64
  scr_Latency :: Distribution
  scr_TTFT :: Distribution
  scr_OutputTokens :: int
  scr_OutputPerSecond :: float64
  scr_InputTokens :: int
  scr_Samples :: "RunSamples option"

record RunProgress =
  rp_ShardID :: string
  rp_Phase :: string
  rp_Second :: int
  rp_TargetLoad :: int
  rp_Active :: int
  rp_Waiting :: int
  rp_Issued :: int
  rp_Completed :: int
  rp_Failures :: int
  rp_Cancelled :: int
  rp_Dropped :: int
  rp_CompletedRPS :: float64

record RunResult =
  rr_Successes :: int
  rr_Failures :: int
  rr_P95Millis :: int
  rr_TTFTP95Millis :: int
  rr_Total :: int
  rr_ThroughputRPS :: float64
  rr_Latency :: Distribution
  rr_TTFT :: Distribution
  rr_TTFO :: Distribution
  rr_ITL :: Distribution
  rr_TPOT :: Distribution
  rr_Tokens :: TokenUsage
  rr_GoodputPercent :: float64
  rr_DroppedArrivals :: int
  rr_StoppedByGuardrail :: bool
  rr_GuardrailMessage :: string
  rr_AgentSessions :: int
  rr_CompletedSessions :: int
  rr_SessionDuration :: Distribution
  rr_StatusCounts :: "int smap"
  rr_Errors :: "string list"
  rr_Timeline :: "TimelinePoint list"
  rr_LatencyScope :: string
  rr_Issued :: int
  rr_Completed :: int
  rr_Cancelled :: int
  rr_HTTPFailures :: int
  rr_TransportErrors :: int
  rr_CompletionPercent :: float64
  rr_SteadySeconds :: int
  rr_SteadySamples :: int
  rr_Scenarios :: "ScenarioResult list"
  rr_DrainedSeconds :: int
  rr_Samples :: "RunSamples option"
  rr_MissingUsageResponses :: int
  rr_ContentChunks :: int
  rr_OutputLengthPinned :: bool
  rr_SamplesDecimated :: bool
  rr_ContextAccumulated :: bool
  rr_GeneratorDelay :: Distribution
  rr_LatencyFromIntendedArrival :: bool
  rr_BackoffEvents :: int
  rr_BackoffSeconds :: float64

subsection \<open>Monitoring samples\<close>

record MonitoringSample =
  ms_AtSecond :: int
  ms_Status :: string
  ms_Backend :: string
  ms_Message :: string
  ms_Metrics :: "float64 smap"

text \<open>A nil metrics map reads like an empty one.\<close>

definition ms_Value :: "MonitoringSample \<Rightarrow> string \<Rightarrow> float64 \<times> bool" where
  "ms_Value s key = (case fmlookup (ms_Metrics s) key of
     None \<Rightarrow> (fzero, False) | Some value \<Rightarrow> (value, True))"

abbreviation MetricRequestsRunning :: string where "MetricRequestsRunning \<equiv> ''requests_running''"
abbreviation MetricRequestsWaiting :: string where "MetricRequestsWaiting \<equiv> ''requests_waiting''"
abbreviation MetricKVCacheUsage :: string where "MetricKVCacheUsage \<equiv> ''kv_cache_usage''"
abbreviation MetricPreemptionRate :: string where "MetricPreemptionRate \<equiv> ''preemption_rate''"
abbreviation MetricQueueTimeP95 :: string where "MetricQueueTimeP95 \<equiv> ''queue_time_p95_millis''"
abbreviation MetricPrefillTimeP95 :: string where "MetricPrefillTimeP95 \<equiv> ''prefill_time_p95_millis''"
abbreviation MetricPrefixCacheHitRate :: string where "MetricPrefixCacheHitRate \<equiv> ''prefix_cache_hit_rate''"
abbreviation MetricCorruptedRate :: string where "MetricCorruptedRate \<equiv> ''corrupted_requests_rate''"
abbreviation MetricSMClockMHz :: string where "MetricSMClockMHz \<equiv> ''sm_clock_mhz''"
abbreviation MetricPowerViolationRate :: string where "MetricPowerViolationRate \<equiv> ''power_violation_rate''"
abbreviation MetricThermalViolationRate :: string where "MetricThermalViolationRate \<equiv> ''thermal_violation_rate''"
abbreviation MetricXIDErrors :: string where "MetricXIDErrors \<equiv> ''xid_errors''"

subsection \<open>Runs, searches, shards\<close>

record Run =
  run_ID :: string
  run_Status :: string
  run_SearchID :: string
  run_Config :: RunConfig
  run_Result :: RunResult
  run_Monitoring :: "MonitoringSample list"
  run_Progress :: "RunProgress list"
  run_StartedUnix :: int
  run_DetectedServer :: ServerConfig
  run_CreatedBy :: string

record Shard =
  sh_ID :: string
  sh_RunID :: string
  sh_Status :: string
  sh_Index :: int

record Assignment =
  asg_Run :: Run
  asg_Target :: Target
  asg_Shard :: Shard

text \<open>The text \<open>InstabilityMessage\<close> returns: which format was used, with its arguments.\<close>

datatype Instability =
    NoReason
  | NoCompletedRequests
  | CompletionTooLow float64 int float64   \<comment> \<open>actual percent, issued, required percent\<close>
  | ErrorRateTooHigh float64 float64
  | P95TooHigh int int
  | TTFTP95TooHigh int int
  | OutputRateTooLow float64 float64
  | CriteriaNotMet

text \<open>The texts of \<open>AutoSearch.Message\<close>.\<close>

datatype SearchMessage =
    NoMessage
  | CancelledByUser
  | NoStableLoad Instability               \<comment> \<open>the first step's reason, when it has one\<close>
  | StableUpToMax int
  | StableUpTo int int                     \<comment> \<open>knee and provisioned load\<close>

abbreviation AutoSearchRunning :: string where "AutoSearchRunning \<equiv> ''running''"
abbreviation AutoSearchCompleted :: string where "AutoSearchCompleted \<equiv> ''completed''"
abbreviation AutoSearchCancelled :: string where "AutoSearchCancelled \<equiv> ''cancelled''"

record AutoSearchConfig =
  asc_Run :: RunConfig
  asc_StartLoad :: int
  asc_MaxLoad :: int

record AutoSearchStep =
  step_Load :: int
  step_RunID :: string
  step_Stable :: bool
  step_Reason :: Instability
  step_ThroughputRPS :: float64
  step_OutputTokensPerSec :: float64
  step_TTFTP95Millis :: int
  step_TPOTP95Millis :: int
  step_LatencyP95Millis :: int
  step_GoodputPercent :: float64
  step_CompletionPercent :: float64

record AutoSearch =
  as_ID :: string
  as_Status :: string
  as_Config :: AutoSearchConfig
  as_RunIDs :: "string list"
  as_NextLoad :: int
  as_StableLoad :: int
  as_FailedLoad :: int
  as_RecommendedLoad :: int
  as_Message :: SearchMessage
  as_Ladder :: "int list"
  as_Steps :: "AutoSearchStep list"
  as_ProvisionLoad :: int

subsection \<open>Zero values\<close>

text \<open>What Go gives for a missing map entry or a composite literal that names no field.\<close>

definition zero_ServerConfig :: ServerConfig where
  "zero_ServerConfig = \<lparr>sc_Version = [], sc_Model = [], sc_MaxNumSeqs = 0,
     sc_MaxNumBatchedTokens = 0, sc_GPUMemoryUtilization = fzero, sc_BlockSize = 0,
     sc_TensorParallelSize = 0, sc_PrefixCaching = [], sc_ChunkedPrefill = []\<rparr>"

definition zero_RunConfig :: RunConfig where
  "zero_RunConfig = \<lparr>rc_TargetID = [], rc_Mode = [], rc_VUs = 0, rc_RPS = 0,
     rc_DurationSeconds = 0, rc_Prompt = [], rc_MaxTokens = 0, rc_MaxErrorPercent = fzero,
     rc_MaxP95Millis = 0, rc_MaxTTFTP95Millis = 0, rc_MinOutputTokensPerSecond = fzero,
     rc_CachePolicy = [], rc_VariationPercent = 0, rc_WorkloadID = [], rc_Shards = 0,
     rc_MaxInFlight = 0, rc_WarmupRequests = 0, rc_CooldownSeconds = 0, rc_MaxTTPOTP95Millis = 0,
     rc_MinGoodputPercent = fzero, rc_Stages = [], rc_Scenario = [], rc_AgentWorkflow = False,
     rc_Journeys = [], rc_DrainSeconds = 0, rc_SteadyStateSeconds = 0,
     rc_MinCompletionPercent = fzero, rc_IgnoreEOS = False, rc_Server = zero_ServerConfig,
     rc_AccumulateContext = False, rc_ArrivalPattern = [], rc_OutputTokensStdev = 0,
     rc_PromptPadTokens = 0, rc_PromptPadStdev = 0, rc_Trace = [], rc_TraceTimeScale = fzero,
     rc_SessionsPerVU = 0\<rparr>"

definition zero_CaptureSession :: CaptureSession where
  "zero_CaptureSession = \<lparr>cs_ID = [], cs_TargetID = [], cs_Client = [],
     cs_StartedUnixMillis = 0, cs_UpdatedUnixMillis = 0, cs_Events = []\<rparr>"

definition zero_CaptureSettings :: CaptureSettings where
  "zero_CaptureSettings = \<lparr>cset_Configured = False, cset_Enabled = False,
     cset_TokenHash = [], cset_SessionIdleMinutes = 0, cset_MaxEventsPerSession = 0,
     cset_RetentionSessions = 0, cset_DefaultReplayVUs = 0, cset_ReplayThinkTimeScale = fzero,
     cset_ReplayBufferSeconds = 0, cset_ReplayDrainSeconds = 0\<rparr>"

definition zero_Distribution :: Distribution where
  "zero_Distribution = \<lparr>ds_MinMillis = 0, ds_AvgMillis = 0, ds_P50Millis = 0,
     ds_P95Millis = 0, ds_P99Millis = 0, ds_MaxMillis = 0\<rparr>"

definition zero_TokenUsage :: TokenUsage where
  "zero_TokenUsage = \<lparr>tu_Prompt = 0, tu_Completion = 0, tu_Reasoning = 0,
     tu_OutputPerSecond = fzero\<rparr>"

definition zero_TimelinePoint :: TimelinePoint where
  "zero_TimelinePoint = \<lparr>tp_Second = 0, tp_Requests = 0, tp_Successes = 0,
     tp_Failures = 0, tp_P95Millis = 0, tp_Issued = 0, tp_Completed = 0, tp_Cancelled = 0,
     tp_Active = 0, tp_Waiting = 0, tp_TargetLoad = 0\<rparr>"

definition zero_RunSamples :: RunSamples where
  "zero_RunSamples = \<lparr>smp_Latency = [], smp_TTFT = [], smp_TTFO = [], smp_ITL = [],
     smp_TPOT = [], smp_Decimated = False\<rparr>"

definition zero_ScenarioResult :: ScenarioResult where
  "zero_ScenarioResult = \<lparr>scr_Name = [], scr_Issued = 0, scr_Completed = 0,
     scr_Failures = 0, scr_Cancelled = 0, scr_CompletionPercent = fzero,
     scr_Latency = zero_Distribution, scr_TTFT = zero_Distribution, scr_OutputTokens = 0,
     scr_OutputPerSecond = fzero, scr_InputTokens = 0, scr_Samples = None\<rparr>"

definition zero_RunResult :: RunResult where
  "zero_RunResult = \<lparr>rr_Successes = 0, rr_Failures = 0, rr_P95Millis = 0,
     rr_TTFTP95Millis = 0, rr_Total = 0, rr_ThroughputRPS = fzero,
     rr_Latency = zero_Distribution, rr_TTFT = zero_Distribution, rr_TTFO = zero_Distribution,
     rr_ITL = zero_Distribution, rr_TPOT = zero_Distribution, rr_Tokens = zero_TokenUsage,
     rr_GoodputPercent = fzero, rr_DroppedArrivals = 0, rr_StoppedByGuardrail = False,
     rr_GuardrailMessage = [], rr_AgentSessions = 0, rr_CompletedSessions = 0,
     rr_SessionDuration = zero_Distribution, rr_StatusCounts = fmempty, rr_Errors = [],
     rr_Timeline = [], rr_LatencyScope = [], rr_Issued = 0, rr_Completed = 0, rr_Cancelled = 0,
     rr_HTTPFailures = 0, rr_TransportErrors = 0, rr_CompletionPercent = fzero,
     rr_SteadySeconds = 0, rr_SteadySamples = 0, rr_Scenarios = [], rr_DrainedSeconds = 0,
     rr_Samples = None, rr_MissingUsageResponses = 0, rr_ContentChunks = 0,
     rr_OutputLengthPinned = False, rr_SamplesDecimated = False, rr_ContextAccumulated = False,
     rr_GeneratorDelay = zero_Distribution, rr_LatencyFromIntendedArrival = False,
     rr_BackoffEvents = 0, rr_BackoffSeconds = fzero\<rparr>"

definition zero_Run :: Run where
  "zero_Run = \<lparr>run_ID = [], run_Status = [], run_SearchID = [],
     run_Config = zero_RunConfig, run_Result = zero_RunResult, run_Monitoring = [],
     run_Progress = [], run_StartedUnix = 0, run_DetectedServer = zero_ServerConfig,
     run_CreatedBy = []\<rparr>"

definition zero_Shard :: Shard where
  "zero_Shard = \<lparr>sh_ID = [], sh_RunID = [], sh_Status = [], sh_Index = 0\<rparr>"

definition zero_Target :: Target where
  "zero_Target = \<lparr>tgt_ID = [], tgt_Name = [], tgt_Type = [], tgt_URL = [], tgt_Model = [],
     tgt_APIKey = [], tgt_HasAPIKey = False\<rparr>"

definition zero_AutoSearchConfig :: AutoSearchConfig where
  "zero_AutoSearchConfig = \<lparr>asc_Run = zero_RunConfig, asc_StartLoad = 0,
     asc_MaxLoad = 0\<rparr>"

definition zero_AutoSearch :: AutoSearch where
  "zero_AutoSearch = \<lparr>as_ID = [], as_Status = [], as_Config = zero_AutoSearchConfig,
     as_RunIDs = [], as_NextLoad = 0, as_StableLoad = 0, as_FailedLoad = 0,
     as_RecommendedLoad = 0, as_Message = NoMessage, as_Ladder = [], as_Steps = [],
     as_ProvisionLoad = 0\<rparr>"

end
