(* ===== verification/Core_Stats.thy ===== *)
theory Core_Stats
  imports Core_Types "HOL-Library.Multiset"
begin

text \<open>
  Order statistics. The agent (\<open>internal/agent/runner.go\<close>: \<open>p95\<close>,
  \<open>distribution\<close>, \<open>average\<close>, \<open>percentile\<close>) and the store
  (\<open>internal/store/store.go\<close>: \<open>distribution\<close>, \<open>percentile\<close>,
  \<open>mergeDistribution\<close>) compute them with separate code; the lemmas show that the two agree,
  that the percentiles are nearest-rank percentiles, and that a distribution depends only on the
  multiset of the samples.
\<close>

subsection \<open>The store's distribution\<close>

text \<open>Indexing panics out of range; \<open>percentile_index_in_range\<close> below shows that no call does.\<close>

definition percentile_index :: "int list \<Rightarrow> int \<Rightarrow> int" where
  "percentile_index xs percentage = quot (int (length xs) * percentage + 99) 100 - 1"

definition percentile :: "int list \<Rightarrow> int \<Rightarrow> int" where
  "percentile xs percentage = xs ! nat (percentile_index xs percentage)"

definition sum64 :: "int list \<Rightarrow> int" where
  "sum64 values = foldl (\<lambda>sum value. i64 (sum + value)) 0 values"

definition store_distribution :: "int list \<Rightarrow> Distribution" where
  "store_distribution values =
     (if length values = 0 then zero_Distribution
      else let sorted' = sort values; sum = sum64 sorted' in
        \<lparr>ds_MinMillis = sorted' ! 0,
         ds_AvgMillis = quot sum (int (length sorted')),
         ds_P50Millis = percentile sorted' 50,
         ds_P95Millis = percentile sorted' 95,
         ds_P99Millis = percentile sorted' 99,
         ds_MaxMillis = sorted' ! (length sorted' - 1)\<rparr>)"

subsection \<open>The agent's distribution\<close>

definition average :: "int list \<Rightarrow> int" where
  "average values = (let sum = sum64 values in
     if length values = 0 then 0 else quot sum (int (length values)))"

definition p95 :: "int list \<Rightarrow> int" where
  "p95 values = (if length values = 0 then 0
     else let copyValues = sort values
          in copyValues ! nat (quot (int (length copyValues) * 95 + 99) 100 - 1))"

definition agent_distribution :: "int list \<Rightarrow> Distribution" where
  "agent_distribution values =
     (if length values = 0 then zero_Distribution
      else let copyValues = sort values in
        \<lparr>ds_MinMillis = copyValues ! 0,
         ds_AvgMillis = average copyValues,
         ds_P50Millis = percentile copyValues 50,
         ds_P95Millis = percentile copyValues 95,
         ds_P99Millis = percentile copyValues 99,
         ds_MaxMillis = copyValues ! (length copyValues - 1)\<rparr>)"

subsection \<open>Lemmas\<close>

lemma percentile_index_in_range:
  assumes "xs \<noteq> []" "1 \<le> p" "p \<le> 100"
  shows "0 \<le> percentile_index xs p" "nat (percentile_index xs p) < length xs"
proof -
  have n: "1 \<le> int (length xs)" using assms(1) by (cases xs) auto
  have up: "int (length xs) * p \<le> int (length xs) * 100"
    using assms(3) by (intro mult_left_mono) auto
  have lo: "1 * 1 \<le> int (length xs) * p"
    using n assms(2) by (intro mult_mono) auto
  have q: "quot (int (length xs) * p + 99) 100 = (int (length xs) * p + 99) div 100"
    using lo by (intro quot_nonneg_eq) auto
  show "0 \<le> percentile_index xs p" "nat (percentile_index xs p) < length xs"
    unfolding percentile_index_def q using up lo n by linarith+
qed

lemma percentile_index_mono:
  assumes "xs \<noteq> []" "1 \<le> p" "p \<le> q" "q \<le> 100"
  shows "percentile_index xs p \<le> percentile_index xs q"
proof -
  have "int (length xs) * p \<le> int (length xs) * q"
    using assms(3) by (intro mult_left_mono) auto
  then show ?thesis
    using assms(2,3) by (auto simp: percentile_index_def quot_nonneg_eq intro: zdiv_mono1)
qed

text \<open>The index that nearest-rank picks: at least \<open>p%\<close> of the samples are up to it.\<close>

lemma percentile_index_rank:
  assumes "xs \<noteq> []" "1 \<le> p" "p \<le> 100"
  shows "int (length xs) * p \<le> 100 * (percentile_index xs p + 1)"
    and "100 * percentile_index xs p < int (length xs) * p"
proof -
  have "0 \<le> int (length xs) * p" using assms(2) by simp
  then have q: "quot (int (length xs) * p + 99) 100 = (int (length xs) * p + 99) div 100"
    by (intro quot_nonneg_eq) auto
  have d: "m \<le> 100 * ((m + 99) div 100)" "100 * ((m + 99) div 100) < m + 100" for m :: int
    by presburger+
  show "int (length xs) * p \<le> 100 * (percentile_index xs p + 1)"
    "100 * percentile_index xs p < int (length xs) * p"
    unfolding percentile_index_def q using d [of "int (length xs) * p"] by simp_all
qed

lemma percentile_mem: "xs \<noteq> [] \<Longrightarrow> 1 \<le> p \<Longrightarrow> p \<le> 100 \<Longrightarrow> percentile xs p \<in> set xs"
  by (simp add: percentile_def percentile_index_in_range)

lemma percentile_mono:
  assumes "sorted xs" "xs \<noteq> []" "1 \<le> p" "p \<le> q" "q \<le> 100"
  shows "percentile xs p \<le> percentile xs q"
  unfolding percentile_def using assms percentile_index_mono [OF assms(2-5)]
  by (intro sorted_nth_mono) (auto intro: percentile_index_in_range)

text \<open>
  Nearest rank: at least \<open>p%\<close> of the samples are at most the reported value, and fewer
  than \<open>p%\<close> of them lie strictly below it.
\<close>

lemma count_le_nth:
  fixes xs :: "int list"
  assumes "sorted xs" "i < length xs"
  shows "Suc i \<le> length (filter (\<lambda>x. x \<le> xs ! i) xs)"
proof -
  have "\<forall>x \<in> set (take (Suc i) xs). x \<le> xs ! i"
    using assms by (auto simp: in_set_conv_nth less_Suc_eq_le intro!: sorted_nth_mono)
  then have "length (filter (\<lambda>x. x \<le> xs ! i) (take (Suc i) xs)) = Suc i"
    using assms(2) by simp
  moreover have "length (filter (\<lambda>x. x \<le> xs ! i) (take (Suc i) xs)) \<le>
      length (filter (\<lambda>x. x \<le> xs ! i) (take (Suc i) xs @ drop (Suc i) xs))"
    by (subst filter_append) simp
  ultimately show ?thesis by simp
qed

lemma count_less_nth:
  fixes xs :: "int list"
  assumes "sorted xs" "i < length xs"
  shows "length (filter (\<lambda>x. x < xs ! i) xs) \<le> i"
proof -
  have "filter (\<lambda>x. x < xs ! i) (drop i xs) = []"
    using assms
    by (auto simp: filter_empty_conv in_set_conv_nth not_less less_diff_conv add.commute
        intro!: sorted_nth_mono)
  then have "filter (\<lambda>x. x < xs ! i) (take i xs @ drop i xs) = filter (\<lambda>x. x < xs ! i) (take i xs)"
    by (subst filter_append) simp
  then show ?thesis by (simp add: order_trans [OF length_filter_le])
qed

lemma length_filter_sort: "length (filter P (sort xs)) = length (filter P xs)"
  by (metis mset_filter mset_sort size_mset)

lemma percentile_nearest_rank:
  assumes "xs \<noteq> []" "1 \<le> p" "p \<le> 100"
  defines "v \<equiv> percentile (sort xs) p"
  shows "int (length xs) * p \<le> 100 * int (length (filter (\<lambda>x. x \<le> v) xs))"
    and "100 * int (length (filter (\<lambda>x. x < v) xs)) < int (length xs) * p"
proof -
  have ne: "sort xs \<noteq> []" using assms(1) by (metis mset_sort mset_zero_iff)
  let ?i = "nat (percentile_index (sort xs) p)"
  have i: "?i < length (sort xs)" and i0: "0 \<le> percentile_index (sort xs) p"
    using percentile_index_in_range [OF ne assms(2,3)] by auto
  have r: "int (length xs) * p \<le> 100 * (percentile_index (sort xs) p + 1)"
    "100 * percentile_index (sort xs) p < int (length xs) * p"
    using percentile_index_rank [OF ne assms(2,3)] by simp_all
  have "Suc ?i \<le> length (filter (\<lambda>x. x \<le> v) (sort xs))"
    unfolding v_def percentile_def by (rule count_le_nth [OF sorted_sort i])
  then show "int (length xs) * p \<le> 100 * int (length (filter (\<lambda>x. x \<le> v) xs))"
    using r(1) i0 by (simp add: length_filter_sort)
  have "length (filter (\<lambda>x. x < v) (sort xs)) \<le> ?i"
    unfolding v_def percentile_def by (rule count_less_nth [OF sorted_sort i])
  then show "100 * int (length (filter (\<lambda>x. x < v) xs)) < int (length xs) * p"
    using r(2) i0 by (simp add: length_filter_sort)
qed

lemma sum64_eq: "sum64 xs = i64 (sum_list xs)"
  using i64_foldl_add [of "\<lambda>x. x" 0 xs] by (simp add: sum64_def)

lemma sort_cong: "mset xs = mset ys \<Longrightarrow> sort xs = sort ys"
  by (metis sort_key_id_if_sorted sorted_sort mset_sort properties_for_sort)

lemma sort_eq_Nil [simp]: "sort xs = [] \<longleftrightarrow> xs = []"
  by (metis mset_sort mset_zero_iff)

lemma agent_distribution_eq: "agent_distribution values = store_distribution values"
  by (auto simp: agent_distribution_def store_distribution_def average_def Let_def)

lemma p95_eq: "p95 values = ds_P95Millis (store_distribution values)"
  by (simp add: p95_def store_distribution_def Let_def percentile_def percentile_index_def
      zero_Distribution_def)

lemma store_distribution_cong:
  assumes "mset xs = mset ys"
  shows "store_distribution xs = store_distribution ys"
proof -
  have "length xs = length ys" using assms by (metis size_mset)
  moreover have "sum64 (sort xs) = sum64 (sort ys)" "sort xs = sort ys"
    using sort_cong [OF assms] by simp_all
  ultimately show ?thesis by (simp add: store_distribution_def Let_def)
qed

subsection \<open>Order of the reported statistics\<close>

lemma quot_between:
  assumes "0 < n" "n * lo \<le> s" "s \<le> n * hi"
  shows "lo \<le> quot s n" "quot s n \<le> hi"
proof -
  have down: "lo' \<le> t div n" if "n * lo' \<le> t" for lo' t
    using zdiv_mono1 [OF that assms(1)] assms(1) by simp
  have up: "t div n \<le> hi'" if "t \<le> n * hi'" for hi' t
    using zdiv_mono1 [OF that assms(1)] assms(1) by simp
  have neg: "quot s n = - (- s div n)" if "s < 0"
    using that assms(1) by (simp add: quot_def sgn_if)
  show "lo \<le> quot s n"
    using assms down [of lo s] up [of "- s" "- lo"] neg quot_nonneg_eq [of s n]
    by (cases "0 \<le> s") auto
  show "quot s n \<le> hi"
    using assms up [of s hi] down [of "- hi" "- s"] neg quot_nonneg_eq [of s n]
    by (cases "0 \<le> s") auto
qed

lemma sum_list_bounds:
  fixes xs :: "int list"
  assumes "\<forall>x \<in> set xs. lo \<le> x \<and> x \<le> hi"
  shows "int (length xs) * lo \<le> sum_list xs" "sum_list xs \<le> int (length xs) * hi"
  using assms by (induction xs) (auto simp: algebra_simps)

lemma sort_ends:
  fixes xs :: "int list"
  assumes "xs \<noteq> []"
  shows "sort xs ! 0 \<in> set xs" "sort xs ! (length xs - 1) \<in> set xs"
    "\<forall>x \<in> set xs. sort xs ! 0 \<le> x \<and> x \<le> sort xs ! (length xs - 1)"
proof -
  have l: "0 < length xs" using assms by simp
  show "sort xs ! 0 \<in> set xs" "sort xs ! (length xs - 1) \<in> set xs"
    using l by (metis length_sort nth_mem set_sort, metis diff_less length_sort less_one nth_mem set_sort)
  have "sort xs ! 0 \<le> x \<and> x \<le> sort xs ! (length xs - 1)" if x: "x \<in> set (sort xs)" for x
  proof -
    from x obtain i where "i < length xs" "x = sort xs ! i"
      by (metis in_set_conv_nth length_sort)
    then show ?thesis by (auto intro!: sorted_nth_mono)
  qed
  then show "\<forall>x \<in> set xs. sort xs ! 0 \<le> x \<and> x \<le> sort xs ! (length xs - 1)" by simp
qed

lemma store_distribution_fields:
  assumes "values \<noteq> []"
  shows "ds_MinMillis (store_distribution values) = sort values ! 0"
    "ds_AvgMillis (store_distribution values) = quot (i64 (sum_list values)) (int (length values))"
    "ds_P50Millis (store_distribution values) = percentile (sort values) 50"
    "ds_P95Millis (store_distribution values) = percentile (sort values) 95"
    "ds_P99Millis (store_distribution values) = percentile (sort values) 99"
    "ds_MaxMillis (store_distribution values) = sort values ! (length values - 1)"
proof -
  have "sum_list (sort values) = sum_list values"
    by (metis mset_sort sum_mset_sum_list)
  then show "ds_MinMillis (store_distribution values) = sort values ! 0"
    "ds_AvgMillis (store_distribution values) = quot (i64 (sum_list values)) (int (length values))"
    "ds_P50Millis (store_distribution values) = percentile (sort values) 50"
    "ds_P95Millis (store_distribution values) = percentile (sort values) 95"
    "ds_P99Millis (store_distribution values) = percentile (sort values) 99"
    "ds_MaxMillis (store_distribution values) = sort values ! (length values - 1)"
    using assms by (simp_all add: store_distribution_def Let_def sum64_eq)
qed

lemma store_distribution_ordered:
  assumes "values \<noteq> []"
  defines "d \<equiv> store_distribution values"
  shows "ds_MinMillis d \<le> ds_P50Millis d" "ds_P50Millis d \<le> ds_P95Millis d"
    "ds_P95Millis d \<le> ds_P99Millis d" "ds_P99Millis d \<le> ds_MaxMillis d"
proof -
  note f = store_distribution_fields [OF assms(1)] and e = sort_ends [OF assms(1)]
  have ne: "sort values \<noteq> []" using assms(1) by simp
  have mem: "percentile (sort values) p \<in> set values" if "1 \<le> p" "p \<le> 100" for p
    using percentile_mem [OF ne that] by simp
  show "ds_MinMillis d \<le> ds_P50Millis d" "ds_P99Millis d \<le> ds_MaxMillis d"
    unfolding d_def f using e(3) mem by simp_all
  show "ds_P50Millis d \<le> ds_P95Millis d" "ds_P95Millis d \<le> ds_P99Millis d"
    unfolding d_def f using ne by (auto intro!: percentile_mono)
qed

lemma store_distribution_avg:
  assumes "values \<noteq> []" "in64 (sum_list values)"
  defines "d \<equiv> store_distribution values"
  shows "ds_MinMillis d \<le> ds_AvgMillis d" "ds_AvgMillis d \<le> ds_MaxMillis d"
  unfolding d_def store_distribution_fields [OF assms(1)] i64_id [OF assms(2)]
  using sum_list_bounds [OF sort_ends(3) [OF assms(1)]] assms(1)
  by (auto intro: quot_between)

end
