(* ===== verification/Core_Search.thy ===== *)
theory Core_Search
  imports Core_Stats
begin

text \<open>
  The automatic capacity search of \<open>internal/core/search.go\<close>: the completion gate, the
  stability verdict and its explanation, the ladder of loads, the step that records a finished
  rung and chooses the next one, and the knee that is reported.
  (\<open>ValidateAutoSearchConfig\<close> is in \<open>Core_Target\<close>.)
\<close>

subsection \<open>Stability of one run\<close>

definition CompletionShortfall :: "Run \<Rightarrow> float64 \<times> float64 \<times> bool" where
  "CompletionShortfall run =
     (let limit = rc_MinCompletionPercent (run_Config run);
          limit = (if feq limit fzero then f_of_int 95 else limit)
      in if rr_Issued (run_Result run) = 0 then (fzero, limit, False)
         else (rr_CompletionPercent (run_Result run), limit,
               fless (rr_CompletionPercent (run_Result run)) limit))"

definition run_total :: "Run \<Rightarrow> int" where
  "run_total run =
     (let total = rr_Total (run_Result run)
      in if total = 0 then i64 (rr_Successes (run_Result run) + rr_Failures (run_Result run))
         else total)"

definition run_p95 :: "Run \<Rightarrow> int" where
  "run_p95 run =
     (let p95 = ds_P95Millis (rr_Latency (run_Result run))
      in if p95 = 0 then rr_P95Millis (run_Result run) else p95)"

definition run_error_rate :: "Run \<Rightarrow> float64" where
  "run_error_rate run =
     fdiv (fmul (f_of_int (rr_Failures (run_Result run))) (f_of_int 100)) (f_of_int (run_total run))"

definition IsRunStable :: "Run \<Rightarrow> bool" where
  "IsRunStable run =
     (let config = run_Config run; result = run_Result run; total = run_total run in
      if total = 0 then False
      else let (_, _, short) = CompletionShortfall run in
      if short then False
      else if fless (rc_MaxErrorPercent config) (run_error_rate run)
           \<or> run_p95 run > rc_MaxP95Millis config then False
      else if rc_MaxTTFTP95Millis config > 0
           \<and> ds_P95Millis (rr_TTFT result) > rc_MaxTTFTP95Millis config then False
      else feq (rc_MinOutputTokensPerSecond config) fzero
           \<or> fle (rc_MinOutputTokensPerSecond config) (tu_OutputPerSecond (rr_Tokens result)))"

definition InstabilityMessage :: "Run \<Rightarrow> Instability" where
  "InstabilityMessage run =
     (let config = run_Config run; result = run_Result run; total = run_total run in
      if total = 0 then NoCompletedRequests
      else let (actual, limit, short) = CompletionShortfall run in
      if short then CompletionTooLow actual (rr_Issued result) limit
      else if fless (rc_MaxErrorPercent config) (run_error_rate run)
        then ErrorRateTooHigh (run_error_rate run) (rc_MaxErrorPercent config)
      else if run_p95 run > rc_MaxP95Millis config
        then P95TooHigh (run_p95 run) (rc_MaxP95Millis config)
      else if rc_MaxTTFTP95Millis config > 0
           \<and> ds_P95Millis (rr_TTFT result) > rc_MaxTTFTP95Millis config
        then TTFTP95TooHigh (ds_P95Millis (rr_TTFT result)) (rc_MaxTTFTP95Millis config)
      else if fless fzero (rc_MinOutputTokensPerSecond config)
           \<and> fless (tu_OutputPerSecond (rr_Tokens result)) (rc_MinOutputTokensPerSecond config)
        then OutputRateTooLow (tu_OutputPerSecond (rr_Tokens result))
               (rc_MinOutputTokensPerSecond config)
      else CriteriaNotMet)"

subsection \<open>The ladder\<close>

text \<open>The loop doubles \<open>load\<close> (wrapping) until it reaches \<open>mx\<close> or has 12 rungs.\<close>

function sweep_loop :: "int list \<Rightarrow> int \<Rightarrow> int \<Rightarrow> int list" where
  "sweep_loop ladder load mx =
     (if load < mx then
        let ladder' = ladder @ [load] in
        if length ladder' \<ge> 12 then ladder' else sweep_loop ladder' (i64 (load * 2)) mx
      else ladder)"
  by pat_completeness auto
termination
  by (relation "measure (\<lambda>(ladder, _, _). 12 - length ladder)") auto

declare sweep_loop.simps [simp del]

definition SweepLadder :: "int \<Rightarrow> int \<Rightarrow> int list" where
  "SweepLadder start mx =
     (let start = (if start < 1 then 1 else start);
          mx = (if mx < start then start else mx);
          ladder = sweep_loop [] start mx
      in if length ladder = 0 \<or> ladder ! (length ladder - 1) \<noteq> mx then ladder @ [mx] else ladder)"

subsection \<open>Recording a rung and choosing the next\<close>

definition unstableRungsBeforeStopping :: int where
  "unstableRungsBeforeStopping = 2"

definition provisionHeadroomPercent :: int where
  "provisionHeadroomPercent = 70"

definition stepFrom :: "int \<Rightarrow> Run \<Rightarrow> AutoSearchStep" where
  "stepFrom load run =
     (let stable = IsRunStable run; result = run_Result run;
          lat = ds_P95Millis (rr_Latency result) in
      \<lparr>step_Load = load, step_RunID = run_ID run, step_Stable = stable,
       step_Reason = (if \<not> stable then InstabilityMessage run else NoReason),
       step_ThroughputRPS = rr_ThroughputRPS result,
       step_OutputTokensPerSec = tu_OutputPerSecond (rr_Tokens result),
       step_TTFTP95Millis = ds_P95Millis (rr_TTFT result),
       step_TPOTP95Millis = ds_P95Millis (rr_TPOT result),
       step_LatencyP95Millis = (if lat = 0 then rr_P95Millis result else lat),
       step_GoodputPercent = rr_GoodputPercent result,
       step_CompletionPercent = rr_CompletionPercent result\<rparr>)"

definition consecutiveUnstableTail :: "AutoSearchStep list \<Rightarrow> int" where
  "consecutiveUnstableTail steps = int (length (takeWhile (\<lambda>s. \<not> step_Stable s) (rev steps)))"

text \<open>
  \<open>sort.Slice\<close> is not stable; the model sorts with a stable sort. The two differ only on
  steps of equal load (\<open>KneeLoad_any_sort\<close> shows that with distinct loads every sort gives
  this knee).
\<close>

fun knee_scan :: "int \<Rightarrow> AutoSearchStep list \<Rightarrow> int" where
  "knee_scan knee [] = knee"
| "knee_scan knee (step # rest) =
     (if \<not> step_Stable step then knee else knee_scan (step_Load step) rest)"

definition KneeLoad :: "AutoSearchStep list \<Rightarrow> int" where
  "KneeLoad steps = knee_scan 0 (sort_key step_Load steps)"

definition finishSearch :: "AutoSearch \<Rightarrow> AutoSearch" where
  "finishSearch search =
     (let knee = KneeLoad (as_Steps search);
          search = search\<lparr>as_Status := AutoSearchCompleted, as_NextLoad := 0,
                          as_RecommendedLoad := knee\<rparr>
      in if knee = 0 then
           search\<lparr>as_Message := NoStableLoad
             (case as_Steps search of [] \<Rightarrow> NoReason | first # _ \<Rightarrow> step_Reason first)\<rparr>
         else
           let provision = quot (i64 (knee * provisionHeadroomPercent)) 100;
               provision = (if provision < 1 then 1 else provision);
               search = search\<lparr>as_ProvisionLoad := provision\<rparr>
           in if knee \<ge> asc_MaxLoad (as_Config search)
              then search\<lparr>as_Message := StableUpToMax knee\<rparr>
              else search\<lparr>as_Message := StableUpTo knee provision\<rparr>)"

definition run_load :: "Run \<Rightarrow> int" where
  "run_load run = (if rc_Mode (run_Config run) = LoadModeRPS
     then rc_RPS (run_Config run) else rc_VUs (run_Config run))"

definition record_step :: "AutoSearch \<Rightarrow> Run \<Rightarrow> AutoSearch" where
  "record_step search run =
     (let load = run_load run;
          search = (if length (as_Ladder search) = 0
            then search\<lparr>as_Ladder := SweepLadder (asc_StartLoad (as_Config search))
                                       (asc_MaxLoad (as_Config search))\<rparr>
            else search);
          search = search\<lparr>as_Steps := as_Steps search @ [stepFrom load run]\<rparr>
      in if IsRunStable run then search\<lparr>as_StableLoad := max (as_StableLoad search) load\<rparr>
         else if as_FailedLoad search = 0 \<or> load < as_FailedLoad search
           then search\<lparr>as_FailedLoad := load\<rparr>
         else search)"

definition AdvanceSearch :: "AutoSearch \<Rightarrow> Run \<Rightarrow> AutoSearch \<times> int \<times> bool" where
  "AdvanceSearch search run =
     (let load = run_load run; search = record_step search run in
      if as_StableLoad search = 0 \<and> \<not> IsRunStable run then (finishSearch search, 0, False)
      else if consecutiveUnstableTail (as_Steps search) \<ge> unstableRungsBeforeStopping
        then (finishSearch search, 0, False)
      else case find (\<lambda>rung. rung > load) (as_Ladder search) of
        Some rung \<Rightarrow> (search\<lparr>as_NextLoad := rung\<rparr>, rung, True)
      | None \<Rightarrow> (finishSearch search, 0, False))"

subsection \<open>The ladder is increasing and ends at the maximum\<close>

lemma sweep_loop_spec:
  assumes "0 < load" "mx \<le> 2 ^ 61" "length ladder < 12"
  shows "\<exists>ys. sweep_loop ladder load mx = ladder @ ys \<and> sorted_wrt (<) ys \<and>
    (\<forall>y \<in> set ys. load \<le> y \<and> y < mx) \<and> length (ladder @ ys) \<le> 12 \<and>
    (load < mx \<longrightarrow> ys \<noteq> [] \<and> hd ys = load)"
  using assms
proof (induction ladder load mx rule: sweep_loop.induct)
  case (1 ladder load mx)
  show ?case
  proof (cases "load < mx")
    case False
    then show ?thesis using "1.prems" by (simp add: sweep_loop.simps [of ladder load mx])
  next
    case True
    show ?thesis
    proof (cases "12 \<le> length (ladder @ [load])")
      case full: True
      then have "sweep_loop ladder load mx = ladder @ [load]"
        using True by (simp add: sweep_loop.simps [of ladder load mx])
      then show ?thesis using True "1.prems" by (intro exI [of _ "[load]"]) auto
    next
      case False
      have w: "i64 (load * 2) = load * 2"
        using True "1.prems" by (intro i64_small) auto
      have "sweep_loop ladder load mx = sweep_loop (ladder @ [load]) (load * 2) mx"
        using True False w by (simp add: sweep_loop.simps [of ladder load mx])
      moreover obtain ys where ys: "sweep_loop (ladder @ [load]) (load * 2) mx = (ladder @ [load]) @ ys"
        "sorted_wrt (<) ys" "\<forall>y \<in> set ys. load * 2 \<le> y \<and> y < mx"
        "length ((ladder @ [load]) @ ys) \<le> 12"
        using "1.IH" [OF True refl False] "1.prems" False unfolding w by auto
      ultimately show ?thesis
        using True "1.prems" by (intro exI [of _ "load # ys"]) force
    qed
  qed
qed

lemma SweepLadder_props:
  assumes "1 \<le> start" "start \<le> mx" "mx \<le> 2 ^ 61"
  shows "sorted_wrt (<) (SweepLadder start mx)" "hd (SweepLadder start mx) = start"
    "last (SweepLadder start mx) = mx" "SweepLadder start mx \<noteq> []"
    "length (SweepLadder start mx) \<le> 13" "set (SweepLadder start mx) \<subseteq> {start..mx}"
proof -
  obtain ys where ys: "sweep_loop [] start mx = ys" "sorted_wrt (<) ys"
    "\<forall>y \<in> set ys. start \<le> y \<and> y < mx" "length ys \<le> 12" "start < mx \<longrightarrow> ys \<noteq> [] \<and> hd ys = start"
    using sweep_loop_spec [of start mx "[]"] assms by auto
  have "ys ! (length ys - 1) \<noteq> mx" if "ys \<noteq> []"
    using that ys(3) by (metis diff_less length_greater_0_conv less_irrefl nth_mem zero_less_one)
  then have e: "SweepLadder start mx = ys @ [mx]"
    using assms ys(1) by (auto simp: SweepLadder_def Let_def)
  show "sorted_wrt (<) (SweepLadder start mx)" "last (SweepLadder start mx) = mx"
    "SweepLadder start mx \<noteq> []" "length (SweepLadder start mx) \<le> 13"
    using ys unfolding e by (auto simp: sorted_wrt_append)
  show "set (SweepLadder start mx) \<subseteq> {start..mx}"
    using ys(3) assms unfolding e by auto
  have "ys = [] \<Longrightarrow> start = mx"
    using ys(5) assms(2) by auto
  then show "hd (SweepLadder start mx) = start"
    using ys unfolding e by (cases ys) auto
qed

subsection \<open>The verdict and its explanation check the same criteria\<close>

lemma InstabilityMessage_not_NoReason: "InstabilityMessage run \<noteq> NoReason"
  by (simp add: InstabilityMessage_def Let_def split: prod.split)

lemma IsRunStable_imp_message:
  assumes "IsRunStable run" "fle fzero (rc_MinOutputTokensPerSecond (run_Config run))"
  shows "InstabilityMessage run = CriteriaNotMet"
  using assms
  by (auto simp: IsRunStable_def InstabilityMessage_def Let_def fle_def feq_iff
      dest: fless_imp_not_less split: prod.splits if_splits)

lemma message_imp_IsRunStable:
  assumes "InstabilityMessage run = CriteriaNotMet"
    "fle fzero (rc_MinOutputTokensPerSecond (run_Config run))"
    "tu_OutputPerSecond (rr_Tokens (run_Result run)) \<noteq> NaN"
  shows "IsRunStable run"
proof -
  let ?m = "rc_MinOutputTokensPerSecond (run_Config run)"
  let ?o = "tu_OutputPerSecond (rr_Tokens (run_Result run))"
  have "?m \<noteq> NaN" using assms(2) by auto
  then have "\<not> fless ?o ?m \<longleftrightarrow> fle ?m ?o" using assms(3) by (simp add: fle_not_less)
  moreover have "fless fzero ?m \<or> feq ?m fzero"
    using assms(2) by (auto simp: fle_def feq_iff)
  ultimately show ?thesis
    using assms(1)
    by (auto simp: IsRunStable_def InstabilityMessage_def Let_def split: prod.splits if_splits)
qed

subsection \<open>The knee\<close>

text \<open>The loads up to which every measured rung was stable.\<close>

definition sustained_loads :: "AutoSearchStep list \<Rightarrow> int set" where
  "sustained_loads steps = {step_Load s | s. s \<in> set steps \<and>
     (\<forall>t \<in> set steps. step_Load t \<le> step_Load s \<longrightarrow> step_Stable t)}"

lemma finite_sustained_loads [simp]: "finite (sustained_loads steps)"
  by (simp add: sustained_loads_def)

lemma sustained_loads_Cons:
  assumes "\<forall>t \<in> set xs. step_Load s < step_Load t"
  shows "sustained_loads (s # xs) =
    (if step_Stable s then insert (step_Load s) (sustained_loads xs) else {})"
proof (cases "step_Stable s")
  case True
  have "(\<forall>t \<in> set (s # xs). step_Load t \<le> step_Load u \<longrightarrow> step_Stable t) \<longleftrightarrow>
      u = s \<or> (\<forall>t \<in> set xs. step_Load t \<le> step_Load u \<longrightarrow> step_Stable t)"
    if "u \<in> set (s # xs)" for u
    using that assms True by (auto simp: not_le [symmetric])
  then have "sustained_loads (s # xs) = step_Load ` {u \<in> set (s # xs). u = s \<or>
      (\<forall>t \<in> set xs. step_Load t \<le> step_Load u \<longrightarrow> step_Stable t)}"
    unfolding sustained_loads_def by blast
  also have "\<dots> = insert (step_Load s) (sustained_loads xs)"
    unfolding sustained_loads_def using assms by auto
  finally show ?thesis using True by simp
next
  case False
  have "step_Load s \<le> step_Load u" if "u \<in> set (s # xs)" for u
    using that assms by (auto simp: less_imp_le)
  with False have "sustained_loads (s # xs) = {}" by (force simp: sustained_loads_def)
  with False show ?thesis by simp
qed

lemma knee_scan_sustained:
  assumes "sorted_wrt (\<lambda>s t. step_Load s < step_Load t) xs"
  shows "knee_scan k xs = (if sustained_loads xs = {} then k else Max (sustained_loads xs))"
  using assms
proof (induction xs arbitrary: k)
  case Nil
  then show ?case by (simp add: sustained_loads_def)
next
  case (Cons s xs)
  then have lt: "\<forall>t \<in> set xs. step_Load s < step_Load t" by simp
  then have "\<forall>l \<in> sustained_loads xs. step_Load s < l" by (auto simp: sustained_loads_def)
  then have "sustained_loads xs \<noteq> {} \<Longrightarrow> step_Load s < Max (sustained_loads xs)" by simp
  then have "step_Stable s \<Longrightarrow> Max (sustained_loads (s # xs)) =
      (if sustained_loads xs = {} then step_Load s else Max (sustained_loads xs))"
    using lt by (simp add: sustained_loads_Cons)
  with Cons lt show ?case by (simp add: sustained_loads_Cons)
qed

lemma strict_sorted_steps:
  "sorted (map step_Load ys) \<Longrightarrow> distinct (map step_Load ys) \<Longrightarrow>
   sorted_wrt (\<lambda>s t. step_Load s < step_Load t) ys"
  by (induction ys) (fastforce simp: less_le)+

lemma KneeLoad_sustained:
  assumes "distinct (map step_Load steps)"
  shows "KneeLoad steps =
    (if sustained_loads steps = {} then 0 else Max (sustained_loads steps))"
proof -
  let ?ys = "sort_key step_Load steps"
  have "distinct (map step_Load ?ys)"
    using assms by (simp add: distinct_map)
  then have "sorted_wrt (\<lambda>s t. step_Load s < step_Load t) ?ys"
    by (intro strict_sorted_steps) auto
  moreover have "sustained_loads ?ys = sustained_loads steps"
    by (simp add: sustained_loads_def)
  ultimately show ?thesis by (simp add: KneeLoad_def knee_scan_sustained)
qed

lemma KneeLoad_any_sort:
  assumes "distinct (map step_Load steps)" "mset ys = mset steps" "sorted (map step_Load ys)"
  shows "knee_scan 0 ys = KneeLoad steps"
proof -
  have "mset (map step_Load ys) = mset (map step_Load steps)" using assms(2) by simp
  then have "distinct (map step_Load ys)" using assms(1) mset_eq_imp_distinct_iff by blast
  moreover have "set ys = set steps" using assms(2) by (rule mset_eq_setD)
  then have "sustained_loads ys = sustained_loads steps" by (simp add: sustained_loads_def)
  ultimately show ?thesis
    using assms(1,3) strict_sorted_steps [of ys]
    by (simp add: knee_scan_sustained KneeLoad_sustained)
qed

subsection \<open>A whole search\<close>

text \<open>
  The controller runs the load a search asks for, completes the run and advances the search again
  (\<open>completeShard\<close> in \<open>internal/controller/server.go\<close>). \<open>drive\<close> iterates that,
  where \<open>runAt load\<close> is the finished run at a load; \<open>fuel\<close> bounds the number of
  runs. \<open>drive_completes\<close> shows that as many runs as the ladder has rungs are enough.
\<close>

fun drive :: "nat \<Rightarrow> (int \<Rightarrow> Run) \<Rightarrow> AutoSearch \<Rightarrow> int \<Rightarrow> AutoSearch option" where
  "drive 0 runAt search load = None"
| "drive (Suc fuel) runAt search load =
     (let (search', next, more) = AdvanceSearch search (runAt load)
      in if more then drive fuel runAt search' next else Some search')"

lemma find_next_rung:
  assumes "sorted_wrt (<) L" "i < length L"
  shows "find (\<lambda>rung. rung > L ! i) L =
    (if Suc i < length L then Some (L ! Suc i) else (None :: int option))"
proof -
  have split: "L = take (Suc i) L @ drop (Suc i) L" by simp
  have "L ! j \<le> L ! i" if "j < Suc i" for j
    using that assms sorted_wrt_nth_less [OF assms(1), of j i] by (cases "j = i") auto
  then have small: "\<forall>x \<in> set (take (Suc i) L). \<not> x > L ! i"
    using assms(2) by (auto simp: in_set_conv_nth not_less)
  have skip: "find P (xs @ ys) = find P ys" if "\<forall>x \<in> set xs. \<not> P x" for P and xs ys :: "int list"
    using that by (induction xs) auto
  have "find (\<lambda>rung. rung > L ! i) L = find (\<lambda>rung. rung > L ! i) (drop (Suc i) L)"
    using skip [OF small, of "drop (Suc i) L"] by (simp only: append_take_drop_id)
  also have "\<dots> = (if Suc i < length L then Some (L ! Suc i) else None)"
    using assms by (auto simp: Cons_nth_drop_Suc [symmetric] sorted_wrt_iff_nth_less)
  finally show ?thesis .
qed

lemma finishSearch_fields [simp]:
  "as_Status (finishSearch s) = AutoSearchCompleted"
  "as_Steps (finishSearch s) = as_Steps s"
  "as_RecommendedLoad (finishSearch s) = KneeLoad (as_Steps s)"
  "as_Ladder (finishSearch s) = as_Ladder s"
  "as_Config (finishSearch s) = as_Config s"
  "as_RunIDs (finishSearch s) = as_RunIDs s"
  "as_ID (finishSearch s) = as_ID s"
  "as_NextLoad (finishSearch s) = 0"
  by (simp_all add: finishSearch_def Let_def)

lemma record_step_fields [simp]:
  "as_Steps (record_step s run) = as_Steps s @ [stepFrom (run_load run) run]"
  "as_Config (record_step s run) = as_Config s"
  "as_Status (record_step s run) = as_Status s"
  "as_RunIDs (record_step s run) = as_RunIDs s"
  "as_ID (record_step s run) = as_ID s"
  "as_Ladder s \<noteq> [] \<Longrightarrow> as_Ladder (record_step s run) = as_Ladder s"
  by (simp_all add: record_step_def Let_def)

lemma stepFrom_fields [simp]:
  "step_Load (stepFrom load run) = load" "step_Stable (stepFrom load run) = IsRunStable run"
  "step_RunID (stepFrom load run) = run_ID run"
  by (simp_all add: stepFrom_def Let_def)

lemma AdvanceSearch_ladder_step:
  assumes L: "sorted_wrt (<) L" "as_Ladder s = L" "i < length L"
    and load: "run_load run = L ! i"
  defines "s' \<equiv> record_step s run"
  shows "AdvanceSearch s run = (finishSearch s', 0, False) \<and>
      (Suc i = length L \<or> \<not> IsRunStable run) \<or>
    Suc i < length L \<and> AdvanceSearch s run = (s'\<lparr>as_NextLoad := L ! Suc i\<rparr>, L ! Suc i, True)"
proof -
  have ne: "L \<noteq> []" using L(3) by auto
  then have lad: "as_Ladder s' = L" using L(2) by (simp add: s'_def)
  have tail: "consecutiveUnstableTail (as_Steps s') < 2" if "IsRunStable run"
    using that by (simp add: consecutiveUnstableTail_def s'_def)
  show ?thesis
  proof (cases "as_StableLoad s' = 0 \<and> \<not> IsRunStable run \<or>
      2 \<le> consecutiveUnstableTail (as_Steps s')")
    case True
    then have "AdvanceSearch s run = (finishSearch s', 0, False)" "\<not> IsRunStable run"
      using tail
      by (auto simp: AdvanceSearch_def Let_def unstableRungsBeforeStopping_def s'_def [symmetric])
    then show ?thesis by simp
  next
    case False
    then have "AdvanceSearch s run = (case find (\<lambda>rung. rung > L ! i) L of
        Some rung \<Rightarrow> (s'\<lparr>as_NextLoad := rung\<rparr>, rung, True) | None \<Rightarrow> (finishSearch s', 0, False))"
      by (auto simp: AdvanceSearch_def Let_def unstableRungsBeforeStopping_def s'_def [symmetric]
          lad load)
    then show ?thesis
      using find_next_rung [OF L(1,3)] L(3) by (auto split: if_splits)
  qed
qed

abbreviation measured :: "(int \<Rightarrow> Run) \<Rightarrow> int \<Rightarrow> AutoSearchStep" where
  "measured runAt load \<equiv> stepFrom load (runAt load)"

lemma drive_steps:
  assumes L: "sorted_wrt (<) L" and loads: "\<forall>r \<in> set L. run_load (runAt r) = r"
    and "as_Ladder s = L" "i < length L" "as_Steps s = map (measured runAt) (take i L)"
    and "length L - i \<le> fuel"
  shows "\<exists>t m. drive fuel runAt s (L ! i) = Some (finishSearch t) \<and> i < m \<and> m \<le> length L \<and>
    as_Steps t = map (measured runAt) (take m L) \<and> as_Config t = as_Config s \<and>
    (m = length L \<or> \<not> IsRunStable (runAt (L ! (m - 1))))"
  using assms(3-)
proof (induction fuel arbitrary: s i)
  case 0
  then show ?case by simp
next
  case (Suc fuel)
  let ?run = "runAt (L ! i)"
  let ?s = "record_step s ?run"
  have load: "run_load ?run = L ! i" using loads Suc.prems(2) by simp
  have steps: "as_Steps ?s = map (measured runAt) (take (Suc i) L)"
    using Suc.prems(2,3) load by (simp add: take_Suc_conv_app_nth)
  from AdvanceSearch_ladder_step [OF L Suc.prems(1,2) load] show ?case
  proof
    assume "AdvanceSearch s ?run = (finishSearch ?s, 0, False) \<and>
      (Suc i = length L \<or> \<not> IsRunStable ?run)"
    with Suc.prems(2) steps show ?thesis
      by (intro exI [of _ ?s] exI [of _ "Suc i"]) auto
  next
    assume more: "Suc i < length L \<and>
      AdvanceSearch s ?run = (?s\<lparr>as_NextLoad := L ! Suc i\<rparr>, L ! Suc i, True)"
    let ?t = "?s\<lparr>as_NextLoad := L ! Suc i\<rparr>"
    have "as_Ladder s \<noteq> []" using Suc.prems(1,2) by auto
    then have "as_Ladder ?s = L" using Suc.prems(1) by simp
    then have "\<exists>t m. drive fuel runAt ?t (L ! Suc i) = Some (finishSearch t) \<and> Suc i < m \<and>
      m \<le> length L \<and> as_Steps t = map (measured runAt) (take m L) \<and> as_Config t = as_Config ?t \<and>
      (m = length L \<or> \<not> IsRunStable (runAt (L ! (m - 1))))"
      using more steps Suc.prems(4) by (intro Suc.IH) auto
    then obtain t m where "drive fuel runAt ?t (L ! Suc i) = Some (finishSearch t)" "Suc i < m"
      "m \<le> length L" "as_Steps t = map (measured runAt) (take m L)" "as_Config t = as_Config ?t"
      "m = length L \<or> \<not> IsRunStable (runAt (L ! (m - 1)))"
      by blast
    with more show ?thesis by (intro exI [of _ t] exI [of _ m]) auto
  qed
qed

text \<open>The search \<open>CreateSearch\<close> starts (the store's identifiers and run list left out).\<close>

definition fresh_search :: "AutoSearchConfig \<Rightarrow> AutoSearch" where
  "fresh_search config = \<lparr>as_ID = [], as_Status = AutoSearchRunning, as_Config = config,
     as_RunIDs = [], as_NextLoad = asc_StartLoad config, as_StableLoad = 0, as_FailedLoad = 0,
     as_RecommendedLoad = 0, as_Message = NoMessage,
     as_Ladder = SweepLadder (asc_StartLoad config) (asc_MaxLoad config),
     as_Steps = [], as_ProvisionLoad = 0\<rparr>"

lemma sustained_measured:
  assumes "\<forall>r \<in> set L. run_load (runAt r) = r"
  shows "sustained_loads (map (measured runAt) L) =
    {r \<in> set L. \<forall>t \<in> set L. t \<le> r \<longrightarrow> IsRunStable (runAt t)}"
proof -
  have "sustained_loads steps = step_Load ` {s \<in> set steps.
      \<forall>t \<in> set steps. step_Load t \<le> step_Load s \<longrightarrow> step_Stable t}" for steps
    by (auto simp: sustained_loads_def)
  then have "sustained_loads (map (measured runAt) L) = step_Load ` measured runAt `
      {r \<in> set L. \<forall>t \<in> set L. t \<le> r \<longrightarrow> IsRunStable (runAt t)}"
    by (simp add: Compr_image_eq)
  then show ?thesis by (simp add: image_image)
qed

lemma search_outcome:
  assumes "1 \<le> asc_StartLoad config" "asc_StartLoad config \<le> asc_MaxLoad config"
    "asc_MaxLoad config \<le> 2 ^ 61" and loads: "\<forall>r. run_load (runAt r) = r"
  defines "L \<equiv> SweepLadder (asc_StartLoad config) (asc_MaxLoad config)"
  obtains t m where
    "drive (length L) runAt (fresh_search config) (asc_StartLoad config) = Some (finishSearch t)"
    "0 < m" "m \<le> length L" "as_Steps t = map (measured runAt) (take m L)" "as_Config t = config"
    "m = length L \<or> \<not> IsRunStable (runAt (L ! (m - 1)))"
proof -
  note props = SweepLadder_props [OF assms(1-3), folded L_def]
  have "0 < length L" using props(4) by simp
  moreover have "L ! 0 = asc_StartLoad config"
    using props(2,4) by (simp add: hd_conv_nth)
  moreover have "as_Ladder (fresh_search config) = L" "as_Steps (fresh_search config) = []"
    "as_Config (fresh_search config) = config"
    by (simp_all add: fresh_search_def L_def)
  ultimately have "\<exists>t m. drive (length L) runAt (fresh_search config) (asc_StartLoad config) =
      Some (finishSearch t) \<and> 0 < m \<and> m \<le> length L \<and>
      as_Steps t = map (measured runAt) (take m L) \<and> as_Config t = config \<and>
      (m = length L \<or> \<not> IsRunStable (runAt (L ! (m - 1))))"
    using drive_steps [OF props(1), of runAt "fresh_search config" 0 "length L"] loads by simp
  with that show thesis by blast
qed

lemma strict_sorted_distinct: "sorted_wrt (<) (L :: int list) \<Longrightarrow> distinct L"
  by (induction L) auto

lemma take_sorted_below:
  assumes "sorted_wrt (<) (L :: int list)" "r \<in> set (take m L)" "t \<in> set L" "t \<le> r"
  shows "t \<in> set (take m L)"
proof (rule ccontr)
  assume "t \<notin> set (take m L)"
  with assms(3) have "t \<in> set (drop m L)" by (metis UnE append_take_drop_id set_append)
  then have "r < t"
    using assms(1,2) by (metis append_take_drop_id sorted_wrt_append)
  with assms(4) show False by simp
qed

lemma sustained_prefix_monotone:
  assumes L: "sorted_wrt (<) (L :: int list)" and m: "0 < m" "m \<le> length L"
    and mono: "\<forall>r. ok r \<longleftrightarrow> r \<le> capacity"
    and stop: "m = length L \<or> \<not> ok (L ! (m - 1))"
  shows "{r \<in> set (take m L). \<forall>t \<in> set (take m L). t \<le> r \<longrightarrow> ok t} =
    {r \<in> set L. r \<le> capacity}"
proof -
  have "r \<in> set (take m L)" if r: "r \<le> capacity" "r \<in> set L" for r
  proof (cases "m = length L")
    case False
    let ?last = "L ! (m - 1)"
    have "?last \<in> set (take m L)"
      using m by (auto simp: in_set_conv_nth intro!: exI [of _ "m - 1"])
    moreover have "r \<le> ?last" using False stop mono r(1) by auto
    ultimately show ?thesis using take_sorted_below [OF L] r(2) by blast
  qed (use r in simp)
  with mono show ?thesis by (auto dest: in_set_takeD)
qed

lemma provision_bounds:
  assumes "1 \<le> KneeLoad (as_Steps t)" "KneeLoad (as_Steps t) \<le> 2 ^ 55"
  shows "1 \<le> as_ProvisionLoad (finishSearch t)"
    "as_ProvisionLoad (finishSearch t) \<le> KneeLoad (as_Steps t)"
proof -
  let ?k = "KneeLoad (as_Steps t)"
  have "i64 (?k * 70) = ?k * 70" using assms by (intro i64_small) auto
  then have "as_ProvisionLoad (finishSearch t) = max 1 (?k * 70 div 100)"
    using assms(1)
    by (auto simp: finishSearch_def Let_def provisionHeadroomPercent_def quot_nonneg_eq max_def)
  then show "1 \<le> as_ProvisionLoad (finishSearch t)"
    "as_ProvisionLoad (finishSearch t) \<le> KneeLoad (as_Steps t)"
    using assms(1) by auto
qed

subsection \<open>Properties\<close>

text \<open>The ladder planned for a search (\<open>SweepLadder\<close>) starts at
  the start load, climbs strictly, stays between the two loads, ends exactly at the maximum and has
  at most 13 rungs, for every start of at least 1 and every maximum up to \<open>2 ^ 61\<close>.\<close>

theorem SweepLadder_climbs_to_max:
  assumes "1 \<le> start" "start \<le> mx" "mx \<le> 2 ^ 61"
  shows "sorted_wrt (<) (SweepLadder start mx) \<and> hd (SweepLadder start mx) = start \<and>
    last (SweepLadder start mx) = mx \<and> length (SweepLadder start mx) \<in> {1..13} \<and>
    set (SweepLadder start mx) \<subseteq> {start..mx}"
  using SweepLadder_props [OF assms] by (auto simp: Suc_le_eq)

theorem SweepLadder_climbs_to_max_witness:
  "sorted_wrt (<) (SweepLadder 5 500) \<and> hd (SweepLadder 5 500) = 5 \<and>
    last (SweepLadder 5 500) = 500 \<and> length (SweepLadder 5 500) \<in> {1..13} \<and>
    set (SweepLadder 5 500) \<subseteq> {5..500}"
  using SweepLadder_climbs_to_max [of 5 500] by simp

text \<open>C24. The verdict and its explanation agree: a run is stable
  exactly when \<open>InstabilityMessage\<close> finds no violated criterion and falls through to its last
  text, provided the configured output rate is not negative and the measured one is a number.\<close>

theorem stable_iff_no_criterion_violated:
  assumes "fle fzero (rc_MinOutputTokensPerSecond (run_Config run))"
    and "tu_OutputPerSecond (rr_Tokens (run_Result run)) \<noteq> NaN"
  shows "IsRunStable run \<longleftrightarrow> InstabilityMessage run = CriteriaNotMet"
  using IsRunStable_imp_message [OF _ assms(1)] message_imp_IsRunStable [OF _ assms] by blast

theorem stable_iff_no_criterion_violated_witness:
  "IsRunStable zero_Run \<longleftrightarrow> InstabilityMessage zero_Run = CriteriaNotMet"
  by (rule stable_iff_no_criterion_violated)
    (simp_all add: zero_Run_def zero_RunConfig_def zero_RunResult_def zero_TokenUsage_def fzero_def)

text \<open>C18. A search always ends: within as many runs as the ladder
  has rungs it is completed, whatever the runs measured. If it recommends a load, that load is a
  rung, it and every lower rung met the SLO, and the provisioned load is between 1 and it.\<close>

theorem search_reports_sustained_load:
  assumes "1 \<le> asc_StartLoad config" "asc_StartLoad config \<le> asc_MaxLoad config"
    "asc_MaxLoad config \<le> MaxRPS" and "\<forall>r. run_load (runAt r) = r"
  shows "\<exists>s. drive (length (SweepLadder (asc_StartLoad config) (asc_MaxLoad config))) runAt
      (fresh_search config) (asc_StartLoad config) = Some s \<and>
    as_Status s = AutoSearchCompleted \<and> as_Steps s \<noteq> [] \<and>
    (as_RecommendedLoad s \<noteq> 0 \<longrightarrow>
      as_RecommendedLoad s \<in> set (SweepLadder (asc_StartLoad config) (asc_MaxLoad config)) \<and>
      (\<forall>r \<in> set (SweepLadder (asc_StartLoad config) (asc_MaxLoad config)).
         r \<le> as_RecommendedLoad s \<longrightarrow> IsRunStable (runAt r)) \<and>
      1 \<le> as_ProvisionLoad s \<and> as_ProvisionLoad s \<le> as_RecommendedLoad s)"
proof -
  let ?L = "SweepLadder (asc_StartLoad config) (asc_MaxLoad config)"
  have mx: "asc_MaxLoad config \<le> 2 ^ 61" using assms(3) by simp
  note props = SweepLadder_props [OF assms(1,2) mx]
  obtain t m where t: "drive (length ?L) runAt (fresh_search config) (asc_StartLoad config) =
      Some (finishSearch t)" and m: "0 < m" "m \<le> length ?L"
    and steps: "as_Steps t = map (measured runAt) (take m ?L)" and "as_Config t = config"
    and "m = length ?L \<or> \<not> IsRunStable (runAt (?L ! (m - 1)))"
    by (rule search_outcome [OF assms(1,2) mx assms(4)])
  define K where "K = {r \<in> set (take m ?L). \<forall>u \<in> set (take m ?L). u \<le> r \<longrightarrow> IsRunStable (runAt u)}"
  let ?k = "KneeLoad (as_Steps t)"
  have "map step_Load (as_Steps t) = take m ?L" by (simp add: steps comp_def)
  then have "distinct (map step_Load (as_Steps t))"
    using distinct_take [OF strict_sorted_distinct [OF props(1)]] by (simp only:)
  moreover have "sustained_loads (as_Steps t) = K"
    using sustained_measured [of "take m ?L" runAt] assms(4) by (simp add: steps K_def)
  ultimately have knee: "?k = (if K = {} then 0 else Max K)"
    by (simp add: KneeLoad_sustained)
  have "as_Steps t \<noteq> []" using m props(4) by (simp add: steps)
  moreover have "?k \<in> set ?L \<and> (\<forall>r \<in> set ?L. r \<le> ?k \<longrightarrow> IsRunStable (runAt r)) \<and>
      1 \<le> as_ProvisionLoad (finishSearch t) \<and> as_ProvisionLoad (finishSearch t) \<le> ?k" if "?k \<noteq> 0"
  proof -
    have "finite K" by (simp add: K_def)
    then have "?k \<in> K" using knee that Max_in [of K] by (cases "K = {}") simp_all
    then have k: "?k \<in> set (take m ?L)" "\<forall>u \<in> set (take m ?L). u \<le> ?k \<longrightarrow> IsRunStable (runAt u)"
      by (simp_all add: K_def)
    then have kL: "?k \<in> set ?L" by (auto dest: in_set_takeD)
    then have "1 \<le> ?k" "?k \<le> 2 ^ 55" using props(6) assms(1,3) by auto
    then show ?thesis
      using k kL take_sorted_below [OF props(1) k(1)] provision_bounds [of t] by blast
  qed
  ultimately show ?thesis using t by auto
qed

text \<open>An oracle for the witnesses: a server that answers with a P95 equal to the load, against an
  SLO of 40 milliseconds.\<close>

definition linear_server :: "int \<Rightarrow> Run" where
  "linear_server load = zero_Run\<lparr>
     run_Config := zero_RunConfig\<lparr>rc_Mode := LoadModeVU, rc_VUs := load, rc_MaxP95Millis := 40\<rparr>,
     run_Result := zero_RunResult\<lparr>rr_Total := 1, rr_P95Millis := load\<rparr>\<rparr>"

definition linear_config :: AutoSearchConfig where
  "linear_config = \<lparr>asc_Run = zero_RunConfig, asc_StartLoad = 5, asc_MaxLoad = 100\<rparr>"

lemma linear_server_load: "run_load (linear_server r) = r"
  by (simp add: linear_server_def run_load_def zero_Run_def zero_RunConfig_def)

lemma linear_server_stable: "IsRunStable (linear_server r) \<longleftrightarrow> r \<le> 40"
  using f_of_int_exact [of 100] f_of_int_exact [of 1] mk_float_of_int [of 0]
  by (simp add: IsRunStable_def CompletionShortfall_def run_error_rate_def run_total_def
      run_p95_def linear_server_def zero_Run_def zero_RunConfig_def zero_RunResult_def
      zero_Distribution_def zero_TokenUsage_def fzero_def Let_def)

lemma linear_config_bounds:
  "1 \<le> asc_StartLoad linear_config" "asc_StartLoad linear_config \<le> asc_MaxLoad linear_config"
  "asc_MaxLoad linear_config \<le> MaxRPS"
  by (simp_all add: linear_config_def)

theorem search_reports_sustained_load_witness:
  "\<exists>s. drive (length (SweepLadder 5 100)) linear_server (fresh_search linear_config) 5 = Some s \<and>
    as_Status s = AutoSearchCompleted \<and> as_Steps s \<noteq> [] \<and>
    (as_RecommendedLoad s \<noteq> 0 \<longrightarrow> as_RecommendedLoad s \<in> set (SweepLadder 5 100) \<and>
      (\<forall>r \<in> set (SweepLadder 5 100).
         r \<le> as_RecommendedLoad s \<longrightarrow> IsRunStable (linear_server r)) \<and>
      1 \<le> as_ProvisionLoad s \<and> as_ProvisionLoad s \<le> as_RecommendedLoad s)"
  using search_reports_sustained_load [OF linear_config_bounds, of linear_server]
  by (simp add: linear_server_load linear_config_def)

text \<open>C14. Against a server that meets the SLO exactly up to some capacity,
  the search recommends the highest rung of its ladder that the server sustains, and no load when
  even the start load is beyond the capacity.\<close>

theorem search_finds_capacity:
  assumes "1 \<le> asc_StartLoad config" "asc_StartLoad config \<le> asc_MaxLoad config"
    "asc_MaxLoad config \<le> MaxRPS" and "\<forall>r. run_load (runAt r) = r"
    and mono: "\<forall>r. IsRunStable (runAt r) \<longleftrightarrow> r \<le> capacity"
  shows "\<exists>s. drive (length (SweepLadder (asc_StartLoad config) (asc_MaxLoad config))) runAt
      (fresh_search config) (asc_StartLoad config) = Some s \<and>
    as_RecommendedLoad s = (if capacity < asc_StartLoad config then 0
      else Max {r \<in> set (SweepLadder (asc_StartLoad config) (asc_MaxLoad config)). r \<le> capacity})"
proof -
  let ?L = "SweepLadder (asc_StartLoad config) (asc_MaxLoad config)"
  have mx: "asc_MaxLoad config \<le> 2 ^ 61" using assms(3) by simp
  note props = SweepLadder_props [OF assms(1,2) mx]
  obtain t m where t: "drive (length ?L) runAt (fresh_search config) (asc_StartLoad config) =
      Some (finishSearch t)" and m: "0 < m" "m \<le> length ?L"
    and steps: "as_Steps t = map (measured runAt) (take m ?L)" and "as_Config t = config"
    and stop: "m = length ?L \<or> \<not> IsRunStable (runAt (?L ! (m - 1)))"
    by (rule search_outcome [OF assms(1,2) mx assms(4)])
  define K where "K = {r \<in> set ?L. r \<le> capacity}"
  have "map step_Load (as_Steps t) = take m ?L" by (simp add: steps comp_def)
  then have "distinct (map step_Load (as_Steps t))"
    using distinct_take [OF strict_sorted_distinct [OF props(1)]] by (simp only:)
  moreover have "sustained_loads (as_Steps t) = K"
    using sustained_measured [of "take m ?L" runAt] assms(4)
      sustained_prefix_monotone [OF props(1) m mono stop] by (simp add: steps K_def)
  ultimately have knee: "KneeLoad (as_Steps t) = (if K = {} then 0 else Max K)"
    by (simp add: KneeLoad_sustained)
  have "asc_StartLoad config \<in> set ?L"
    using props(2,4) hd_in_set by force
  then have "K = {} \<longleftrightarrow> capacity < asc_StartLoad config"
    using props(6) by (fastforce simp: K_def)
  with knee t show ?thesis by (auto simp: K_def)
qed

theorem search_finds_capacity_witness:
  "\<exists>s. drive (length (SweepLadder 5 100)) linear_server (fresh_search linear_config) 5 = Some s \<and>
    as_RecommendedLoad s = Max {r \<in> set (SweepLadder 5 100). r \<le> 40}"
  using search_finds_capacity [OF linear_config_bounds, of linear_server 40]
  by (simp add: linear_server_load linear_server_stable linear_config_def)

end
