(* ===== verification/Core_Saturation.thy ===== *)
theory Core_Saturation
  imports Core_Types
begin

text \<open>
  The verdicts of \<open>internal/core/saturation.go\<close> over the server-side samples of a run:
  the \<open>series\<close> accumulator, the saturation verdict, the validity of the measurement and the
  attribution of the time to first token. Headlines, details and reasons are values that record
  the text chosen and the arguments of its format verbs.
\<close>

subsection \<open>The series accumulator\<close>

record Series =
  ser_count :: int
  ser_sum :: float64
  ser_peak :: float64
  ser_first :: float64
  ser_last :: float64
  ser_nonZero :: int
  ser_hasFirst :: bool

definition newSeries :: Series where
  "newSeries = \<lparr>ser_count = 0, ser_sum = fzero, ser_peak = fzero, ser_first = fzero,
     ser_last = fzero, ser_nonZero = 0, ser_hasFirst = False\<rparr>"

definition observe :: "string \<Rightarrow> Series \<Rightarrow> MonitoringSample \<Rightarrow> Series" where
  "observe key s sample =
     (let (value, ok) = ms_Value sample key in
      if \<not> ok then s
      else
        let s = s\<lparr>ser_count := ser_count s + 1, ser_sum := fadd (ser_sum s) value\<rparr>;
            s = (if \<not> ser_hasFirst s then s\<lparr>ser_first := value, ser_hasFirst := True\<rparr> else s);
            s = s\<lparr>ser_last := value\<rparr>;
            s = (if fless (ser_peak s) value then s\<lparr>ser_peak := value\<rparr> else s)
        in if fless fzero value then s\<lparr>ser_nonZero := ser_nonZero s + 1\<rparr> else s)"

text \<open>The loop \<open>for _, sample := range samples\<close> of the verdicts, for one metric.\<close>

definition series_of :: "string \<Rightarrow> MonitoringSample list \<Rightarrow> Series" where
  "series_of key samples = foldl (observe key) newSeries samples"

definition ser_mean :: "Series \<Rightarrow> float64" where
  "ser_mean s = (if ser_count s = 0 then fzero else fdiv (ser_sum s) (f_of_int (ser_count s)))"

definition fractionActive :: "Series \<Rightarrow> float64" where
  "fractionActive s = (if ser_count s = 0 then fzero
     else fdiv (f_of_int (ser_nonZero s)) (f_of_int (ser_count s)))"

definition declinePercent :: "Series \<Rightarrow> float64" where
  "declinePercent s = (if ser_count s < 3 \<or> fle (ser_peak s) fzero then fzero
     else fdiv (fmul (fsub (ser_peak s) (ser_last s)) (f_of_int 100)) (ser_peak s))"

subsection \<open>Saturation\<close>

abbreviation SaturationUnknown :: string where "SaturationUnknown \<equiv> ''unknown''"
abbreviation SaturationHeadroom :: string where "SaturationHeadroom \<equiv> ''headroom''"
abbreviation SaturationSaturated :: string where "SaturationSaturated \<equiv> ''saturated''"
abbreviation SaturationConfigLimited :: string where "SaturationConfigLimited \<equiv> ''config_limited''"

datatype SaturationHeadline =
    SatNoMetrics
  | SatSaturated float64 float64     \<comment> \<open>percent of the window with a queue, preemptions per second\<close>
  | SatAtMaxNumSeqs int
  | SatQueuedAt float64
  | SatHeadroom float64

datatype SaturationDetail = DetailNone | DetailRecompute | DetailRaiseLimit | DetailCheckLimit | DetailRaiseLoad

record SaturationVerdict =
  sv_State :: string
  sv_Headline :: SaturationHeadline
  sv_Detail :: SaturationDetail
  sv_AvgWaiting :: float64
  sv_PeakWaiting :: float64
  sv_AvgRunning :: float64
  sv_PeakRunning :: float64
  sv_AvgKVCacheUsage :: float64
  sv_PeakKVCacheUsage :: float64
  sv_PreemptionRate :: float64
  sv_Samples :: int

definition quarter :: float64 where
  "quarter = Fin (1 / 4)"

definition AssessSaturation :: "MonitoringSample list \<Rightarrow> RunConfig \<Rightarrow> SaturationVerdict" where
  "AssessSaturation samples config =
     (let verdict = \<lparr>sv_State = SaturationUnknown, sv_Headline = SatNoMetrics,
            sv_Detail = DetailNone, sv_AvgWaiting = fzero, sv_PeakWaiting = fzero,
            sv_AvgRunning = fzero, sv_PeakRunning = fzero, sv_AvgKVCacheUsage = fzero,
            sv_PeakKVCacheUsage = fzero, sv_PreemptionRate = fzero, sv_Samples = 0\<rparr>;
          waiting = series_of MetricRequestsWaiting samples;
          running = series_of MetricRequestsRunning samples;
          kv = series_of MetricKVCacheUsage samples;
          preemptions = series_of MetricPreemptionRate samples
      in if ser_count waiting = 0 \<and> ser_count kv = 0 then verdict
         else
           let verdict = verdict\<lparr>sv_Samples := max (ser_count waiting) (ser_count kv),
                 sv_AvgWaiting := ser_mean waiting, sv_PeakWaiting := ser_peak waiting,
                 sv_AvgRunning := ser_mean running, sv_PeakRunning := ser_peak running,
                 sv_AvgKVCacheUsage := ser_mean kv, sv_PeakKVCacheUsage := ser_peak kv,
                 sv_PreemptionRate := ser_mean preemptions\<rparr>;
               sustainedQueue = (ser_count waiting > 0 \<and> fle quarter (fractionActive waiting));
               preempting = fless fzero (ser_peak preemptions);
               maxSeqs = sc_MaxNumSeqs (rc_Server config)
           in if sustainedQueue \<and> preempting then
                verdict\<lparr>sv_State := SaturationSaturated,
                  sv_Headline := SatSaturated (fmul (fractionActive waiting) (f_of_int 100))
                                   (ser_mean preemptions),
                  sv_Detail := DetailRecompute\<rparr>
              else if sustainedQueue \<and> maxSeqs > 0 \<and> fle (f_of_int maxSeqs) (ser_peak running) then
                verdict\<lparr>sv_State := SaturationConfigLimited,
                  sv_Headline := SatAtMaxNumSeqs maxSeqs, sv_Detail := DetailRaiseLimit\<rparr>
              else if sustainedQueue then
                verdict\<lparr>sv_State := SaturationConfigLimited,
                  sv_Headline := SatQueuedAt (ser_peak running), sv_Detail := DetailCheckLimit\<rparr>
              else
                verdict\<lparr>sv_State := SaturationHeadroom,
                  sv_Headline := SatHeadroom (fmul (ser_mean kv) (f_of_int 100)),
                  sv_Detail := DetailRaiseLoad\<rparr>)"

subsection \<open>Validity of the measurement\<close>

datatype InvalidReason =
    XIDErrors float64
  | PowerThrottled
  | ThermalThrottled
  | CorruptedOutput
  | ClockDropped float64
  | BypassButCached float64
  | ReuseButUncached float64

record RunValidity =
  rv_Trustworthy :: bool
  rv_Reasons :: "InvalidReason list"

definition rv_add :: "InvalidReason \<Rightarrow> RunValidity \<Rightarrow> RunValidity" where
  "rv_add reason v = v\<lparr>rv_Trustworthy := False, rv_Reasons := rv_Reasons v @ [reason]\<rparr>"

text \<open>The source's literals \<open>0.5\<close> and \<open>0.2\<close> (the double nearest to a fifth).\<close>

definition half :: float64 where
  "half = Fin (1 / 2)"

definition fifth :: float64 where
  "fifth = mk_float (1 / 5)"

definition AssessRunValidity :: "MonitoringSample list \<Rightarrow> RunResult \<Rightarrow> RunConfig \<Rightarrow> RunValidity" where
  "AssessRunValidity samples result config =
     (let v = \<lparr>rv_Trustworthy = True, rv_Reasons = []\<rparr>;
          xid = series_of MetricXIDErrors samples;
          power = series_of MetricPowerViolationRate samples;
          thermal = series_of MetricThermalViolationRate samples;
          corrupted = series_of MetricCorruptedRate samples;
          clock = series_of MetricSMClockMHz samples;
          prefix = series_of MetricPrefixCacheHitRate samples;
          v = (if fless fzero (ser_peak xid) then rv_add (XIDErrors (ser_peak xid)) v else v);
          v = (if fless fzero (ser_peak power) then rv_add PowerThrottled v else v);
          v = (if fless fzero (ser_peak thermal) then rv_add ThermalThrottled v else v);
          v = (if fless fzero (ser_peak corrupted) then rv_add CorruptedOutput v else v);
          drop = declinePercent clock;
          v = (if fle (f_of_int 5) drop then rv_add (ClockDropped drop) v else v)
      in if ser_count prefix > 0 then
           let hit = ser_mean prefix in
           if rc_CachePolicy config = CachePolicyBypass then
             (if fless half hit then rv_add (BypassButCached (fmul hit (f_of_int 100))) v else v)
           else if rc_CachePolicy config = CachePolicyReuse then
             (if fless hit fifth then rv_add (ReuseButUncached (fmul hit (f_of_int 100))) v else v)
           else v
         else v)"

subsection \<open>Attribution of the time to first token\<close>

abbreviation AttributionUnknown :: string where "AttributionUnknown \<equiv> ''unknown''"
abbreviation AttributionServer :: string where "AttributionServer \<equiv> ''server_bound''"
abbreviation AttributionExternal :: string where "AttributionExternal \<equiv> ''client_or_network_bound''"
abbreviation AttributionMismatch :: string where "AttributionMismatch \<equiv> ''metrics_not_this_run''"

datatype AttributionHeadline =
    AttrNoMetrics
  | AttrMismatch float64 float64 int
  | AttrUnexplained int float64 float64
  | AttrExplained int float64 float64

record LatencyAttribution =
  la_Available :: bool
  la_Verdict :: string
  la_Headline :: AttributionHeadline
  la_ClientTTFTMillis :: int
  la_ServerQueueMillis :: float64
  la_ServerPrefillMillis :: float64
  la_AccountedMillis :: float64
  la_UnaccountedMillis :: float64
  la_UnaccountedPercent :: float64

definition unaccountedLimitPercent :: float64 where
  "unaccountedLimitPercent = f_of_int 30"

text \<open>The double nearest to \<open>1.2\<close>.\<close>

definition mismatchTolerance :: float64 where
  "mismatchTolerance = mk_float (12 / 10)"

definition AttributeTTFT :: "RunResult \<Rightarrow> MonitoringSample list \<Rightarrow> LatencyAttribution" where
  "AttributeTTFT result samples =
     (let att = \<lparr>la_Available = False, la_Verdict = AttributionUnknown,
            la_Headline = AttrNoMetrics, la_ClientTTFTMillis = 0, la_ServerQueueMillis = fzero,
            la_ServerPrefillMillis = fzero, la_AccountedMillis = fzero,
            la_UnaccountedMillis = fzero, la_UnaccountedPercent = fzero\<rparr>;
          queue = series_of MetricQueueTimeP95 samples;
          prefill = series_of MetricPrefillTimeP95 samples;
          client = ds_P95Millis (rr_TTFT result);
          client = (if client = 0 then rr_TTFTP95Millis result else client)
      in if client = 0 \<or> (ser_count queue = 0 \<and> ser_count prefill = 0) then att
         else
           let accounted = fadd (ser_mean queue) (ser_mean prefill);
               unaccounted = fsub (f_of_int client) accounted;
               unaccounted = (if fless unaccounted fzero then fzero else unaccounted);
               percent = fdiv (fmul unaccounted (f_of_int 100)) (f_of_int client);
               att = att\<lparr>la_Available := True, la_ClientTTFTMillis := client,
                 la_ServerQueueMillis := ser_mean queue, la_ServerPrefillMillis := ser_mean prefill,
                 la_AccountedMillis := accounted, la_UnaccountedMillis := unaccounted,
                 la_UnaccountedPercent := percent\<rparr>
           in if fless (fmul (f_of_int client) mismatchTolerance) accounted then
                att\<lparr>la_Verdict := AttributionMismatch,
                  la_Headline := AttrMismatch (ser_mean queue) (ser_mean prefill) client\<rparr>
              else if fless unaccountedLimitPercent percent then
                att\<lparr>la_Verdict := AttributionExternal,
                  la_Headline := AttrUnexplained client unaccounted percent\<rparr>
              else
                att\<lparr>la_Verdict := AttributionServer,
                  la_Headline := AttrExplained client (ser_mean queue) (ser_mean prefill)\<rparr>)"

subsection \<open>What the accumulator computes\<close>

text \<open>The values a metric had in the samples that measured it.\<close>

definition metric_values :: "string \<Rightarrow> MonitoringSample list \<Rightarrow> float64 list" where
  "metric_values key samples =
     concat (map (\<lambda>s. case fmlookup (ms_Metrics s) key of None \<Rightarrow> [] | Some v \<Rightarrow> [v]) samples)"

lemma metric_values_Nil [simp]: "metric_values key [] = []"
  by (simp add: metric_values_def)

lemma metric_values_snoc [simp]: "metric_values key (xs @ [x]) =
    metric_values key xs @ (case fmlookup (ms_Metrics x) key of None \<Rightarrow> [] | Some v \<Rightarrow> [v])"
  by (simp add: metric_values_def)

lemma length_metric_values: "length (metric_values key samples) \<le> length samples"
  by (induction samples) (auto simp: metric_values_def split: option.split)

lemma series_of_snoc: "series_of key (xs @ [x]) = observe key (series_of key xs) x"
  by (simp add: series_of_def)

lemma observe_None [simp]: "fmlookup (ms_Metrics x) key = None \<Longrightarrow> observe key s x = s"
  by (simp add: observe_def ms_Value_def)

lemma observe_Some [simp]:
  assumes "fmlookup (ms_Metrics x) key = Some v"
  shows "ser_count (observe key s x) = ser_count s + 1"
    "ser_nonZero (observe key s x) = ser_nonZero s + (if fless fzero v then 1 else 0)"
    "ser_peak (observe key s x) = (if fless (ser_peak s) v then v else ser_peak s)"
    "ser_sum (observe key s x) = fadd (ser_sum s) v"
    "ser_last (observe key s x) = v"
  using assms by (simp_all add: observe_def ms_Value_def Let_def)

lemma series_of_Nil [simp]: "series_of key [] = newSeries"
  by (simp add: series_of_def)

lemma series_count: "ser_count (series_of key samples) = int (length (metric_values key samples))"
proof (induction samples rule: rev_induct)
  case (snoc x xs)
  then show ?case by (cases "fmlookup (ms_Metrics x) key") (simp_all add: series_of_snoc)
qed (simp add: newSeries_def)

lemma series_nonZero: "ser_nonZero (series_of key samples) =
    int (length (filter (fless fzero) (metric_values key samples)))"
proof (induction samples rule: rev_induct)
  case (snoc x xs)
  then show ?case by (cases "fmlookup (ms_Metrics x) key") (simp_all add: series_of_snoc)
qed (simp add: newSeries_def)

lemma series_sum: "ser_sum (series_of key samples) = foldl fadd fzero (metric_values key samples)"
proof (induction samples rule: rev_induct)
  case (snoc x xs)
  then show ?case by (cases "fmlookup (ms_Metrics x) key") (simp_all add: series_of_snoc)
qed (simp add: newSeries_def)

text \<open>The peak is reached by zero or by a measured value, and bounds every measured number.\<close>

lemma series_peak:
  "ser_peak (series_of key samples) \<in> insert fzero (set (metric_values key samples)) \<and>
   ser_peak (series_of key samples) \<noteq> NaN \<and>
   (\<forall>v \<in> insert fzero (set (metric_values key samples)).
      v \<noteq> NaN \<longrightarrow> fle v (ser_peak (series_of key samples)))"
proof (induction samples rule: rev_induct)
  case Nil
  then show ?case by (simp add: newSeries_def fzero_def)
next
  case (snoc x xs)
  let ?p = "ser_peak (series_of key xs)"
  show ?case
  proof (cases "fmlookup (ms_Metrics x) key")
    case None
    with snoc show ?thesis by (simp add: series_of_snoc)
  next
    case (Some v)
    have "fle ?p v" if "fless ?p v" using that by (simp add: fle_def)
    moreover have "fle v ?p" if "\<not> fless ?p v" "v \<noteq> NaN"
      using that snoc by (simp add: fle_not_less)
    moreover have "v \<noteq> NaN" if "fless ?p v" using that by auto
    moreover have "v \<noteq> NaN \<Longrightarrow> fle v v" by (simp add: fle_def feq_iff)
    ultimately show ?thesis
      using snoc Some by (auto simp: series_of_snoc intro: fle_trans)
  qed
qed

lemma series_peak_ge:
  assumes "fless fzero t \<or> t = fzero"
  shows "fless t (ser_peak (series_of key samples)) \<longleftrightarrow>
    (\<exists>v \<in> set (metric_values key samples). fless t v)"
proof -
  let ?p = "ser_peak (series_of key samples)"
  note P = series_peak [of key samples]
  have "fless t ?p \<Longrightarrow> ?p \<noteq> fzero"
    using assms fless_imp_not_less by fastforce
  moreover have "fless t v \<Longrightarrow> fle v ?p \<Longrightarrow> fless t ?p" for v
    by (cases t; cases v; cases ?p) (auto simp: fle_def)
  moreover have "fless t v \<Longrightarrow> v \<noteq> NaN" for v by auto
  ultimately show ?thesis using P by blast
qed

lemma fraction_at_least_quarter:
  assumes "0 \<le> a" "a \<le> b" "0 < b" "b \<le> 2 ^ 52"
  shows "fle quarter (fdiv (f_of_int a) (f_of_int b)) \<longleftrightarrow> b \<le> 4 * a"
proof -
  let ?r = "of_int a / of_int b :: rat"
  have d: "fdiv (f_of_int a) (f_of_int b) = mk_float ?r"
    using assms by (simp add: f_of_int_exact)
  have q: "quarter = mk_float (1 / 4)"
    using mk_float_dyadic [of 1 2] by (simp add: quarter_def)
  have bpos: "0 < (of_int b :: rat)" using assms(3) by simp
  show ?thesis
  proof (cases "b \<le> 4 * a")
    case True
    then have "(of_int b :: rat) \<le> of_int (4 * a)" by (simp only: of_int_le_iff)
    then have "1 / 4 \<le> ?r" using bpos by (simp add: field_simps)
    then show ?thesis unfolding d q using True mk_float_mono by simp
  next
    case False
    let ?u = "of_int (2 ^ 52 - 1) / 2 ^ 54 :: rat"
    have "(of_int (4 * a + 1) :: rat) \<le> of_int b" using False by (simp only: of_int_le_iff)
    then have "?r \<le> 1 / 4 - 1 / (4 * of_int b)" using bpos by (simp add: field_simps)
    also have "\<dots> \<le> ?u"
    proof -
      have "(of_int b :: rat) \<le> of_int (2 ^ 52)" using assms(4) by (simp only: of_int_le_iff)
      then have "1 / 2 ^ 54 \<le> 1 / (4 * of_int b :: rat)"
        using bpos by (intro divide_left_mono) auto
      then show ?thesis by simp
    qed
    finally have "fle (mk_float ?r) (mk_float ?u)" by (rule mk_float_mono)
    moreover have "mk_float ?u = Fin ?u" by (rule mk_float_dyadic) auto
    ultimately have "fle (mk_float ?r) (Fin ?u)" by simp
    moreover have "fless (Fin ?u) quarter" by (simp add: quarter_def)
    ultimately have "\<not> fle quarter (mk_float ?r)"
      using fle_less_trans fle_less_trans [of quarter "mk_float ?r"] fless_irrefl by blast
    with False d show ?thesis by simp
  qed
qed

lemma sustained_queue_iff:
  fixes key :: string
  assumes "length samples \<le> 2 ^ 52"
  defines "N \<equiv> metric_values key samples"
  shows "ser_count (series_of key samples) > 0 \<and> fle quarter (fractionActive (series_of key samples))
    \<longleftrightarrow> N \<noteq> [] \<and> length N \<le> 4 * length (filter (fless fzero) N)"
proof (cases "N = []")
  case False
  have "int (length N) \<le> int (2 ^ 52)"
    using length_metric_values [of key samples] assms by (simp only: N_def of_nat_le_iff)
  then have "fle quarter (fdiv (f_of_int (int (length (filter (fless fzero) N))))
      (f_of_int (int (length N)))) \<longleftrightarrow>
      int (length N) \<le> 4 * int (length (filter (fless fzero) N))"
    using False by (intro fraction_at_least_quarter) auto
  moreover have "fractionActive (series_of key samples) =
      fdiv (f_of_int (int (length (filter (fless fzero) N)))) (f_of_int (int (length N)))"
    using False by (simp add: fractionActive_def series_count series_nonZero N_def)
  ultimately have "fle quarter (fractionActive (series_of key samples)) \<longleftrightarrow>
      int (length N) \<le> 4 * int (length (filter (fless fzero) N))"
    by simp
  moreover have "int (length N) \<le> 4 * int (length (filter (fless fzero) N)) \<longleftrightarrow>
      length N \<le> 4 * length (filter (fless fzero) N)"
    by presburger
  ultimately show ?thesis using False by (simp add: series_count N_def)
qed (simp add: series_count N_def)

lemma saturation_state:
  "sv_State (AssessSaturation samples config) =
    (let waiting = series_of MetricRequestsWaiting samples; kv = series_of MetricKVCacheUsage samples;
         queue = (ser_count waiting > 0 \<and> fle quarter (fractionActive waiting))
     in if ser_count waiting = 0 \<and> ser_count kv = 0 then SaturationUnknown
        else if queue \<and> fless fzero (ser_peak (series_of MetricPreemptionRate samples))
          then SaturationSaturated
        else if queue then SaturationConfigLimited
        else SaturationHeadroom)"
  by (simp add: AssessSaturation_def Let_def)

definition rv_of :: "InvalidReason list \<Rightarrow> RunValidity" where
  "rv_of reasons = \<lparr>rv_Trustworthy = (reasons = []), rv_Reasons = reasons\<rparr>"

lemma rv_add_if:
  "(if b then rv_add r (rv_of rs) else rv_of rs) = rv_of (rs @ (if b then [r] else []))"
  by (simp add: rv_add_def rv_of_def)

lemma rv_of_start: "\<lparr>rv_Trustworthy = True, rv_Reasons = []\<rparr> = rv_of []"
  by (simp add: rv_of_def)

lemma rv_of_if: "(if b then rv_of rs else rv_of ss) = rv_of (if b then rs else ss)"
  by simp

lemma rv_of_fields [simp]: "rv_Trustworthy (rv_of rs) \<longleftrightarrow> rs = []" "rv_Reasons (rv_of rs) = rs"
  by (simp_all add: rv_of_def)

lemma if_eq_Nil: "(if b then xs else ys) = [] \<longleftrightarrow> (if b then xs = [] else ys = [])"
  by simp

subsection \<open>Properties\<close>

text \<open>C23. The saturation verdict is exactly this: unknown
  without queue and cache metrics; otherwise a queue is sustained when at least a quarter of the
  samples that measured it saw someone waiting, and the server is saturated when a queue is
  sustained and some sample saw preemption, limited by its configuration when there was no
  preemption, and has headroom when no queue was sustained. The cache usage never decides it. (The
  comment in the code calls a queue sustained when most samples saw someone waiting; the code asks for a
  quarter of them, and so does this statement.)\<close>

theorem saturation_needs_queue_and_preemption:
  assumes "length samples \<le> 2 ^ 52"
  shows "sv_State (AssessSaturation samples config) =
    (let waiting = metric_values MetricRequestsWaiting samples;
         queue = (waiting \<noteq> [] \<and> length waiting \<le> 4 * length (filter (fless fzero) waiting))
     in if waiting = [] \<and> metric_values MetricKVCacheUsage samples = [] then SaturationUnknown
        else if queue \<and> (\<exists>v \<in> set (metric_values MetricPreemptionRate samples). fless fzero v)
          then SaturationSaturated
        else if queue then SaturationConfigLimited
        else SaturationHeadroom)"
  unfolding saturation_state Let_def sustained_queue_iff [OF assms]
  unfolding series_count by (simp add: series_peak_ge)

text \<open>A run with a queue in half of its seconds and one preemption.\<close>

definition saturated_samples :: "MonitoringSample list" where
  "saturated_samples = map (\<lambda>(w, p). \<lparr>ms_AtSecond = 0, ms_Status = ''collected'', ms_Backend = ''vllm'',
     ms_Message = [], ms_Metrics = fmupd MetricRequestsWaiting (Fin w)
       (fmupd MetricPreemptionRate (Fin p) fmempty)\<rparr>) [(0, 0), (3, 1)]"

theorem saturation_needs_queue_and_preemption_witness:
  "sv_State (AssessSaturation saturated_samples zero_RunConfig) = SaturationSaturated"
proof -
  have "metric_values MetricRequestsWaiting saturated_samples = [Fin 0, Fin 3]"
    "metric_values MetricPreemptionRate saturated_samples = [Fin 0, Fin 1]"
    by (simp_all add: metric_values_def saturated_samples_def)
  then show ?thesis
    using saturation_needs_queue_and_preemption [of saturated_samples zero_RunConfig]
    by (simp add: Let_def fzero_def saturated_samples_def)
qed

text \<open>A measurement is trustworthy exactly when no reason against it was
  recorded, and that is exactly when no GPU error, power or thermal violation or corrupted output
  was ever measured above zero, the SM clock did not end at least 5 percent below its peak, and the
  prefix cache hit rate, if measured, does not contradict the cache policy of the run.\<close>

theorem untrusted_iff_a_reason:
  "let v = AssessRunValidity samples result config;
       above = (\<lambda>key. \<exists>x \<in> set (metric_values key samples). fless fzero x);
       prefix = series_of MetricPrefixCacheHitRate samples
   in (rv_Trustworthy v \<longleftrightarrow> rv_Reasons v = []) \<and>
      (rv_Trustworthy v \<longleftrightarrow>
         \<not> above MetricXIDErrors \<and> \<not> above MetricPowerViolationRate \<and>
         \<not> above MetricThermalViolationRate \<and> \<not> above MetricCorruptedRate \<and>
         \<not> fle (f_of_int 5) (declinePercent (series_of MetricSMClockMHz samples)) \<and>
         (metric_values MetricPrefixCacheHitRate samples = [] \<or>
            \<not> (rc_CachePolicy config = CachePolicyBypass \<and> fless half (ser_mean prefix)) \<and>
            \<not> (rc_CachePolicy config = CachePolicyReuse \<and> fless (ser_mean prefix) fifth)))"
  unfolding AssessRunValidity_def Let_def rv_of_start rv_add_if rv_of_if rv_of_fields if_eq_Nil
    append_is_Nil_conv
  by (simp add: series_peak_ge series_count)

subsection \<open>Attribution of non-negative measurements\<close>

definition fnonneg :: "float64 \<Rightarrow> bool" where
  "fnonneg a \<longleftrightarrow> fle fzero a"

lemma fnonneg_simps [simp]: "fnonneg (Fin x) \<longleftrightarrow> 0 \<le> x" "fnonneg PInf" "\<not> fnonneg NInf" "\<not> fnonneg NaN"
  by (simp_all add: fnonneg_def fzero_def) (simp_all add: fle_def)

lemma fnonneg_mk_float: "0 \<le> x \<Longrightarrow> fnonneg (mk_float x)"
  using mk_float_mono [of 0 x] mk_float_of_int [of 0] by (simp add: fnonneg_def fzero_def)

lemma fnonneg_fadd: "fnonneg a \<Longrightarrow> fnonneg b \<Longrightarrow> fnonneg (fadd a b)"
  by (cases a; cases b) (auto intro: fnonneg_mk_float)

lemma fnonneg_foldl: "fnonneg a \<Longrightarrow> \<forall>v \<in> set vs. fnonneg v \<Longrightarrow> fnonneg (foldl fadd a vs)"
  by (induction vs arbitrary: a) (auto intro: fnonneg_fadd)

lemma fnonneg_fdiv_int: "fnonneg a \<Longrightarrow> 0 < n \<Longrightarrow> n \<le> 2 ^ 53 \<Longrightarrow> fnonneg (fdiv a (f_of_int n))"
  by (cases a) (auto simp: f_of_int_exact intro: fnonneg_mk_float)

lemma fnonneg_mean:
  assumes "\<forall>v \<in> set (metric_values key samples). fnonneg v" "length samples \<le> 2 ^ 52"
  shows "fnonneg (ser_mean (series_of key samples))"
proof -
  have "int (length (metric_values key samples)) \<le> int (2 ^ 52)"
    using length_metric_values [of key samples] assms(2) by (simp only: of_nat_le_iff)
  then show ?thesis
    using assms(1) by (auto simp: ser_mean_def series_count series_sum fzero_def
        intro!: fnonneg_fdiv_int fnonneg_foldl)
qed

definition client_ttft :: "RunResult \<Rightarrow> int" where
  "client_ttft result = (if ds_P95Millis (rr_TTFT result) = 0 then rr_TTFTP95Millis result
     else ds_P95Millis (rr_TTFT result))"

lemma attribution_available:
  "la_Available (AttributeTTFT result samples) \<longleftrightarrow> client_ttft result \<noteq> 0 \<and>
    (metric_values MetricQueueTimeP95 samples \<noteq> [] \<or> metric_values MetricPrefillTimeP95 samples \<noteq> [])"
  by (simp add: AttributeTTFT_def client_ttft_def Let_def series_count)

lemma attribution_if:
  "la_ClientTTFTMillis (if b then x else y) = (if b then la_ClientTTFTMillis x else la_ClientTTFTMillis y)"
  "la_AccountedMillis (if b then x else y) = (if b then la_AccountedMillis x else la_AccountedMillis y)"
  "la_UnaccountedMillis (if b then x else y) =
     (if b then la_UnaccountedMillis x else la_UnaccountedMillis y)"
  "la_UnaccountedPercent (if b then x else y) =
     (if b then la_UnaccountedPercent x else la_UnaccountedPercent y)"
  "la_Verdict (if b then x else y) = (if b then la_Verdict x else la_Verdict y)"
  by simp_all

lemma attribution_fields:
  fixes result samples
  defines "a \<equiv> AttributeTTFT result samples"
  assumes "la_Available a"
  shows "la_ClientTTFTMillis a = client_ttft result"
    "la_AccountedMillis a = fadd (ser_mean (series_of MetricQueueTimeP95 samples))
       (ser_mean (series_of MetricPrefillTimeP95 samples))"
    "la_UnaccountedMillis a = (let u = fsub (f_of_int (client_ttft result)) (la_AccountedMillis a)
       in if fless u fzero then fzero else u)"
    "la_UnaccountedPercent a =
       fdiv (fmul (la_UnaccountedMillis a) (f_of_int 100)) (f_of_int (client_ttft result))"
    "la_Verdict a = (if fless (fmul (f_of_int (client_ttft result)) mismatchTolerance)
         (la_AccountedMillis a) then AttributionMismatch
       else if fless unaccountedLimitPercent (la_UnaccountedPercent a) then AttributionExternal
       else AttributionServer)"
proof -
  have "\<not> (client_ttft result = 0 \<or> ser_count (series_of MetricQueueTimeP95 samples) = 0 \<and>
      ser_count (series_of MetricPrefillTimeP95 samples) = 0)"
    using assms(2) by (simp add: a_def attribution_available series_count)
  note a = a_def [unfolded AttributeTTFT_def Let_def, folded client_ttft_def, unfolded if_not_P [OF this]]
  show "la_ClientTTFTMillis a = client_ttft result"
    "la_AccountedMillis a = fadd (ser_mean (series_of MetricQueueTimeP95 samples))
       (ser_mean (series_of MetricPrefillTimeP95 samples))"
    "la_UnaccountedMillis a = (let u = fsub (f_of_int (client_ttft result)) (la_AccountedMillis a)
       in if fless u fzero then fzero else u)"
    "la_UnaccountedPercent a =
       fdiv (fmul (la_UnaccountedMillis a) (f_of_int 100)) (f_of_int (client_ttft result))"
    "la_Verdict a = (if fless (fmul (f_of_int (client_ttft result)) mismatchTolerance)
         (la_AccountedMillis a) then AttributionMismatch
       else if fless unaccountedLimitPercent (la_UnaccountedPercent a) then AttributionExternal
       else AttributionServer)"
    unfolding a Let_def by (simp_all add: attribution_if cong: if_cong split del: if_split)
qed

lemma attribution_not_available:
  "\<not> la_Available (AttributeTTFT result samples) \<Longrightarrow>
   la_Verdict (AttributeTTFT result samples) = AttributionUnknown"
  by (auto simp: AttributeTTFT_def Let_def split: if_splits)

lemma unaccounted_range:
  assumes "fnonneg acc" "0 < c" "c \<le> 2 ^ 46"
  defines "u \<equiv> (let u = fsub (f_of_int c) acc in if fless u fzero then fzero else u)"
  shows "\<exists>q. u = Fin q \<and> 0 \<le> q \<and> q \<le> of_int c"
proof -
  have c: "f_of_int c = Fin (of_int c)" using assms(2,3) by (intro f_of_int_exact) auto
  show ?thesis
  proof (cases acc)
    case (Fin x)
    then have x: "0 \<le> x" using assms(1) by simp
    have "fle (mk_float (of_int c - x)) (Fin (of_int c))"
      using mk_float_mono [of "of_int c - x" "of_int c"] x mk_float_of_int [of c] assms(2,3) by simp
    then show ?thesis
      using assms(2) unfolding u_def Let_def c Fin fsub_def fzero_def
      by (cases "mk_float (of_int c - x)") (auto simp: fle_def)
  qed (use assms in \<open>auto simp: u_def c fsub_def fzero_def Let_def\<close>)
qed

lemma percent_of_range:
  assumes "0 \<le> q" "q \<le> of_int c" "0 < c" "c \<le> 2 ^ 46"
  shows "\<exists>r. fdiv (fmul (Fin q) (f_of_int 100)) (f_of_int c) = Fin r \<and> 0 \<le> r \<and> r \<le> 100"
proof -
  have c: "f_of_int c = Fin (of_int c)" "f_of_int 100 = Fin 100"
    using assms(3,4) f_of_int_exact [of 100] by (auto intro!: f_of_int_exact)
  obtain m where m: "mk_float (q * 100) = Fin m" "0 \<le> m" "m \<le> of_int (c * 100)"
    using mk_float_range [of 0 "q * 100" "c * 100"] assms by auto
  have "m / of_int c \<le> of_int 100" using m(3) assms(3) by (simp add: divide_le_eq mult.commute)
  moreover have "of_int 0 \<le> m / of_int c" using m(2) assms(3) by simp
  ultimately have "\<exists>r. mk_float (m / of_int c) = Fin r \<and> of_int 0 \<le> r \<and> r \<le> of_int 100"
    by (intro mk_float_range) auto
  then show ?thesis using m(1) assms(3) by (simp add: c)
qed

text \<open>The mean of measured values, zero when there are none.\<close>

definition mean_of :: "float64 list \<Rightarrow> float64" where
  "mean_of vs = (if vs = [] then fzero else fdiv (foldl fadd fzero vs) (f_of_int (int (length vs))))"

lemma series_mean: "ser_mean (series_of key samples) = mean_of (metric_values key samples)"
  by (simp add: ser_mean_def mean_of_def series_count series_sum)

text \<open>C21. When the server's queue and prefill times are non-negative and
  the client's P95 time to first token is between 1 and \<open>2 ^ 46\<close> milliseconds, the time accounted for is
  the mean queue time plus the mean prefill time of the samples, the unaccounted time is what is left of
  the client's time, or zero, and its share is a finite percentage between 0 and 100. The verdict is
  decided by them: other traffic when the server accounts for more than 1.2 times the client's time,
  otherwise outside the server when over 30 percent is unexplained, otherwise the server. (The README
  refuses the attribution as soon as the server's time exceeds the client's; the code from 1.2 times on.)\<close>

theorem attribution_is_a_partition:
  assumes "\<forall>v \<in> set (metric_values MetricQueueTimeP95 samples) \<union>
      set (metric_values MetricPrefillTimeP95 samples). fle fzero v"
    and "length samples \<le> 2 ^ 52"
    and "0 < client_ttft result" "client_ttft result \<le> 2 ^ 46"
    and "metric_values MetricQueueTimeP95 samples \<noteq> [] \<or> metric_values MetricPrefillTimeP95 samples \<noteq> []"
  shows "let a = AttributeTTFT result samples; client = f_of_int (client_ttft result);
      accounted = fadd (mean_of (metric_values MetricQueueTimeP95 samples)) (mean_of (metric_values MetricPrefillTimeP95 samples));
      rest = fsub client accounted; unaccounted = (if fless rest fzero then fzero else rest);
      beyond = fless (fmul client (mk_float (12 / 10))) accounted
    in la_Available a \<and> la_ClientTTFTMillis a = client_ttft result \<and> la_AccountedMillis a = accounted \<and>
       la_UnaccountedMillis a = unaccounted \<and>
       (\<exists>p. la_UnaccountedPercent a = Fin p \<and> Fin p = fdiv (fmul unaccounted (f_of_int 100)) client \<and> 0 \<le> p \<and> p \<le> 100 \<and>
         (la_Verdict a = AttributionMismatch \<longleftrightarrow> beyond) \<and>
         (la_Verdict a = AttributionExternal \<longleftrightarrow> \<not> beyond \<and> 30 < p) \<and>
         (la_Verdict a = AttributionServer \<longleftrightarrow> \<not> beyond \<and> p \<le> 30))"
proof -
  let ?a = "AttributeTTFT result samples"
  have av: "la_Available ?a" using assms(3,5) by (simp add: attribution_available)
  note f = attribution_fields [OF av]
  have "fnonneg (la_AccountedMillis ?a)"
    unfolding f(2) using assms(1,2) by (intro fnonneg_fadd fnonneg_mean) (auto simp: fnonneg_def)
  then obtain q where q: "la_UnaccountedMillis ?a = Fin q" "0 \<le> q" "q \<le> of_int (client_ttft result)"
    unfolding f(3) using unaccounted_range assms(3,4) by blast
  obtain p where p: "la_UnaccountedPercent ?a = Fin p" "0 \<le> p" "p \<le> 100"
    unfolding f(4) q(1) using percent_of_range [OF q(2,3) assms(3,4)] by blast
  have "fless unaccountedLimitPercent (Fin p) \<longleftrightarrow> 30 < p"
    using f_of_int_exact [of 30] by (simp add: unaccountedLimitPercent_def)
  then show ?thesis
    using p av f(1) f(3) [unfolded Let_def f(2) series_mean] f(4) [symmetric]
      f(5) [unfolded f(2) series_mean mismatchTolerance_def] f(2) [unfolded series_mean]
    by (auto simp: Let_def)
qed

definition queue_samples :: "MonitoringSample list" where
  "queue_samples = [\<lparr>ms_AtSecond = 0, ms_Status = ''collected'', ms_Backend = ''vllm'',
     ms_Message = [], ms_Metrics = fmupd MetricQueueTimeP95 (Fin 40) fmempty\<rparr>]"

theorem attribution_is_a_partition_witness:
  "let a = AttributeTTFT (zero_RunResult\<lparr>rr_TTFTP95Millis := 100\<rparr>) queue_samples
    in la_AccountedMillis a = fadd (mean_of [Fin 40]) fzero \<and> la_ClientTTFTMillis a = 100 \<and>
      (\<exists>p. la_UnaccountedPercent a = Fin p \<and> 0 \<le> p \<and> p \<le> 100)"
proof -
  have c: "client_ttft (zero_RunResult\<lparr>rr_TTFTP95Millis := 100\<rparr>) = 100"
    by (simp add: client_ttft_def zero_RunResult_def zero_Distribution_def)
  have "metric_values MetricQueueTimeP95 queue_samples = [Fin 40]"
    "metric_values MetricPrefillTimeP95 queue_samples = []"
    by (simp_all add: metric_values_def queue_samples_def)
  then show ?thesis
    using attribution_is_a_partition [of queue_samples "zero_RunResult\<lparr>rr_TTFTP95Millis := 100\<rparr>"]
    by (auto simp: c fzero_def queue_samples_def mean_of_def Let_def)
qed

end
