(* ===== verification/Core_Provenance.thy ===== *)
theory Core_Provenance
  imports Core_Types
begin

text \<open>
  \<open>internal/core/provenance.go\<close>: which server settings a run was measured under. The half
  the operator entered and the half scraped from the server's metric labels are merged, their
  contradictions, gaps and differences reported. The report texts are values that record the
  field and the two settings shown. \<open>fmt.Sprintf("%.2f", x)\<close> and
  \<open>fmt.Sscanf(s, "%d", &n)\<close> are modelled as the standard library computes them on byte
  strings; \<open>fmt.Sscanf(s, "%f", &x)\<close> is the parameter \<open>scan_float\<close>.
\<close>

subsection \<open>Formatting and scanning of the standard library\<close>

definition bytes :: "nat list \<Rightarrow> string" where
  "bytes = map char_of"

definition fmt_f2 :: "float64 \<Rightarrow> string" where
  "fmt_f2 x = (case x of
     NaN \<Rightarrow> ''NaN''
   | PInf \<Rightarrow> ''+Inf''
   | NInf \<Rightarrow> ''-Inf''
   | Fin r \<Rightarrow>
       (let n = nat (round_even (\<bar>r\<bar> * 100)); cents = dec_nat (n mod 100)
        in (if r < 0 then ''-'' else []) @ dec_nat (n div 100) @ ''.'' @
           (if n mod 100 < 10 then ''0'' else []) @ cents))"

text \<open>Encodings of the runes \<open>fmt\<close> skips as blanks; a newline is an error instead.\<close>

definition blank_runes :: "string list" where
  "blank_runes = map bytes ([[9], [11], [12], [13], [32], [0xC2, 0x85], [0xC2, 0xA0], [0xE1, 0x9A, 0x80],
     [0xE2, 0x80, 0xA8], [0xE2, 0x80, 0xA9], [0xE2, 0x80, 0xAF], [0xE2, 0x81, 0x9F], [0xE3, 0x80, 0x80]] @
     map (\<lambda>i. [0xE2, 0x80, i]) [0x80..<0x8B])"

definition drop_prefix :: "string \<Rightarrow> string \<Rightarrow> string option" where
  "drop_prefix p s = (if take (length p) s = p then Some (drop (length p) s) else None)"

text \<open>The text after one blank rune, if the text starts with one.\<close>

definition drop_blank :: "string \<Rightarrow> string option" where
  "drop_blank s = (case List.extract (\<lambda>p. drop_prefix p s \<noteq> None) blank_runes of
     None \<Rightarrow> None | Some (_, p, _) \<Rightarrow> drop_prefix p s)"

lemma drop_prefix_shorter: "drop_prefix p s = Some t \<Longrightarrow> p \<noteq> [] \<Longrightarrow> length t < length s"
  by (cases s) (auto simp: drop_prefix_def split: if_splits)

lemma blank_runes_nonempty: "p \<in> set blank_runes \<Longrightarrow> p \<noteq> []"
proof -
  have "\<forall>p \<in> set blank_runes. p \<noteq> []"
    unfolding blank_runes_def bytes_def by simp
  then show "p \<in> set blank_runes \<Longrightarrow> p \<noteq> []" by blast
qed

lemma drop_blank_shorter: "drop_blank s = Some t \<Longrightarrow> length t < length s"
proof -
  assume "drop_blank s = Some t"
  then obtain xs p ys where e: "List.extract (\<lambda>p. drop_prefix p s \<noteq> None) blank_runes = Some (xs, p, ys)"
    "drop_prefix p s = Some t"
    by (auto simp only: drop_blank_def split: option.splits prod.splits)
  from extract_SomeE [OF e(1)] have "p \<in> set blank_runes" by (metis in_set_conv_decomp)
  then show "length t < length s"
    using e(2) drop_prefix_shorter blank_runes_nonempty by metis
qed

function skip_space :: "string \<Rightarrow> string option" where
  "skip_space s =
     (if s \<noteq> [] \<and> hd s = CHR 0x0A then None
      else case drop_blank s of None \<Rightarrow> Some s | Some t \<Rightarrow> skip_space t)"
  by pat_completeness auto
termination by (relation "measure length") (auto dest: drop_blank_shorter)

declare skip_space.simps [simp del]

definition is_digit :: "char \<Rightarrow> bool" where
  "is_digit c \<longleftrightarrow> CHR ''0'' = c \<or> c \<in> set ''123456789''"

definition digit_value :: "char \<Rightarrow> int" where
  "digit_value c = of_char c - 48"

text \<open>\<open>strconv.ParseInt\<close> of a token of digits, and \<open>fmt.Sscanf\<close> with the verb d: blanks, an
  optional sign, at least one digit; whatever follows is left unread.\<close>

definition digits_value :: "string \<Rightarrow> int" where
  "digits_value = foldl (\<lambda>acc c. 10 * acc + digit_value c) 0"

definition scan_int :: "string \<Rightarrow> int option" where
  "scan_int raw = (case skip_space raw of
     None \<Rightarrow> None
   | Some s \<Rightarrow>
       let negative = (s \<noteq> [] \<and> hd s = CHR ''-'');
           s = (if s \<noteq> [] \<and> hd s \<in> set ''+-'' then tl s else s);
           ds = takeWhile is_digit s;
           n = (if negative then - digits_value ds else digits_value ds)
       in if ds = [] \<or> \<not> in64 n then None else Some n)"

subsection \<open>The fields a capacity number depends on\<close>

abbreviation LabelVersion :: string where "LabelVersion \<equiv> ''version''"
abbreviation LabelModel :: string where "LabelModel \<equiv> ''model_name''"
abbreviation LabelBlockSize :: string where "LabelBlockSize \<equiv> ''block_size''"
abbreviation LabelGPUMemoryUtilization :: string where
  "LabelGPUMemoryUtilization \<equiv> ''gpu_memory_utilization''"
abbreviation LabelPrefixCaching :: string where "LabelPrefixCaching \<equiv> ''enable_prefix_caching''"
abbreviation LabelChunkedPrefill :: string where "LabelChunkedPrefill \<equiv> ''enable_chunked_prefill''"
abbreviation LabelMaxNumSeqs :: string where "LabelMaxNumSeqs \<equiv> ''max_num_seqs''"
abbreviation LabelMaxNumBatchedTokens :: string where
  "LabelMaxNumBatchedTokens \<equiv> ''max_num_batched_tokens''"

record provenanceField =
  pf_Label :: string
  pf_Value :: "ServerConfig \<Rightarrow> string"
  pf_AffectsTTFT :: bool

definition intText :: "int \<Rightarrow> string" where
  "intText v = (if v = 0 then [] else dec_int v)"

definition floatText :: "float64 \<Rightarrow> string" where
  "floatText v = (if feq v fzero then [] else fmt_f2 v)"

definition provenanceFields :: "provenanceField list" where
  "provenanceFields =
     [\<lparr>pf_Label = ''vLLM '' @ bytes [0xEB, 0xB2, 0x84, 0xEC, 0xA0, 0x84], pf_Value = sc_Version,
       pf_AffectsTTFT = False\<rparr>,
      \<lparr>pf_Label = bytes [0xEB, 0xAA, 0xA8, 0xEB, 0x8D, 0xB8], pf_Value = sc_Model,
       pf_AffectsTTFT = False\<rparr>,
      \<lparr>pf_Label = ''max_num_seqs'', pf_Value = \<lambda>c. intText (sc_MaxNumSeqs c),
       pf_AffectsTTFT = False\<rparr>,
      \<lparr>pf_Label = ''max_num_batched_tokens'', pf_Value = \<lambda>c. intText (sc_MaxNumBatchedTokens c),
       pf_AffectsTTFT = True\<rparr>,
      \<lparr>pf_Label = ''gpu_memory_utilization'', pf_Value = \<lambda>c. floatText (sc_GPUMemoryUtilization c),
       pf_AffectsTTFT = False\<rparr>,
      \<lparr>pf_Label = ''block_size'', pf_Value = \<lambda>c. intText (sc_BlockSize c), pf_AffectsTTFT = False\<rparr>,
      \<lparr>pf_Label = ''tensor_parallel_size'', pf_Value = \<lambda>c. intText (sc_TensorParallelSize c),
       pf_AffectsTTFT = False\<rparr>,
      \<lparr>pf_Label = ''prefix caching'', pf_Value = sc_PrefixCaching, pf_AffectsTTFT = True\<rparr>,
      \<lparr>pf_Label = ''chunked prefill'', pf_Value = sc_ChunkedPrefill, pf_AffectsTTFT = True\<rparr>]"

text \<open>\<open>if b { x = f(x) }\<close>.\<close>

definition on_cond :: "bool \<Rightarrow> ('a \<Rightarrow> 'a) \<Rightarrow> 'a \<Rightarrow> 'a" where
  "on_cond b f x = (if b then f x else x)"

definition EffectiveServerConfig :: "ServerConfig \<Rightarrow> ServerConfig \<Rightarrow> ServerConfig" where
  "EffectiveServerConfig entered detected =
     (let merged = entered;
          merged = on_cond (sc_Version detected \<noteq> [])
            (\<lambda>m. m\<lparr>sc_Version := sc_Version detected\<rparr>) merged;
          merged = on_cond (sc_Model detected \<noteq> [])
            (\<lambda>m. m\<lparr>sc_Model := sc_Model detected\<rparr>) merged;
          merged = on_cond (sc_MaxNumSeqs detected > 0)
            (\<lambda>m. m\<lparr>sc_MaxNumSeqs := sc_MaxNumSeqs detected\<rparr>) merged;
          merged = on_cond (sc_MaxNumBatchedTokens detected > 0)
            (\<lambda>m. m\<lparr>sc_MaxNumBatchedTokens := sc_MaxNumBatchedTokens detected\<rparr>) merged;
          merged = on_cond (fless fzero (sc_GPUMemoryUtilization detected))
            (\<lambda>m. m\<lparr>sc_GPUMemoryUtilization := sc_GPUMemoryUtilization detected\<rparr>) merged;
          merged = on_cond (sc_BlockSize detected > 0)
            (\<lambda>m. m\<lparr>sc_BlockSize := sc_BlockSize detected\<rparr>) merged;
          merged = on_cond (sc_TensorParallelSize detected > 0)
            (\<lambda>m. m\<lparr>sc_TensorParallelSize := sc_TensorParallelSize detected\<rparr>) merged;
          merged = on_cond (sc_PrefixCaching detected \<noteq> [])
            (\<lambda>m. m\<lparr>sc_PrefixCaching := sc_PrefixCaching detected\<rparr>) merged;
          merged = on_cond (sc_ChunkedPrefill detected \<noteq> [])
            (\<lambda>m. m\<lparr>sc_ChunkedPrefill := sc_ChunkedPrefill detected\<rparr>) merged
      in merged)"

text \<open>A line of a report: the field's label and the two texts it shows (the last argument of a
  difference line is never empty).\<close>

datatype ProvenanceLine =
    Conflict string string string      \<comment> \<open>label, entered value, reported value\<close>
  | Difference string string string    \<comment> \<open>label, left value, right value\<close>

definition ProvenanceConflicts :: "ServerConfig \<Rightarrow> ServerConfig \<Rightarrow> ProvenanceLine list" where
  "ProvenanceConflicts entered detected =
     foldl (\<lambda>conflicts field.
        let mine = pf_Value field entered; theirs = pf_Value field detected
        in if mine = [] \<or> theirs = [] \<or> mine = theirs then conflicts
           else conflicts @ [Conflict (pf_Label field) mine theirs])
       [] provenanceFields"

definition ProvenanceGaps :: "ServerConfig \<Rightarrow> string list \<times> bool" where
  "ProvenanceGaps config =
     foldl (\<lambda>(gaps, ttftComparable) field.
        if pf_Value field config \<noteq> [] then (gaps, ttftComparable)
        else (gaps @ [pf_Label field], if pf_AffectsTTFT field then False else ttftComparable))
       ([], True) provenanceFields"

definition orUnknown :: "string \<Rightarrow> string" where
  "orUnknown v = (if v = [] then bytes [0xEB, 0xAF, 0xB8, 0xED, 0x99, 0x95, 0xEC, 0x9D, 0xB8] else v)"

definition ProvenanceDifferences :: "ServerConfig \<Rightarrow> ServerConfig \<Rightarrow> ProvenanceLine list" where
  "ProvenanceDifferences left right =
     foldl (\<lambda>differences field.
        let a = pf_Value field left; b = pf_Value field right
        in if a = b then differences
           else differences @ [Difference (pf_Label field) (orUnknown a) (orUnknown b)])
       [] provenanceFields"

subsection \<open>Reading a configuration from metric labels\<close>

definition boolLabel :: "string \<Rightarrow> string" where
  "boolLabel raw = (if raw \<in> {''True'', ''true'', ''1'', ''on''} then ''on''
     else if raw \<in> {''False'', ''false'', ''0'', ''off''} then ''off'' else [])"

definition intLabel :: "string \<Rightarrow> int" where
  "intLabel raw = (case scan_int raw of None \<Rightarrow> 0 | Some v \<Rightarrow> if v \<le> 0 then 0 else v)"

definition floatLabel :: "(string \<Rightarrow> float64 option) \<Rightarrow> string \<Rightarrow> float64" where
  "floatLabel scan_float raw = (case scan_float raw of
     None \<Rightarrow> fzero | Some v \<Rightarrow> if fle v fzero then fzero else v)"

definition ServerConfigFromLabels ::
    "(string \<Rightarrow> float64 option) \<Rightarrow> string smap \<Rightarrow> ServerConfig" where
  "ServerConfigFromLabels scan_float labels =
     (let config = zero_ServerConfig\<lparr>sc_Version := get_or [] labels LabelVersion,
            sc_Model := get_or [] labels LabelModel,
            sc_PrefixCaching := boolLabel (get_or [] labels LabelPrefixCaching),
            sc_ChunkedPrefill := boolLabel (get_or [] labels LabelChunkedPrefill)\<rparr>;
          config = config\<lparr>sc_BlockSize := intLabel (get_or [] labels LabelBlockSize)\<rparr>;
          config = config\<lparr>sc_MaxNumSeqs := intLabel (get_or [] labels LabelMaxNumSeqs)\<rparr>;
          config = config\<lparr>sc_MaxNumBatchedTokens :=
            intLabel (get_or [] labels LabelMaxNumBatchedTokens)\<rparr>
      in config\<lparr>sc_GPUMemoryUtilization :=
            floatLabel scan_float (get_or [] labels LabelGPUMemoryUtilization)\<rparr>)"

subsection \<open>Reports as filters\<close>

lemma foldl_filter_map:
  "foldl (\<lambda>acc x. if P x then acc else acc @ [g x]) acc xs = acc @ map g (filter (\<lambda>x. \<not> P x) xs)"
  by (induction xs arbitrary: acc) auto

lemma conflicts_eq: "ProvenanceConflicts entered detected =
    map (\<lambda>f. Conflict (pf_Label f) (pf_Value f entered) (pf_Value f detected))
      (filter (\<lambda>f. pf_Value f entered \<noteq> [] \<and> pf_Value f detected \<noteq> [] \<and>
         pf_Value f entered \<noteq> pf_Value f detected) provenanceFields)"
  unfolding ProvenanceConflicts_def Let_def
  by (subst foldl_filter_map) simp

lemma differences_eq: "ProvenanceDifferences left right =
    map (\<lambda>f. Difference (pf_Label f) (orUnknown (pf_Value f left)) (orUnknown (pf_Value f right)))
      (filter (\<lambda>f. pf_Value f left \<noteq> pf_Value f right) provenanceFields)"
  unfolding ProvenanceDifferences_def Let_def
  by (subst foldl_filter_map) simp

lemma gaps_foldl: "foldl (\<lambda>(gaps, ttft) field. if pf_Value field config \<noteq> [] then (gaps, ttft)
      else (gaps @ [pf_Label field], if pf_AffectsTTFT field then False else ttft)) (gs, t) fs =
    (gs @ map pf_Label (filter (\<lambda>f. pf_Value f config = []) fs),
     t \<and> (\<forall>f \<in> set fs. pf_AffectsTTFT f \<longrightarrow> pf_Value f config \<noteq> []))"
  by (induction fs arbitrary: gs t) auto

lemma gaps_eq: "ProvenanceGaps config =
    (map pf_Label (filter (\<lambda>f. pf_Value f config = []) provenanceFields),
     \<forall>f \<in> set provenanceFields. pf_AffectsTTFT f \<longrightarrow> pf_Value f config \<noteq> [])"
  unfolding ProvenanceGaps_def by (subst gaps_foldl) simp

subsection \<open>The merged configuration, field by field\<close>

lemma dec_int_nonempty [simp]: "dec_int v \<noteq> []"
  by (simp add: dec_int_def)

lemma fmt_f2_nonempty [simp]: "fmt_f2 v \<noteq> []"
  by (auto simp: fmt_f2_def Let_def split: float64.split)

lemma intText_empty [simp]: "intText v = [] \<longleftrightarrow> v = 0"
  by (simp add: intText_def)

lemma floatText_empty [simp]: "floatText v = [] \<longleftrightarrow> v = fzero"
  by (auto simp: floatText_def feq_iff fzero_def)

lemma when_other: "(\<And>x. g (f x) = g x) \<Longrightarrow> g (on_cond b f r) = g r"
  by (simp add: on_cond_def)

lemma when_this: "(\<And>x. g (f x) = v) \<Longrightarrow> g (on_cond b f r) = (if b then v else g r)"
  by (simp add: on_cond_def)

lemma effective_fields [simp]:
  "sc_Version (EffectiveServerConfig e d) = (if sc_Version d \<noteq> [] then sc_Version d else sc_Version e)"
  "sc_Model (EffectiveServerConfig e d) = (if sc_Model d \<noteq> [] then sc_Model d else sc_Model e)"
  "sc_MaxNumSeqs (EffectiveServerConfig e d) =
     (if sc_MaxNumSeqs d > 0 then sc_MaxNumSeqs d else sc_MaxNumSeqs e)"
  "sc_MaxNumBatchedTokens (EffectiveServerConfig e d) =
     (if sc_MaxNumBatchedTokens d > 0 then sc_MaxNumBatchedTokens d else sc_MaxNumBatchedTokens e)"
  "sc_GPUMemoryUtilization (EffectiveServerConfig e d) =
     (if fless fzero (sc_GPUMemoryUtilization d) then sc_GPUMemoryUtilization d
      else sc_GPUMemoryUtilization e)"
  "sc_BlockSize (EffectiveServerConfig e d) =
     (if sc_BlockSize d > 0 then sc_BlockSize d else sc_BlockSize e)"
  "sc_TensorParallelSize (EffectiveServerConfig e d) =
     (if sc_TensorParallelSize d > 0 then sc_TensorParallelSize d else sc_TensorParallelSize e)"
  "sc_PrefixCaching (EffectiveServerConfig e d) =
     (if sc_PrefixCaching d \<noteq> [] then sc_PrefixCaching d else sc_PrefixCaching e)"
  "sc_ChunkedPrefill (EffectiveServerConfig e d) =
     (if sc_ChunkedPrefill d \<noteq> [] then sc_ChunkedPrefill d else sc_ChunkedPrefill e)"
  unfolding EffectiveServerConfig_def Let_def
  subgoal by (simp add: when_other [where g = sc_Version] when_this [where g = sc_Version] cong: if_cong split del: if_split)
  subgoal by (simp add: when_other [where g = sc_Model] when_this [where g = sc_Model] cong: if_cong split del: if_split)
  subgoal by (simp add: when_other [where g = sc_MaxNumSeqs] when_this [where g = sc_MaxNumSeqs] cong: if_cong split del: if_split)
  subgoal by (simp add: when_other [where g = sc_MaxNumBatchedTokens] when_this [where g = sc_MaxNumBatchedTokens] cong: if_cong split del: if_split)
  subgoal by (simp add: when_other [where g = sc_GPUMemoryUtilization] when_this [where g = sc_GPUMemoryUtilization] cong: if_cong split del: if_split)
  subgoal by (simp add: when_other [where g = sc_BlockSize] when_this [where g = sc_BlockSize] cong: if_cong split del: if_split)
  subgoal by (simp add: when_other [where g = sc_TensorParallelSize] when_this [where g = sc_TensorParallelSize] cong: if_cong split del: if_split)
  subgoal by (simp add: when_other [where g = sc_PrefixCaching] when_this [where g = sc_PrefixCaching] cong: if_cong split del: if_split)
  subgoal by (simp add: when_other [where g = sc_ChunkedPrefill] when_this [where g = sc_ChunkedPrefill] cong: if_cong split del: if_split)
  done

text \<open>What \<open>ServerConfigFromLabels\<close> always returns: no negative setting, and no NaN unless the
  scanner produced one.\<close>

definition scraped :: "ServerConfig \<Rightarrow> bool" where
  "scraped c \<longleftrightarrow> 0 \<le> sc_MaxNumSeqs c \<and> 0 \<le> sc_MaxNumBatchedTokens c \<and>
     fle fzero (sc_GPUMemoryUtilization c) \<and> 0 \<le> sc_BlockSize c \<and> 0 \<le> sc_TensorParallelSize c"

lemma intLabel_nonneg [simp]: "0 \<le> intLabel raw"
  by (simp add: intLabel_def split: option.split)

lemma scraped_from_labels:
  assumes "scan_float (get_or [] labels LabelGPUMemoryUtilization) \<noteq> Some NaN"
  shows "scraped (ServerConfigFromLabels scan_float labels)"
proof -
  have "fle fzero (floatLabel scan_float raw)" if "scan_float raw \<noteq> Some NaN" for raw
  proof (cases "scan_float raw")
    case (Some v)
    with that show ?thesis
      by (cases v) (auto simp: floatLabel_def fzero_def fle_def feq_iff)
  qed (simp add: floatLabel_def fzero_def)
  then show ?thesis
    using assms by (simp add: scraped_def ServerConfigFromLabels_def Let_def zero_ServerConfig_def)
qed

lemma effective_value:
  assumes "scraped detected" "f \<in> set provenanceFields"
  shows "pf_Value f (EffectiveServerConfig entered detected) =
    (if pf_Value f detected \<noteq> [] then pf_Value f detected else pf_Value f entered)"
proof -
  have "fless fzero g \<longleftrightarrow> g \<noteq> fzero" if "fle fzero g" for g
    using that by (cases g) (auto simp: fzero_def fle_def feq_iff)
  then show ?thesis
    using assms by (auto simp: provenanceFields_def scraped_def)
qed

subsection \<open>Properties\<close>

text \<open>When the scanner reads no NaN, merging the operator's settings with
  the labels the server reports gives, field by field, the reported text where there is one and the
  entered text otherwise; the gaps of the merged configuration are exactly the fields unknown to
  both; it never contradicts the server; and the operator's entry is reported as contradicting the
  server exactly when one of its known settings was replaced by another text.\<close>

theorem scraped_settings_win:
  assumes "scan_float (get_or [] labels LabelGPUMemoryUtilization) \<noteq> Some NaN"
  shows "let detected = ServerConfigFromLabels scan_float labels;
      merged = EffectiveServerConfig entered detected
    in (\<forall>f \<in> set provenanceFields. pf_Value f merged =
          (if pf_Value f detected \<noteq> [] then pf_Value f detected else pf_Value f entered)) \<and>
       fst (ProvenanceGaps merged) = map pf_Label
         (filter (\<lambda>f. pf_Value f entered = [] \<and> pf_Value f detected = []) provenanceFields) \<and>
       ProvenanceConflicts merged detected = [] \<and>
       (ProvenanceConflicts entered detected = [] \<longleftrightarrow>
          (\<forall>f \<in> set provenanceFields. pf_Value f entered \<noteq> [] \<longrightarrow>
             pf_Value f merged = pf_Value f entered))"
proof -
  define d where "d = ServerConfigFromLabels scan_float labels"
  define m where "m = EffectiveServerConfig entered d"
  have v: "\<forall>f \<in> set provenanceFields. pf_Value f m =
      (if pf_Value f d \<noteq> [] then pf_Value f d else pf_Value f entered)"
    using effective_value [OF scraped_from_labels [of scan_float labels, OF assms]]
    by (simp add: m_def d_def)
  have "filter (\<lambda>f. pf_Value f m = []) provenanceFields =
      filter (\<lambda>f. pf_Value f entered = [] \<and> pf_Value f d = []) provenanceFields"
    using v by (intro filter_cong) auto
  then have g: "fst (ProvenanceGaps m) = map pf_Label
      (filter (\<lambda>f. pf_Value f entered = [] \<and> pf_Value f d = []) provenanceFields)"
    by (simp add: gaps_eq)
  have c: "ProvenanceConflicts m d = []"
    using v by (auto simp: conflicts_eq filter_empty_conv)
  have e: "ProvenanceConflicts entered d = [] \<longleftrightarrow>
      (\<forall>f \<in> set provenanceFields. pf_Value f entered \<noteq> [] \<longrightarrow> pf_Value f m = pf_Value f entered)"
    using v by (auto simp: conflicts_eq filter_empty_conv)
  show ?thesis
    unfolding Let_def d_def [symmetric] m_def [symmetric] using v g c e by blast
qed

theorem scraped_settings_win_witness:
  "ProvenanceConflicts (EffectiveServerConfig (zero_ServerConfig\<lparr>sc_MaxNumSeqs := 256\<rparr>)
      (ServerConfigFromLabels (\<lambda>_. None) (fmupd LabelMaxNumSeqs ''128'' fmempty)))
      (ServerConfigFromLabels (\<lambda>_. None) (fmupd LabelMaxNumSeqs ''128'' fmempty)) = []"
  using scraped_settings_win [of "\<lambda>_. None" "fmupd LabelMaxNumSeqs ''128'' fmempty"
      "zero_ServerConfig\<lparr>sc_MaxNumSeqs := 256\<rparr>"]
  by (simp only: Let_def option.distinct not_False_eq_True simp_thms)

text \<open>C25. A run's time to first token is declared comparable exactly when the
  token budget per step, the prefix cache and the chunked prefill settings are all known, and two
  configurations show no difference exactly when every field has the same text in both; the
  differences of two runs name the same fields in either order.\<close>

theorem ttft_comparable_iff:
  "(snd (ProvenanceGaps c) \<longleftrightarrow>
      sc_MaxNumBatchedTokens c \<noteq> 0 \<and> sc_PrefixCaching c \<noteq> [] \<and> sc_ChunkedPrefill c \<noteq> []) \<and>
   (ProvenanceDifferences c c' = [] \<longleftrightarrow> (\<forall>f \<in> set provenanceFields. pf_Value f c = pf_Value f c')) \<and>
   map (\<lambda>l. case l of Difference label _ _ \<Rightarrow> label | Conflict label _ _ \<Rightarrow> label)
     (ProvenanceDifferences c c') =
   map (\<lambda>l. case l of Difference label _ _ \<Rightarrow> label | Conflict label _ _ \<Rightarrow> label)
     (ProvenanceDifferences c' c)"
proof -
  have "filter (\<lambda>f. pf_Value f c \<noteq> pf_Value f c') provenanceFields =
      filter (\<lambda>f. pf_Value f c' \<noteq> pf_Value f c) provenanceFields"
    by (rule filter_cong) auto
  moreover have "snd (ProvenanceGaps c) \<longleftrightarrow>
      sc_MaxNumBatchedTokens c \<noteq> 0 \<and> sc_PrefixCaching c \<noteq> [] \<and> sc_ChunkedPrefill c \<noteq> []"
    by (simp add: gaps_eq provenanceFields_def)
  moreover have "ProvenanceDifferences c c' = [] \<longleftrightarrow>
      (\<forall>f \<in> set provenanceFields. pf_Value f c = pf_Value f c')"
    by (auto simp: differences_eq filter_empty_conv)
  ultimately show ?thesis
    unfolding differences_eq [of c] differences_eq [of c'] by (simp add: comp_def)
qed

theorem ttft_comparable_iff_witness:
  "ProvenanceDifferences zero_ServerConfig (zero_ServerConfig\<lparr>sc_MaxNumSeqs := 128\<rparr>) \<noteq> [] \<and>
   \<not> snd (ProvenanceGaps zero_ServerConfig)"
proof -
  have "\<exists>f \<in> set provenanceFields. pf_Value f zero_ServerConfig
      \<noteq> pf_Value f (zero_ServerConfig\<lparr>sc_MaxNumSeqs := 128\<rparr>)"
    by (simp add: provenanceFields_def intText_def zero_ServerConfig_def dec_int_def dec_nat.simps)
  then show ?thesis
    using ttft_comparable_iff [of zero_ServerConfig "zero_ServerConfig\<lparr>sc_MaxNumSeqs := 128\<rparr>"]
    by (auto simp: zero_ServerConfig_def)
qed

end
