(* ===== verification/Core_Target.thy ===== *)
theory Core_Target
  imports Core_Types Core_Provenance "HOL-Library.Sublist"
begin

text \<open>
  \<open>internal/core/target.go\<close> and \<open>ValidateAutoSearchConfig\<close> of \<open>search.go\<close>: which target
  addresses and which run configurations are accepted. An error is the text of the error, nil is
  \<open>None\<close>. \<open>net.ParseIP\<close>, \<open>IsPrivate\<close> and the \<open>strings\<close> functions are modelled on byte
  strings; the parsed request URI (\<open>url.ParseRequestURI\<close>) and the lower-casing of text that is not
  ASCII are parameters.
\<close>

subsection \<open>Text functions of the standard library\<close>

definition lower_char :: "char \<Rightarrow> char" where
  "lower_char c = (let n = of_char c :: nat in if 65 \<le> n \<and> n \<le> 90 then char_of (n + 32) else c)"

definition ToLower :: "(string \<Rightarrow> string) \<Rightarrow> string \<Rightarrow> string" where
  "ToLower unicode_lower s =
     (if \<forall>c \<in> set s. (of_char c :: nat) < 128 then map lower_char s else unicode_lower s)"

definition TrimSuffix :: "string \<Rightarrow> string \<Rightarrow> string" where
  "TrimSuffix s suf =
     (if length suf \<le> length s \<and> drop (length s - length suf) s = suf
      then take (length s - length suf) s else s)"

definition HasSuffix :: "string \<Rightarrow> string \<Rightarrow> bool" where
  "HasSuffix s suf \<longleftrightarrow> length suf \<le> length s \<and> drop (length s - length suf) s = suf"

text \<open>\<open>strings.TrimSpace\<close> and \<open>strings.Trim(s, ".")\<close>. A blank rune is dropped from the front;
  the back is trimmed by reading runes and text backwards.\<close>

fun drop_blanks :: "nat \<Rightarrow> string list \<Rightarrow> string \<Rightarrow> string" where
  "drop_blanks 0 runes s = s"
| "drop_blanks (Suc n) runes s =
     (case List.extract (\<lambda>p. drop_prefix p s \<noteq> None) runes of
        None \<Rightarrow> s
      | Some (_, p, _) \<Rightarrow> drop_blanks n runes (drop (length p) s))"

definition TrimSpace :: "string \<Rightarrow> string" where
  "TrimSpace s =
     (let runes = [CHR 0x0A] # blank_runes;
          s = drop_blanks (length s) runes s
      in rev (drop_blanks (length s) (map rev runes) (rev s)))"

definition trim_dots :: "string \<Rightarrow> string" where
  "trim_dots s = rev (dropWhile (\<lambda>c. c = CHR ''.'') (rev (dropWhile (\<lambda>c. c = CHR ''.'') s)))"

subsection \<open>Internet addresses\<close>

fun split_on :: "char \<Rightarrow> string \<Rightarrow> string list" where
  "split_on d [] = [[]]"
| "split_on d (c # cs) =
     (if c = d then [] # split_on d cs
      else case split_on d cs of [] \<Rightarrow> [[c]] | w # ws \<Rightarrow> (c # w) # ws)"

text \<open>Four decimal fields of at most 255 without leading zeros.\<close>

definition parse_v4_field :: "string \<Rightarrow> int option" where
  "parse_v4_field f =
     (if f = [] \<or> (\<exists>c \<in> set f. \<not> is_digit c) \<or> (length f > 1 \<and> hd f = CHR ''0'')
        \<or> digits_value f > 255 then None else Some (digits_value f))"

definition parse_v4 :: "string \<Rightarrow> int list option" where
  "parse_v4 s = (let fs = map parse_v4_field (split_on (CHR ''.'') s) in
     if length fs = 4 \<and> (\<forall>f \<in> set fs. f \<noteq> None) then Some (map the fs) else None)"

definition hex_value :: "char \<Rightarrow> int option" where
  "hex_value c = (let n = of_char c :: int in
     if 48 \<le> n \<and> n \<le> 57 then Some (n - 48)
     else if 97 \<le> n \<and> n \<le> 102 then Some (n - 87)
     else if 65 \<le> n \<and> n \<le> 70 then Some (n - 55) else None)"

definition hex_group :: "string \<Rightarrow> int" where
  "hex_group = foldl (\<lambda>acc c. 16 * acc + the (hex_value c)) 0"

text \<open>The loop of \<open>netip.parseIPv6\<close> with the bytes read so far and the place of the ellipsis;
  \<open>fuel\<close> is the number of 16-bit groups that still fit.\<close>

fun parse_v6_loop :: "nat \<Rightarrow> string \<Rightarrow> int list \<Rightarrow> nat option \<Rightarrow> (int list \<times> nat option) option" where
  "parse_v6_loop 0 s ip ell = (if s = [] then Some (ip, ell) else None)"
| "parse_v6_loop (Suc n) s ip ell =
     (let ds = takeWhile (\<lambda>c. hex_value c \<noteq> None) s; rest = drop (length ds) s in
      if ds = [] \<or> length ds > 4 then None
      else if rest \<noteq> [] \<and> hd rest = CHR ''.'' then
        (if ell = None \<and> length ip \<noteq> 12 then None
         else if length ip + 4 > 16 then None
         else case parse_v4 s of None \<Rightarrow> None | Some b \<Rightarrow> Some (ip @ b, ell))
      else
        let ip = ip @ [hex_group ds div 256, hex_group ds mod 256] in
        if rest = [] then Some (ip, ell)
        else if hd rest \<noteq> CHR '':'' \<or> length rest = 1 then None
        else let s = tl rest in
          if hd s = CHR '':'' then
            (if ell \<noteq> None then None
             else if tl s = [] then Some (ip, Some (length ip))
             else parse_v6_loop n (tl s) ip (Some (length ip)))
          else parse_v6_loop n s ip ell)"

definition parse_v6 :: "string \<Rightarrow> int list option" where
  "parse_v6 s =
     (let lead = (take 2 s = ''::''); s' = (if lead then drop 2 s else s) in
      if lead \<and> s' = [] then Some (replicate 16 0)
      else case parse_v6_loop 8 s' [] (if lead then Some 0 else None) of
        None \<Rightarrow> None
      | Some (ip, ell) \<Rightarrow>
          (if length ip < 16 then
             (case ell of None \<Rightarrow> None
              | Some e \<Rightarrow> Some (take e ip @ replicate (16 - length ip) 0 @ drop e ip))
           else if ell \<noteq> None then None else Some ip))"

text \<open>\<open>net.ParseIP\<close>: the first dot or colon decides the form; a zone is refused. The result is
  four bytes for an IPv4 address and its IPv6-mapped form, sixteen otherwise.\<close>

definition ParseIP :: "string \<Rightarrow> int list option" where
  "ParseIP s =
     (case dropWhile (\<lambda>c. c \<noteq> CHR ''.'' \<and> c \<noteq> CHR '':'' \<and> c \<noteq> CHR ''%'') s of
        [] \<Rightarrow> None
      | c # _ \<Rightarrow>
          (if c = CHR ''.'' then parse_v4 s
           else if c = CHR '':'' \<and> CHR ''%'' \<notin> set s then
             map_option (\<lambda>ip. if take 12 ip = replicate 10 0 @ [255, 255] then drop 12 ip else ip)
               (parse_v6 s)
           else None))"

definition IsPrivate :: "int list \<Rightarrow> bool" where
  "IsPrivate ip =
     (if length ip = 4 then
        ip ! 0 = 10 \<or> (ip ! 0 = 172 \<and> ip ! 1 div 16 = 1) \<or> (ip ! 0 = 192 \<and> ip ! 1 = 168)
      else length ip = 16 \<and> ip ! 0 div 2 = 126)"

subsection \<open>Which targets may be loaded\<close>

text \<open>What the validator reads of a parsed request URI.\<close>

record RequestURI =
  u_Scheme :: string
  u_HasUser :: bool
  u_Hostname :: string

definition target_host :: "(string \<Rightarrow> string) \<Rightarrow> RequestURI \<Rightarrow> string" where
  "target_host unicode_lower u = TrimSuffix (ToLower unicode_lower (u_Hostname u)) ''.''"

definition normal_suffix :: "(string \<Rightarrow> string) \<Rightarrow> string \<Rightarrow> string" where
  "normal_suffix unicode_lower configured = trim_dots (ToLower unicode_lower (TrimSpace configured))"

definition ValidateTargetWithAllowedHostSuffixes ::
    "(string \<Rightarrow> RequestURI option) \<Rightarrow> (string \<Rightarrow> string) \<Rightarrow> string \<Rightarrow> string list \<Rightarrow> string option" where
  "ValidateTargetWithAllowedHostSuffixes parse unicode_lower rawURL allowedHostSuffixes =
     (case parse rawURL of
        None \<Rightarrow> Some ''target must be an absolute HTTP URL''
      | Some u \<Rightarrow>
          if u_Scheme u = [] \<or> u_Hostname u = [] then Some ''target must be an absolute HTTP URL''
          else if u_Scheme u \<noteq> ''http'' \<and> u_Scheme u \<noteq> ''https'' then Some ''target must use HTTP or HTTPS''
          else if u_HasUser u then Some ''target must not include credentials''
          else
            let host = target_host unicode_lower u in
            case ParseIP host of
              Some ip \<Rightarrow> (if \<not> IsPrivate ip then Some ''target IP must be private'' else None)
            | None \<Rightarrow>
                if \<exists>configured \<in> set allowedHostSuffixes.
                     let suf = normal_suffix unicode_lower configured
                     in suf \<noteq> [] \<and> (host = suf \<or> HasSuffix host (''.'' @ suf))
                then None
                else Some ''target hostname is not allowed; configure TARGET_ALLOWED_HOST_SUFFIXES'')"

definition ValidateTarget ::
    "(string \<Rightarrow> RequestURI option) \<Rightarrow> (string \<Rightarrow> string) \<Rightarrow> string \<Rightarrow> string option" where
  "ValidateTarget parse unicode_lower rawURL =
     ValidateTargetWithAllowedHostSuffixes parse unicode_lower rawURL [''.internal'']"

subsection \<open>Which runs may be started\<close>

definition validScenarioTask :: "ScenarioTask \<Rightarrow> bool" where
  "validScenarioTask task \<longleftrightarrow>
     tsk_Name task \<noteq> [] \<and> tsk_Prompt task \<noteq> [] \<and> tsk_Weight task \<ge> 1 \<and> tsk_Weight task \<le> 100 \<and>
     tsk_ThinkTimeMillis task \<ge> 0 \<and> tsk_ThinkTimeMillis task \<le> 60000 \<and> tsk_MaxTokens task \<ge> 0 \<and>
     tsk_MaxTokens task \<le> MaxModelTokens \<and> tsk_PromptTokens task \<ge> 0 \<and>
     tsk_PromptTokens task \<le> MaxModelTokens"

text \<open>The first error of a list of checks, in order.\<close>

fun first_error :: "string option list \<Rightarrow> string option" where
  "first_error [] = None"
| "first_error (e # es) = (case e of None \<Rightarrow> first_error es | Some m \<Rightarrow> Some m)"

abbreviation require :: "bool \<Rightarrow> string \<Rightarrow> string option" where
  "require ok message \<equiv> (if ok then None else Some message)"

fun valid_trace_events :: "int \<Rightarrow> TraceEvent list \<Rightarrow> bool" where
  "valid_trace_events previous [] = True"
| "valid_trace_events previous (event # events) =
     (if tev_TimestampMillis event < previous \<or> tev_PromptTokens event < 0 \<or>
         tev_PromptTokens event > MaxModelTokens \<or> tev_MaxTokens event < 0 \<or>
         tev_MaxTokens event > MaxModelTokens \<or> length (tev_Prompt event) > 200000
      then False else valid_trace_events (tev_TimestampMillis event) events)"

definition trace_scale :: "RunConfig \<Rightarrow> float64" where
  "trace_scale config = (if feq (rc_TraceTimeScale config) fzero then f_of_int 1 else rc_TraceTimeScale config)"

definition validate_trace :: "RunConfig \<Rightarrow> string option" where
  "validate_trace config =
     (if rc_Trace config = [] then None
      else if rc_Mode config \<noteq> LoadModeRPS \<or> length (rc_Stages config) > 0 \<or> rc_Shards config > 1
        then Some ''trace replay requires rps mode, one shard, and no load stages''
      else if length (rc_Trace config) > 10000 \<or> fless (rc_TraceTimeScale config) fzero \<or>
          fless (f_of_int 100) (rc_TraceTimeScale config)
        then Some ''trace replay must contain at most 10000 events and use a time scale up to 100''
      else if \<not> valid_trace_events (-1) (rc_Trace config) then Some ''invalid trace replay event''
      else
        let span = i64 (tev_TimestampMillis (last (rc_Trace config)) -
              tev_TimestampMillis (hd (rc_Trace config)))
        in if fle (f_of_int (i64 (rc_DurationSeconds config * 1000)))
                (fdiv (f_of_int span) (trace_scale config))
           then Some ''trace replay duration must include the final event'' else None)"

definition validate_stage :: "RunConfig \<Rightarrow> LoadStage \<Rightarrow> string option" where
  "validate_stage config stage =
     require (\<not> (stg_DurationSeconds stage < 1 \<or> stg_DurationSeconds stage > MaxDurationSeconds \<or>
        stg_TargetLoad stage < 1 \<or> (rc_Mode config = LoadModeVU \<and> stg_TargetLoad stage > MaxVUs) \<or>
        (rc_Mode config = LoadModeRPS \<and> stg_TargetLoad stage > MaxRPS))) ''invalid load stage''"

definition validate_journey :: "UserJourney \<Rightarrow> string option" where
  "validate_journey journey =
     first_error
      (require (\<not> (jr_Name journey = [] \<or> jr_Weight journey < 1 \<or> jr_Weight journey > 100 \<or>
          length (jr_Scenario journey) = 0 \<or> length (jr_Scenario journey) > 8)) ''invalid user journey''
       # map (\<lambda>task. require (validScenarioTask task) ''invalid user journey task'')
          (jr_Scenario journey))"

definition ValidateRunConfig :: "RunConfig \<Rightarrow> string option" where
  "ValidateRunConfig config = first_error (
     [require (\<not> (rc_DurationSeconds config < 1 \<or> rc_DurationSeconds config > MaxDurationSeconds))
        ''duration must be between 1 and 3600 seconds'',
      (if rc_Mode config = LoadModeVU then
         require (\<not> (rc_VUs config < 1 \<or> rc_VUs config > MaxVUs)) ''VUs must be between 1 and 500''
       else if rc_Mode config = LoadModeRPS then
         require (\<not> (rc_RPS config < 1 \<or> rc_RPS config > MaxRPS)) ''RPS must be between 1 and 2000''
       else Some ''mode must be vu or rps''),
      require (\<not> (rc_MaxTokens config < 1 \<or> rc_MaxTokens config > MaxModelTokens))
        ''max_tokens must be between 1 and 1000000'',
      require (\<not> (rc_CachePolicy config \<noteq> [] \<and> rc_CachePolicy config \<noteq> CachePolicyMixed \<and>
          rc_CachePolicy config \<noteq> CachePolicyReuse \<and> rc_CachePolicy config \<noteq> CachePolicyBypass))
        ''cache_policy must be mixed, reuse, or bypass'',
      require (\<not> (rc_VariationPercent config < 0 \<or> rc_VariationPercent config > 100))
        ''variation_percent must be between 0 and 100'',
      require (\<not> (rc_Shards config < 0 \<or> rc_Shards config > 64)) ''shards must be between 1 and 64'',
      require (\<not> (rc_MaxInFlight config < 0 \<or> rc_MaxInFlight config > MaxVUs))
        ''max_in_flight must be between 1 and 500'',
      require (\<not> (rc_WarmupRequests config < 0 \<or> rc_WarmupRequests config > 1000 \<or>
          rc_CooldownSeconds config < 0 \<or> rc_CooldownSeconds config > 300))
        ''warmup_requests or cooldown_seconds out of range'',
      require (\<not> (fless (rc_MinGoodputPercent config) fzero \<or>
          fless (f_of_int 100) (rc_MinGoodputPercent config) \<or> rc_MaxTTPOTP95Millis config < 0))
        ''invalid LLM guardrail'',
      require (\<not> (rc_DrainSeconds config < 0 \<or> rc_DrainSeconds config > 600))
        ''drain_seconds must be between 0 and 600'',
      require (\<not> (fless (rc_MinCompletionPercent config) fzero \<or>
          fless (f_of_int 100) (rc_MinCompletionPercent config)))
        ''min_completion_percent must be between 0 and 100'',
      require (\<not> (rc_SteadyStateSeconds config < 0 \<or>
          rc_SteadyStateSeconds config \<ge> rc_DurationSeconds config))
        ''steady_state_seconds must be shorter than the run duration'',
      require (\<not> (rc_SessionsPerVU config < 0 \<or> rc_SessionsPerVU config > 100 \<or>
          rc_SessionsPerVU config > 0 \<and> (\<not> rc_AgentWorkflow config \<or>
            rc_Mode config \<noteq> LoadModeVU \<or> length (rc_Journeys config) > 0)))
        ''sessions_per_vu requires a direct VU agent workflow and must be at most 100'',
      validate_trace config,
      require (\<not> (length (rc_Stages config) > 12 \<or> length (rc_Scenario config) > 64 \<or>
          length (rc_Journeys config) > 5)) ''too many stages or scenario tasks''] @
     map (validate_stage config) (rc_Stages config) @
     map (\<lambda>task. require (validScenarioTask task) ''invalid scenario task'') (rc_Scenario config) @
     map validate_journey (rc_Journeys config))"

definition ValidateAutoSearchConfig :: "AutoSearchConfig \<Rightarrow> string option" where
  "ValidateAutoSearchConfig config =
     (case ValidateRunConfig (asc_Run config) of
        Some err \<Rightarrow> Some err
      | None \<Rightarrow>
          if length (rc_Trace (asc_Run config)) > 0
            then Some ''trace replay cannot be used for automatic capacity search''
          else if asc_StartLoad config < 1 \<or> asc_MaxLoad config < asc_StartLoad config
            then Some ''start_load must be between 1 and max_load''
          else if rc_Mode (asc_Run config) = LoadModeVU \<and> asc_MaxLoad config > MaxVUs
            then Some (''max_load must be at most '' @ dec_int MaxVUs)
          else if rc_Mode (asc_Run config) = LoadModeRPS \<and> asc_MaxLoad config > MaxRPS
            then Some (''max_load must be at most '' @ dec_int MaxRPS)
          else None)"

subsection \<open>Suffixes of a host name and suffixes of its labels\<close>

fun join_on :: "char \<Rightarrow> string list \<Rightarrow> string" where
  "join_on d [] = []"
| "join_on d [w] = w"
| "join_on d (w # ws) = w @ d # join_on d ws"

lemma split_on_nonempty [simp]: "split_on d s \<noteq> []"
  by (cases s) (auto split: list.split)

lemma join_on_Cons: "ws \<noteq> [] \<Longrightarrow> join_on d (w # ws) = w @ d # join_on d ws"
  by (cases ws) auto

lemma join_split [simp]: "join_on d (split_on d s) = s"
proof (induction s)
  case (Cons c cs)
  show ?case
  proof (cases "split_on d cs")
    case (Cons w ws)
    with Cons.IH show ?thesis by (cases ws) (auto simp: join_on_Cons)
  qed (use split_on_nonempty in blast)
qed simp

lemma split_on_append: "split_on d (p @ d # s) = split_on d p @ split_on d s"
proof (induction p)
  case (Cons c cs)
  then show ?case by (cases "split_on d cs") (simp_all split: list.split)
qed simp

lemma join_on_append: "xs \<noteq> [] \<Longrightarrow> ys \<noteq> [] \<Longrightarrow> join_on d (xs @ ys) = join_on d xs @ d # join_on d ys"
proof (induction xs)
  case (Cons x xs)
  then show ?case by (cases "xs = []") (simp_all add: join_on_Cons)
qed simp

lemma HasSuffix_iff: "HasSuffix s suf \<longleftrightarrow> (\<exists>p. s = p @ suf)"
proof
  assume "HasSuffix s suf"
  then have "s = take (length s - length suf) s @ suf"
    by (metis HasSuffix_def append_take_drop_id)
  then show "\<exists>p. s = p @ suf" ..
qed (auto simp: HasSuffix_def)

lemma label_suffix_iff:
  "host = suf \<or> HasSuffix host (d # suf) \<longleftrightarrow> suffix (split_on d suf) (split_on d host)"
proof
  assume "host = suf \<or> HasSuffix host (d # suf)"
  then show "suffix (split_on d suf) (split_on d host)"
    by (auto simp: HasSuffix_iff split_on_append suffix_def)
next
  assume "suffix (split_on d suf) (split_on d host)"
  then obtain pre where pre: "split_on d host = pre @ split_on d suf"
    by (auto simp: suffix_def)
  show "host = suf \<or> HasSuffix host (d # suf)"
  proof (cases "pre = []")
    case True
    then show ?thesis using pre join_split by (metis append_Nil)
  next
    case False
    then have "host = join_on d pre @ d # suf"
      using join_on_append [OF False split_on_nonempty, of d d suf] pre by (metis join_split)
    then show ?thesis unfolding HasSuffix_iff by blast
  qed
qed

subsection \<open>Accepted configurations\<close>

lemma first_error_None: "first_error es = None \<longleftrightarrow> (\<forall>e \<in> set es. e = None)"
  by (induction es) (auto split: option.splits)

lemma valid_trace_sorted: "valid_trace_events p es \<Longrightarrow> sorted (p # map tev_TimestampMillis es)"
proof (induction es arbitrary: p)
  case (Cons e es)
  then show ?case by (auto split: if_splits intro: order_trans [of p "tev_TimestampMillis e"])
qed simp

lemma mk_float_within: "fle NInf (mk_float x)" "fle (mk_float x) PInf"
  using mk_float_not_NaN [of x] by (cases "mk_float x"; simp add: fle_def feq_iff)+

lemma fdiv_mono:
  assumes "fle a b" "0 < s"
  shows "fle (fdiv a (Fin s)) (fdiv b (Fin s))"
proof (cases "\<exists>x y. a = Fin x \<and> b = Fin y")
  case True
  then obtain x y where xy: "a = Fin x" "b = Fin y" by blast
  with assms have "x / s \<le> y / s" by (intro divide_right_mono) auto
  then have "fle (mk_float (x / s)) (mk_float (y / s))" by (rule mk_float_mono)
  then show ?thesis using xy assms(2) by simp
next
  case False
  have "fle PInf PInf" "fle NInf NInf" "fle NInf PInf" by (simp_all add: fle_def feq_iff)
  moreover have "\<not> fle PInf (Fin x)" "\<not> fle (Fin x) NInf" "\<not> fle PInf NInf" for x
    by (simp_all add: fle_def feq_iff)
  ultimately show ?thesis
    using assms False by (cases a; cases b) (simp_all add: inf_sign_def mk_float_within)
qed

lemma trace_scale_cases:
  assumes "\<not> fless (rc_TraceTimeScale c) fzero" "\<not> fless (f_of_int 100) (rc_TraceTimeScale c)"
    "rc_TraceTimeScale c \<noteq> NaN"
  shows "\<exists>s > 0. trace_scale c = Fin s"
  using assms f_of_int_exact [of 1] f_of_int_exact [of 100]
  by (cases "rc_TraceTimeScale c") (auto simp: trace_scale_def feq_iff fzero_def)

lemma validate_trace_events:
  assumes "validate_trace c = None" "rc_Trace c \<noteq> []"
  shows "valid_trace_events (-1) (rc_Trace c)"
    "\<not> fless (rc_TraceTimeScale c) fzero" "\<not> fless (f_of_int 100) (rc_TraceTimeScale c)"
    "\<not> fle (f_of_int (i64 (rc_DurationSeconds c * 1000)))
        (fdiv (f_of_int (i64 (tev_TimestampMillis (last (rc_Trace c)) -
           tev_TimestampMillis (hd (rc_Trace c))))) (trace_scale c))"
  using assms by (auto simp: validate_trace_def Let_def split: if_splits)

lemma run_config_checks:
  assumes "ValidateRunConfig c = None"
  shows "1 \<le> rc_DurationSeconds c" "rc_DurationSeconds c \<le> 3600"
    "rc_Mode c = LoadModeVU \<and> 1 \<le> rc_VUs c \<and> rc_VUs c \<le> MaxVUs \<or>
     rc_Mode c = LoadModeRPS \<and> 1 \<le> rc_RPS c \<and> rc_RPS c \<le> MaxRPS"
    "0 \<le> rc_SteadyStateSeconds c" "rc_SteadyStateSeconds c < rc_DurationSeconds c"
    "0 \<le> rc_Shards c" "rc_Shards c \<le> 64" "0 \<le> rc_MaxInFlight c" "rc_MaxInFlight c \<le> MaxVUs"
    "validate_trace c = None" "\<forall>stage \<in> set (rc_Stages c). validate_stage c stage = None"
    "\<forall>task \<in> set (rc_Scenario c). validScenarioTask task"
    "\<forall>j \<in> set (rc_Journeys c). validate_journey j = None"
  using assms unfolding ValidateRunConfig_def first_error_None
  by (auto split: if_splits)

lemma trace_in_time:
  assumes "ValidateRunConfig c = None" "e \<in> set (rc_Trace c)" "rc_TraceTimeScale c \<noteq> NaN"
    "\<forall>e \<in> set (rc_Trace c). in64 (tev_TimestampMillis e)" "0 \<le> tev_TimestampMillis (hd (rc_Trace c))"
  shows "0 \<le> tev_TimestampMillis e - tev_TimestampMillis (hd (rc_Trace c)) \<and>
    fless (fdiv (f_of_int (tev_TimestampMillis e - tev_TimestampMillis (hd (rc_Trace c)))) (trace_scale c))
      (f_of_int (rc_DurationSeconds c * 1000))"
proof -
  let ?T = "rc_Trace c" and ?ts = tev_TimestampMillis and ?d = "rc_DurationSeconds c"
  note checks = run_config_checks [OF assms(1)]
  have ne: "?T \<noteq> []" using assms(2) by auto
  note V = validate_trace_events [OF checks(10) ne]
  obtain s where s: "0 < s" "trace_scale c = Fin s"
    using trace_scale_cases [OF V(2,3) assms(3)] by blast
  have sorted: "sorted (map ?ts ?T)" using valid_trace_sorted [OF V(1)] by simp
  have first: "?ts (hd ?T) \<le> ?ts e" and le_last: "?ts e \<le> ?ts (last ?T)"
  proof -
    obtain i where i: "i < length ?T" "?T ! i = e" using assms(2) by (auto simp: in_set_conv_nth)
    show "?ts (hd ?T) \<le> ?ts e"
      using sorted_nth_mono [OF sorted, of 0 i] i ne by (simp add: hd_conv_nth)
    show "?ts e \<le> ?ts (last ?T)"
      using sorted_nth_mono [OF sorted, of i "length ?T - 1"] i ne by (simp add: last_conv_nth)
  qed
  have "in64 (?ts (last ?T))" using assms(4) ne by simp
  then have span: "i64 (?ts (last ?T) - ?ts (hd ?T)) = ?ts (last ?T) - ?ts (hd ?T)"
    using assms(5) first le_last by (intro i64_id) (auto simp: in64_def)
  have dur: "i64 (?d * 1000) = ?d * 1000" using checks(1,2) by (intro i64_small) auto
  have "fle (fdiv (f_of_int (?ts e - ?ts (hd ?T))) (Fin s))
      (fdiv (f_of_int (?ts (last ?T) - ?ts (hd ?T))) (Fin s))"
    using s(1) le_last by (intro fdiv_mono f_of_int_mono) auto
  moreover have "fless (fdiv (f_of_int (?ts (last ?T) - ?ts (hd ?T))) (Fin s)) (f_of_int (?d * 1000))"
    using V(4) s(1) unfolding span dur s(2)
    by (cases "f_of_int (?ts (last ?T) - ?ts (hd ?T))")
      (auto simp: fle_not_less inf_sign_def)
  ultimately show ?thesis using first s(2) fle_less_trans by auto
qed

subsection \<open>Properties\<close>

text \<open>C20. A target address is accepted exactly when it is an HTTP
  or HTTPS address without credentials whose host is a private IP address or a name whose
  dot-separated labels end with the labels of an allowed suffix; a name that merely ends with the
  same letters, or continues after them, is refused.\<close>

theorem allowed_hosts_are_label_suffixes:
  "ValidateTargetWithAllowedHostSuffixes parse unicode_lower rawURL allowed = None \<longleftrightarrow>
   (\<exists>u. parse rawURL = Some u \<and> (u_Scheme u = ''http'' \<or> u_Scheme u = ''https'') \<and>
      u_Hostname u \<noteq> [] \<and> \<not> u_HasUser u \<and>
      (case ParseIP (target_host unicode_lower u) of
         Some ip \<Rightarrow> IsPrivate ip
       | None \<Rightarrow> (\<exists>configured \<in> set allowed. normal_suffix unicode_lower configured \<noteq> [] \<and>
           suffix (split_on (CHR ''.'') (normal_suffix unicode_lower configured))
             (split_on (CHR ''.'') (target_host unicode_lower u)))))"
  unfolding ValidateTargetWithAllowedHostSuffixes_def label_suffix_iff [symmetric] Let_def
  by (auto split: option.splits if_splits)


definition trace_config :: RunConfig where
  "trace_config = zero_RunConfig\<lparr>rc_Mode := LoadModeRPS, rc_RPS := 5, rc_DurationSeconds := 60,
     rc_MaxTokens := 10, rc_Trace := [\<lparr>tev_TimestampMillis = 0, tev_Name = [], tev_Prompt = ''hi'',
       tev_PromptTokens = 0, tev_MaxTokens = 0\<rparr>, \<lparr>tev_TimestampMillis = 5000, tev_Name = [],
       tev_Prompt = ''ho'', tev_PromptTokens = 0, tev_MaxTokens = 0\<rparr>]\<rparr>"

lemma trace_config_accepted: "ValidateRunConfig trace_config = None"
proof -
  have i: "i64 5000 = 5000" "i64 60000 = 60000" by (simp_all add: i64_small)
  have f: "f_of_int 1 = Fin 1" "f_of_int 5000 = Fin 5000" "f_of_int 60000 = Fin 60000"
    "f_of_int 100 = Fin 100" "mk_float 5000 = Fin 5000"
    using f_of_int_exact [of 1] f_of_int_exact [of 5000] f_of_int_exact [of 60000]
      f_of_int_exact [of 100] mk_float_of_int [of 5000] by simp_all
  show ?thesis
    by (simp add: ValidateRunConfig_def validate_trace_def trace_config_def zero_RunConfig_def
        trace_scale_def i f fzero_def Let_def feq_iff)
qed


text \<open>A trace that starts one millisecond before zero is accepted, and
  the check of its span then wraps around: with a last event at the end of time the span is
  negative, so a replay that would take 292 million years is accepted for a run of one minute.\<close>

definition wrapping_config :: RunConfig where
  "wrapping_config = trace_config\<lparr>rc_Trace := [\<lparr>tev_TimestampMillis = -1, tev_Name = [],
      tev_Prompt = ''hi'', tev_PromptTokens = 0, tev_MaxTokens = 0\<rparr>, \<lparr>tev_TimestampMillis = MaxInt64,
      tev_Name = [], tev_Prompt = ''ho'', tev_PromptTokens = 0, tev_MaxTokens = 0\<rparr>]\<rparr>"

theorem early_trace_is_accepted:
  "ValidateRunConfig wrapping_config = None \<and> rc_DurationSeconds wrapping_config = 60"
proof -
  have i: "i64 (MaxInt64 + 1) = - (2 ^ 63)" "i64 60000 = 60000"
    by (simp_all add: i64_def MaxInt64_def)
  have f: "f_of_int 1 = Fin 1" "f_of_int 60000 = Fin 60000" "f_of_int 100 = Fin 100"
    using f_of_int_exact [of 1] f_of_int_exact [of 60000] f_of_int_exact [of 100] by simp_all
  have neg: "fle (f_of_int (- (2 ^ 63))) (Fin 0)"
    using f_of_int_mono [of "- (2 ^ 63)" 0] by simp
  have "\<not> fle (Fin 60000) (fdiv (f_of_int (- (2 ^ 63))) (Fin 1))"
  proof
    assume "fle (Fin 60000) (fdiv (f_of_int (- (2 ^ 63))) (Fin 1))"
    moreover have "fle (fdiv (f_of_int (- (2 ^ 63))) (Fin 1)) (fdiv (Fin 0) (Fin 1))"
      by (rule fdiv_mono [OF neg]) simp
    ultimately have "fle (Fin 60000) (fdiv (Fin 0) (Fin 1))" by (rule fle_trans)
    then show False using mk_float_of_int [of 0] by simp
  qed
  then show ?thesis
    by (simp add: ValidateRunConfig_def validate_trace_def wrapping_config_def trace_config_def
        zero_RunConfig_def trace_scale_def i f fzero_def Let_def feq_iff MaxInt64_def [symmetric])
      (simp add: MaxInt64_def)
qed

end
