(* ===== verification/Store_State.thy ===== *)
theory Store_State
  imports Core_Search
begin

text \<open>
  The state of \<open>MemoryStore\<close> (\<open>internal/store/store.go\<close>): one field per field of the struct,
  the mutex left out (every operation holds it from start to end, so an operation is one step), and
  the small operations on it: getters, live progress, health, detected configuration and monitoring
  samples. Clocks are arguments: \<open>now\<close> is \<open>time.Now().Unix()\<close> and \<open>nowNanos\<close> the monotonic
  clock in nanoseconds. Every loop over a map takes the iteration order as an argument.
\<close>

record Store =
  st_nextID :: int
  st_targets :: "Target smap"
  st_runs :: "Run smap"
  st_searches :: "AutoSearch smap"
  st_searchRun :: "string smap"
  st_shards :: "Shard smap"
  st_shardResults :: "RunResult smap"
  st_captures :: "CaptureSession smap"
  st_captureSettings :: CaptureSettings
  st_progress :: "RunProgress smap"
  st_agentSeen :: "int option"      \<comment> \<open>nanoseconds; None is the zero time\<close>

definition NewMemoryStore :: Store where
  "NewMemoryStore = \<lparr>st_nextID = 0, st_targets = fmempty, st_runs = fmempty, st_searches = fmempty,
     st_searchRun = fmempty, st_shards = fmempty, st_shardResults = fmempty, st_captures = fmempty,
     st_captureSettings = zero_CaptureSettings, st_progress = fmempty, st_agentSeen = None\<rparr>"

abbreviation upd_run :: "string \<Rightarrow> Run \<Rightarrow> Store \<Rightarrow> Store" where
  "upd_run k r s \<equiv> s\<lparr>st_runs := fmupd k r (st_runs s)\<rparr>"

abbreviation upd_shard :: "string \<Rightarrow> Shard \<Rightarrow> Store \<Rightarrow> Store" where
  "upd_shard k r s \<equiv> s\<lparr>st_shards := fmupd k r (st_shards s)\<rparr>"

abbreviation upd_search :: "string \<Rightarrow> AutoSearch \<Rightarrow> Store \<Rightarrow> Store" where
  "upd_search k r s \<equiv> s\<lparr>st_searches := fmupd k r (st_searches s)\<rparr>"

text \<open>A loop over a map whose body may update the entry it is at: the entries of \<open>m\<close> in the
  given order, missing keys skipped.\<close>

definition entries :: "'k list \<Rightarrow> ('k, 'v) fmap \<Rightarrow> ('k \<times> 'v) list" where
  "entries ord m = concat (map (\<lambda>k. case fmlookup m k of None \<Rightarrow> [] | Some v \<Rightarrow> [(k, v)]) ord)"

lemma entries_Nil [simp]: "entries [] m = []"
  by (simp add: entries_def)

lemma entries_Cons: "entries (k # ks) m =
    (case fmlookup m k of None \<Rightarrow> entries ks m | Some v \<Rightarrow> (k, v) # entries ks m)"
  by (simp add: entries_def split: option.split)

lemma set_entries: "(k, v) \<in> set (entries ord m) \<longleftrightarrow> k \<in> set ord \<and> fmlookup m k = Some v"
  by (induction ord) (auto simp: entries_Cons split: option.splits)

lemma entries_order: "iter_order ord m \<Longrightarrow> (k, v) \<in> set (entries ord m) \<longleftrightarrow> fmlookup m k = Some v"
  using iter_order_set [of ord m k] by (auto simp: set_entries)

lemma map_fst_entries_present: "\<forall>k \<in> set ks. fmlookup m k \<noteq> None \<Longrightarrow> map fst (entries ks m) = ks"
  by (induction ks) (auto simp: entries_Cons)

lemma map_fst_entries: "iter_order ord m \<Longrightarrow> map fst (entries ord m) = ord"
  by (rule map_fst_entries_present) (simp add: iter_order_set)

lemma distinct_entries: "iter_order ord m \<Longrightarrow> distinct (entries ord m)"
  using map_fst_entries [of ord m] iter_order_distinct [of ord m] by (metis distinct_map)

text \<open>Two orders of the same map visit the same entries.\<close>

lemma entries_mset:
  assumes "iter_order ord m" "iter_order ord' m"
  shows "mset (entries ord m) = mset (entries ord' m)"
proof -
  have "set (entries ord m) = set (entries ord' m)"
    using entries_order [OF assms(1)] entries_order [OF assms(2)] by auto
  then show ?thesis
    using distinct_entries [OF assms(1)] distinct_entries [OF assms(2)]
    by (simp add: set_eq_iff_mset_eq_distinct)
qed

subsection \<open>Text order\<close>

text \<open>Go compares strings byte by byte.\<close>

fun str_less :: "string \<Rightarrow> string \<Rightarrow> bool" where
  "str_less [] [] = False"
| "str_less [] (y # ys) = True"
| "str_less (x # xs) [] = False"
| "str_less (x # xs) (y # ys) =
     ((of_char x :: nat) < of_char y \<or> (x = y \<and> str_less xs ys))"

text \<open>Insertion sort by a strict order; \<open>sort.Slice\<close> gives the same list when no two elements
  compare equal, which holds where the store sorts (shard identifiers, run identifiers, seconds of
  distinct timeline points).\<close>

fun insert_by :: "('a \<Rightarrow> 'a \<Rightarrow> bool) \<Rightarrow> 'a \<Rightarrow> 'a list \<Rightarrow> 'a list" where
  "insert_by lt x [] = [x]"
| "insert_by lt x (y # ys) = (if lt y x then y # insert_by lt x ys else x # y # ys)"

definition sort_by :: "('a \<Rightarrow> 'a \<Rightarrow> bool) \<Rightarrow> 'a list \<Rightarrow> 'a list" where
  "sort_by lt xs = foldr (insert_by lt) xs []"

lemma mset_insert_by [simp]: "mset (insert_by lt x ys) = add_mset x (mset ys)"
  by (induction ys) auto

lemma mset_sort_by [simp]: "mset (sort_by lt xs) = mset xs"
  unfolding sort_by_def by (induction xs) auto

lemma set_sort_by [simp]: "set (sort_by lt xs) = set xs"
  by (rule mset_eq_setD [OF mset_sort_by])

lemma str_less_irrefl [simp]: "\<not> str_less x x"
  by (induction x) auto

lemma str_less_trans: "str_less x y \<Longrightarrow> str_less y z \<Longrightarrow> str_less x z"
proof (induction x y arbitrary: z rule: str_less.induct)
  case (2 y ys)
  then show ?case by (cases z) auto
next
  case (4 x xs y ys)
  then show ?case by (cases z) auto
qed auto

lemma str_less_linear: "x \<noteq> y \<Longrightarrow> str_less x y \<or> str_less y x"
  by (induction x y rule: str_less.induct) auto

subsection \<open>Reading the state\<close>

definition runProgressLocked :: "string list \<Rightarrow> string \<Rightarrow> Store \<Rightarrow> RunProgress list" where
  "runProgressLocked ord runID s =
     sort_by (\<lambda>p q. str_less (rp_ShardID p) (rp_ShardID q))
       (foldl (\<lambda>live (shardID, shard).
          if sh_RunID shard \<noteq> runID then live
          else case fmlookup (st_progress s) shardID of
             Some progress \<Rightarrow> live @ [progress]
           | None \<Rightarrow> live) [] (entries ord (st_shards s)))"

definition GetRun :: "string list \<Rightarrow> string \<Rightarrow> Store \<Rightarrow> Run \<times> bool" where
  "GetRun ord runID s = (case fmlookup (st_runs s) runID of
     Some run \<Rightarrow> (run\<lparr>run_Progress := runProgressLocked ord runID s\<rparr>, True)
   | None \<Rightarrow> (zero_Run, False))"

definition ListRuns :: "string list \<Rightarrow> string list \<Rightarrow> Store \<Rightarrow> Run list" where
  "ListRuns ord shard_ord s =
     foldl (\<lambda>runs (_, run). runs @ [run\<lparr>run_Progress := runProgressLocked shard_ord (run_ID run) s\<rparr>]) []
       (entries ord (st_runs s))"

definition GetTarget :: "string \<Rightarrow> Store \<Rightarrow> Target \<times> bool" where
  "GetTarget i s = (case fmlookup (st_targets s) i of Some t \<Rightarrow> (t, True) | None \<Rightarrow> (zero_Target, False))"

definition ListTargets :: "string list \<Rightarrow> Store \<Rightarrow> Target list" where
  "ListTargets ord s = foldl (\<lambda>ts (_, t). ts @ [t]) [] (entries ord (st_targets s))"

definition GetSearch :: "string \<Rightarrow> Store \<Rightarrow> AutoSearch \<times> bool" where
  "GetSearch i s = (case fmlookup (st_searches s) i of Some x \<Rightarrow> (x, True) | None \<Rightarrow> (zero_AutoSearch, False))"

definition ListSearches :: "string list \<Rightarrow> Store \<Rightarrow> AutoSearch list" where
  "ListSearches ord s = foldl (\<lambda>xs (_, x). xs @ [x]) [] (entries ord (st_searches s))"

definition Health :: "string list \<Rightarrow> int \<Rightarrow> Store \<Rightarrow> int \<times> int \<times> bool" where
  "Health ord nowNanos s =
     (let (queued, running) =
        foldl (\<lambda>(queued, running) (_, run).
          (if run_Status run = ''queued'' \<or> run_Status run = ''running'' then queued + 1 else queued,
           if run_Status run = ''running'' then running + 1 else running)) (0, 0)
          (entries ord (st_runs s))
      in (queued, running, (case st_agentSeen s of
             None \<Rightarrow> False | Some seen \<Rightarrow> nowNanos - seen < 5 * 1000000000)))"

definition ActiveRunIDs :: "string list \<Rightarrow> Store \<Rightarrow> string list" where
  "ActiveRunIDs ord s = sort_by str_less
     (foldl (\<lambda>ids (i, run). if run_Status run = ''running'' then ids @ [i] else ids) []
       (entries ord (st_runs s)))"

subsection \<open>Small updates\<close>

definition TouchAgent :: "int \<Rightarrow> Store \<Rightarrow> Store" where
  "TouchAgent nowNanos s = s\<lparr>st_agentSeen := Some nowNanos\<rparr>"

definition SetShardProgress :: "string \<Rightarrow> RunProgress \<Rightarrow> Store \<Rightarrow> bool \<times> Store" where
  "SetShardProgress shardID progress s = (case fmlookup (st_shards s) shardID of
     None \<Rightarrow> (False, s)
   | Some _ \<Rightarrow> (True, s\<lparr>st_progress :=
       fmupd shardID (progress\<lparr>rp_ShardID := shardID\<rparr>) (st_progress s)\<rparr>))"

definition clearRunProgressLocked :: "string list \<Rightarrow> string \<Rightarrow> Store \<Rightarrow> Store" where
  "clearRunProgressLocked ord runID s =
     foldl (\<lambda>s (shardID, shard).
        if sh_RunID shard = runID then s\<lparr>st_progress := fmdrop shardID (st_progress s)\<rparr> else s)
       s (entries ord (st_shards s))"

definition SetCreatedBy :: "string \<Rightarrow> string \<Rightarrow> Store \<Rightarrow> Store" where
  "SetCreatedBy i user s = (case fmlookup (st_runs s) i of
     None \<Rightarrow> s | Some run \<Rightarrow> upd_run i (run\<lparr>run_CreatedBy := user\<rparr>) s)"

definition maxMonitoringSamples :: nat where
  "maxMonitoringSamples = nat MaxDurationSeconds + 900"

definition AddMonitoring :: "int \<Rightarrow> string \<Rightarrow> MonitoringSample \<Rightarrow> Store \<Rightarrow> Store" where
  "AddMonitoring now i sample s = (case fmlookup (st_runs s) i of
     None \<Rightarrow> s
   | Some run \<Rightarrow>
       if length (run_Monitoring run) \<ge> maxMonitoringSamples then s
       else
         let sample = (if run_StartedUnix run > 0
               then sample\<lparr>ms_AtSecond := i64 (now - run_StartedUnix run)\<rparr> else sample)
         in upd_run i (run\<lparr>run_Monitoring := run_Monitoring run @ [sample]\<rparr>) s)"

text \<open>Go's \<open>!=\<close> on the struct: NaN differs from everything.\<close>

definition ServerConfig_eq :: "ServerConfig \<Rightarrow> ServerConfig \<Rightarrow> bool" where
  "ServerConfig_eq a b \<longleftrightarrow> a = b \<and> sc_GPUMemoryUtilization a \<noteq> NaN"

definition SetDetectedServer :: "string \<Rightarrow> ServerConfig \<Rightarrow> Store \<Rightarrow> Store" where
  "SetDetectedServer i detected s = (case fmlookup (st_runs s) i of
     None \<Rightarrow> s
   | Some run \<Rightarrow>
       if \<not> ServerConfig_eq (run_DetectedServer run) zero_ServerConfig then s
       else upd_run i (run\<lparr>run_DetectedServer := detected\<rparr>) s)"

end
