(* ===== verification/Store_Captures.thy ===== *)
theory Store_Captures
  imports Store_State
begin

text \<open>
  Captured sessions in \<open>internal/store/store.go\<close>: the settings, \<open>RecordCapture\<close> with its idle
  split, retention and event limits, \<open>ListCaptures\<close> and \<open>DeleteCapture\<close>. The properties bound
  the history the store keeps, and show what an idle gap does to a session.
\<close>

subsection \<open>Operations\<close>

fun hex_nat :: "nat \<Rightarrow> string" where
  "hex_nat n = (let d = n mod 16; c = char_of (if d < 10 then 48 + d else 87 + d)
     in if n < 16 then [c] else hex_nat (n div 16) @ [c])"

declare hex_nat.simps [simp del]

definition hex_int :: "int \<Rightarrow> string" where
  "hex_int n = (if n < 0 then ''-'' @ hex_nat (nat (- n)) else hex_nat (nat n))"

definition defaultCaptureSettings :: CaptureSettings where
  "defaultCaptureSettings = zero_CaptureSettings\<lparr>cset_Enabled := True, cset_SessionIdleMinutes := 15,
     cset_MaxEventsPerSession := 128, cset_RetentionSessions := 100, cset_DefaultReplayVUs := 30,
     cset_ReplayThinkTimeScale := f_of_int 1, cset_ReplayBufferSeconds := 300,
     cset_ReplayDrainSeconds := 120\<rparr>"

definition GetCaptureSettings :: "Store \<Rightarrow> CaptureSettings" where
  "GetCaptureSettings s =
     (if \<not> cset_Configured (st_captureSettings s)
      then defaultCaptureSettings\<lparr>cset_Configured := False\<rparr> else st_captureSettings s)"

definition SetCaptureSettings :: "CaptureSettings \<Rightarrow> Store \<Rightarrow> CaptureSettings \<times> Store" where
  "SetCaptureSettings settings s =
     (let settings = settings\<lparr>cset_Configured := True\<rparr> in (settings, s\<lparr>st_captureSettings := settings\<rparr>))"

text \<open>The identifier of the session with the oldest update, the empty one when there is none
  before the last representable time.\<close>

definition oldest_scan :: "(string \<times> CaptureSession) list \<Rightarrow> string \<times> int" where
  "oldest_scan items = foldl (\<lambda>(oldestID, oldest) (i, item).
     if cs_UpdatedUnixMillis item < oldest then (i, cs_UpdatedUnixMillis item) else (oldestID, oldest))
     ([], MaxInt64) items"

definition RecordCapture ::
    "string list \<Rightarrow> CaptureSession \<Rightarrow> CaptureEvent \<Rightarrow> Store \<Rightarrow> CaptureSession \<times> Store" where
  "RecordCapture ord session event s =
     (let settings = (if \<not> cset_Configured (st_captureSettings s) then defaultCaptureSettings
            else st_captureSettings s);
          current = fmlookup (st_captures s) (cs_ID session);
          idle = (case current of None \<Rightarrow> False
            | Some c \<Rightarrow> i64 (cs_StartedUnixMillis session - cs_UpdatedUnixMillis c)
                > i64 (cset_SessionIdleMinutes settings * 60 * 1000));
          session = (if idle then session\<lparr>cs_ID := cs_ID session @ ''-'' @
              hex_int (cs_StartedUnixMillis session)\<rparr> else session);
          current = (if idle then fmlookup (st_captures s) (cs_ID session) else current);
          (current, captures) = (case current of
             Some c \<Rightarrow> (c, st_captures s)
           | None \<Rightarrow>
               (session,
                if int (fcard (fmdom (st_captures s))) \<ge> cset_RetentionSessions settings
                then fmdrop (fst (oldest_scan (entries ord (st_captures s)))) (st_captures s)
                else st_captures s));
          current = (if int (length (cs_Events current)) < cset_MaxEventsPerSession settings
             then current\<lparr>cs_Events := cs_Events current @
               [event\<lparr>cev_TimestampMillis :=
                  i64 (cs_StartedUnixMillis session - cs_StartedUnixMillis current)\<rparr>]\<rparr>
             else current);
          current = current\<lparr>cs_UpdatedUnixMillis := cs_UpdatedUnixMillis session\<rparr>
      in (current, s\<lparr>st_captures := fmupd (cs_ID current) current captures\<rparr>))"

definition ListCaptures :: "string list \<Rightarrow> Store \<Rightarrow> CaptureSession list" where
  "ListCaptures ord s = sort_by (\<lambda>a b. cs_UpdatedUnixMillis a > cs_UpdatedUnixMillis b)
     (foldl (\<lambda>items (_, item). items @ [item]) [] (entries ord (st_captures s)))"

definition DeleteCapture :: "string \<Rightarrow> Store \<Rightarrow> bool \<times> Store" where
  "DeleteCapture i s = (case fmlookup (st_captures s) i of
     None \<Rightarrow> (False, s) | Some _ \<Rightarrow> (True, s\<lparr>st_captures := fmdrop i (st_captures s)\<rparr>))"

subsection \<open>The retention limit\<close>

definition capture_settings :: "Store \<Rightarrow> CaptureSettings" where
  "capture_settings s = (if \<not> cset_Configured (st_captureSettings s) then defaultCaptureSettings
     else st_captureSettings s)"

text \<open>Keys are the identifiers of the sessions, every update time is before the end of time, and
  no session has more events than the limit.\<close>

definition captures_ok :: "Store \<Rightarrow> bool" where
  "captures_ok s \<longleftrightarrow> (\<forall>k c. fmlookup (st_captures s) k = Some c \<longrightarrow>
     cs_ID c = k \<and> cs_UpdatedUnixMillis c < MaxInt64)"

lemma oldest_scan_snoc: "oldest_scan (xs @ [(k, c)]) =
    (if cs_UpdatedUnixMillis c < snd (oldest_scan xs) then (k, cs_UpdatedUnixMillis c) else oldest_scan xs)"
  by (simp add: oldest_scan_def split: prod.split)

lemma oldest_scan_snd:
  "snd (oldest_scan items) \<le> MaxInt64 \<and> (\<forall>(k, c) \<in> set items. snd (oldest_scan items) \<le> cs_UpdatedUnixMillis c)"
proof (induction items rule: rev_induct)
  case (snoc x xs)
  then show ?case by (cases x) (auto simp: oldest_scan_snoc)
qed (simp add: oldest_scan_def)

lemma oldest_scan_fst:
  "snd (oldest_scan items) < MaxInt64 \<Longrightarrow>
   \<exists>c. (fst (oldest_scan items), c) \<in> set items \<and> cs_UpdatedUnixMillis c = snd (oldest_scan items)"
proof (induction items rule: rev_induct)
  case (snoc x xs)
  then show ?case by (cases x) (auto simp: oldest_scan_snoc split: if_splits)
qed (simp add: oldest_scan_def)

lemma oldest_scan_min:
  assumes "\<forall>(k, c) \<in> set items. cs_UpdatedUnixMillis c < MaxInt64" "items \<noteq> []"
  shows "\<exists>c. (fst (oldest_scan items), c) \<in> set items \<and>
    (\<forall>(k', c') \<in> set items. cs_UpdatedUnixMillis c \<le> cs_UpdatedUnixMillis c')"
proof -
  obtain k c where "(k, c) \<in> set items" using assms(2) by (cases items) auto
  then have "snd (oldest_scan items) < MaxInt64"
    using assms(1) oldest_scan_snd [of items] by fastforce
  from oldest_scan_fst [OF this] obtain c where "(fst (oldest_scan items), c) \<in> set items"
    "cs_UpdatedUnixMillis c = snd (oldest_scan items)" by blast
  then show ?thesis using oldest_scan_snd [of items] by (intro exI [of _ c]) auto
qed

lemma fcard_fmdrop_Some: "fmlookup m k = Some v \<Longrightarrow> fcard (fmdom (fmdrop k m)) = fcard (fmdom m) - 1"
  by (simp add: fmdomI fcard_fminus_fsingleton_if)

subsection \<open>What one recorded event changes\<close>

text \<open>The session an event goes to, and the sessions kept when it starts a new one.\<close>

definition is_idle :: "CaptureSession \<Rightarrow> Store \<Rightarrow> bool" where
  "is_idle session s \<longleftrightarrow> (case fmlookup (st_captures s) (cs_ID session) of None \<Rightarrow> False
     | Some c \<Rightarrow> i64 (cs_StartedUnixMillis session - cs_UpdatedUnixMillis c)
         > i64 (cset_SessionIdleMinutes (capture_settings s) * 60 * 1000))"

definition capture_id :: "CaptureSession \<Rightarrow> Store \<Rightarrow> string" where
  "capture_id session s = (if is_idle session s
     then cs_ID session @ ''-'' @ hex_int (cs_StartedUnixMillis session) else cs_ID session)"

definition kept_captures :: "string list \<Rightarrow> Store \<Rightarrow> CaptureSession smap" where
  "kept_captures ord s =
     (if int (fcard (fmdom (st_captures s))) \<ge> cset_RetentionSessions (capture_settings s)
      then fmdrop (fst (oldest_scan (entries ord (st_captures s)))) (st_captures s) else st_captures s)"

definition add_event :: "CaptureSettings \<Rightarrow> CaptureSession \<Rightarrow> CaptureEvent \<Rightarrow> CaptureSession \<Rightarrow> CaptureSession" where
  "add_event settings session event current =
     (if int (length (cs_Events current)) < cset_MaxEventsPerSession settings
      then current\<lparr>cs_Events := cs_Events current @ [event\<lparr>cev_TimestampMillis :=
             i64 (cs_StartedUnixMillis session - cs_StartedUnixMillis current)\<rparr>]\<rparr>
      else current)\<lparr>cs_UpdatedUnixMillis := cs_UpdatedUnixMillis session\<rparr>"

lemma add_event_simps [simp]:
  "cs_ID (add_event settings session event c) = cs_ID c"
  "cs_UpdatedUnixMillis (add_event settings session event c) = cs_UpdatedUnixMillis session"
  "cs_StartedUnixMillis (add_event settings session event c) = cs_StartedUnixMillis c"
  by (simp_all add: add_event_def)

lemma length_add_event: "int (length (cs_Events (add_event settings session event c))) \<le>
    max (int (length (cs_Events c))) (cset_MaxEventsPerSession settings)"
  by (simp add: add_event_def)

lemma RecordCapture_known:
  assumes "fmlookup (st_captures s) (capture_id session s) = Some c"
  shows "RecordCapture ord session event s =
    (let c' = add_event (capture_settings s) session event c
     in (c', s\<lparr>st_captures := fmupd (cs_ID c') c' (st_captures s)\<rparr>))"
proof (cases "is_idle session s")
  case True
  then show ?thesis
    using assms unfolding RecordCapture_def Let_def capture_settings_def [symmetric] is_idle_def [symmetric]
    by (simp add: add_event_def capture_id_def cong: if_cong split del: if_split)
next
  case False
  then show ?thesis
    using assms unfolding RecordCapture_def Let_def capture_settings_def [symmetric] is_idle_def [symmetric]
    by (simp add: add_event_def capture_id_def cong: if_cong split del: if_split)
qed

lemma RecordCapture_new:
  assumes "fmlookup (st_captures s) (capture_id session s) = None"
  shows "RecordCapture ord session event s =
    (let c' = add_event (capture_settings s) session event (session\<lparr>cs_ID := capture_id session s\<rparr>)
     in (c', s\<lparr>st_captures := fmupd (cs_ID c') c' (kept_captures ord s)\<rparr>))"
proof (cases "is_idle session s")
  case True
  then show ?thesis
    using assms unfolding RecordCapture_def Let_def capture_settings_def [symmetric] is_idle_def [symmetric]
      kept_captures_def
    by (simp add: add_event_def capture_id_def cong: if_cong split del: if_split)
next
  case False
  then show ?thesis
    using assms unfolding RecordCapture_def Let_def capture_settings_def [symmetric] is_idle_def [symmetric]
      kept_captures_def
    by (simp add: add_event_def capture_id_def cong: if_cong split del: if_split)
qed

subsection \<open>Sessions after an idle gap\<close>

definition unhex :: "string \<Rightarrow> nat" where
  "unhex = foldl (\<lambda>acc c. 16 * acc + (let n = of_char c in if n < 58 then n - 48 else n - 87)) 0"

lemma unhex_hex_nat: "unhex (hex_nat n) = n"
proof (induction n rule: hex_nat.induct)
  case (1 n)
  show ?case
  proof (cases "n < 16")
    case True
    then show ?thesis by (subst hex_nat.simps) (simp add: unhex_def Let_def)
  next
    case False
    have "unhex (hex_nat n) = 16 * unhex (hex_nat (n div 16)) + n mod 16"
      using False by (subst hex_nat.simps) (simp add: unhex_def Let_def)
    with "1.IH" False show ?thesis by simp
  qed
qed

lemma hex_nat_inject [simp]: "hex_nat m = hex_nat n \<longleftrightarrow> m = n"
  by (metis unhex_hex_nat)

lemma hex_int_inject: "0 \<le> m \<Longrightarrow> 0 \<le> n \<Longrightarrow> hex_int m = hex_int n \<longleftrightarrow> m = n"
  by (simp add: hex_int_def eq_nat_nat_iff)

text \<open>An event of a session that has been idle too long never reaches that session.\<close>

lemma idle_event_new_session:
  assumes "is_idle session s"
    and "fmlookup (st_captures s) (cs_ID session @ ''-'' @ hex_int (cs_StartedUnixMillis session)) = None"
    and "int (fcard (fmdom (st_captures s))) < cset_RetentionSessions (capture_settings s)"
    and "cs_Events session = []" "1 \<le> cset_MaxEventsPerSession (capture_settings s)"
    and "RecordCapture ord session event s = (c, s')"
  shows "cs_ID c = cs_ID session @ ''-'' @ hex_int (cs_StartedUnixMillis session)"
    "length (cs_Events c) = 1"
    "st_captures s' = fmupd (cs_ID c) c (st_captures s)"
    "st_captureSettings s' = st_captureSettings s"
proof -
  have i: "capture_id session s = cs_ID session @ ''-'' @ hex_int (cs_StartedUnixMillis session)"
    using assms(1) by (simp add: capture_id_def)
  have r: "RecordCapture ord session event s =
    (let c' = add_event (capture_settings s) session event (session\<lparr>cs_ID := capture_id session s\<rparr>)
     in (c', s\<lparr>st_captures := fmupd (cs_ID c') c' (st_captures s)\<rparr>))"
    using assms(2,3) by (subst RecordCapture_new) (simp_all add: i kept_captures_def)
  show "cs_ID c = cs_ID session @ ''-'' @ hex_int (cs_StartedUnixMillis session)"
    "length (cs_Events c) = 1"
    "st_captures s' = fmupd (cs_ID c) c (st_captures s)"
    "st_captureSettings s' = st_captureSettings s"
    using r assms(4-6) by (auto simp: i Let_def add_event_def)
qed

subsection \<open>Eviction\<close>

text \<open>The least recently updated session of a full store.\<close>

definition evicts :: "Store \<Rightarrow> string set \<Rightarrow> bool" where
  "evicts s evicted \<longleftrightarrow> (evicted \<noteq> {} \<longrightarrow>
     int (fcard (fmdom (st_captures s))) = cset_RetentionSessions (capture_settings s) \<and>
     (\<exists>k v. evicted = {k} \<and> fmlookup (st_captures s) k = Some v \<and>
        (\<forall>k' v'. fmlookup (st_captures s) k' = Some v' \<longrightarrow>
           cs_UpdatedUnixMillis v \<le> cs_UpdatedUnixMillis v')))"

lemma kept_captures_spec:
  assumes "iter_order ord (st_captures s)" "captures_ok s"
    and "1 \<le> cset_RetentionSessions (capture_settings s)"
    and "int (fcard (fmdom (st_captures s))) \<le> cset_RetentionSessions (capture_settings s)"
  shows "\<exists>evicted. (\<forall>k. fmlookup (kept_captures ord s) k =
      (if k \<in> evicted then None else fmlookup (st_captures s) k)) \<and> evicts s evicted \<and>
    int (fcard (fmdom (kept_captures ord s))) < cset_RetentionSessions (capture_settings s)"
proof (cases "int (fcard (fmdom (st_captures s))) = cset_RetentionSessions (capture_settings s)")
  case True
  let ?E = "entries ord (st_captures s)" and ?o = "fst (oldest_scan (entries ord (st_captures s)))"
  have "length ?E = fcard (fmdom (st_captures s))"
    using map_fst_entries [OF assms(1)] iter_order_length [OF assms(1)] by (metis length_map)
  then have "0 < length ?E" using True assms(3) by linarith
  then have "?E \<noteq> []" by simp
  moreover have "\<forall>(k, c) \<in> set ?E. cs_UpdatedUnixMillis c < MaxInt64"
    using assms(2) entries_order [OF assms(1)] by (auto simp: captures_ok_def)
  ultimately obtain v where v: "(?o, v) \<in> set ?E"
    "\<forall>(k', c') \<in> set ?E. cs_UpdatedUnixMillis v \<le> cs_UpdatedUnixMillis c'"
    using oldest_scan_min by blast
  then have o: "fmlookup (st_captures s) ?o = Some v"
    "\<forall>k' v'. fmlookup (st_captures s) k' = Some v' \<longrightarrow> cs_UpdatedUnixMillis v \<le> cs_UpdatedUnixMillis v'"
    using entries_order [OF assms(1)] by auto
  have kept: "kept_captures ord s = fmdrop ?o (st_captures s)" using True by (simp add: kept_captures_def)
  have "evicts s {?o}" using True o by (auto simp: evicts_def)
  moreover have "int (fcard (fmdom (kept_captures ord s))) < cset_RetentionSessions (capture_settings s)"
    unfolding kept fcard_fmdrop_Some [OF o(1)] using True assms(3) by linarith
  ultimately show ?thesis by (intro exI [of _ "{?o}"]) (auto simp: kept)
next
  case False
  then have "kept_captures ord s = st_captures s" using assms(4) by (simp add: kept_captures_def)
  then show ?thesis using False assms(4) by (intro exI [of _ "{}"]) (simp add: evicts_def)
qed

text \<open>Where the event goes, in both cases: into \<open>old\<close>, kept with \<open>rest\<close>.\<close>

lemma RecordCapture_cases:
  assumes "RecordCapture ord session event s = (c, s')" "captures_ok s"
  obtains (known) old where "fmlookup (st_captures s) (cs_ID c) = Some old"
      "c = add_event (capture_settings s) session event old" "cs_ID old = cs_ID c"
      "st_captures s' = fmupd (cs_ID c) c (st_captures s)"
    | (new) "fmlookup (st_captures s) (cs_ID c) = None"
      "c = add_event (capture_settings s) session event (session\<lparr>cs_ID := cs_ID c\<rparr>)"
      "st_captures s' = fmupd (cs_ID c) c (kept_captures ord s)"
proof (cases "fmlookup (st_captures s) (capture_id session s)")
  case (Some old)
  then have "cs_ID old = capture_id session s" using assms(2) by (auto simp: captures_ok_def)
  then show ?thesis
    using known [of old] RecordCapture_known [OF Some, of ord event] assms(1) Some
    by (auto simp: Let_def)
next
  case None
  then show ?thesis using new RecordCapture_new [OF None, of ord event] assms(1) by (auto simp: Let_def)
qed

subsection \<open>Properties\<close>

text \<open>C15. Recording an event keeps the history within its limits: in a
  store within its retention limit of sessions, each keyed by its identifier, the same holds
  afterwards; the session returned is the one stored and has no more events than it had or than the
  limit allows; every other session is untouched, except that a new session in a full store evicts
  exactly one, and that one was the least recently updated.\<close>

theorem capture_history_is_bounded:
  assumes "iter_order ord (st_captures s)" "captures_ok s"
    and "1 \<le> cset_RetentionSessions (capture_settings s)"
    and "int (fcard (fmdom (st_captures s))) \<le> cset_RetentionSessions (capture_settings s)"
    and "cs_UpdatedUnixMillis session < MaxInt64"
    and "RecordCapture ord session event s = (c, s')"
  shows "captures_ok s' \<and>
    int (fcard (fmdom (st_captures s'))) \<le> cset_RetentionSessions (capture_settings s) \<and>
    fmlookup (st_captures s') (cs_ID c) = Some c \<and>
    int (length (cs_Events c)) \<le> max (cset_MaxEventsPerSession (capture_settings s))
      (int (length (cs_Events (get_or session (st_captures s) (cs_ID c))))) \<and>
    (\<exists>evicted. evicts s evicted \<and> (evicted \<noteq> {} \<longrightarrow> fmlookup (st_captures s) (cs_ID c) = None) \<and>
       (\<forall>k. k \<noteq> cs_ID c \<longrightarrow> fmlookup (st_captures s') k =
          (if k \<in> evicted then None else fmlookup (st_captures s) k)))"
  using assms(6,2)
proof (cases rule: RecordCapture_cases)
  case (known old)
  have upd: "cs_UpdatedUnixMillis c < MaxInt64" using known(2) assms(5) by (metis add_event_simps(2))
  have "fcard (fmdom (st_captures s')) = fcard (fmdom (st_captures s))"
    using known(1) by (simp add: known(4) fmdomI finsert_absorb)
  moreover have "captures_ok s'" using assms(2) upd by (auto simp: captures_ok_def known(4))
  moreover have "int (length (cs_Events c)) \<le>
      max (cset_MaxEventsPerSession (capture_settings s)) (int (length (cs_Events old)))"
    using length_add_event [of "capture_settings s" session event old] known(2)
    by (metis max.commute)
  ultimately show ?thesis
    using assms(4) known(1,4) by (auto simp: evicts_def intro!: exI [of _ "{}"])
next
  case new
  obtain evicted where e: "\<forall>k. fmlookup (kept_captures ord s) k =
      (if k \<in> evicted then None else fmlookup (st_captures s) k)" "evicts s evicted"
    "int (fcard (fmdom (kept_captures ord s))) < cset_RetentionSessions (capture_settings s)"
    using kept_captures_spec [OF assms(1-4)] by blast
  have upd: "cs_UpdatedUnixMillis c < MaxInt64" using new(2) assms(5) by (metis add_event_simps(2))
  have "fcard (fmdom (st_captures s')) \<le> Suc (fcard (fmdom (kept_captures ord s)))"
    by (simp add: new(3) fcard_finsert_if)
  then have "int (fcard (fmdom (st_captures s'))) \<le> cset_RetentionSessions (capture_settings s)"
    using e(3) by linarith
  moreover have "captures_ok s'"
    using assms(2) upd e(1) by (auto simp: captures_ok_def new(3) split: if_splits)
  moreover have "int (length (cs_Events c)) \<le>
      max (cset_MaxEventsPerSession (capture_settings s)) (int (length (cs_Events session)))"
    using length_add_event [of "capture_settings s" session event "session\<lparr>cs_ID := cs_ID c\<rparr>"] new(2)
    by (metis CaptureSession.select_convs(6) CaptureSession.update_convs(1) CaptureSession.surjective max.commute)
  ultimately show ?thesis using e new(1) by (auto simp: new(3))
qed

definition capture_store :: Store where
  "capture_store = NewMemoryStore\<lparr>st_captures := fmupd ''capture-a'' (zero_CaptureSession\<lparr>
     cs_ID := ''capture-a'', cs_Events := [], cs_UpdatedUnixMillis := 1000\<rparr>) fmempty\<rparr>"

lemma capture_store_facts:
  "iter_order [''capture-a''] (st_captures capture_store)" "captures_ok capture_store"
  "capture_settings capture_store = defaultCaptureSettings"
  "fcard (fmdom (st_captures capture_store)) = 1"
  "fmlookup (st_captures capture_store) k = (if k = ''capture-a'' then Some (zero_CaptureSession\<lparr>
     cs_ID := ''capture-a'', cs_Events := [], cs_UpdatedUnixMillis := 1000\<rparr>) else None)"
  by (simp_all add: iter_order_def captures_ok_def capture_store_def NewMemoryStore_def
      capture_settings_def zero_CaptureSettings_def MaxInt64_def fcard_finsert_if)

lemma zero_session_updated: "cs_UpdatedUnixMillis zero_CaptureSession = 0"
  by (simp add: zero_CaptureSession_def)

theorem capture_history_is_bounded_witness:
  "captures_ok (snd (RecordCapture [''capture-a''] zero_CaptureSession undefined capture_store))"
proof -
  obtain c s' where r: "RecordCapture [''capture-a''] zero_CaptureSession undefined capture_store = (c, s')"
    by (rule prod.exhaust)
  show ?thesis
    using capture_history_is_bounded [OF capture_store_facts(1,2) _ _ _ r]
    by (simp add: r capture_store_facts(3,4) defaultCaptureSettings_def zero_session_updated MaxInt64_def)
qed

text \<open>Once a client session has been idle longer than the
  configured gap, it never resumes: each later request of that client, however soon after the one
  before, is stored as a session of its own with that single event.\<close>

theorem idle_gap_splits_every_event:
  assumes "fmlookup (st_captures s) (cs_ID session) = Some c0"
    and "0 \<le> cs_UpdatedUnixMillis c0" "0 \<le> cset_SessionIdleMinutes (capture_settings s)"
    and "cs_UpdatedUnixMillis c0 + cset_SessionIdleMinutes (capture_settings s) * 60000 < t1"
    and "t1 < t2" "t2 \<le> MaxInt64" "cs_Events session = []"
    and "1 \<le> cset_MaxEventsPerSession (capture_settings s)"
    and "int (fcard (fmdom (st_captures s))) + 1 < cset_RetentionSessions (capture_settings s)"
    and "\<forall>t \<in> {t1, t2}. fmlookup (st_captures s) (cs_ID session @ ''-'' @ hex_int t) = None"
    and "RecordCapture ord1 (session\<lparr>cs_StartedUnixMillis := t1\<rparr>) e1 s = (c1, s1)"
    and "RecordCapture ord2 (session\<lparr>cs_StartedUnixMillis := t2\<rparr>) e2 s1 = (c2, s2)"
  shows "cs_ID c1 \<noteq> cs_ID c2 \<and> length (cs_Events c1) = 1 \<and> length (cs_Events c2) = 1 \<and>
    fmlookup (st_captures s2) (cs_ID c1) = Some c1 \<and> fmlookup (st_captures s2) (cs_ID c2) = Some c2 \<and>
    fmlookup (st_captures s2) (cs_ID session) = Some c0"
proof -
  let ?gap = "cset_SessionIdleMinutes (capture_settings s)"
  have idle: "is_idle (session\<lparr>cs_StartedUnixMillis := t\<rparr>) s'"
    if "fmlookup (st_captures s') (cs_ID session) = Some c0" "capture_settings s' = capture_settings s"
      "t1 \<le> t" "t \<le> MaxInt64" for t s'
  proof -
    have "in64 (t - cs_UpdatedUnixMillis c0)" "in64 (?gap * 60 * 1000)"
      using assms(2-6) that by (auto simp: in64_def MaxInt64_def)
    then have "i64 (t - cs_UpdatedUnixMillis c0) = t - cs_UpdatedUnixMillis c0"
      "i64 (?gap * 60 * 1000) = ?gap * 60 * 1000"
      by (simp_all only: i64_id)
    then show ?thesis using that assms(4) by (simp add: is_idle_def)
  qed
  have t0: "0 \<le> t1" "0 \<le> t2" using assms(2-5) by (auto simp: mult_nonneg_nonneg)
  then have ne: "hex_int t1 \<noteq> hex_int t2" using assms(5) hex_int_inject by simp
  note E1 = idle_event_new_session [OF idle [of s t1] _ _ _ assms(8,11)]
  have c1: "cs_ID c1 = cs_ID session @ ''-'' @ hex_int t1" "length (cs_Events c1) = 1"
    "st_captures s1 = fmupd (cs_ID c1) c1 (st_captures s)"
    "st_captureSettings s1 = st_captureSettings s"
    using E1 assms(1,5-7,9,10) by simp_all
  have set1: "capture_settings s1 = capture_settings s" using c1(4) by (simp add: capture_settings_def)
  have x: "fmlookup (st_captures s1) (cs_ID session) = Some c0" using assms(1) c1(1,3) by simp
  have card: "int (fcard (fmdom (st_captures s1))) < cset_RetentionSessions (capture_settings s1)"
    using assms(9) by (simp add: c1(3) set1 fcard_finsert_if)
  have lim: "1 \<le> cset_MaxEventsPerSession (capture_settings s1)" using assms(8) by (simp add: set1)
  note E2 = idle_event_new_session [OF idle [of s1 t2] _ _ _ lim assms(12)]
  have c2: "cs_ID c2 = cs_ID session @ ''-'' @ hex_int t2" "length (cs_Events c2) = 1"
    "st_captures s2 = fmupd (cs_ID c2) c2 (st_captures s1)"
    using E2 assms(5-7,10) x set1 card c1(1,3) ne by simp_all
  show ?thesis using c1 c2 x ne by simp
qed

theorem idle_gap_splits_every_event_witness:
  "let session = zero_CaptureSession\<lparr>cs_ID := ''capture-a''\<rparr>;
       (c1, s1) = RecordCapture [] (session\<lparr>cs_StartedUnixMillis := 901001\<rparr>) undefined capture_store;
       (c2, s2) = RecordCapture [] (session\<lparr>cs_StartedUnixMillis := 901002\<rparr>) undefined s1
   in cs_ID c1 \<noteq> cs_ID c2 \<and> length (cs_Events c2) = 1"
proof -
  let ?session = "zero_CaptureSession\<lparr>cs_ID := ''capture-a''\<rparr>"
  obtain c1 s1 where r1: "RecordCapture [] (?session\<lparr>cs_StartedUnixMillis := 901001\<rparr>) undefined
      capture_store = (c1, s1)" by (rule prod.exhaust)
  obtain c2 s2 where r2: "RecordCapture [] (?session\<lparr>cs_StartedUnixMillis := 901002\<rparr>) undefined s1 = (c2, s2)"
    by (rule prod.exhaust)
  have "fmlookup (st_captures capture_store) (cs_ID ?session) = Some (zero_CaptureSession\<lparr>
     cs_ID := ''capture-a'', cs_Events := [], cs_UpdatedUnixMillis := 1000\<rparr>)"
    by (simp add: capture_store_facts)
  from idle_gap_splits_every_event [OF this _ _ _ _ _ _ _ _ _ r1 r2]
  have "cs_ID c1 \<noteq> cs_ID c2 \<and> length (cs_Events c2) = 1"
    by (simp add: capture_store_facts defaultCaptureSettings_def zero_CaptureSettings_def
        zero_CaptureSession_def MaxInt64_def)
  then show ?thesis by (simp add: r1 r2)
qed

end
