(* ===== verification/Store_Runs.thy ===== *)
theory Store_Runs
  imports Store_State
begin

text \<open>
  The life of targets and runs in \<open>internal/store/store.go\<close>: creating and deleting targets,
  creating a run and its shards, handing shards to agents (\<open>ClaimRun\<close>), cancelling and completing
  runs. Identifiers come from one counter. A shard of a run receives its share of the load.
\<close>

subsection \<open>Targets\<close>

datatype DeleteTargetResult = TargetDeleted | TargetNotFound | TargetInUse

definition CreateTarget :: "Target \<Rightarrow> Store \<Rightarrow> Target \<times> Store" where
  "CreateTarget target s =
     (let s = s\<lparr>st_nextID := i64 (st_nextID s + 1)\<rparr>;
          target = target\<lparr>tgt_ID := ''target-'' @ dec_int (st_nextID s)\<rparr>
      in (target, s\<lparr>st_targets := fmupd (tgt_ID target) target (st_targets s)\<rparr>))"

definition is_active :: "Run \<Rightarrow> bool" where
  "is_active run \<longleftrightarrow> run_Status run = ''queued'' \<or> run_Status run = ''running''"

definition DeleteTarget :: "string list \<Rightarrow> string \<Rightarrow> Store \<Rightarrow> DeleteTargetResult \<times> Store" where
  "DeleteTarget ord i s = (case fmlookup (st_targets s) i of
     None \<Rightarrow> (TargetNotFound, s)
   | Some _ \<Rightarrow>
       if \<exists>(_, run) \<in> set (entries ord (st_runs s)). rc_TargetID (run_Config run) = i \<and> is_active run
       then (TargetInUse, s)
       else (TargetDeleted, s\<lparr>st_targets := fmdrop i (st_targets s)\<rparr>))"

subsection \<open>Creating runs\<close>

text \<open>\<open>for i := 0; i < shards; i++\<close> with \<open>n\<close> iterations left.\<close>

fun queue_shards_loop :: "nat \<Rightarrow> int \<Rightarrow> string \<Rightarrow> Store \<Rightarrow> Store" where
  "queue_shards_loop 0 i runID s = s"
| "queue_shards_loop (Suc n) i runID s =
     (let s = s\<lparr>st_nextID := i64 (st_nextID s + 1)\<rparr>;
          shard = \<lparr>sh_ID = ''shard-'' @ dec_int (st_nextID s), sh_RunID = runID,
            sh_Status = ''queued'', sh_Index = i\<rparr>
      in queue_shards_loop n (i + 1) runID (upd_shard (sh_ID shard) shard s))"

definition shard_count :: "RunConfig \<Rightarrow> int" where
  "shard_count config = (if rc_Shards config < 1 then 1 else rc_Shards config)"

definition queueShardsLocked :: "Run \<Rightarrow> Store \<Rightarrow> Store" where
  "queueShardsLocked run s =
     queue_shards_loop (nat (shard_count (run_Config run))) 0 (run_ID run) s"

definition CreateRun :: "RunConfig \<Rightarrow> Store \<Rightarrow> Run \<times> Store" where
  "CreateRun config s =
     (let s = s\<lparr>st_nextID := i64 (st_nextID s + 1)\<rparr>;
          run = zero_Run\<lparr>run_ID := ''run-'' @ dec_int (st_nextID s), run_Status := ''queued'',
            run_Config := config\<rparr>;
          run = run\<lparr>run_Config := (run_Config run)\<lparr>rc_WorkloadID := run_ID run\<rparr>\<rparr>;
          s = upd_run (run_ID run) run s
      in (run, queueShardsLocked run s))"

subsection \<open>Handing out shards\<close>

text \<open>The load of one shard: an even split whose remainder goes to the first shards.\<close>

definition split_load :: "int \<Rightarrow> int \<Rightarrow> int \<Rightarrow> int" where
  "split_load whole shards index =
     (let base = quot whole shards; extra = rem whole shards
      in if index < extra then base + 1 else base)"

definition shard_config :: "Run \<Rightarrow> Shard \<Rightarrow> RunConfig" where
  "shard_config run shard =
     (let config = (run_Config run)\<lparr>rc_WorkloadID := run_ID run @ ''-'' @ sh_ID shard\<rparr>;
          shards = shard_count config
      in if rc_Mode config = LoadModeVU
         then config\<lparr>rc_VUs := split_load (rc_VUs config) shards (sh_Index shard)\<rparr>
         else config\<lparr>rc_RPS := split_load (rc_RPS config) shards (sh_Index shard)\<rparr>)"

fun claim_loop :: "int \<Rightarrow> (string \<times> Shard) list \<Rightarrow> Store \<Rightarrow> Assignment option \<times> Store" where
  "claim_loop now [] s = (None, s)"
| "claim_loop now ((shardID, shard) # rest) s =
     (if sh_Status shard \<noteq> ''queued'' then claim_loop now rest s
      else
        let run = get_or zero_Run (st_runs s) (sh_RunID shard) in
        if run_Status run \<noteq> ''queued'' \<and> run_Status run \<noteq> ''running'' then
          claim_loop now rest (upd_shard shardID (shard\<lparr>sh_Status := ''cancelled''\<rparr>) s)
        else case fmlookup (st_targets s) (rc_TargetID (run_Config run)) of
          None \<Rightarrow>
            (let s = upd_run (run_ID run) (run\<lparr>run_Status := ''cancelled''\<rparr>) s;
                 s = upd_shard shardID (shard\<lparr>sh_Status := ''cancelled''\<rparr>) s
             in claim_loop now rest s)
        | Some target \<Rightarrow>
            (let shard = shard\<lparr>sh_Status := ''running''\<rparr>;
                 s = upd_shard shardID shard s;
                 run = run\<lparr>run_Status := ''running''\<rparr>;
                 run = (if run_StartedUnix run = 0 then run\<lparr>run_StartedUnix := now\<rparr> else run);
                 s = upd_run (run_ID run) run s
             in (Some \<lparr>asg_Run = run\<lparr>run_Config := shard_config run shard\<rparr>, asg_Target = target,
                       asg_Shard = shard\<rparr>, s)))"

definition ClaimRun :: "string list \<Rightarrow> int \<Rightarrow> Store \<Rightarrow> Assignment option \<times> Store" where
  "ClaimRun ord now s = claim_loop now (entries ord (st_shards s)) s"

subsection \<open>Ending runs\<close>

definition cancel_shards :: "string list \<Rightarrow> string \<Rightarrow> Store \<Rightarrow> Store" where
  "cancel_shards ord i s =
     foldl (\<lambda>s (shardID, shard).
        if sh_RunID shard = i \<and> sh_Status shard = ''queued''
        then upd_shard shardID (shard\<lparr>sh_Status := ''cancelled''\<rparr>) s else s) s
       (entries ord (st_shards s))"

definition cancelRunLocked :: "string list \<Rightarrow> string \<Rightarrow> Store \<Rightarrow> (Run \<times> bool) \<times> Store" where
  "cancelRunLocked ord i s = (case fmlookup (st_runs s) i of
     None \<Rightarrow> ((zero_Run, False), s)
   | Some run \<Rightarrow>
       if \<not> is_active run then ((run, True), s)
       else
         let run = run\<lparr>run_Status := ''cancelled''\<rparr>;
             s = upd_run i run s
         in ((run, True), cancel_shards ord i s))"

definition CancelRun :: "string list \<Rightarrow> string \<Rightarrow> Store \<Rightarrow> (Run \<times> bool) \<times> Store" where
  "CancelRun = cancelRunLocked"

definition CompleteRun :: "string \<Rightarrow> RunResult \<Rightarrow> Store \<Rightarrow> (Run \<times> bool) \<times> Store" where
  "CompleteRun i result s = (case fmlookup (st_runs s) i of
     None \<Rightarrow> ((zero_Run, False), s)
   | Some run \<Rightarrow>
       if run_Status run = ''cancelled'' then ((run, True), s)
       else
         let run = run\<lparr>run_Status := ''completed'', run_Result := result\<rparr>
         in ((run, True), upd_run i run s))"

subsection \<open>The shares add up\<close>

lemma split_load_range:
  assumes "0 \<le> whole" "0 < shards"
  shows "whole div shards \<le> split_load whole shards i" "split_load whole shards i \<le> whole div shards + 1"
  using assms by (simp_all add: split_load_def Let_def quot_nonneg_eq)

text \<open>The shares of the first \<open>n\<close> shards.\<close>

lemma split_load_prefix:
  assumes "0 \<le> whole" "0 < shards"
  shows "(\<Sum>i<n. split_load whole shards (int i)) = int n * (whole div shards) + min (int n) (whole mod shards)"
proof (induction n)
  case (Suc n)
  then show ?case
    using assms by (auto simp: split_load_def Let_def quot_nonneg_eq rem_nonneg_eq min_def algebra_simps)
qed (use assms in simp)

lemma split_load_total:
  assumes "0 \<le> whole" "0 < shards"
  shows "(\<Sum>i<nat shards. split_load whole shards (int i)) = whole"
proof -
  have "(\<Sum>i<nat shards. split_load whole shards (int i)) = shards * (whole div shards) + whole mod shards"
    using split_load_prefix [OF assms, of "nat shards"] assms(2) pos_mod_bound [OF assms(2), of whole]
    by (simp add: min_def split: if_splits)
  then show ?thesis by (simp add: mult_div_mod_eq)
qed

end
