(* ===== verification/Lo_Fold.thy ===== *)
theory Lo_Fold
  imports Lo_Prelude "HOL-Library.Multiset"
begin

text \<open>
  Contracts of a field of a state that a loop or a sequence of operations changes: \<open>counter\<close> for a
  field to which every step adds a value, \<open>pool\<close> for a list to which every step appends. The clients
  interpret them on the fields of the merged result of a run and on those of the agent's
  measurements, and get the value of the field after any number of steps.
\<close>

text \<open>A field the loop adds a value to, wrapping.\<close>

locale counter =
  fixes step :: "'s \<Rightarrow> 'v \<Rightarrow> 's" and get :: "'s \<Rightarrow> int" and val :: "'v \<Rightarrow> int"
  assumes get_step: "in64 (get s) \<Longrightarrow> get (step s v) = i64 (get s + val v)"
begin

lemma get_fold: "in64 (get s) \<Longrightarrow> get (foldl step s vs) = i64 (get s + (\<Sum>v\<leftarrow>vs. val v))"
  by (induction vs arbitrary: s) (simp_all add: get_step i64_id i64_simps add.assoc)

lemma get_fold_mset:
  assumes "in64 (get s)" "mset vs = mset ws"
  shows "get (foldl step s vs) = get (foldl step s ws)"
proof -
  have "(\<Sum>v\<leftarrow>vs. val v) = (\<Sum>v\<leftarrow>ws. val v)"
    using assms(2) by (metis mset_map sum_mset_sum_list)
  then show ?thesis using assms(1) by (simp add: get_fold)
qed

end

text \<open>A list the loop appends to.\<close>

locale pool =
  fixes step :: "'s \<Rightarrow> 'v \<Rightarrow> 's" and get :: "'s \<Rightarrow> 'a list" and val :: "'v \<Rightarrow> 'a list"
  assumes get_step: "get (step s v) = get s @ val v"
begin

lemma get_fold: "get (foldl step s vs) = get s @ concat (map val vs)"
  by (induction vs arbitrary: s) (simp_all add: get_step)

lemma get_fold_mset:
  assumes "mset vs = mset ws"
  shows "mset (get (foldl step s vs)) = mset (get (foldl step s ws))"
proof -
  have c: "mset (concat (map val us)) = sum_mset (image_mset (\<lambda>u. mset (val u)) (mset us))" for us
    by (induction us) auto
  have "mset (concat (map val vs)) = mset (concat (map val ws))"
    unfolding c using assms by simp
  then show ?thesis by (simp add: get_fold)
qed

end

end
