(* ===== verification/Store_Merge.thy ===== *)
theory Store_Merge
  imports Store_State Core_Stats Lo_Fold
begin

text \<open>
  Merging the results of a run's shards (\<open>CompleteShard\<close> in \<open>internal/store/store.go\<close>).
  \<open>merge_shard\<close> is the body of the loop over the shards, split where the code has its blocks;
  \<open>finish_merge\<close> is what follows the loop. The locales \<open>counter\<close> and \<open>pool\<close> of
  \<open>Lo_Fold\<close> are interpreted on the fields of the merged result.
\<close>

subsection \<open>Merging one field\<close>

definition mergeDistribution :: "Distribution \<Rightarrow> Distribution \<Rightarrow> int \<Rightarrow> int \<Rightarrow> Distribution" where
  "mergeDistribution current next currentWeight nextWeight =
     (if currentWeight = 0 then next
      else \<lparr>ds_MinMillis = min (ds_MinMillis current) (ds_MinMillis next),
            ds_AvgMillis = i64 (quot (i64 (i64 (ds_AvgMillis current * currentWeight) +
                i64 (ds_AvgMillis next * nextWeight))) (i64 (currentWeight + nextWeight))),
            ds_P50Millis = max (ds_P50Millis current) (ds_P50Millis next),
            ds_P95Millis = max (ds_P95Millis current) (ds_P95Millis next),
            ds_P99Millis = max (ds_P99Millis current) (ds_P99Millis next),
            ds_MaxMillis = max (ds_MaxMillis current) (ds_MaxMillis next)\<rparr>)"

definition mergeTimelinePoint :: "TimelinePoint \<Rightarrow> TimelinePoint \<Rightarrow> TimelinePoint" where
  "mergeTimelinePoint current next =
     \<lparr>tp_Second = tp_Second next,
      tp_Requests = i64 (tp_Requests current + tp_Requests next),
      tp_Successes = i64 (tp_Successes current + tp_Successes next),
      tp_Failures = i64 (tp_Failures current + tp_Failures next),
      tp_P95Millis = max (tp_P95Millis current) (tp_P95Millis next),
      tp_Issued = i64 (tp_Issued current + tp_Issued next),
      tp_Completed = i64 (tp_Completed current + tp_Completed next),
      tp_Cancelled = i64 (tp_Cancelled current + tp_Cancelled next),
      tp_Active = i64 (tp_Active current + tp_Active next),
      tp_Waiting = i64 (tp_Waiting current + tp_Waiting next),
      tp_TargetLoad = i64 (tp_TargetLoad current + tp_TargetLoad next)\<rparr>"

definition mergeScenario :: "ScenarioResult \<Rightarrow> ScenarioResult \<Rightarrow> ScenarioResult" where
  "mergeScenario current next =
     (let previous = scr_Completed current;
          current = current\<lparr>scr_Issued := i64 (scr_Issued current + scr_Issued next),
            scr_Completed := i64 (scr_Completed current + scr_Completed next),
            scr_Failures := i64 (scr_Failures current + scr_Failures next),
            scr_Cancelled := i64 (scr_Cancelled current + scr_Cancelled next),
            scr_OutputTokens := i64 (scr_OutputTokens current + scr_OutputTokens next),
            scr_InputTokens := i64 (scr_InputTokens current + scr_InputTokens next),
            scr_OutputPerSecond := fadd (scr_OutputPerSecond current) (scr_OutputPerSecond next)\<rparr>
      in if scr_Completed next > 0
         then current\<lparr>
           scr_Latency := mergeDistribution (scr_Latency current) (scr_Latency next) previous (scr_Completed next),
           scr_TTFT := mergeDistribution (scr_TTFT current) (scr_TTFT next) previous (scr_Completed next)\<rparr>
         else current)"

definition sortedTimeline :: "int list \<Rightarrow> (int, TimelinePoint) fmap \<Rightarrow> TimelinePoint list" where
  "sortedTimeline ord points = sort_by (\<lambda>a b. tp_Second a < tp_Second b)
     (foldl (\<lambda>timeline (_, point). timeline @ [point]) [] (entries ord points))"

definition appendSamples :: "RunSamples \<Rightarrow> RunSamples \<Rightarrow> RunSamples" where
  "appendSamples into frm = into\<lparr>
     smp_Latency := smp_Latency into @ smp_Latency frm,
     smp_TTFT := smp_TTFT into @ smp_TTFT frm,
     smp_TTFO := smp_TTFO into @ smp_TTFO frm,
     smp_ITL := smp_ITL into @ smp_ITL frm,
     smp_TPOT := smp_TPOT into @ smp_TPOT frm,
     smp_Decimated := (smp_Decimated frm \<or> smp_Decimated into)\<rparr>"

subsection \<open>The loop over the shards\<close>

text \<open>The variables of the loop. A scenario and its samples are what the two pointer maps point to.\<close>

record Merge =
  mg_merged :: RunResult
  mg_distributionWeight :: int
  mg_generatorWeight :: int
  mg_timeline :: "(int, TimelinePoint) fmap"
  mg_scenarios :: "ScenarioResult smap"
  mg_scenarioSamples :: "RunSamples smap"
  mg_scenarioOrder :: "string list"
  mg_pooled :: RunSamples
  mg_pooledAny :: bool

definition merge_start :: Merge where
  "merge_start = \<lparr>mg_merged = zero_RunResult, mg_distributionWeight = 0, mg_generatorWeight = 0,
     mg_timeline = fmempty, mg_scenarios = fmempty, mg_scenarioSamples = fmempty,
     mg_scenarioOrder = [], mg_pooled = zero_RunSamples, mg_pooledAny = False\<rparr>"

text \<open>\<open>for code, count := range m2 { m[code] += count }\<close>: each code is visited once.\<close>

definition add_counts :: "int smap \<Rightarrow> int smap \<Rightarrow> int smap" where
  "add_counts m m2 = fmadd m (fmmap_keys (\<lambda>code n. i64 (get_or 0 m code + n)) m2)"

definition merge_counters :: "RunResult \<Rightarrow> int \<Rightarrow> RunResult \<Rightarrow> RunResult" where
  "merge_counters merged generatorWeight v = merged\<lparr>
     rr_Successes := i64 (rr_Successes merged + rr_Successes v),
     rr_Failures := i64 (rr_Failures merged + rr_Failures v),
     rr_Total := i64 (rr_Total merged + rr_Total v),
     rr_DroppedArrivals := i64 (rr_DroppedArrivals merged + rr_DroppedArrivals v),
     rr_AgentSessions := i64 (rr_AgentSessions merged + rr_AgentSessions v),
     rr_CompletedSessions := i64 (rr_CompletedSessions merged + rr_CompletedSessions v),
     rr_Issued := i64 (rr_Issued merged + rr_Issued v),
     rr_Completed := i64 (rr_Completed merged + rr_Completed v),
     rr_Cancelled := i64 (rr_Cancelled merged + rr_Cancelled v),
     rr_HTTPFailures := i64 (rr_HTTPFailures merged + rr_HTTPFailures v),
     rr_TransportErrors := i64 (rr_TransportErrors merged + rr_TransportErrors v),
     rr_SteadySamples := i64 (rr_SteadySamples merged + rr_SteadySamples v),
     rr_SteadySeconds := max (rr_SteadySeconds merged) (rr_SteadySeconds v),
     rr_DrainedSeconds := max (rr_DrainedSeconds merged) (rr_DrainedSeconds v),
     rr_GeneratorDelay := mergeDistribution (rr_GeneratorDelay merged) (rr_GeneratorDelay v)
       generatorWeight (rr_Total v),
     rr_MissingUsageResponses := i64 (rr_MissingUsageResponses merged + rr_MissingUsageResponses v),
     rr_ContentChunks := i64 (rr_ContentChunks merged + rr_ContentChunks v),
     rr_OutputLengthPinned := rr_OutputLengthPinned v,
     rr_ContextAccumulated := rr_ContextAccumulated v,
     rr_LatencyFromIntendedArrival := (rr_LatencyFromIntendedArrival v \<or> rr_LatencyFromIntendedArrival merged),
     rr_SamplesDecimated := (rr_SamplesDecimated v \<or> rr_SamplesDecimated merged)\<rparr>"

definition merge_tokens :: "TokenUsage \<Rightarrow> TokenUsage \<Rightarrow> TokenUsage" where
  "merge_tokens merged v = merged\<lparr>
     tu_Prompt := i64 (tu_Prompt merged + tu_Prompt v),
     tu_Completion := i64 (tu_Completion merged + tu_Completion v),
     tu_Reasoning := i64 (tu_Reasoning merged + tu_Reasoning v)\<rparr>"

definition merge_texts :: "RunResult \<Rightarrow> RunResult \<Rightarrow> RunResult" where
  "merge_texts merged v =
     (let merged = merged\<lparr>rr_Tokens := merge_tokens (rr_Tokens merged) (rr_Tokens v),
            rr_Errors := rr_Errors merged @ rr_Errors v\<rparr>
      in if rr_StoppedByGuardrail v
         then merged\<lparr>rr_StoppedByGuardrail := True, rr_GuardrailMessage := rr_GuardrailMessage v\<rparr>
         else merged)"

definition add_point :: "(int, TimelinePoint) fmap \<Rightarrow> TimelinePoint \<Rightarrow> (int, TimelinePoint) fmap" where
  "add_point timeline point = fmupd (tp_Second point)
     (mergeTimelinePoint (get_or zero_TimelinePoint timeline (tp_Second point)) point) timeline"

definition merge_points :: "(int, TimelinePoint) fmap \<Rightarrow> TimelinePoint list \<Rightarrow> (int, TimelinePoint) fmap" where
  "merge_points = foldl add_point"

definition merge_scenario_step :: "Merge \<Rightarrow> ScenarioResult \<Rightarrow> Merge" where
  "merge_scenario_step m scenario =
     (let name = scr_Name scenario;
          m = (if fmlookup (mg_scenarios m) name = None
            then m\<lparr>mg_scenarios := fmupd name (zero_ScenarioResult\<lparr>scr_Name := name\<rparr>) (mg_scenarios m),
                   mg_scenarioOrder := mg_scenarioOrder m @ [name],
                   mg_scenarioSamples := fmupd name zero_RunSamples (mg_scenarioSamples m)\<rparr>
            else m);
          m = m\<lparr>mg_scenarios := fmupd name
            (mergeScenario (get_or zero_ScenarioResult (mg_scenarios m) name) scenario) (mg_scenarios m)\<rparr>
      in case scr_Samples scenario of
           None \<Rightarrow> m
         | Some samples \<Rightarrow> m\<lparr>mg_scenarioSamples := fmupd name
             (appendSamples (get_or zero_RunSamples (mg_scenarioSamples m) name) samples)
             (mg_scenarioSamples m)\<rparr>)"

definition merge_distributions :: "RunResult \<Rightarrow> int \<Rightarrow> int \<Rightarrow> RunResult \<Rightarrow> RunResult" where
  "merge_distributions merged w weight v = merged\<lparr>
     rr_Latency := mergeDistribution (rr_Latency merged) (rr_Latency v) w weight,
     rr_TTFT := mergeDistribution (rr_TTFT merged) (rr_TTFT v) w weight,
     rr_TTFO := mergeDistribution (rr_TTFO merged) (rr_TTFO v) w weight,
     rr_TPOT := mergeDistribution (rr_TPOT merged) (rr_TPOT v) w weight,
     rr_ITL := mergeDistribution (rr_ITL merged) (rr_ITL v) w weight\<rparr>"

definition merge_shard :: "Merge \<Rightarrow> RunResult \<Rightarrow> Merge" where
  "merge_shard m v =
     (let m = m\<lparr>mg_merged := merge_counters (mg_merged m) (mg_generatorWeight m) v,
                mg_generatorWeight := i64 (mg_generatorWeight m + rr_Total v)\<rparr>;
          m = (case rr_Samples v of
                 None \<Rightarrow> m
               | Some samples \<Rightarrow>
                   m\<lparr>mg_pooledAny := True, mg_pooled := appendSamples (mg_pooled m) samples\<rparr>);
          m = m\<lparr>mg_merged := merge_texts (mg_merged m) v,
                mg_timeline := merge_points (mg_timeline m) (rr_Timeline v)\<rparr>;
          m = foldl merge_scenario_step m (rr_Scenarios v);
          weight = (if rr_SteadySamples v = 0 then rr_Successes v else rr_SteadySamples v);
          m = (if weight > 0
               then m\<lparr>mg_merged := merge_distributions (mg_merged m) (mg_distributionWeight m) weight v,
                      mg_distributionWeight := i64 (mg_distributionWeight m + weight)\<rparr>
               else m);
          m = (if rr_Successes v > 0
               then m\<lparr>mg_merged := (mg_merged m)\<lparr>rr_GoodputPercent :=
                   fadd (rr_GoodputPercent (mg_merged m)) (fmul (rr_GoodputPercent v) (f_of_int (rr_Total v)))\<rparr>\<rparr>
               else m)
      in m\<lparr>mg_merged := (mg_merged m)\<lparr>rr_StatusCounts :=
             add_counts (rr_StatusCounts (mg_merged m)) (rr_StatusCounts v)\<rparr>\<rparr>)"

subsection \<open>After the loop\<close>

definition pooled_distributions :: "RunResult \<Rightarrow> RunSamples \<Rightarrow> RunResult" where
  "pooled_distributions merged pooled = merged\<lparr>
     rr_Latency := store_distribution (smp_Latency pooled),
     rr_TTFT := store_distribution (smp_TTFT pooled),
     rr_TTFO := store_distribution (smp_TTFO pooled),
     rr_ITL := store_distribution (smp_ITL pooled),
     rr_TPOT := store_distribution (smp_TPOT pooled),
     rr_LatencyScope := ''pooled_samples''\<rparr>"

definition finish_scenario :: "Merge \<Rightarrow> string \<Rightarrow> ScenarioResult" where
  "finish_scenario m name =
     (let scenario = get_or zero_ScenarioResult (mg_scenarios m) name;
          scenario = (if scr_Issued scenario > 0
            then scenario\<lparr>scr_CompletionPercent := fdiv (fmul (f_of_int (scr_Completed scenario))
                (f_of_int 100)) (f_of_int (scr_Issued scenario))\<rparr>
            else scenario);
          scenario = (case fmlookup (mg_scenarioSamples m) name of
              None \<Rightarrow> scenario
            | Some samples \<Rightarrow>
                if length (smp_Latency samples) > 0
                then scenario\<lparr>scr_Latency := store_distribution (smp_Latency samples),
                       scr_TTFT := store_distribution (smp_TTFT samples)\<rparr>
                else scenario)
      in scenario\<lparr>scr_Samples := None\<rparr>)"

definition finish_rates :: "RunConfig \<Rightarrow> bool \<Rightarrow> RunResult \<Rightarrow> RunResult" where
  "finish_rates config pooledAny merged =
     (let merged = merged\<lparr>rr_P95Millis := ds_P95Millis (rr_Latency merged),
            rr_TTFTP95Millis := ds_P95Millis (rr_TTFT merged)\<rparr>;
          merged = (if rr_Total merged > 0
            then merged\<lparr>rr_GoodputPercent := fdiv (rr_GoodputPercent merged) (f_of_int (rr_Total merged))\<rparr>
            else merged);
          merged = (if rr_Issued merged > 0
            then merged\<lparr>rr_CompletionPercent := fdiv (fmul (f_of_int (rr_Completed merged)) (f_of_int 100))
                (f_of_int (rr_Issued merged))\<rparr>
            else merged);
          merged = (if rc_Shards config > 1 \<and> \<not> pooledAny
            then merged\<lparr>rr_LatencyScope := ''worst_shard_p95''\<rparr> else merged)
      in if rc_DurationSeconds config > 0
         then merged\<lparr>rr_ThroughputRPS := fdiv (f_of_int (rr_Total merged)) (f_of_int (rc_DurationSeconds config)),
                rr_Tokens := (rr_Tokens merged)\<lparr>tu_OutputPerSecond :=
                  fdiv (f_of_int (tu_Completion (rr_Tokens merged))) (f_of_int (rc_DurationSeconds config))\<rparr>\<rparr>
         else merged)"

definition finish_merge :: "((int, TimelinePoint) fmap \<Rightarrow> int list) \<Rightarrow> RunConfig \<Rightarrow> Merge \<Rightarrow> RunResult" where
  "finish_merge tord config m =
     (let merged = (mg_merged m)\<lparr>rr_Timeline := sortedTimeline (tord (mg_timeline m)) (mg_timeline m)\<rparr>;
          merged = (if mg_pooledAny m then pooled_distributions merged (mg_pooled m) else merged);
          merged = merged\<lparr>rr_Scenarios :=
            rr_Scenarios merged @ map (finish_scenario m) (mg_scenarioOrder m)\<rparr>;
          merged = finish_rates config (mg_pooledAny m) merged
      in merged\<lparr>rr_Samples := None\<rparr>)"

subsection \<open>What each block of the loop leaves alone\<close>

lemma merge_scenario_step_frame [simp]:
  "mg_merged (merge_scenario_step m x) = mg_merged m"
  "mg_distributionWeight (merge_scenario_step m x) = mg_distributionWeight m"
  "mg_generatorWeight (merge_scenario_step m x) = mg_generatorWeight m"
  "mg_timeline (merge_scenario_step m x) = mg_timeline m"
  "mg_pooled (merge_scenario_step m x) = mg_pooled m"
  "mg_pooledAny (merge_scenario_step m x) = mg_pooledAny m"
  by (simp_all add: merge_scenario_step_def Let_def split: option.split)

lemma merge_scenarios_frame [simp]:
  "mg_merged (foldl merge_scenario_step m xs) = mg_merged m"
  "mg_distributionWeight (foldl merge_scenario_step m xs) = mg_distributionWeight m"
  "mg_generatorWeight (foldl merge_scenario_step m xs) = mg_generatorWeight m"
  "mg_timeline (foldl merge_scenario_step m xs) = mg_timeline m"
  "mg_pooled (foldl merge_scenario_step m xs) = mg_pooled m"
  "mg_pooledAny (foldl merge_scenario_step m xs) = mg_pooledAny m"
  by (induction xs arbitrary: m) simp_all

text \<open>The merged result after one more shard: the counters come from \<open>merge_counters\<close>, and the rest of
  the body changes other fields.\<close>

definition same_counters :: "RunResult \<Rightarrow> RunResult \<Rightarrow> bool" where
  "same_counters a b \<longleftrightarrow> rr_Successes a = rr_Successes b \<and> rr_Failures a = rr_Failures b \<and>
     rr_Total a = rr_Total b \<and> rr_DroppedArrivals a = rr_DroppedArrivals b \<and>
     rr_AgentSessions a = rr_AgentSessions b \<and> rr_CompletedSessions a = rr_CompletedSessions b \<and>
     rr_Issued a = rr_Issued b \<and> rr_Completed a = rr_Completed b \<and> rr_Cancelled a = rr_Cancelled b \<and>
     rr_HTTPFailures a = rr_HTTPFailures b \<and> rr_TransportErrors a = rr_TransportErrors b \<and>
     rr_SteadySamples a = rr_SteadySamples b \<and> rr_ContentChunks a = rr_ContentChunks b \<and>
     rr_MissingUsageResponses a = rr_MissingUsageResponses b"

lemma same_counters_refl: "same_counters a a"
  by (simp add: same_counters_def)

lemma same_counters_trans: "same_counters a b \<Longrightarrow> same_counters b c \<Longrightarrow> same_counters a c"
  by (simp add: same_counters_def)

lemma same_counters_if: "same_counters a c \<Longrightarrow> same_counters b c \<Longrightarrow> same_counters (if q then a else b) c"
  by simp

lemma same_counters_texts: "same_counters (merge_texts m v) m"
  by (simp add: same_counters_def merge_texts_def Let_def)

lemma same_counters_distributions: "same_counters (merge_distributions m w weight v) m"
  by (simp add: same_counters_def merge_distributions_def)

lemma same_counters_goodput: "same_counters (m\<lparr>rr_GoodputPercent := g\<rparr>) m"
  by (simp add: same_counters_def)

lemma same_counters_status: "same_counters (m\<lparr>rr_StatusCounts := g\<rparr>) m"
  by (simp add: same_counters_def)

definition merged_step :: "Merge \<Rightarrow> RunResult \<Rightarrow> RunResult" where
  "merged_step m v =
     (let a = merge_texts (merge_counters (mg_merged m) (mg_generatorWeight m) v) v;
          weight = (if rr_SteadySamples v = 0 then rr_Successes v else rr_SteadySamples v);
          b = (if weight > 0 then merge_distributions a (mg_distributionWeight m) weight v else a);
          c = (if rr_Successes v > 0 then b\<lparr>rr_GoodputPercent :=
                fadd (rr_GoodputPercent b) (fmul (rr_GoodputPercent v) (f_of_int (rr_Total v)))\<rparr> else b)
      in c\<lparr>rr_StatusCounts := add_counts (rr_StatusCounts c) (rr_StatusCounts v)\<rparr>)"

lemma merge_shard_fields:
  "mg_merged (merge_shard m v) = merged_step m v"
  "mg_generatorWeight (merge_shard m v) = i64 (mg_generatorWeight m + rr_Total v)"
  "mg_timeline (merge_shard m v) = merge_points (mg_timeline m) (rr_Timeline v)"
  "mg_pooled (merge_shard m v) = (case rr_Samples v of None \<Rightarrow> mg_pooled m
     | Some samples \<Rightarrow> appendSamples (mg_pooled m) samples)"
  "mg_pooledAny (merge_shard m v) = (mg_pooledAny m \<or> rr_Samples v \<noteq> None)"
  by (cases "rr_Samples v"; simp add: merge_shard_def merged_step_def Let_def)+

lemma merged_step_counters:
  "same_counters (merged_step m v) (merge_counters (mg_merged m) (mg_generatorWeight m) v)"
  unfolding merged_step_def Let_def
  by (intro same_counters_trans [OF same_counters_status] same_counters_if
      same_counters_trans [OF same_counters_goodput] same_counters_trans [OF same_counters_distributions]
      same_counters_texts)

lemmas merged_counter = merged_step_counters [unfolded same_counters_def]

interpretation successes: counter merge_shard "\<lambda>m. rr_Successes (mg_merged m)" rr_Successes
  by unfold_locales (simp add: merge_shard_fields merged_counter merge_counters_def)

interpretation failures: counter merge_shard "\<lambda>m. rr_Failures (mg_merged m)" rr_Failures
  by unfold_locales (simp add: merge_shard_fields merged_counter merge_counters_def)

interpretation requests: counter merge_shard "\<lambda>m. rr_Total (mg_merged m)" rr_Total
  by unfold_locales (simp add: merge_shard_fields merged_counter merge_counters_def)

interpretation dropped: counter merge_shard "\<lambda>m. rr_DroppedArrivals (mg_merged m)" rr_DroppedArrivals
  by unfold_locales (simp add: merge_shard_fields merged_counter merge_counters_def)

interpretation issued: counter merge_shard "\<lambda>m. rr_Issued (mg_merged m)" rr_Issued
  by unfold_locales (simp add: merge_shard_fields merged_counter merge_counters_def)

interpretation finished: counter merge_shard "\<lambda>m. rr_Completed (mg_merged m)" rr_Completed
  by unfold_locales (simp add: merge_shard_fields merged_counter merge_counters_def)

interpretation cancelled: counter merge_shard "\<lambda>m. rr_Cancelled (mg_merged m)" rr_Cancelled
  by unfold_locales (simp add: merge_shard_fields merged_counter merge_counters_def)

interpretation http: counter merge_shard "\<lambda>m. rr_HTTPFailures (mg_merged m)" rr_HTTPFailures
  by unfold_locales (simp add: merge_shard_fields merged_counter merge_counters_def)

interpretation transport: counter merge_shard "\<lambda>m. rr_TransportErrors (mg_merged m)" rr_TransportErrors
  by unfold_locales (simp add: merge_shard_fields merged_counter merge_counters_def)

end
