(* ===== verification/Store_Totals.thy ===== *)
theory Store_Totals
  imports Store_Merge
begin

text \<open>
  What the merged result of a distributed run contains: pooled samples, the timeline with one point
  per second, and the totals, with the properties of \<open>finish_merge\<close>.
\<close>

subsection \<open>Pooled samples\<close>

definition sent :: "(RunSamples \<Rightarrow> int list) \<Rightarrow> RunResult \<Rightarrow> int list" where
  "sent field v = (case rr_Samples v of None \<Rightarrow> [] | Some samples \<Rightarrow> field samples)"

interpretation latencies: pool merge_shard "\<lambda>m. smp_Latency (mg_pooled m)" "sent smp_Latency"
  by unfold_locales (simp add: merge_shard_fields sent_def appendSamples_def split: option.split)

interpretation ttfts: pool merge_shard "\<lambda>m. smp_TTFT (mg_pooled m)" "sent smp_TTFT"
  by unfold_locales (simp add: merge_shard_fields sent_def appendSamples_def split: option.split)

interpretation ttfos: pool merge_shard "\<lambda>m. smp_TTFO (mg_pooled m)" "sent smp_TTFO"
  by unfold_locales (simp add: merge_shard_fields sent_def appendSamples_def split: option.split)

interpretation itls: pool merge_shard "\<lambda>m. smp_ITL (mg_pooled m)" "sent smp_ITL"
  by unfold_locales (simp add: merge_shard_fields sent_def appendSamples_def split: option.split)

interpretation tpots: pool merge_shard "\<lambda>m. smp_TPOT (mg_pooled m)" "sent smp_TPOT"
  by unfold_locales (simp add: merge_shard_fields sent_def appendSamples_def split: option.split)

lemma pooledAny_fold: "mg_pooledAny (foldl merge_shard m vs) \<longleftrightarrow>
    mg_pooledAny m \<or> (\<exists>v \<in> set vs. rr_Samples v \<noteq> None)"
  by (induction vs arbitrary: m) (auto simp: merge_shard_fields)

subsection \<open>The merged timeline\<close>

lemma timeline_fold:
  "mg_timeline (foldl merge_shard m vs) = merge_points (mg_timeline m) (concat (map rr_Timeline vs))"
  by (induction vs arbitrary: m) (simp_all add: merge_shard_fields merge_points_def)

text \<open>The sum of a field over the points of one second.\<close>

definition at_second :: "int \<Rightarrow> (TimelinePoint \<Rightarrow> int) \<Rightarrow> TimelinePoint \<Rightarrow> int" where
  "at_second sec field p = (if tp_Second p = sec then field p else 0)"

interpretation point_issued: counter add_point "\<lambda>t. tp_Issued (get_or zero_TimelinePoint t sec)"
    "at_second sec tp_Issued" for sec
  by unfold_locales (simp add: add_point_def at_second_def mergeTimelinePoint_def i64_id)

interpretation point_completed: counter add_point "\<lambda>t. tp_Completed (get_or zero_TimelinePoint t sec)"
    "at_second sec tp_Completed" for sec
  by unfold_locales (simp add: add_point_def at_second_def mergeTimelinePoint_def i64_id)

interpretation point_failures: counter add_point "\<lambda>t. tp_Failures (get_or zero_TimelinePoint t sec)"
    "at_second sec tp_Failures" for sec
  by unfold_locales (simp add: add_point_def at_second_def mergeTimelinePoint_def i64_id)

definition timeline_keyed :: "(int, TimelinePoint) fmap \<Rightarrow> bool" where
  "timeline_keyed t \<longleftrightarrow> (\<forall>k p. fmlookup t k = Some p \<longrightarrow> tp_Second p = k)"

lemma timeline_keyed_add: "timeline_keyed t \<Longrightarrow> timeline_keyed (add_point t p)"
  unfolding timeline_keyed_def add_point_def by (simp add: mergeTimelinePoint_def)

lemma timeline_keyed_points: "timeline_keyed t \<Longrightarrow> timeline_keyed (merge_points t ps)"
  unfolding merge_points_def by (induction ps arbitrary: t) (simp_all add: timeline_keyed_add)

lemma dom_add_point: "fmlookup (add_point t p) k = None \<longleftrightarrow> fmlookup t k = None \<and> k \<noteq> tp_Second p"
  by (simp add: add_point_def)

lemma dom_merge_points:
  "fmlookup (merge_points t ps) k = None \<longleftrightarrow> fmlookup t k = None \<and> k \<notin> tp_Second ` set ps"
  unfolding merge_points_def by (induction ps arbitrary: t) (auto simp: dom_add_point)

lemma set_insert_by [simp]: "set (insert_by lt x ys) = insert x (set ys)"
  by (induction ys) auto

lemma insert_by_sorted:
  fixes f :: "'a \<Rightarrow> 'k :: linorder"
  assumes "sorted_wrt (\<lambda>a b. f a < f b) ys" "\<forall>y \<in> set ys. f y \<noteq> f x"
  shows "sorted_wrt (\<lambda>a b. f a < f b) (insert_by (\<lambda>a b. f a < f b) x ys)"
  using assms
proof (induction ys)
  case (Cons y ys)
  show ?case
  proof (cases "f y < f x")
    case True
    with Cons show ?thesis by simp
  next
    case False
    with Cons.prems have "f x < f y" by auto
    with Cons.prems False show ?thesis by (auto intro: less_trans)
  qed
qed simp

lemma sort_by_sorted:
  fixes f :: "'a \<Rightarrow> 'k :: linorder"
  assumes "distinct (map f xs)"
  shows "sorted_wrt (\<lambda>a b. f a < f b) (sort_by (\<lambda>a b. f a < f b) xs)"
  using assms
proof (induction xs)
  case (Cons x xs)
  have "\<forall>y \<in> set (sort_by (\<lambda>a b. f a < f b) xs). f y \<noteq> f x" using Cons.prems by (auto simp: image_iff)
  with Cons show ?case by (simp add: sort_by_def insert_by_sorted)
qed (simp add: sort_by_def)

lemma foldl_values: "foldl (\<lambda>acc (_, v). acc @ [v]) acc es = acc @ map snd es"
  by (induction es arbitrary: acc) auto

lemma sortedTimeline_spec:
  assumes "iter_order ord t" "timeline_keyed t"
  shows "sorted_wrt (\<lambda>a b. tp_Second a < tp_Second b) (sortedTimeline ord t)"
    "p \<in> set (sortedTimeline ord t) \<longleftrightarrow> fmlookup t (tp_Second p) = Some p"
proof -
  have "map (tp_Second \<circ> snd) (entries ord t) = map fst (entries ord t)"
    using assms(2) entries_order [OF assms(1)] by (auto simp: timeline_keyed_def)
  then have "distinct (map tp_Second (map snd (entries ord t)))"
    using map_fst_entries [OF assms(1)] iter_order_distinct [OF assms(1)] by simp
  then show "sorted_wrt (\<lambda>a b. tp_Second a < tp_Second b) (sortedTimeline ord t)"
    unfolding sortedTimeline_def foldl_values by (simp add: sort_by_sorted)
  have "p \<in> set (sortedTimeline ord t) \<longleftrightarrow> (\<exists>k. fmlookup t k = Some p)"
    unfolding sortedTimeline_def foldl_values using entries_order [OF assms(1)] by force
  then show "p \<in> set (sortedTimeline ord t) \<longleftrightarrow> fmlookup t (tp_Second p) = Some p"
    using assms(2) by (auto simp: timeline_keyed_def)
qed

lemma sorted_by_key_unique:
  fixes f :: "'a \<Rightarrow> 'k :: linorder"
  assumes "sorted_wrt (\<lambda>a b. f a < f b) xs" "sorted_wrt (\<lambda>a b. f a < f b) ys" "set xs = set ys"
  shows "xs = ys"
  using assms
proof (induction xs arbitrary: ys)
  case (Cons x xs)
  then obtain y zs where ys: "ys = y # zs" by (cases ys) auto
  have "x = y"
  proof (rule ccontr)
    assume "x \<noteq> y"
    then have "x \<in> set zs" "y \<in> set xs" using Cons.prems(3) ys by auto
    then have "f y < f x" "f x < f y" using Cons.prems(1,2) ys by auto
    then show False by simp
  qed
  moreover have "x \<notin> set xs" "y \<notin> set zs" using Cons.prems(1,2) ys by auto
  ultimately have "set xs = set zs" using Cons.prems(3) ys by auto
  with Cons ys \<open>x = y\<close> show ?case by simp
qed simp

subsection \<open>Order of the shards\<close>

text \<open>A loop body whose effects commute gives the same result in every order.\<close>

locale commuting =
  fixes step :: "'s \<Rightarrow> 'v \<Rightarrow> 's"
  assumes step_commute: "step (step s v) w = step (step s w) v"
begin

lemma fold_mset:
  assumes "mset vs = mset ws"
  shows "foldl step s vs = foldl step s ws"
proof -
  have "fold (\<lambda>v s. step s v) vs = fold (\<lambda>v s. step s v) ws"
    by (rule fold_multiset_equiv) (use assms in \<open>auto simp: fun_eq_iff step_commute\<close>)
  then show ?thesis by (simp add: foldl_conv_fold)
qed

end

lemma mergeTimelinePoint_commute: "tp_Second p = tp_Second q \<Longrightarrow>
    mergeTimelinePoint (mergeTimelinePoint c p) q = mergeTimelinePoint (mergeTimelinePoint c q) p"
  by (simp add: mergeTimelinePoint_def i64_simps ac_simps)

interpretation timeline: commuting add_point
proof
  show "add_point (add_point t p) q = add_point (add_point t q) p" for t p q
    by (cases "tp_Second p = tp_Second q")
      (simp_all add: add_point_def mergeTimelinePoint_commute fmupd_reorder_neq)
qed

lemma mset_concat_map: "mset vs = mset ws \<Longrightarrow> mset (concat (map f vs)) = mset (concat (map f ws))"
proof -
  have "mset (concat (map f us)) = sum_mset (image_mset (\<lambda>u. mset (f u)) (mset us))" for us
    by (induction us) auto
  then show "mset vs = mset ws \<Longrightarrow> mset (concat (map f vs)) = mset (concat (map f ws))" by simp
qed

subsection \<open>The fields of the finished result\<close>

abbreviation merged_result ::
    "((int, TimelinePoint) fmap \<Rightarrow> int list) \<Rightarrow> RunConfig \<Rightarrow> RunResult list \<Rightarrow> RunResult" where
  "merged_result tord config vs \<equiv> finish_merge tord config (foldl merge_shard merge_start vs)"

lemma same_counters_pooled: "same_counters (pooled_distributions m pooled) m"
  by (simp add: same_counters_def pooled_distributions_def)

lemma same_counters_scenarios: "same_counters (m\<lparr>rr_Scenarios := x\<rparr>) m"
  by (simp add: same_counters_def)

lemma same_counters_timeline: "same_counters (m\<lparr>rr_Timeline := x\<rparr>) m"
  by (simp add: same_counters_def)

lemma same_counters_rates: "same_counters (finish_rates config b m) m"
  by (simp add: same_counters_def finish_rates_def Let_def)

lemma same_counters_finish: "same_counters (finish_merge tord config m) (mg_merged m)"
proof -
  have s: "same_counters (r\<lparr>rr_Samples := None\<rparr>) r" for r by (simp add: same_counters_def)
  show ?thesis
    unfolding finish_merge_def Let_def
    by (intro same_counters_trans [OF s] same_counters_trans [OF same_counters_rates]
        same_counters_trans [OF same_counters_scenarios] same_counters_if
        same_counters_trans [OF same_counters_pooled] same_counters_timeline)
qed

lemmas finished_counter = same_counters_finish [unfolded same_counters_def]

lemma merge_start_zero [simp]:
  "rr_Successes (mg_merged merge_start) = 0" "rr_Failures (mg_merged merge_start) = 0"
  "rr_Total (mg_merged merge_start) = 0" "rr_Issued (mg_merged merge_start) = 0"
  "rr_Completed (mg_merged merge_start) = 0" "rr_Cancelled (mg_merged merge_start) = 0"
  "rr_HTTPFailures (mg_merged merge_start) = 0" "rr_TransportErrors (mg_merged merge_start) = 0"
  "rr_DroppedArrivals (mg_merged merge_start) = 0" "mg_pooledAny merge_start = False"
  "rr_AgentSessions (mg_merged merge_start) = 0" "rr_CompletedSessions (mg_merged merge_start) = 0"
  "rr_SteadySamples (mg_merged merge_start) = 0" "rr_ContentChunks (mg_merged merge_start) = 0"
  "rr_MissingUsageResponses (mg_merged merge_start) = 0"
  "mg_timeline merge_start = fmempty" "mg_pooled merge_start = zero_RunSamples"
  by (simp_all add: merge_start_def zero_RunResult_def)

interpretation sessions: counter merge_shard "\<lambda>m. rr_AgentSessions (mg_merged m)" rr_AgentSessions
  by unfold_locales (simp add: merge_shard_fields merged_counter merge_counters_def)

interpretation completed_sessions: counter merge_shard "\<lambda>m. rr_CompletedSessions (mg_merged m)"
    rr_CompletedSessions
  by unfold_locales (simp add: merge_shard_fields merged_counter merge_counters_def)

interpretation steady: counter merge_shard "\<lambda>m. rr_SteadySamples (mg_merged m)" rr_SteadySamples
  by unfold_locales (simp add: merge_shard_fields merged_counter merge_counters_def)

interpretation chunks: counter merge_shard "\<lambda>m. rr_ContentChunks (mg_merged m)" rr_ContentChunks
  by unfold_locales (simp add: merge_shard_fields merged_counter merge_counters_def)

interpretation missing: counter merge_shard "\<lambda>m. rr_MissingUsageResponses (mg_merged m)"
    rr_MissingUsageResponses
  by unfold_locales (simp add: merge_shard_fields merged_counter merge_counters_def)

lemma in64_0 [simp]: "in64 0"
  by (simp add: in64_def)

text \<open>The totals of a merged run.\<close>

lemma merged_totals:
  fixes tord config vs
  defines "r \<equiv> merged_result tord config vs"
  shows "rr_Successes r = i64 (\<Sum>v\<leftarrow>vs. rr_Successes v)" "rr_Failures r = i64 (\<Sum>v\<leftarrow>vs. rr_Failures v)"
    "rr_Total r = i64 (\<Sum>v\<leftarrow>vs. rr_Total v)" "rr_Issued r = i64 (\<Sum>v\<leftarrow>vs. rr_Issued v)"
    "rr_Completed r = i64 (\<Sum>v\<leftarrow>vs. rr_Completed v)" "rr_Cancelled r = i64 (\<Sum>v\<leftarrow>vs. rr_Cancelled v)"
    "rr_HTTPFailures r = i64 (\<Sum>v\<leftarrow>vs. rr_HTTPFailures v)"
    "rr_TransportErrors r = i64 (\<Sum>v\<leftarrow>vs. rr_TransportErrors v)"
    "rr_DroppedArrivals r = i64 (\<Sum>v\<leftarrow>vs. rr_DroppedArrivals v)"
  by (simp_all add: r_def finished_counter successes.get_fold failures.get_fold requests.get_fold
      issued.get_fold finished.get_fold cancelled.get_fold http.get_fold transport.get_fold
      dropped.get_fold)

text \<open>Each kind of sample and the distribution reported for it.\<close>

definition sample_fields :: "((RunSamples \<Rightarrow> int list) \<times> (RunResult \<Rightarrow> Distribution)) list" where
  "sample_fields = [(smp_Latency, rr_Latency), (smp_TTFT, rr_TTFT), (smp_TTFO, rr_TTFO),
     (smp_ITL, rr_ITL), (smp_TPOT, rr_TPOT)]"

definition same_latencies :: "RunResult \<Rightarrow> RunResult \<Rightarrow> bool" where
  "same_latencies a b \<longleftrightarrow> rr_Latency a = rr_Latency b \<and> rr_TTFT a = rr_TTFT b \<and> rr_TTFO a = rr_TTFO b \<and>
     rr_ITL a = rr_ITL b \<and> rr_TPOT a = rr_TPOT b \<and> rr_LatencyScope a = rr_LatencyScope b \<and> rr_Timeline a = rr_Timeline b"

lemma rates_frame:
  "rr_Timeline (finish_rates config b m) = rr_Timeline m"
  "rr_Latency (finish_rates config b m) = rr_Latency m"
  "rr_TTFT (finish_rates config b m) = rr_TTFT m"
  "rr_TTFO (finish_rates config b m) = rr_TTFO m"
  "rr_ITL (finish_rates config b m) = rr_ITL m"
  "rr_TPOT (finish_rates config b m) = rr_TPOT m"
  "b \<Longrightarrow> rr_LatencyScope (finish_rates config b m) = rr_LatencyScope m"
  by (simp_all add: finish_rates_def Let_def)

lemma rates_p95:
  "rr_P95Millis (finish_rates config b m) = ds_P95Millis (rr_Latency m)"
  "rr_TTFTP95Millis (finish_rates config b m) = ds_P95Millis (rr_TTFT m)"
  by (simp_all add: finish_rates_def Let_def)

lemma pooled_frame:
  "rr_Timeline (pooled_distributions m pooled) = rr_Timeline m"
  "rr_Latency (pooled_distributions m pooled) = store_distribution (smp_Latency pooled)"
  "rr_TTFT (pooled_distributions m pooled) = store_distribution (smp_TTFT pooled)"
  "rr_TTFO (pooled_distributions m pooled) = store_distribution (smp_TTFO pooled)"
  "rr_ITL (pooled_distributions m pooled) = store_distribution (smp_ITL pooled)"
  "rr_TPOT (pooled_distributions m pooled) = store_distribution (smp_TPOT pooled)"
  "rr_LatencyScope (pooled_distributions m pooled) = ''pooled_samples''"
  by (simp_all add: pooled_distributions_def)

lemma rr_Timeline_if: "rr_Timeline (if b then x else y) = (if b then rr_Timeline x else rr_Timeline y)"
  by simp

lemma finish_latencies:
  "rr_Timeline (finish_merge tord config m) = sortedTimeline (tord (mg_timeline m)) (mg_timeline m)"
  "mg_pooledAny m \<Longrightarrow> rr_Latency (finish_merge tord config m) = store_distribution (smp_Latency (mg_pooled m))"
  "mg_pooledAny m \<Longrightarrow> rr_TTFT (finish_merge tord config m) = store_distribution (smp_TTFT (mg_pooled m))"
  "mg_pooledAny m \<Longrightarrow> rr_ITL (finish_merge tord config m) = store_distribution (smp_ITL (mg_pooled m))"
  "mg_pooledAny m \<Longrightarrow> rr_TPOT (finish_merge tord config m) = store_distribution (smp_TPOT (mg_pooled m))"
  "mg_pooledAny m \<Longrightarrow> rr_LatencyScope (finish_merge tord config m) = ''pooled_samples''"
  "rr_P95Millis (finish_merge tord config m) = ds_P95Millis (rr_Latency (finish_merge tord config m))"
  "rr_TTFTP95Millis (finish_merge tord config m) = ds_P95Millis (rr_TTFT (finish_merge tord config m))"
  "mg_pooledAny m \<Longrightarrow> rr_TTFO (finish_merge tord config m) = store_distribution (smp_TTFO (mg_pooled m))"
  by (simp_all add: finish_merge_def Let_def rates_frame rates_p95 pooled_frame rr_Timeline_if cong: if_cong split del: if_split)

lemma merged_latencies:
  fixes tord config
  assumes "\<exists>v \<in> set vs. rr_Samples v \<noteq> None"
  defines "r \<equiv> merged_result tord config vs"
  shows "rr_Latency r = store_distribution (concat (map (sent smp_Latency) vs))"
    "rr_TTFT r = store_distribution (concat (map (sent smp_TTFT) vs))"
    "rr_ITL r = store_distribution (concat (map (sent smp_ITL) vs))"
    "rr_TPOT r = store_distribution (concat (map (sent smp_TPOT) vs))"
    "rr_LatencyScope r = ''pooled_samples''"
    "rr_TTFO r = store_distribution (concat (map (sent smp_TTFO) vs))"
proof -
  have p: "mg_pooledAny (foldl merge_shard merge_start vs)" using assms(1) by (simp add: pooledAny_fold)
  show "rr_Latency r = store_distribution (concat (map (sent smp_Latency) vs))"
    "rr_TTFT r = store_distribution (concat (map (sent smp_TTFT) vs))"
    "rr_ITL r = store_distribution (concat (map (sent smp_ITL) vs))"
    "rr_TPOT r = store_distribution (concat (map (sent smp_TPOT) vs))"
    "rr_LatencyScope r = ''pooled_samples''"
    "rr_TTFO r = store_distribution (concat (map (sent smp_TTFO) vs))"
    unfolding r_def finish_latencies(2-6,9) [OF p]
    by (simp_all add: latencies.get_fold ttfts.get_fold ttfos.get_fold itls.get_fold tpots.get_fold zero_RunSamples_def)
qed

lemma merged_sample_fields:
  assumes "\<exists>v \<in> set vs. rr_Samples v \<noteq> None" "(f, d) \<in> set sample_fields"
  shows "d (merged_result tord config vs) = store_distribution (concat (map (sent f) vs))"
  using assms(2) by (auto simp: sample_fields_def merged_latencies [OF assms(1)])

lemma merged_timeline:
  fixes tord config vs
  assumes "\<forall>t. iter_order (tord t) t"
  defines "T \<equiv> rr_Timeline (merged_result tord config vs)" and "ps \<equiv> concat (map rr_Timeline vs)"
  shows "sorted_wrt (\<lambda>a b. tp_Second a < tp_Second b) T"
    "tp_Second ` set T = tp_Second ` set ps"
    "p \<in> set T \<Longrightarrow> tp_Issued p = i64 (\<Sum>q\<leftarrow>ps. at_second (tp_Second p) tp_Issued q)"
    "p \<in> set T \<Longrightarrow> tp_Completed p = i64 (\<Sum>q\<leftarrow>ps. at_second (tp_Second p) tp_Completed q)"
    "p \<in> set T \<Longrightarrow> tp_Failures p = i64 (\<Sum>q\<leftarrow>ps. at_second (tp_Second p) tp_Failures q)"
proof -
  define t where "t = merge_points fmempty ps"
  have T: "T = sortedTimeline (tord t) t"
    unfolding T_def t_def finish_latencies(1) ps_def timeline_fold by simp
  have k: "timeline_keyed t" unfolding t_def by (rule timeline_keyed_points) (simp add: timeline_keyed_def)
  note S = sortedTimeline_spec [OF assms(1) [rule_format] k, folded T]
  show "sorted_wrt (\<lambda>a b. tp_Second a < tp_Second b) T" by (rule S(1))
  have "fmlookup t sec \<noteq> None \<longleftrightarrow> sec \<in> tp_Second ` set ps" for sec
    by (simp add: t_def dom_merge_points)
  moreover have "sec \<in> tp_Second ` set T \<longleftrightarrow> fmlookup t sec \<noteq> None" for sec
  proof
    show "sec \<in> tp_Second ` set T \<Longrightarrow> fmlookup t sec \<noteq> None" using S(2) by fastforce
    assume "fmlookup t sec \<noteq> None"
    then obtain p where p: "fmlookup t sec = Some p" by blast
    with k have "tp_Second p = sec" by (simp add: timeline_keyed_def)
    with p S(2) [of p] show "sec \<in> tp_Second ` set T" by (intro image_eqI [of _ _ p]) simp_all
  qed
  ultimately show "tp_Second ` set T = tp_Second ` set ps" by blast
  assume "p \<in> set T"
  then have p: "get_or zero_TimelinePoint (foldl add_point fmempty ps) (tp_Second p) = p"
    using S(2) by (simp add: t_def merge_points_def)
  have z: "get_or zero_TimelinePoint fmempty s = zero_TimelinePoint" for s :: int by (simp add: get_or_def)
  show "tp_Issued p = i64 (\<Sum>q\<leftarrow>ps. at_second (tp_Second p) tp_Issued q)"
    using point_issued.get_fold [where sec = "tp_Second p" and s = fmempty and vs = ps]
    by (simp add: p z) (simp add: zero_TimelinePoint_def)
  show "tp_Completed p = i64 (\<Sum>q\<leftarrow>ps. at_second (tp_Second p) tp_Completed q)"
    using point_completed.get_fold [where sec = "tp_Second p" and s = fmempty and vs = ps]
    by (simp add: p z) (simp add: zero_TimelinePoint_def)
  show "tp_Failures p = i64 (\<Sum>q\<leftarrow>ps. at_second (tp_Second p) tp_Failures q)"
    using point_failures.get_fold [where sec = "tp_Second p" and s = fmempty and vs = ps]
    by (simp add: p z) (simp add: zero_TimelinePoint_def)
qed

lemma same_counters_sym: "same_counters a b \<Longrightarrow> same_counters b a"
  by (simp add: same_counters_def)

lemma merged_counters_order:
  assumes "mset vs = mset ws"
  shows "same_counters (merged_result tord config vs) (merged_result tord' config ws)"
proof -
  have "same_counters (mg_merged (foldl merge_shard merge_start vs)) (mg_merged (foldl merge_shard merge_start ws))"
    unfolding same_counters_def
    by (intro conjI successes.get_fold_mset failures.get_fold_mset requests.get_fold_mset
        dropped.get_fold_mset issued.get_fold_mset finished.get_fold_mset cancelled.get_fold_mset
        http.get_fold_mset transport.get_fold_mset sessions.get_fold_mset
        completed_sessions.get_fold_mset steady.get_fold_mset chunks.get_fold_mset
        missing.get_fold_mset assms) simp_all
  from same_counters_trans [OF this same_counters_sym [OF same_counters_finish]]
  show ?thesis by (rule same_counters_trans [OF same_counters_finish])
qed

lemma merged_order_irrelevant:
  assumes "mset vs = mset ws" "\<exists>v \<in> set vs. rr_Samples v \<noteq> None"
    and "\<forall>t. iter_order (tord t) t" "\<forall>t. iter_order (tord' t) t"
  shows "same_latencies (merged_result tord config vs) (merged_result tord' config ws)"
proof -
  have set: "set vs = set ws" using assms(1) by (rule mset_eq_setD)
  have s': "\<exists>v \<in> set ws. rr_Samples v \<noteq> None" using assms(2) set by simp
  note L = merged_latencies [OF assms(2)] and L' = merged_latencies [OF s']
  note D = store_distribution_cong [OF mset_concat_map [OF assms(1)]]
  have t: "mg_timeline (foldl merge_shard merge_start vs) = mg_timeline (foldl merge_shard merge_start ws)"
    unfolding timeline_fold merge_points_def by (rule timeline.fold_mset [OF mset_concat_map [OF assms(1)]])
  let ?t = "mg_timeline (foldl merge_shard merge_start ws)"
  have k: "timeline_keyed ?t"
    unfolding timeline_fold by (rule timeline_keyed_points) (simp add: timeline_keyed_def)
  note S = sortedTimeline_spec [OF assms(3) [rule_format] k] sortedTimeline_spec [OF assms(4) [rule_format] k]
  have "set (sortedTimeline (tord ?t) ?t) = set (sortedTimeline (tord' ?t) ?t)"
    using S(2,4) by auto
  from sorted_by_key_unique [OF S(1,3) this]
  have "rr_Timeline (merged_result tord config vs) = rr_Timeline (merged_result tord' config ws)"
    unfolding finish_latencies(1) t .
  then show ?thesis
    unfolding same_latencies_def L L' D [of "sent smp_Latency"] D [of "sent smp_TTFT"]
      D [of "sent smp_TTFO"] D [of "sent smp_ITL"] D [of "sent smp_TPOT"] by simp
qed

end
