(* ===== verification/Store_Complete.thy ===== *)
theory Store_Complete
  imports Store_Runs Store_Totals
begin

text \<open>
  \<open>CompleteShard\<close> of \<open>internal/store/store.go\<close>: recording a shard's result, and merging the results
  of all shards into the run when the last one arrives. And the operations of searches that queue
  runs: \<open>CreateSearch\<close>, \<open>AdvanceSearch\<close>, \<open>CancelSearch\<close>.
\<close>

subsection \<open>Completing a shard\<close>

definition strip_scenario :: "ScenarioResult \<Rightarrow> ScenarioResult" where
  "strip_scenario r = r\<lparr>scr_Samples := None\<rparr>"

definition strip_samples :: "RunResult \<Rightarrow> RunResult" where
  "strip_samples r = r\<lparr>rr_Samples := None, rr_Scenarios := map strip_scenario (rr_Scenarios r)\<rparr>"

definition clearShardSamplesLocked :: "string list \<Rightarrow> string \<Rightarrow> Store \<Rightarrow> Store" where
  "clearShardSamplesLocked ord runID s =
     foldl (\<lambda>s (shardID, shard).
        if sh_RunID shard \<noteq> runID then s
        else case fmlookup (st_shardResults s) shardID of
          None \<Rightarrow> s
        | Some result \<Rightarrow> s\<lparr>st_shardResults := fmupd shardID (strip_samples result) (st_shardResults s)\<rparr>)
       s (entries ord (st_shards s))"

text \<open>The shard results of a run, in the order the merging loop meets them.\<close>

definition shard_values :: "string list \<Rightarrow> string \<Rightarrow> Store \<Rightarrow> RunResult list" where
  "shard_values ord runID s =
     map (\<lambda>(shardID, _). get_or zero_RunResult (st_shardResults s) shardID)
       (filter (\<lambda>(_, item). sh_RunID item = runID) (entries ord (st_shards s)))"

definition CompleteShard ::
    "string list \<Rightarrow> ((int, TimelinePoint) fmap \<Rightarrow> int list) \<Rightarrow> string \<Rightarrow> RunResult \<Rightarrow> Store
       \<Rightarrow> (Run \<times> bool) \<times> Store" where
  "CompleteShard ord tord i result s = (case fmlookup (st_shards s) i of
     None \<Rightarrow> ((zero_Run, False), s)
   | Some shard \<Rightarrow>
       let s = upd_shard i (shard\<lparr>sh_Status := ''completed''\<rparr>) s;
           s = s\<lparr>st_shardResults := fmupd i result (st_shardResults s)\<rparr>;
           run = get_or zero_Run (st_runs s) (sh_RunID shard)
       in if run_Status run = ''cancelled'' then ((run, True), s)
          else if \<exists>(_, item) \<in> set (entries ord (st_shards s)).
              sh_RunID item = run_ID run \<and> sh_Status item \<noteq> ''completed''
          then ((run, True), s)
          else
            let m = foldl merge_shard merge_start (shard_values ord (run_ID run) s);
                run = run\<lparr>run_Status := ''completed'',
                  run_Result := finish_merge tord (run_Config run) m\<rparr>;
                s = upd_run (run_ID run) run s;
                s = clearRunProgressLocked ord (run_ID run) s;
                s = clearShardSamplesLocked ord (run_ID run) s
            in ((run, True), s))"

subsection \<open>Searches\<close>

definition queueSearchRunLocked :: "AutoSearch \<Rightarrow> int \<Rightarrow> Store \<Rightarrow> AutoSearch \<times> Store" where
  "queueSearchRunLocked search load s =
     (let config = asc_Run (as_Config search);
          config = (if rc_Mode config = LoadModeRPS then config\<lparr>rc_RPS := load\<rparr>
            else config\<lparr>rc_VUs := load\<rparr>);
          s = s\<lparr>st_nextID := i64 (st_nextID s + 1)\<rparr>;
          run = zero_Run\<lparr>run_ID := ''run-'' @ dec_int (st_nextID s), run_Status := ''queued'',
            run_SearchID := as_ID search, run_Config := config\<rparr>;
          run = run\<lparr>run_Config := (run_Config run)\<lparr>rc_WorkloadID := run_ID run\<rparr>\<rparr>;
          s = upd_run (run_ID run) run s;
          s = queueShardsLocked run s;
          search = search\<lparr>as_RunIDs := as_RunIDs search @ [run_ID run]\<rparr>
      in (search, s\<lparr>st_searchRun := fmupd (run_ID run) (as_ID search) (st_searchRun s)\<rparr>))"

definition CreateSearch :: "AutoSearchConfig \<Rightarrow> Store \<Rightarrow> AutoSearch \<times> Store" where
  "CreateSearch config s =
     (let s = s\<lparr>st_nextID := i64 (st_nextID s + 1)\<rparr>;
          search = zero_AutoSearch\<lparr>as_ID := ''search-'' @ dec_int (st_nextID s),
            as_Status := AutoSearchRunning, as_Config := config, as_NextLoad := asc_StartLoad config,
            as_Ladder := SweepLadder (asc_StartLoad config) (asc_MaxLoad config)\<rparr>;
          (search, s) = queueSearchRunLocked search (asc_StartLoad config) s
      in (search, upd_search (as_ID search) search s))"

text \<open>The store's \<open>AdvanceSearch\<close>; the core function of the same name decides.\<close>

definition advanceSearch :: "string \<Rightarrow> Store \<Rightarrow> Store" where
  "advanceSearch runID s = (case fmlookup (st_searchRun s) runID of
     None \<Rightarrow> s
   | Some searchID \<Rightarrow>
       let search = get_or zero_AutoSearch (st_searches s) searchID in
       if as_Status search \<noteq> AutoSearchRunning then s
       else
         let run = get_or zero_Run (st_runs s) runID;
             (search, next, more) = AdvanceSearch search run;
             (search, s) = (if more then queueSearchRunLocked search next s else (search, s))
         in upd_search searchID search s)"

definition CancelSearch :: "string list \<Rightarrow> string \<Rightarrow> Store \<Rightarrow> (AutoSearch \<times> bool) \<times> Store" where
  "CancelSearch ord i s = (case fmlookup (st_searches s) i of
     None \<Rightarrow> ((zero_AutoSearch, False), s)
   | Some search \<Rightarrow>
       let search = search\<lparr>as_Status := AutoSearchCancelled, as_Message := CancelledByUser\<rparr>;
           s = upd_search i search s;
           s = foldl (\<lambda>s runID. snd (cancelRunLocked ord runID s)) s (as_RunIDs search)
       in ((search, True), s))"

subsection \<open>The shards of a run\<close>

definition shards_of :: "Store \<Rightarrow> string \<Rightarrow> string set" where
  "shards_of s R = {k. \<exists>sh. fmlookup (st_shards s) k = Some sh \<and> sh_RunID sh = R}"

definition all_completed :: "Store \<Rightarrow> string \<Rightarrow> bool" where
  "all_completed s R \<longleftrightarrow> (\<forall>k sh. fmlookup (st_shards s) k = Some sh \<longrightarrow> sh_RunID sh = R \<longrightarrow>
     sh_Status sh = ''completed'')"

abbreviation result_of :: "Store \<Rightarrow> string \<Rightarrow> RunResult" where
  "result_of s k \<equiv> get_or zero_RunResult (st_shardResults s) k"

text \<open>The store after recording the result of shard \<open>i\<close>.\<close>

definition record_result :: "string \<Rightarrow> Shard \<Rightarrow> RunResult \<Rightarrow> Store \<Rightarrow> Store" where
  "record_result i shard result s = s\<lparr>st_shards := fmupd i (shard\<lparr>sh_Status := ''completed''\<rparr>) (st_shards s),
     st_shardResults := fmupd i result (st_shardResults s)\<rparr>"

lemma record_result_simps [simp]:
  "st_runs (record_result i shard result s) = st_runs s"
  "st_shardResults (record_result i shard result s) = fmupd i result (st_shardResults s)"
  "st_shards (record_result i shard result s) = fmupd i (shard\<lparr>sh_Status := ''completed''\<rparr>) (st_shards s)"
  "st_progress (record_result i shard result s) = st_progress s"
  by (simp_all add: record_result_def)

lemma iter_order_fmupd: "iter_order ord m \<Longrightarrow> fmlookup m k = Some v \<Longrightarrow> iter_order ord (fmupd k v' m)"
  by (simp add: iter_order_def fmdomI finsert_absorb)

lemma shards_of_record: "fmlookup (st_shards s) i = Some shard \<Longrightarrow>
    shards_of (record_result i shard result s) R = shards_of s R"
  by (auto simp: shards_of_def split: if_splits)

lemma shard_values_keys:
  assumes "iter_order ord (st_shards s)"
  shows "\<exists>ks. distinct ks \<and> set ks = shards_of s R \<and> shard_values ord R s = map (result_of s) ks"
proof -
  let ?F = "filter (\<lambda>(_, item). sh_RunID item = R) (entries ord (st_shards s))"
  have "distinct (map fst (entries ord (st_shards s)))"
    using map_fst_entries [OF assms] iter_order_distinct [OF assms] by simp
  then have "distinct (map fst ?F)" by (rule distinct_map_filter)
  moreover have "set (map fst ?F) = shards_of s R"
    using entries_order [OF assms] by (force simp: shards_of_def)
  moreover have "shard_values ord R s = map (result_of s) (map fst ?F)"
    by (simp add: shard_values_def case_prod_beta)
  ultimately show ?thesis by blast
qed

lemma shard_values_sum:
  assumes "iter_order ord (st_shards s)"
  shows "(\<Sum>v\<leftarrow>shard_values ord R s. f v) = (\<Sum>k \<in> shards_of s R. f (result_of s k))"
proof -
  obtain ks where ks: "distinct ks" "set ks = shards_of s R" "shard_values ord R s = map (result_of s) ks"
    using shard_values_keys [OF assms] by blast
  have "(\<Sum>v\<leftarrow>shard_values ord R s. f v) = (\<Sum>k\<leftarrow>ks. f (result_of s k))"
    by (simp add: ks(3) comp_def)
  also have "\<dots> = (\<Sum>k \<in> set ks. f (result_of s k))" by (rule sum_list_distinct_conv_sum_set [OF ks(1)])
  finally show ?thesis by (simp add: ks(2))
qed

lemma shard_values_mset:
  assumes "iter_order ord (st_shards s)" "iter_order ord' (st_shards s)"
  shows "mset (shard_values ord R s) = mset (shard_values ord' R s)"
proof -
  obtain ks where ks: "distinct ks" "set ks = shards_of s R" "shard_values ord R s = map (result_of s) ks"
    using shard_values_keys [OF assms(1)] by blast
  obtain ls where ls: "distinct ls" "set ls = shards_of s R" "shard_values ord' R s = map (result_of s) ls"
    using shard_values_keys [OF assms(2)] by blast
  have "mset ks = mset ls" using set_eq_iff_mset_eq_distinct [OF ks(1) ls(1)] ks(2) ls(2) by simp
  then show ?thesis by (simp add: ks(3) ls(3))
qed

lemma shard_values_set:
  assumes "iter_order ord (st_shards s)"
  shows "set (shard_values ord R s) = result_of s ` shards_of s R"
proof -
  obtain ks where "set ks = shards_of s R" "shard_values ord R s = map (result_of s) ks"
    using shard_values_keys [OF assms] by blast
  then show ?thesis by simp
qed

lemma foldl_changes_only:
  assumes "\<And>s e. \<exists>x. f s e = upd x s" "\<And>x y s. upd x (upd y s) = upd x s" "\<exists>x. s = upd x s"
  shows "\<exists>x. foldl f s es = upd x s"
proof (induction es rule: rev_induct)
  case (snoc e es)
  then obtain x where "foldl f s es = upd x s" by blast
  moreover obtain y where "f (upd x s) e = upd y (upd x s)" using assms(1) by blast
  ultimately show ?case using assms(2) by auto
qed (use assms(3) in simp)

lemma clear_progress_only: "\<exists>p. clearRunProgressLocked ord R s = s\<lparr>st_progress := p\<rparr>"
  unfolding clearRunProgressLocked_def
proof (rule foldl_changes_only)
  show "\<exists>x. (case e of (shardID, shard) \<Rightarrow> if sh_RunID shard = R
      then s\<lparr>st_progress := fmdrop shardID (st_progress s)\<rparr> else s) = s\<lparr>st_progress := x\<rparr>" for s e
    by (cases e; cases "sh_RunID (snd e) = R") (auto intro: exI [of _ "st_progress s"])
  show "\<exists>x. s = s\<lparr>st_progress := x\<rparr>" by (rule exI [of _ "st_progress s"]) simp
qed simp

lemma clear_progress_frame [frame_simps]:
  "st_runs (clearRunProgressLocked ord R s) = st_runs s"
  "st_shards (clearRunProgressLocked ord R s) = st_shards s"
  "st_shardResults (clearRunProgressLocked ord R s) = st_shardResults s"
  "st_searches (clearRunProgressLocked ord R s) = st_searches s"
  "st_searchRun (clearRunProgressLocked ord R s) = st_searchRun s"
  "st_nextID (clearRunProgressLocked ord R s) = st_nextID s"
  "st_targets (clearRunProgressLocked ord R s) = st_targets s"
  using clear_progress_only [of ord R s] by auto

lemma clear_samples_only: "\<exists>p. clearShardSamplesLocked ord R s = s\<lparr>st_shardResults := p\<rparr>"
  unfolding clearShardSamplesLocked_def
proof (rule foldl_changes_only)
  show "\<exists>x. (case e of (shardID, shard) \<Rightarrow> if sh_RunID shard \<noteq> R then s
      else case fmlookup (st_shardResults s) shardID of None \<Rightarrow> s
        | Some result \<Rightarrow> s\<lparr>st_shardResults := fmupd shardID (strip_samples result) (st_shardResults s)\<rparr>)
      = s\<lparr>st_shardResults := x\<rparr>" for s e
    by (cases e; cases "sh_RunID (snd e) = R"; cases "fmlookup (st_shardResults s) (fst e)")
      (auto intro: exI [of _ "st_shardResults s"])
  show "\<exists>x. s = s\<lparr>st_shardResults := x\<rparr>" by (rule exI [of _ "st_shardResults s"]) simp
qed simp

lemma clear_samples_frame [frame_simps]:
  "st_runs (clearShardSamplesLocked ord R s) = st_runs s"
  "st_shards (clearShardSamplesLocked ord R s) = st_shards s"
  "st_progress (clearShardSamplesLocked ord R s) = st_progress s"
  "st_searches (clearShardSamplesLocked ord R s) = st_searches s"
  "st_searchRun (clearShardSamplesLocked ord R s) = st_searchRun s"
  "st_nextID (clearShardSamplesLocked ord R s) = st_nextID s"
  "st_targets (clearShardSamplesLocked ord R s) = st_targets s"
  using clear_samples_only [of ord R s] by auto

lemma strip_samples_idem [simp]: "strip_samples (strip_samples r) = strip_samples r"
  by (simp add: strip_samples_def strip_scenario_def)

lemma cleared_results:
  "fmlookup (st_shardResults (clearShardSamplesLocked ord R s)) k =
    (if \<exists>sh. (k, sh) \<in> set (entries ord (st_shards s)) \<and> sh_RunID sh = R
     then map_option strip_samples (fmlookup (st_shardResults s) k) else fmlookup (st_shardResults s) k)"
proof -
  have "fmlookup (st_shardResults (foldl f s es)) k =
      (if \<exists>sh. (k, sh) \<in> set es \<and> sh_RunID sh = R
       then map_option strip_samples (fmlookup (st_shardResults s) k) else fmlookup (st_shardResults s) k)"
    if "f = (\<lambda>s (shardID, shard). if sh_RunID shard \<noteq> R then s
        else case fmlookup (st_shardResults s) shardID of None \<Rightarrow> s
          | Some result \<Rightarrow> s\<lparr>st_shardResults := fmupd shardID (strip_samples result) (st_shardResults s)\<rparr>)"
    for f es
  proof (induction es arbitrary: s)
    case (Cons e es)
    obtain j sh where e: "e = (j, sh)" by force
    show ?case
      using Cons.IH [of "f s e"]
      by (cases "sh_RunID sh = R"; cases "fmlookup (st_shardResults s) j"; cases "j = k")
        (auto simp: that e option.map_comp comp_def)
  qed simp
  from this [OF refl] show ?thesis unfolding clearShardSamplesLocked_def .
qed

lemma if_or: "(if a \<or> b then x else y) = (if a then x else if b then x else y)"
  by simp

lemma CompleteShard_eq:
  fixes result
  assumes "iter_order ord (st_shards s)" "fmlookup (st_shards s) i = Some shard"
  defines "run \<equiv> get_or zero_Run (st_runs s) (sh_RunID shard)" and "s1 \<equiv> record_result i shard result s"
  shows "CompleteShard ord tord i result s =
    (if run_Status run = ''cancelled'' \<or> \<not> all_completed s1 (run_ID run) then ((run, True), s1)
     else let run' = run\<lparr>run_Status := ''completed'',
              run_Result := merged_result tord (run_Config run) (shard_values ord (run_ID run) s1)\<rparr>
       in ((run', True), clearShardSamplesLocked ord (run_ID run)
            (clearRunProgressLocked ord (run_ID run) (upd_run (run_ID run) run' s1))))"
proof -
  have s1: "s1 = (upd_shard i (shard\<lparr>sh_Status := ''completed''\<rparr>) s)
      \<lparr>st_shardResults := fmupd i result (st_shardResults s)\<rparr>"
    by (simp add: s1_def record_result_def)
  have "iter_order ord (st_shards s1)"
    using iter_order_fmupd [OF assms(1,2)] by (simp add: s1_def)
  then have e: "(\<exists>(_, item) \<in> set (entries ord (st_shards s1)).
        sh_RunID item = R \<and> sh_Status item \<noteq> ''completed'') \<longleftrightarrow> \<not> all_completed s1 R" for R
    using entries_order by (fastforce simp: all_completed_def)
  have e': "(\<exists>(_, item) \<in> set (entries ord (fmupd i (shard\<lparr>sh_Status := ''completed''\<rparr>) (st_shards s))).
        sh_RunID item = R \<and> sh_Status item \<noteq> ''completed'') \<longleftrightarrow> \<not> all_completed s1 R" for R
    using e by (simp add: s1_def)
  show ?thesis
    unfolding CompleteShard_def assms(2) option.case Let_def run_def if_or
    by (simp add: e' [unfolded s1] s1 split del: if_split cong: if_cong)
qed

subsection \<open>The stored run\<close>

text \<open>The result of shard \<open>k\<close> once shard \<open>i\<close> has sent \<open>result\<close>.\<close>

definition result_after :: "string \<Rightarrow> RunResult \<Rightarrow> Store \<Rightarrow> string \<Rightarrow> RunResult" where
  "result_after i result s k = (if k = i then result else result_of s k)"

text \<open>Every other shard of the run has sent its result.\<close>

definition others_completed :: "string \<Rightarrow> Store \<Rightarrow> string \<Rightarrow> bool" where
  "others_completed i s R \<longleftrightarrow> (\<forall>k sh. fmlookup (st_shards s) k = Some sh \<longrightarrow> sh_RunID sh = R \<longrightarrow> k \<noteq> i \<longrightarrow>
     sh_Status sh = ''completed'')"

lemma all_completed_record:
  "all_completed (record_result i shard result s) R \<longleftrightarrow> others_completed i s R"
  by (auto simp: all_completed_def others_completed_def)

text \<open>A stored run with the shard that reports.\<close>

definition reports :: "Store \<Rightarrow> string \<Rightarrow> Shard \<Rightarrow> Run \<Rightarrow> bool" where
  "reports s i shard run \<longleftrightarrow> fmlookup (st_shards s) i = Some shard \<and>
     fmlookup (st_runs s) (sh_RunID shard) = Some run \<and> run_ID run = sh_RunID shard"

lemma CompleteShard_waits:
  assumes "iter_order ord (st_shards s)" "reports s i shard run"
    "run_Status run = ''cancelled'' \<or> \<not> others_completed i s (run_ID run)"
  shows "CompleteShard ord tord i result s = ((run, True), record_result i shard result s)"
  using assms by (simp add: CompleteShard_eq reports_def all_completed_record)

lemma CompleteShard_merges:
  assumes "iter_order ord (st_shards s)" "reports s i shard run"
    "run_Status run \<noteq> ''cancelled''" "others_completed i s (run_ID run)"
  obtains vs s' where
    "mset vs = image_mset (result_after i result s) (mset_set (shards_of s (run_ID run)))"
    "CompleteShard ord tord i result s = ((run\<lparr>run_Status := ''completed'',
       run_Result := merged_result tord (run_Config run) vs\<rparr>, True), s')"
    "st_runs s' = fmupd (run_ID run) (run\<lparr>run_Status := ''completed'',
       run_Result := merged_result tord (run_Config run) vs\<rparr>) (st_runs s)"
    "st_shards s' = fmupd i (shard\<lparr>sh_Status := ''completed''\<rparr>) (st_shards s)"
    "\<And>k. fmlookup (st_shardResults s') k = (if k \<in> shards_of s (run_ID run)
       then map_option strip_samples (fmlookup (fmupd i result (st_shardResults s)) k)
       else fmlookup (fmupd i result (st_shardResults s)) k)"
    "st_searches s' = st_searches s" "st_searchRun s' = st_searchRun s"
proof -
  let ?R = "run_ID run" and ?s1 = "record_result i shard result s"
  have r: "fmlookup (st_shards s) i = Some shard" "get_or zero_Run (st_runs s) (sh_RunID shard) = run"
    "sh_RunID shard = ?R" using assms(2) by (simp_all add: reports_def)
  have o: "iter_order ord (st_shards ?s1)" using iter_order_fmupd [OF assms(1) r(1)] by simp
  let ?vs = "shard_values ord ?R ?s1"
  let ?run = "run\<lparr>run_Status := ''completed'', run_Result := merged_result tord (run_Config run) ?vs\<rparr>"
  obtain ks where ks: "distinct ks" "set ks = shards_of s ?R" "?vs = map (result_of ?s1) ks"
    using shard_values_keys [OF o, of ?R] shards_of_record [OF r(1)] by metis
  have "mset ks = mset_set (shards_of s ?R)" using ks(1,2) by (metis mset_set_set)
  moreover have "result_of ?s1 = result_after i result s"
    by (auto simp: result_after_def fun_eq_iff)
  ultimately have m: "mset ?vs = image_mset (result_after i result s) (mset_set (shards_of s ?R))"
    by (simp add: ks(3))
  let ?s' = "clearShardSamplesLocked ord ?R (clearRunProgressLocked ord ?R (upd_run ?R ?run ?s1))"
  have c: "CompleteShard ord tord i result s = ((?run, True), ?s')"
    using assms(3,4) by (simp add: CompleteShard_eq [OF assms(1) r(1)] r(2) all_completed_record Let_def)
  have "(\<exists>sh. (k, sh) \<in> set (entries ord (st_shards ?s1)) \<and> sh_RunID sh = ?R) \<longleftrightarrow> k \<in> shards_of s ?R" for k
    using entries_order [OF o] shards_of_record [OF r(1), of result ?R] by (simp add: shards_of_def set_eq_iff)
  then have "fmlookup (st_shardResults ?s') k = (if k \<in> shards_of s ?R
       then map_option strip_samples (fmlookup (fmupd i result (st_shardResults s)) k)
       else fmlookup (fmupd i result (st_shardResults s)) k)" for k
    by (simp add: cleared_results frame_simps)
  then show ?thesis
    by (intro that [OF m c]) (simp_all add: frame_simps record_result_def)
qed

lemma finite_shards_of [simp]: "finite (shards_of s R)"
proof (rule finite_subset)
  show "shards_of s R \<subseteq> fset (fmdom (st_shards s))" by (auto simp: shards_of_def intro: fmdomI)
qed simp

lemma sum_over_shards:
  assumes "mset vs = image_mset g (mset_set A)"
  shows "(\<Sum>v\<leftarrow>vs. f v) = (\<Sum>k \<in> A. f (g k))"
proof -
  have "(\<Sum>v\<leftarrow>vs. f v) = sum_mset (image_mset f (mset vs))" by (simp add: sum_mset_sum_list [symmetric])
  then show ?thesis by (simp add: assms image_mset.compositionality comp_def sum_unfold_sum_mset)
qed

text \<open>Fields that no block of the merge writes.\<close>

lemma merged_step_backoff:
  "rr_BackoffEvents (merged_step m v) = rr_BackoffEvents (mg_merged m) \<and>
   rr_BackoffSeconds (merged_step m v) = rr_BackoffSeconds (mg_merged m)"
proof -
  have "rr_BackoffEvents (if b then x else y) = (if b then rr_BackoffEvents x else rr_BackoffEvents y)"
    "rr_BackoffSeconds (if b then x else y) = (if b then rr_BackoffSeconds x else rr_BackoffSeconds y)" for b x y
    by simp_all
  note d = this
  have t: "rr_BackoffEvents (merge_texts x v) = rr_BackoffEvents x"
    "rr_BackoffSeconds (merge_texts x v) = rr_BackoffSeconds x" for x
    by (simp_all add: merge_texts_def Let_def)
  show ?thesis
    by (simp add: merged_step_def Let_def d t merge_distributions_def merge_counters_def
        cong: if_cong split del: if_split)
qed

lemma merged_backoff: "rr_BackoffEvents (merged_result tord config vs) = 0 \<and>
    rr_BackoffSeconds (merged_result tord config vs) = fzero"
proof -
  have f: "rr_BackoffEvents (mg_merged (foldl merge_shard m vs)) = rr_BackoffEvents (mg_merged m) \<and>
      rr_BackoffSeconds (mg_merged (foldl merge_shard m vs)) = rr_BackoffSeconds (mg_merged m)" for m
    by (induction vs arbitrary: m) (simp_all add: merge_shard_fields merged_step_backoff)
  have r: "rr_BackoffEvents (finish_rates config b m) = rr_BackoffEvents m"
    "rr_BackoffSeconds (finish_rates config b m) = rr_BackoffSeconds m" for b m
    by (simp_all add: finish_rates_def Let_def)
  show ?thesis
    by (cases "mg_pooledAny (foldl merge_shard merge_start vs)")
      (simp_all add: finish_merge_def Let_def r pooled_distributions_def f merge_start_def zero_RunResult_def)
qed

lemma merged_pools:
  assumes "iter_order ord (st_shards s)" "reports s i shard run" "run_Status run \<noteq> ''cancelled''"
    and "others_completed i s (run_ID run)"
    and "k \<in> shards_of s (run_ID run)" "rr_Samples (result_after i result s k) \<noteq> None"
    and "CompleteShard ord tord i result s = ((run', ok), s')"
  shows "\<forall>(f, d) \<in> set sample_fields. \<forall>xs.
      mset xs = (\<Sum>k \<in> shards_of s (run_ID run). mset (sent f (result_after i result s k))) \<longrightarrow>
      d (run_Result run') = agent_distribution xs"
    and "rr_P95Millis (run_Result run') = ds_P95Millis (rr_Latency (run_Result run'))"
    and "rr_TTFTP95Millis (run_Result run') = ds_P95Millis (rr_TTFT (run_Result run'))"
    and "rr_LatencyScope (run_Result run') = ''pooled_samples''"
proof -
  let ?K = "shards_of s (run_ID run)" and ?res = "result_after i result s"
  from CompleteShard_merges [OF assms(1-4), of result tord] obtain vs where
    m: "mset vs = image_mset ?res (mset_set ?K)"
    and c: "run' = run\<lparr>run_Status := ''completed'', run_Result := merged_result tord (run_Config run) vs\<rparr>"
    using assms(7) by (metis fst_conv prod.inject)
  have "set vs = ?res ` ?K" using arg_cong [OF m, of set_mset] by simp
  then have some: "\<exists>v \<in> set vs. rr_Samples v \<noteq> None" using assms(5,6) by auto
  have pool: "mset (concat (map f vs)) = (\<Sum>k \<in> ?K. mset (f (?res k)))" for f :: "RunResult \<Rightarrow> int list"
  proof -
    have "mset (concat (map f us)) = sum_mset (image_mset (\<lambda>u. mset (f u)) (mset us))" for us
      by (induction us) auto
    then show ?thesis
      by (simp add: m image_mset.compositionality comp_def sum_unfold_sum_mset)
  qed
  have "d (run_Result run') = agent_distribution xs"
    if "(f, d) \<in> set sample_fields" "mset xs = (\<Sum>k \<in> ?K. mset (sent f (?res k)))" for f d xs
  proof -
    have "d (run_Result run') = store_distribution (concat (map (sent f) vs))"
      using merged_sample_fields [OF some that(1)] by (simp add: c)
    also have "\<dots> = agent_distribution xs"
      unfolding agent_distribution_eq by (rule store_distribution_cong) (simp add: pool that(2))
    finally show ?thesis .
  qed
  then show "\<forall>(f, d) \<in> set sample_fields. \<forall>xs.
      mset xs = (\<Sum>k \<in> ?K. mset (sent f (?res k))) \<longrightarrow> d (run_Result run') = agent_distribution xs"
    by auto
  show "rr_P95Millis (run_Result run') = ds_P95Millis (rr_Latency (run_Result run'))"
    "rr_TTFTP95Millis (run_Result run') = ds_P95Millis (rr_TTFT (run_Result run'))"
    "rr_LatencyScope (run_Result run') = ''pooled_samples''"
    by (simp_all add: c finish_latencies(7,8) merged_latencies [OF some])
qed

subsection \<open>Properties\<close>

text \<open>C1. A shard's result completes its run exactly when every
  other shard of the run has already reported (a cancelled run stays cancelled, and until then no
  run changes); the completed run is stored, and each of its request counters is the sum of the
  shards' counters, whatever order the map of shards is iterated in.\<close>

theorem run_completes_with_its_last_shard:
  assumes "iter_order ord (st_shards s)" "reports s i shard run"
    and "CompleteShard ord tord i result s = ((run', ok), s')"
  shows "ok \<and> fmlookup (st_shards s') i = Some (shard\<lparr>sh_Status := ''completed''\<rparr>) \<and>
    (if run_Status run = ''cancelled'' \<or> \<not> others_completed i s (run_ID run)
     then run' = run \<and> st_runs s' = st_runs s
     else st_runs s' = fmupd (run_ID run) run' (st_runs s) \<and> run_Status run' = ''completed'' \<and>
       (let r = run_Result run'; K = shards_of s (run_ID run); res = result_after i result s in
        rr_Issued r = i64 (\<Sum>k \<in> K. rr_Issued (res k)) \<and>
        rr_Completed r = i64 (\<Sum>k \<in> K. rr_Completed (res k)) \<and>
        rr_Cancelled r = i64 (\<Sum>k \<in> K. rr_Cancelled (res k)) \<and>
        rr_Successes r = i64 (\<Sum>k \<in> K. rr_Successes (res k)) \<and>
        rr_Failures r = i64 (\<Sum>k \<in> K. rr_Failures (res k)) \<and>
        rr_Total r = i64 (\<Sum>k \<in> K. rr_Total (res k)) \<and>
        rr_HTTPFailures r = i64 (\<Sum>k \<in> K. rr_HTTPFailures (res k)) \<and>
        rr_TransportErrors r = i64 (\<Sum>k \<in> K. rr_TransportErrors (res k)) \<and>
        rr_DroppedArrivals r = i64 (\<Sum>k \<in> K. rr_DroppedArrivals (res k))))"
proof (cases "run_Status run = ''cancelled'' \<or> \<not> others_completed i s (run_ID run)")
  case True
  from CompleteShard_waits [OF assms(1,2) True, of tord result] assms(3) True show ?thesis by auto
next
  case False
  then have n: "run_Status run \<noteq> ''cancelled''" "others_completed i s (run_ID run)" by simp_all
  from CompleteShard_merges [OF assms(1,2) n] obtain vs s2 where
    m: "mset vs = image_mset (result_after i result s) (mset_set (shards_of s (run_ID run)))"
    and c: "CompleteShard ord tord i result s = ((run\<lparr>run_Status := ''completed'',
       run_Result := merged_result tord (run_Config run) vs\<rparr>, True), s2)"
    "st_runs s2 = fmupd (run_ID run) (run\<lparr>run_Status := ''completed'',
       run_Result := merged_result tord (run_Config run) vs\<rparr>) (st_runs s)"
    "st_shards s2 = fmupd i (shard\<lparr>sh_Status := ''completed''\<rparr>) (st_shards s)"
    by metis
  have "s' = s2" "ok" "run' = run\<lparr>run_Status := ''completed'',
       run_Result := merged_result tord (run_Config run) vs\<rparr>"
    using assms(3) c(1) by simp_all
  then show ?thesis using n c(2,3) by (simp add: merged_totals sum_over_shards [OF m])
qed

text \<open>C3. The latency statistics of a distributed run are those one
  agent would have computed from all requests: when the last shard reports and some shard sent its
  samples, every merged distribution (latency, time to first token and to first output, inter-token
  latency, time per output token) is the agent's own distribution of the pooled samples of its kind,
  the headline percentiles are those of the merged distributions, and the result says so; no
  per-shard percentile enters.\<close>

theorem merged_percentiles_are_exact:
  assumes "iter_order ord (st_shards s)" "reports s i shard run" "run_Status run \<noteq> ''cancelled''"
    and "others_completed i s (run_ID run)"
    and "k \<in> shards_of s (run_ID run)" "rr_Samples (result_after i result s k) \<noteq> None"
    and "CompleteShard ord tord i result s = ((run', ok), s')"
  shows "(\<forall>(f, d) \<in> set [(smp_Latency, rr_Latency), (smp_TTFT, rr_TTFT), (smp_TTFO, rr_TTFO),
        (smp_ITL, rr_ITL), (smp_TPOT, rr_TPOT)]. \<forall>xs.
      mset xs = (\<Sum>k \<in> shards_of s (run_ID run). mset (sent f (result_after i result s k))) \<longrightarrow>
      d (run_Result run') = agent_distribution xs) \<and>
    rr_P95Millis (run_Result run') = ds_P95Millis (rr_Latency (run_Result run')) \<and>
    rr_TTFTP95Millis (run_Result run') = ds_P95Millis (rr_TTFT (run_Result run')) \<and>
    rr_LatencyScope (run_Result run') = ''pooled_samples''"
  using merged_pools [OF assms] unfolding sample_fields_def by (intro conjI)

text \<open>A run of two shards, one of which has reported.\<close>

definition half_done :: Store where
  "half_done = NewMemoryStore\<lparr>
     st_runs := fmupd ''run-1'' (zero_Run\<lparr>run_ID := ''run-1'', run_Status := ''running''\<rparr>) fmempty,
     st_shards := fmupd ''shard-2'' \<lparr>sh_ID = ''shard-2'', sh_RunID = ''run-1'', sh_Status = ''completed'', sh_Index = 0\<rparr>
       (fmupd ''shard-3'' \<lparr>sh_ID = ''shard-3'', sh_RunID = ''run-1'', sh_Status = ''running'', sh_Index = 1\<rparr> fmempty),
     st_shardResults := fmupd ''shard-2'' (zero_RunResult\<lparr>rr_Issued := 5,
       rr_Samples := Some (zero_RunSamples\<lparr>smp_Latency := [10, 30]\<rparr>)\<rparr>) fmempty\<rparr>"

abbreviation "half_shard \<equiv> \<lparr>sh_ID = ''shard-3'', sh_RunID = ''run-1'', sh_Status = ''running'', sh_Index = 1\<rparr>"
abbreviation "half_run \<equiv> zero_Run\<lparr>run_ID := ''run-1'', run_Status := ''running''\<rparr>"
abbreviation "half_result \<equiv> zero_RunResult\<lparr>rr_Issued := 7, rr_Samples :=
  Some (zero_RunSamples\<lparr>smp_Latency := [20]\<rparr>)\<rparr>"

text \<open>An iteration order of every map with integer keys.\<close>

definition ascending :: "(int, 'a) fmap \<Rightarrow> int list" where
  "ascending t = sorted_list_of_fset (fmdom t)"

lemma ascending_order: "iter_order (ascending t) t"
  by (simp add: iter_order_def ascending_def sorted_list_of_fset.rep_eq fset_of_list.rep_eq fset_inject [symmetric])

lemma no_samples [simp]: "smp_Latency zero_RunSamples = []" "smp_TTFT zero_RunSamples = []"
  by (simp_all add: zero_RunSamples_def)

lemma half_done_facts:
  "iter_order [''shard-2'', ''shard-3''] (st_shards half_done)"
  "reports half_done ''shard-3'' half_shard half_run"
  "others_completed ''shard-3'' half_done ''run-1''"
  "shards_of half_done ''run-1'' = {''shard-2'', ''shard-3''}"
  "result_after ''shard-3'' half_result half_done ''shard-2'' = zero_RunResult\<lparr>rr_Issued := 5,
     rr_Samples := Some (zero_RunSamples\<lparr>smp_Latency := [10, 30]\<rparr>)\<rparr>"
  "result_after ''shard-3'' half_result half_done ''shard-3'' = half_result"
proof -
  show "iter_order [''shard-2'', ''shard-3''] (st_shards half_done)"
    by (simp add: iter_order_def half_done_def finsert_commute)
  show "reports half_done ''shard-3'' half_shard half_run"
    by (simp add: reports_def half_done_def)
  show "others_completed ''shard-3'' half_done ''run-1''"
    by (simp add: others_completed_def half_done_def)
  show "shards_of half_done ''run-1'' = {''shard-2'', ''shard-3''}"
    by (auto simp: shards_of_def half_done_def split: if_splits)
  show "result_after ''shard-3'' half_result half_done ''shard-2'' = zero_RunResult\<lparr>rr_Issued := 5,
     rr_Samples := Some (zero_RunSamples\<lparr>smp_Latency := [10, 30]\<rparr>)\<rparr>"
    "result_after ''shard-3'' half_result half_done ''shard-3'' = half_result"
    by (simp_all add: result_after_def half_done_def)
qed

theorem run_completes_with_its_last_shard_witness:
  "rr_Issued (run_Result (fst (fst (CompleteShard [''shard-2'', ''shard-3''] ascending ''shard-3''
     half_result half_done)))) = 12"
proof -
  obtain run' ok s' where c: "CompleteShard [''shard-2'', ''shard-3''] ascending ''shard-3''
      half_result half_done = ((run', ok), s')" by (metis prod.exhaust)
  have "i64 12 = 12" by (rule i64_small) simp_all
  then show ?thesis
    using run_completes_with_its_last_shard [OF half_done_facts(1,2) c]
    by (simp add: half_done_facts Let_def c)
qed

theorem merged_percentiles_are_exact_witness:
  "rr_Latency (run_Result (fst (fst (CompleteShard [''shard-2'', ''shard-3''] ascending ''shard-3''
     half_result half_done)))) = agent_distribution [10, 20, 30]"
proof -
  obtain run' ok s' where c: "CompleteShard [''shard-2'', ''shard-3''] ascending ''shard-3''
      half_result half_done = ((run', ok), s')" by (metis prod.exhaust)
  have "\<forall>xs. mset xs = (\<Sum>k \<in> shards_of half_done (run_ID half_run).
        mset (sent smp_Latency (result_after ''shard-3'' half_result half_done k))) \<longrightarrow>
      rr_Latency (run_Result run') = agent_distribution xs"
    using merged_percentiles_are_exact [OF half_done_facts(1,2) _ _ _ _ c, of "''shard-3''"]
    by (simp add: half_done_facts)
  then have "rr_Latency (run_Result run') = agent_distribution [10, 20, 30]"
    by (simp add: half_done_facts sent_def)
  then show ?thesis by (simp add: c)
qed

text \<open>C17. Go iterates maps in a random order; the completed run does not
  depend on it: with any two orders of the shards and of the timeline the run stored has the same
  status and request counters, and, when some shard sent samples, the same latency distributions and
  the same timeline.\<close>

theorem completion_ignores_map_order:
  assumes "iter_order ord (st_shards s)" "iter_order ord' (st_shards s)"
    and "\<forall>t. iter_order (tord t) t" "\<forall>t. iter_order (tord' t) t"
    and "reports s i shard run"
    and "CompleteShard ord tord i result s = ((run1, ok1), s1)"
    and "CompleteShard ord' tord' i result s = ((run2, ok2), s2)"
  shows "run_Status run1 = run_Status run2 \<and> ok1 = ok2 \<and> st_shards s1 = st_shards s2 \<and>
    same_counters (run_Result run1) (run_Result run2) \<and>
    ((\<exists>k \<in> shards_of s (run_ID run). rr_Samples (result_after i result s k) \<noteq> None) \<longrightarrow>
       same_latencies (run_Result run1) (run_Result run2))"
proof (cases "run_Status run = ''cancelled'' \<or> \<not> others_completed i s (run_ID run)")
  case True
  show ?thesis
    using CompleteShard_waits [OF assms(1,5) True] CompleteShard_waits [OF assms(2,5) True] assms(6,7)
    by (auto simp: same_counters_refl same_latencies_def)
next
  case False
  then have n: "run_Status run \<noteq> ''cancelled''" "others_completed i s (run_ID run)" by simp_all
  let ?K = "shards_of s (run_ID run)" and ?res = "result_after i result s"
  from CompleteShard_merges [OF assms(1,5) n, of result tord] obtain vs where
    v: "mset vs = image_mset ?res (mset_set ?K)"
      "run1 = run\<lparr>run_Status := ''completed'', run_Result := merged_result tord (run_Config run) vs\<rparr>"
      "ok1" "st_shards s1 = fmupd i (shard\<lparr>sh_Status := ''completed''\<rparr>) (st_shards s)"
    using assms(6) by (metis prod.inject)
  from CompleteShard_merges [OF assms(2,5) n, of result tord'] obtain ws where
    w: "mset ws = image_mset ?res (mset_set ?K)"
      "run2 = run\<lparr>run_Status := ''completed'', run_Result := merged_result tord' (run_Config run) ws\<rparr>"
      "ok2" "st_shards s2 = fmupd i (shard\<lparr>sh_Status := ''completed''\<rparr>) (st_shards s)"
    using assms(7) by (metis prod.inject)
  have vw: "mset vs = mset ws" using v(1) w(1) by simp
  have "same_counters (merged_result tord (run_Config run) vs) (merged_result tord' (run_Config run) ws)"
    by (rule merged_counters_order [OF vw])
  moreover have "set vs = ?res ` ?K" using arg_cong [OF v(1), of set_mset] by simp
  then have "\<exists>k \<in> ?K. rr_Samples (?res k) \<noteq> None \<Longrightarrow> \<exists>v \<in> set vs. rr_Samples v \<noteq> None" by auto
  ultimately show ?thesis
    using v(2-4) w(2-4) merged_order_irrelevant [OF vw _ assms(3,4)] by simp
qed

theorem completion_ignores_map_order_witness:
  "run_Status (fst (fst (CompleteShard [''shard-2'', ''shard-3''] ascending ''shard-3'' half_result half_done))) =
   run_Status (fst (fst (CompleteShard [''shard-3'', ''shard-2''] ascending ''shard-3'' half_result half_done)))"
proof -
  obtain r1 o1 s1 where c1: "CompleteShard [''shard-2'', ''shard-3''] ascending ''shard-3''
      half_result half_done = ((r1, o1), s1)" by (metis prod.exhaust)
  obtain r2 o2 s2 where c2: "CompleteShard [''shard-3'', ''shard-2''] ascending ''shard-3''
      half_result half_done = ((r2, o2), s2)" by (metis prod.exhaust)
  have "iter_order [''shard-3'', ''shard-2''] (st_shards half_done)"
    by (auto simp: iter_order_def half_done_def)
  from completion_ignores_map_order [OF half_done_facts(1) this _ _ half_done_facts(2) c1 c2]
  show ?thesis by (simp add: c1 c2 ascending_order)
qed

text \<open>C22. The timeline of a completed run is strictly
  ordered by second, has a point for exactly the seconds some shard reported, and each point counts
  the requests issued, completed and failed in that second on all shards.\<close>

theorem merged_timeline_has_one_point_per_second:
  assumes "iter_order ord (st_shards s)" "reports s i shard run" "run_Status run \<noteq> ''cancelled''"
    and "others_completed i s (run_ID run)" "\<forall>t. iter_order (tord t) t"
    and "CompleteShard ord tord i result s = ((run', ok), s')"
  shows "let T = rr_Timeline (run_Result run'); K = shards_of s (run_ID run);
      points = (\<lambda>k. rr_Timeline (result_after i result s k))
    in sorted_wrt (\<lambda>a b. tp_Second a < tp_Second b) T \<and>
       tp_Second ` set T = (\<Union>k \<in> K. tp_Second ` set (points k)) \<and>
       (\<forall>p \<in> set T.
          tp_Issued p = i64 (\<Sum>k \<in> K. \<Sum>q\<leftarrow>points k. at_second (tp_Second p) tp_Issued q) \<and>
          tp_Completed p = i64 (\<Sum>k \<in> K. \<Sum>q\<leftarrow>points k. at_second (tp_Second p) tp_Completed q) \<and>
          tp_Failures p = i64 (\<Sum>k \<in> K. \<Sum>q\<leftarrow>points k. at_second (tp_Second p) tp_Failures q))"
proof -
  let ?K = "shards_of s (run_ID run)" and ?res = "result_after i result s"
  from CompleteShard_merges [OF assms(1-4), of result tord] obtain vs where
    m: "mset vs = image_mset ?res (mset_set ?K)"
    and c: "run' = run\<lparr>run_Status := ''completed'', run_Result := merged_result tord (run_Config run) vs\<rparr>"
    using assms(6) by (metis prod.inject)
  have "set vs = ?res ` ?K" using arg_cong [OF m, of set_mset] by simp
  then have u: "tp_Second ` set (concat (map rr_Timeline vs)) = (\<Union>k \<in> ?K. tp_Second ` set (rr_Timeline (?res k)))"
    by (simp add: image_UN)
  have sums: "(\<Sum>q\<leftarrow>concat (map rr_Timeline vs). f q) = (\<Sum>k \<in> ?K. \<Sum>q\<leftarrow>rr_Timeline (?res k). f q)"
    for f :: "TimelinePoint \<Rightarrow> int"
  proof -
    have "(\<Sum>q\<leftarrow>concat (map rr_Timeline us). f q) = (\<Sum>v\<leftarrow>us. \<Sum>q\<leftarrow>rr_Timeline v. f q)" for us
      by (induction us) simp_all
    from trans [OF this sum_over_shards [OF m]] show ?thesis .
  qed
  note T = merged_timeline [where config = "run_Config run" and vs = vs, OF assms(5)]
  have "sorted_wrt (\<lambda>a b. tp_Second a < tp_Second b) (rr_Timeline (run_Result run'))"
    "tp_Second ` set (rr_Timeline (run_Result run')) = (\<Union>k \<in> ?K. tp_Second ` set (rr_Timeline (?res k)))"
    using T(1,2) by (simp_all add: c u [symmetric])
  moreover have "tp_Issued p = i64 (\<Sum>k \<in> ?K. \<Sum>q\<leftarrow>rr_Timeline (?res k). at_second (tp_Second p) tp_Issued q)"
    "tp_Completed p = i64 (\<Sum>k \<in> ?K. \<Sum>q\<leftarrow>rr_Timeline (?res k). at_second (tp_Second p) tp_Completed q)"
    "tp_Failures p = i64 (\<Sum>k \<in> ?K. \<Sum>q\<leftarrow>rr_Timeline (?res k). at_second (tp_Second p) tp_Failures q)"
    if "p \<in> set (rr_Timeline (run_Result run'))" for p
    using T(3-5) that by (simp_all add: c sums)
  ultimately show ?thesis by (simp add: Let_def)
qed

theorem merged_timeline_has_one_point_per_second_witness:
  "rr_Timeline (run_Result (fst (fst (CompleteShard [''shard-2'', ''shard-3''] ascending ''shard-3''
     (half_result\<lparr>rr_Timeline := [zero_TimelinePoint\<lparr>tp_Issued := 4\<rparr>, zero_TimelinePoint\<lparr>tp_Issued := 3\<rparr>]\<rparr>)
     half_done)))) \<noteq> []"
proof -
  let ?result = "half_result\<lparr>rr_Timeline := [zero_TimelinePoint\<lparr>tp_Issued := 4\<rparr>, zero_TimelinePoint\<lparr>tp_Issued := 3\<rparr>]\<rparr>"
  obtain run' ok s' where c: "CompleteShard [''shard-2'', ''shard-3''] ascending ''shard-3''
      ?result half_done = ((run', ok), s')" by (metis prod.exhaust)
  have "tp_Second ` set (rr_Timeline (run_Result run')) = (\<Union>k \<in> shards_of half_done ''run-1''.
      tp_Second ` set (rr_Timeline (result_after ''shard-3'' ?result half_done k)))"
    using merged_timeline_has_one_point_per_second [OF half_done_facts(1,2) _ _ _ c]
    by (simp add: half_done_facts(3) ascending_order Let_def)
  then have "tp_Second ` set (rr_Timeline (run_Result run')) \<noteq> {}"
    by (simp add: half_done_facts(4) result_after_def)
  then show ?thesis by (auto simp: c)
qed

text \<open>The time the load generator spent backing off is lost in every
  completed run: whatever the shards reported, the merged result says there were no backoff events
  and no backoff seconds.\<close>

theorem merge_loses_backoff:
  assumes "iter_order ord (st_shards s)" "reports s i shard run" "run_Status run \<noteq> ''cancelled''"
    and "others_completed i s (run_ID run)"
    and "CompleteShard ord tord i result s = ((run', ok), s')"
  shows "rr_BackoffEvents (run_Result run') = 0 \<and> rr_BackoffSeconds (run_Result run') = fzero"
proof -
  from CompleteShard_merges [OF assms(1-4), of result tord] obtain vs where
    "run' = run\<lparr>run_Status := ''completed'', run_Result := merged_result tord (run_Config run) vs\<rparr>"
    using assms(5) by (metis prod.inject)
  then show ?thesis using merged_backoff by simp
qed

theorem merge_loses_backoff_witness:
  "rr_BackoffEvents (run_Result (fst (fst (CompleteShard [''shard-2'', ''shard-3''] ascending ''shard-3''
     (half_result\<lparr>rr_BackoffEvents := 9\<rparr>) half_done)))) = 0"
proof -
  obtain run' ok s' where c: "CompleteShard [''shard-2'', ''shard-3''] ascending ''shard-3''
      (half_result\<lparr>rr_BackoffEvents := 9\<rparr>) half_done = ((run', ok), s')" by (metis prod.exhaust)
  from merge_loses_backoff [OF half_done_facts(1,2) _ _ c] show ?thesis
    by (simp add: c half_done_facts(3))
qed

text \<open>C31. If the agent of the last shard sends its result
  again (its request timed out after the store had merged), the run is merged a second time from
  results whose samples are already gone: its percentiles become those of that shard alone, still
  labelled as pooled from all samples.\<close>

theorem resent_result_discards_the_other_samples:
  assumes "iter_order ord (st_shards s)" "reports s i shard run" "run_Status run \<noteq> ''cancelled''"
    and "others_completed i s (run_ID run)"
    and "CompleteShard ord tord i first s = ((run1, ok1), s1)"
    and "CompleteShard ord tord i again s1 = ((run2, ok2), s2)"
    and "rr_Samples again = Some samples"
  shows "run_Status run2 = ''completed'' \<and>
    rr_Latency (run_Result run2) = agent_distribution (smp_Latency samples) \<and>
    rr_LatencyScope (run_Result run2) = ''pooled_samples''"
proof -
  let ?R = "run_ID run"
  obtain result1 where r1: "run1 = run\<lparr>run_Status := ''completed'', run_Result := result1\<rparr>"
    "st_runs s1 = fmupd ?R run1 (st_runs s)"
    "st_shards s1 = fmupd i (shard\<lparr>sh_Status := ''completed''\<rparr>) (st_shards s)"
    "\<And>k. k \<in> shards_of s ?R \<Longrightarrow> fmlookup (st_shardResults s1) k =
        map_option strip_samples (fmlookup (fmupd i first (st_shardResults s)) k)"
    using CompleteShard_merges [OF assms(1-4), of first tord] assms(5) by (metis prod.inject)
  have i: "fmlookup (st_shards s) i = Some shard" "sh_RunID shard = ?R"
    using assms(2) by (simp_all add: reports_def)
  have o1: "iter_order ord (st_shards s1)" using iter_order_fmupd [OF assms(1) i(1)] by (simp add: r1(3))
  have rep: "reports s1 i (shard\<lparr>sh_Status := ''completed''\<rparr>) run1"
    using i(2) by (simp add: reports_def r1(1,2,3))
  have K: "shards_of s1 ?R = shards_of s ?R" using i by (auto simp: shards_of_def r1(3) split: if_splits)
  have oc: "others_completed i s1 ?R" using assms(4) by (simp add: others_completed_def r1(3))
  have iK: "i \<in> shards_of s ?R" using i by (simp add: shards_of_def)
  have gone: "sent field (result_after i again s1 k) = (if k = i then field samples else [])"
    if "k \<in> shards_of s ?R" for k and field :: "RunSamples \<Rightarrow> int list"
    using r1(4) [OF that] assms(7)
    by (auto simp: result_after_def sent_def get_or_def strip_samples_def zero_RunResult_def
        split: option.split)
  have pool: "(\<Sum>k \<in> shards_of s ?R. mset (sent field (result_after i again s1 k))) = mset (field samples)"
    for field :: "RunSamples \<Rightarrow> int list"
  proof -
    have "(\<Sum>k \<in> shards_of s ?R. mset (sent field (result_after i again s1 k))) =
        (\<Sum>k \<in> shards_of s ?R. if k = i then mset (field samples) else {#})"
      by (rule sum.cong) (simp_all add: gone)
    then show ?thesis using iK by simp
  qed
  have ra: "result_after i again s1 i = again" by (simp add: result_after_def)
  have "\<forall>(f, d) \<in> set sample_fields. \<forall>xs.
      mset xs = (\<Sum>k \<in> shards_of s1 (run_ID run1). mset (sent f (result_after i again s1 k))) \<longrightarrow>
      d (run_Result run2) = agent_distribution xs"
    and scope: "rr_LatencyScope (run_Result run2) = ''pooled_samples''"
    by (rule merged_pools [OF o1 rep _ _ _ _ assms(6), of i];
      use oc iK assms(7) in \<open>simp add: r1(1) K ra\<close>)+
  then have "rr_Latency (run_Result run2) = agent_distribution (smp_Latency samples)"
    by (simp add: sample_fields_def r1(1) K pool)
  moreover note scope
  moreover have "run_Status run1 \<noteq> ''cancelled''" "others_completed i s1 (run_ID run1)"
    using oc by (simp_all add: r1(1))
  from CompleteShard_merges [OF o1 rep this, of again tord] obtain result2 where
    "run2 = run1\<lparr>run_Status := ''completed'', run_Result := result2\<rparr>"
    using assms(6) by (metis prod.inject)
  then have "run_Status run2 = ''completed''" by simp
  ultimately show ?thesis by simp
qed

theorem resent_result_discards_the_other_samples_witness:
  "let (_, s1) = CompleteShard [''shard-2'', ''shard-3''] ascending ''shard-3'' half_result half_done;
       ((run2, _), _) = CompleteShard [''shard-2'', ''shard-3''] ascending ''shard-3'' half_result s1
   in rr_Latency (run_Result run2) = agent_distribution [20]"
proof -
  obtain r1 o1 s1 where c1: "CompleteShard [''shard-2'', ''shard-3''] ascending ''shard-3''
      half_result half_done = ((r1, o1), s1)" by (metis prod.exhaust)
  obtain r2 o2 s2 where c2: "CompleteShard [''shard-2'', ''shard-3''] ascending ''shard-3''
      half_result s1 = ((r2, o2), s2)"
    by (metis prod.exhaust)
  from resent_result_discards_the_other_samples [OF half_done_facts(1,2) _ _ c1 c2]
  have "rr_Latency (run_Result r2) = agent_distribution [20]" by (simp add: half_done_facts(3))
  then show ?thesis by (simp add: c1 c2)
qed

end
