(* ===== verification/Store_Invariant.thy ===== *)
theory Store_Invariant
  imports Store_Complete Store_Captures
begin

text \<open>
  What every operation of the store keeps. \<open>updates\<close> is the relation between the stores before and
  after an operation that creates nothing: the same runs, shards and searches, statuses that only
  move forward, configurations and shard indices unchanged. It is a preorder, so an operation made of
  several updates is covered by its parts. \<open>wf_store\<close> is the well-formedness of a store: keys
  are the identifiers in the records, identifiers were drawn from the counter, and the shards of a run
  carry the indices from zero below its shard count.
\<close>

subsection \<open>Statuses only move forward\<close>

definition run_next :: "string \<Rightarrow> string \<Rightarrow> bool" where
  "run_next a b \<longleftrightarrow> a = b \<or> (a = ''queued'' \<and> b \<in> {''running'', ''completed'', ''cancelled''}) \<or>
     (a = ''running'' \<and> b \<in> {''completed'', ''cancelled''})"

definition shard_next :: "string \<Rightarrow> string \<Rightarrow> bool" where
  "shard_next a b \<longleftrightarrow> a = b \<or> b = ''completed'' \<or> (a = ''queued'' \<and> b \<in> {''running'', ''cancelled''})"

lemma run_next_refl [simp]: "run_next a a"
  by (simp add: run_next_def)

lemma run_next_trans: "run_next a b \<Longrightarrow> run_next b c \<Longrightarrow> run_next a c"
  by (auto simp: run_next_def)

lemma shard_next_refl [simp]: "shard_next a a"
  by (simp add: shard_next_def)

lemma shard_next_trans: "shard_next a b \<Longrightarrow> shard_next b c \<Longrightarrow> shard_next a c"
  by (auto simp: shard_next_def)

lemma run_next_active [simp]:
  "run_next a ''cancelled'' \<longleftrightarrow> a \<in> {''queued'', ''running'', ''cancelled''}"
  "run_next a ''completed'' \<longleftrightarrow> a \<in> {''queued'', ''running'', ''completed''}"
  "run_next a ''running'' \<longleftrightarrow> a \<in> {''queued'', ''running''}"
  by (auto simp: run_next_def)

definition run_keeps :: "Run \<Rightarrow> Run \<Rightarrow> bool" where
  "run_keeps r r' \<longleftrightarrow> run_ID r' = run_ID r \<and> run_Config r' = run_Config r \<and>
     run_SearchID r' = run_SearchID r \<and> run_next (run_Status r) (run_Status r')"

definition shard_keeps :: "Shard \<Rightarrow> Shard \<Rightarrow> bool" where
  "shard_keeps h h' \<longleftrightarrow> sh_ID h' = sh_ID h \<and> sh_RunID h' = sh_RunID h \<and> sh_Index h' = sh_Index h \<and>
     shard_next (sh_Status h) (sh_Status h')"

definition search_keeps :: "AutoSearch \<Rightarrow> AutoSearch \<Rightarrow> bool" where
  "search_keeps a a' \<longleftrightarrow> as_ID a' = as_ID a \<and> as_Config a' = as_Config a \<and>
     (as_Ladder a \<noteq> [] \<longrightarrow> as_Ladder a' = as_Ladder a)"

text \<open>A map whose keys stay and whose entries are related.\<close>

locale entrywise =
  fixes keeps :: "'a \<Rightarrow> 'a \<Rightarrow> bool"
  assumes keeps_refl: "keeps x x" and keeps_trans: "keeps x y \<Longrightarrow> keeps y z \<Longrightarrow> keeps x z"
begin

definition related :: "('k, 'a) fmap \<Rightarrow> ('k, 'a) fmap \<Rightarrow> bool" where
  "related m m' \<longleftrightarrow> (\<forall>k. rel_option keeps (fmlookup m k) (fmlookup m' k))"

lemma related_refl: "related m m"
  by (simp add: related_def option.rel_refl keeps_refl)

lemma related_trans: "related m m' \<Longrightarrow> related m' m'' \<Longrightarrow> related m m''"
  unfolding related_def
proof (rule allI)
  fix k
  assume "\<forall>k. rel_option keeps (fmlookup m k) (fmlookup m' k)" "\<forall>k. rel_option keeps (fmlookup m' k) (fmlookup m'' k)"
  then have "rel_option keeps (fmlookup m k) (fmlookup m' k)" "rel_option keeps (fmlookup m' k) (fmlookup m'' k)"
    by blast+
  then show "rel_option keeps (fmlookup m k) (fmlookup m'' k)"
    by (auto simp: option_rel_Some1 option_rel_Some2 elim!: option.rel_cases intro: keeps_trans)
qed

lemma related_fmupd: "fmlookup m k = Some x \<Longrightarrow> keeps x y \<Longrightarrow> related m (fmupd k y m)"
  by (simp add: related_def option.rel_refl keeps_refl)

lemma relatedD: "related m m' \<Longrightarrow> fmlookup m k = Some x \<Longrightarrow> \<exists>y. fmlookup m' k = Some y \<and> keeps x y"
  unfolding related_def by (metis option_rel_Some1)

lemma relatedD2: "related m m' \<Longrightarrow> fmlookup m' k = Some y \<Longrightarrow> \<exists>x. fmlookup m k = Some x \<and> keeps x y"
  unfolding related_def by (metis option_rel_Some2)

end

interpretation run: entrywise run_keeps
  by unfold_locales (auto simp: run_keeps_def intro: run_next_trans)

interpretation shard: entrywise shard_keeps
  by unfold_locales (auto simp: shard_keeps_def intro: shard_next_trans)

interpretation search: entrywise search_keeps
  by unfold_locales (auto simp: search_keeps_def)

definition updates :: "Store \<Rightarrow> Store \<Rightarrow> bool" where
  "updates s s' \<longleftrightarrow> run.related (st_runs s) (st_runs s') \<and> shard.related (st_shards s) (st_shards s') \<and>
     search.related (st_searches s) (st_searches s') \<and> st_searchRun s' = st_searchRun s \<and>
     st_nextID s' = st_nextID s \<and>
     (\<forall>k t. fmlookup (st_targets s') k = Some t \<longrightarrow> fmlookup (st_targets s) k = Some t)"

lemma updates_refl [simp, intro]: "updates s s"
  by (simp add: updates_def run.related_refl shard.related_refl search.related_refl)

lemma updates_trans: "updates s s' \<Longrightarrow> updates s' s'' \<Longrightarrow> updates s s''"
  unfolding updates_def using run.related_trans shard.related_trans search.related_trans by metis

lemma updates_run: "fmlookup (st_runs s) k = Some r \<Longrightarrow> run_keeps r r' \<Longrightarrow> updates s (upd_run k r' s)"
  by (simp add: updates_def run.related_fmupd shard.related_refl search.related_refl)

lemma updates_shard: "fmlookup (st_shards s) k = Some r \<Longrightarrow> shard_keeps r r' \<Longrightarrow> updates s (upd_shard k r' s)"
  by (simp add: updates_def shard.related_fmupd run.related_refl search.related_refl)

lemma updates_search: "fmlookup (st_searches s) k = Some r \<Longrightarrow> search_keeps r r' \<Longrightarrow> updates s (upd_search k r' s)"
  by (simp add: updates_def search.related_fmupd run.related_refl shard.related_refl)

lemma updates_other:
  "updates s (s\<lparr>st_progress := p\<rparr>)" "updates s (s\<lparr>st_shardResults := q\<rparr>)"
  "updates s (s\<lparr>st_captures := c\<rparr>)" "updates s (s\<lparr>st_captureSettings := cs\<rparr>)"
  "updates s (s\<lparr>st_agentSeen := a\<rparr>)" "updates s (s\<lparr>st_targets := fmdrop k (st_targets s)\<rparr>)"
  by (simp_all add: updates_def run.related_refl shard.related_refl search.related_refl)

text \<open>A loop whose every turn is an update is one.\<close>

lemma updates_foldl: "(\<And>s e. e \<in> set es \<Longrightarrow> P s \<Longrightarrow> updates s (f s e) \<and> P (f s e)) \<Longrightarrow> P s \<Longrightarrow>
    updates s (foldl f s es) \<and> P (foldl f s es)"
proof (induction es arbitrary: s)
  case (Cons e es)
  from Cons.prems have 1: "updates s (f s e)" "P (f s e)" by simp_all
  with Cons.IH [OF _ 1(2)] Cons.prems(1) show ?case by (auto intro: updates_trans)
qed simp

subsection \<open>The operations that create nothing\<close>

lemma updates_SetShardProgress: "updates s (snd (SetShardProgress i p s))"
  by (simp add: SetShardProgress_def updates_other split: option.split)

lemma updates_SetCreatedBy: "updates s (SetCreatedBy i u s)"
  by (simp add: SetCreatedBy_def run_keeps_def updates_run split: option.split)

lemma updates_AddMonitoring: "updates s (AddMonitoring now i x s)"
  by (simp add: AddMonitoring_def Let_def run_keeps_def updates_run split: option.split)

lemma updates_SetDetectedServer: "updates s (SetDetectedServer i d s)"
  by (simp add: SetDetectedServer_def run_keeps_def updates_run split: option.split)

lemma updates_DeleteTarget: "updates s (snd (DeleteTarget ord i s))"
  by (simp add: DeleteTarget_def updates_other split: option.split)

lemma updates_RecordCapture: "updates s (snd (RecordCapture ord session event s))"
  by (simp add: RecordCapture_def Let_def updates_other case_prod_beta)

lemma updates_CompleteRun:
  assumes "\<forall>r. fmlookup (st_runs s) i = Some r \<longrightarrow>
    run_Status r \<in> {''queued'', ''running'', ''completed'', ''cancelled''}"
  shows "updates s (snd (CompleteRun i result s))"
proof (cases "fmlookup (st_runs s) i")
  case (Some run)
  then show ?thesis
    using assms by (cases "run_Status run = ''cancelled''")
      (auto simp: CompleteRun_def Let_def run_keeps_def intro!: updates_run)
qed (simp add: CompleteRun_def)

text \<open>Loops over shards: the entry visited is the one in the store when it is its turn, because an
  earlier turn only changed its own entry.\<close>

lemma cancel_shards_updates:
  assumes "distinct (map fst es)" "\<forall>(k, h) \<in> set es. fmlookup (st_shards s) k = Some h"
  shows "updates s (foldl (\<lambda>s (shardID, shard).
      if sh_RunID shard = i \<and> sh_Status shard = ''queued''
      then upd_shard shardID (shard\<lparr>sh_Status := ''cancelled''\<rparr>) s else s) s es)"
  using assms
proof (induction es arbitrary: s)
  case (Cons e es)
  obtain k h where e: "e = (k, h)" by force
  show ?case
  proof (cases "sh_RunID h = i \<and> sh_Status h = ''queued''")
    case True
    let ?s = "upd_shard k (h\<lparr>sh_Status := ''cancelled''\<rparr>) s"
    have "updates s ?s"
      using Cons.prems(2) True by (intro updates_shard) (auto simp: e shard_keeps_def shard_next_def)
    moreover have "\<forall>(k', h') \<in> set es. fmlookup (st_shards ?s) k' = Some h'"
      using Cons.prems by (force simp: e)
    ultimately show ?thesis
      using Cons.IH [of ?s] Cons.prems(1) True by (auto simp: e intro: updates_trans)
  qed (use Cons in \<open>auto simp: e\<close>)
qed simp

lemma entries_facts:
  assumes "iter_order ord m"
  shows "distinct (map fst (entries ord m))" "\<forall>(k, h) \<in> set (entries ord m). fmlookup m k = Some h"
proof -
  show "distinct (map fst (entries ord m))"
    by (simp add: map_fst_entries [OF assms] iter_order_distinct [OF assms])
  show "\<forall>(k, h) \<in> set (entries ord m). fmlookup m k = Some h"
    using entries_order [OF assms] by fast
qed

lemma updates_cancelRunLocked:
  assumes "iter_order ord (st_shards s)"
  shows "updates s (snd (cancelRunLocked ord i s))"
proof (cases "fmlookup (st_runs s) i")
  case (Some run)
  let ?s = "upd_run i (run\<lparr>run_Status := ''cancelled''\<rparr>) s"
  show ?thesis
  proof (cases "is_active run")
    case True
    then have "updates s ?s"
      using Some by (intro updates_run) (auto simp: run_keeps_def is_active_def)
    moreover have "updates ?s (cancel_shards ord i ?s)"
      unfolding cancel_shards_def using entries_facts [OF assms] by (intro cancel_shards_updates) simp_all
    ultimately show ?thesis
      using Some True by (auto simp: cancelRunLocked_def Let_def intro: updates_trans)
  qed (simp add: cancelRunLocked_def Some)
qed (simp add: cancelRunLocked_def)

text \<open>\<open>updates\<close> keeps the orders of the shard map, so the loop of \<open>CancelSearch\<close> may use one order.\<close>

lemma related_fmdom: "shard.related m m' \<Longrightarrow> fmdom m' = fmdom m"
proof (rule fset_eqI)
  fix k
  assume "shard.related m m'"
  then have "rel_option shard_keeps (fmlookup m k) (fmlookup m' k)" by (simp add: shard.related_def)
  then show "k |\<in>| fmdom m' \<longleftrightarrow> k |\<in>| fmdom m"
    by (cases rule: option.rel_cases) (auto simp: fmlookup_dom_iff)
qed

lemma updates_iter_order: "updates s s' \<Longrightarrow> iter_order ord (st_shards s) \<Longrightarrow> iter_order ord (st_shards s')"
  unfolding updates_def iter_order_def using related_fmdom [of "st_shards s" "st_shards s'"] by simp

lemma updates_CancelSearch:
  assumes "iter_order ord (st_shards s)"
  shows "updates s (snd (CancelSearch ord i s))"
proof (cases "fmlookup (st_searches s) i")
  case (Some search)
  let ?search = "search\<lparr>as_Status := AutoSearchCancelled, as_Message := CancelledByUser\<rparr>"
  let ?s = "upd_search i ?search s"
  have "updates s ?s" using Some by (intro updates_search) (auto simp: search_keeps_def)
  moreover have "updates ?s (foldl (\<lambda>s runID. snd (cancelRunLocked ord runID s)) ?s (as_RunIDs search))"
    using updates_foldl [of _ "\<lambda>s. iter_order ord (st_shards s)"
        "\<lambda>s runID. snd (cancelRunLocked ord runID s)" ?s]
      updates_cancelRunLocked updates_iter_order assms by fastforce
  ultimately show ?thesis by (auto simp: CancelSearch_def Some Let_def intro: updates_trans)
qed (simp add: CancelSearch_def)

lemma updates_clearing:
  "updates s (clearRunProgressLocked ord R s)" "updates s (clearShardSamplesLocked ord R s)"
  using clear_progress_only [of ord R s] clear_samples_only [of ord R s] updates_other by auto

lemma updates_record_result:
  "fmlookup (st_shards s) i = Some shard \<Longrightarrow> updates s (record_result i shard result s)"
  using updates_trans [OF updates_shard updates_other(2)]
  by (auto simp: record_result_def shard_keeps_def shard_next_def)

subsection \<open>Well-formed stores\<close>

definition numbered :: "string \<Rightarrow> int \<Rightarrow> string \<Rightarrow> bool" where
  "numbered prefix last_id k \<longleftrightarrow> (\<exists>n. 1 \<le> n \<and> n \<le> last_id \<and> k = prefix @ dec_int n)"

definition wf_runs :: "Store \<Rightarrow> bool" where
  "wf_runs s \<longleftrightarrow> (\<forall>k r. fmlookup (st_runs s) k = Some r \<longrightarrow> run_ID r = k \<and> numbered ''run-'' (st_nextID s) k \<and>
     run_Status r \<in> {''queued'', ''running'', ''completed'', ''cancelled''})"

definition wf_shards :: "Store \<Rightarrow> bool" where
  "wf_shards s \<longleftrightarrow> (\<forall>k h. fmlookup (st_shards s) k = Some h \<longrightarrow> sh_ID h = k \<and>
     numbered ''shard-'' (st_nextID s) k \<and>
     sh_Status h \<in> {''queued'', ''running'', ''completed'', ''cancelled''} \<and>
     fmlookup (st_runs s) (sh_RunID h) \<noteq> None)"

definition wf_searches :: "Store \<Rightarrow> bool" where
  "wf_searches s \<longleftrightarrow>
     (\<forall>k a. fmlookup (st_searches s) k = Some a \<longrightarrow> as_ID a = k \<and> numbered ''search-'' (st_nextID s) k) \<and>
     (\<forall>R S. fmlookup (st_searchRun s) R = Some S \<longrightarrow>
        fmlookup (st_searches s) S \<noteq> None \<and> (\<exists>r. fmlookup (st_runs s) R = Some r \<and> run_SearchID r = S))"

definition wf_targets :: "Store \<Rightarrow> bool" where
  "wf_targets s \<longleftrightarrow> (\<forall>k t. fmlookup (st_targets s) k = Some t \<longrightarrow> tgt_ID t = k \<and>
     numbered ''target-'' (st_nextID s) k)"

text \<open>The indices of a run's shards.\<close>

definition shard_index :: "Store \<Rightarrow> string \<Rightarrow> int" where
  "shard_index s k = sh_Index (get_or zero_Shard (st_shards s) k)"

definition wf_indices :: "Store \<Rightarrow> bool" where
  "wf_indices s \<longleftrightarrow> (\<forall>R r. fmlookup (st_runs s) R = Some r \<longrightarrow>
     bij_betw (shard_index s) (shards_of s R) {0..<shard_count (run_Config r)})"

definition wf_store :: "Store \<Rightarrow> bool" where
  "wf_store s \<longleftrightarrow> 0 \<le> st_nextID s \<and> wf_runs s \<and> wf_shards s \<and> wf_searches s \<and> wf_targets s \<and> wf_indices s"

lemma updatesD:
  assumes "updates s s'"
  shows "\<And>k r. fmlookup (st_runs s) k = Some r \<Longrightarrow> \<exists>r'. fmlookup (st_runs s') k = Some r' \<and> run_keeps r r'"
    "\<And>k r'. fmlookup (st_runs s') k = Some r' \<Longrightarrow> \<exists>r. fmlookup (st_runs s) k = Some r \<and> run_keeps r r'"
    "\<And>k h. fmlookup (st_shards s) k = Some h \<Longrightarrow> \<exists>h'. fmlookup (st_shards s') k = Some h' \<and> shard_keeps h h'"
    "\<And>k h'. fmlookup (st_shards s') k = Some h' \<Longrightarrow> \<exists>h. fmlookup (st_shards s) k = Some h \<and> shard_keeps h h'"
    "\<And>k a. fmlookup (st_searches s) k = Some a \<Longrightarrow> \<exists>a'. fmlookup (st_searches s') k = Some a' \<and> search_keeps a a'"
    "\<And>k a'. fmlookup (st_searches s') k = Some a' \<Longrightarrow> \<exists>a. fmlookup (st_searches s) k = Some a \<and> search_keeps a a'"
    "st_nextID s' = st_nextID s" "st_searchRun s' = st_searchRun s"
    "\<And>k t. fmlookup (st_targets s') k = Some t \<Longrightarrow> fmlookup (st_targets s) k = Some t"
  using assms run.relatedD run.relatedD2 shard.relatedD shard.relatedD2 search.relatedD search.relatedD2
  unfolding updates_def by metis+

lemma updates_shards_of:
  assumes "updates s s'"
  shows "shards_of s' R = shards_of s R" "k \<in> shards_of s R \<Longrightarrow> shard_index s' k = shard_index s k"
proof -
  show "shards_of s' R = shards_of s R"
    unfolding shards_of_def using updatesD(3,4) [OF assms] by (force simp: shard_keeps_def)
  assume "k \<in> shards_of s R"
  then obtain h where h: "fmlookup (st_shards s) k = Some h" by (auto simp: shards_of_def)
  obtain h' where "fmlookup (st_shards s') k = Some h'" "shard_keeps h h'" using updatesD(3) [OF assms h] by blast
  with h show "shard_index s' k = shard_index s k" by (simp add: shard_index_def shard_keeps_def)
qed

lemma run_next_status: "run_next a b \<Longrightarrow> a \<in> {''queued'', ''running'', ''completed'', ''cancelled''} \<Longrightarrow>
    b \<in> {''queued'', ''running'', ''completed'', ''cancelled''}"
  by (auto simp: run_next_def)

lemma shard_next_status: "shard_next a b \<Longrightarrow> a \<in> {''queued'', ''running'', ''completed'', ''cancelled''} \<Longrightarrow>
    b \<in> {''queued'', ''running'', ''completed'', ''cancelled''}"
  by (auto simp: shard_next_def)

lemma wf_updates:
  assumes "wf_store s" "updates s s'"
  shows "wf_store s'"
proof -
  note U = updatesD [OF assms(2)]
  have w: "0 \<le> st_nextID s" "wf_runs s" "wf_shards s" "wf_searches s" "wf_targets s" "wf_indices s"
    using assms(1) by (simp_all add: wf_store_def)
  have "wf_runs s'"
    unfolding wf_runs_def
  proof (intro allI impI)
    fix k r'
    assume "fmlookup (st_runs s') k = Some r'"
    from U(2) [OF this] obtain r where r: "fmlookup (st_runs s) k = Some r" "run_keeps r r'" by blast
    with w(2) show "run_ID r' = k \<and> numbered ''run-'' (st_nextID s') k \<and>
        run_Status r' \<in> {''queued'', ''running'', ''completed'', ''cancelled''}"
      using run_next_status [of "run_Status r" "run_Status r'"] by (simp add: wf_runs_def run_keeps_def U(7))
  qed
  moreover have "wf_shards s'"
    unfolding wf_shards_def
  proof (intro allI impI)
    fix k h'
    assume "fmlookup (st_shards s') k = Some h'"
    from U(4) [OF this] obtain h where h: "fmlookup (st_shards s) k = Some h" "shard_keeps h h'" by blast
    then obtain r where "fmlookup (st_runs s) (sh_RunID h) = Some r" using w(3) by (auto simp: wf_shards_def)
    from U(1) [OF this] h w(3) show "sh_ID h' = k \<and> numbered ''shard-'' (st_nextID s') k \<and>
        sh_Status h' \<in> {''queued'', ''running'', ''completed'', ''cancelled''} \<and>
        fmlookup (st_runs s') (sh_RunID h') \<noteq> None"
      using shard_next_status [of "sh_Status h" "sh_Status h'"]
      by (auto simp: wf_shards_def shard_keeps_def U(7))
  qed
  moreover have "wf_searches s'"
    unfolding wf_searches_def
  proof (intro conjI allI impI)
    fix k a'
    assume "fmlookup (st_searches s') k = Some a'"
    from U(6) [OF this] obtain a where "fmlookup (st_searches s) k = Some a" "search_keeps a a'" by blast
    with w(4) show "as_ID a' = k" "numbered ''search-'' (st_nextID s') k"
      by (simp_all add: wf_searches_def search_keeps_def U(7))
  next
    fix R S
    assume "fmlookup (st_searchRun s') R = Some S"
    then obtain a r where ar: "fmlookup (st_searches s) S = Some a" "fmlookup (st_runs s) R = Some r"
      "run_SearchID r = S" using w(4) unfolding wf_searches_def U(8) by fastforce
    show "fmlookup (st_searches s') S \<noteq> None" using U(5) [OF ar(1)] by auto
    show "\<exists>r. fmlookup (st_runs s') R = Some r \<and> run_SearchID r = S"
      using U(1) [OF ar(2)] ar(3) by (auto simp: run_keeps_def)
  qed
  moreover have "wf_targets s'" using w(5) U(7,9) by (simp add: wf_targets_def)
  moreover have "wf_indices s'"
    unfolding wf_indices_def
  proof (intro allI impI)
    fix R r'
    assume "fmlookup (st_runs s') R = Some r'"
    from U(2) [OF this] obtain r where r: "fmlookup (st_runs s) R = Some r" "run_keeps r r'" by blast
    with w(6) have "bij_betw (shard_index s) (shards_of s R) {0..<shard_count (run_Config r')}"
      by (simp add: wf_indices_def run_keeps_def)
    then show "bij_betw (shard_index s') (shards_of s' R) {0..<shard_count (run_Config r')}"
      using updates_shards_of [OF assms(2)] by (metis bij_betw_cong)
  qed
  ultimately show ?thesis using w(1) by (simp add: wf_store_def U(7))
qed

subsection \<open>Claiming and completing\<close>

text \<open>What an assignment says: its shard was queued and is now running, its run is running, and it
  carries the run with the shard's share of the load, and the run's target.\<close>

definition claim_ok :: "Store \<Rightarrow> Store \<Rightarrow> Assignment \<Rightarrow> bool" where
  "claim_ok s s' a \<longleftrightarrow> (\<exists>h r. fmlookup (st_shards s) (sh_ID (asg_Shard a)) = Some h \<and> sh_Status h = ''queued'' \<and>
     asg_Shard a = h\<lparr>sh_Status := ''running''\<rparr> \<and>
     fmlookup (st_shards s') (sh_ID (asg_Shard a)) = Some (asg_Shard a) \<and>
     fmlookup (st_runs s') (sh_RunID h) = Some r \<and> run_Status r = ''running'' \<and>
     asg_Run a = r\<lparr>run_Config := shard_config r (asg_Shard a)\<rparr> \<and>
     fmlookup (st_targets s) (rc_TargetID (run_Config r)) = Some (asg_Target a))"

lemma claim_ok_earlier:
  assumes "claim_ok s1 s' a" "st_targets s1 = st_targets s"
    and "\<And>k h. fmlookup (st_shards s1) k = Some h \<Longrightarrow> sh_Status h = ''queued'' \<Longrightarrow> fmlookup (st_shards s) k = Some h"
  shows "claim_ok s s' a"
  using assms unfolding claim_ok_def by metis

lemma claim_loop_ok:
  assumes "wf_store s" "distinct (map fst es)" "\<forall>(k, h) \<in> set es. fmlookup (st_shards s) k = Some h"
  shows "updates s (snd (claim_loop now es s)) \<and>
    (\<forall>a. fst (claim_loop now es s) = Some a \<longrightarrow> claim_ok s (snd (claim_loop now es s)) a)"
  using assms
proof (induction es arbitrary: s)
  case (Cons e es)
  obtain k h where e: "e = (k, h)" by force
  have kh: "fmlookup (st_shards s) k = Some h" using Cons.prems(3) by (simp add: e)
  have rest: "\<forall>(k, h) \<in> set es. fmlookup (st_shards s) k = Some h" "distinct (map fst es)"
    using Cons.prems(2,3) by simp_all
  show ?case
  proof (cases "sh_Status h = ''queued''")
    case False
    then show ?thesis using Cons.IH [OF Cons.prems(1) rest(2,1)] by (simp add: e)
  next
    case queued: True
    have "sh_ID h = k" using Cons.prems(1) kh by (simp add: wf_store_def wf_shards_def)
    obtain run where run: "fmlookup (st_runs s) (sh_RunID h) = Some run" "run_ID run = sh_RunID h"
      using Cons.prems(1) kh by (fastforce simp: wf_store_def wf_shards_def wf_runs_def)
    let ?c = "h\<lparr>sh_Status := ''cancelled''\<rparr>"
    have step: "updates s (snd (claim_loop now es s1)) \<and>
        (\<forall>a. fst (claim_loop now es s1) = Some a \<longrightarrow> claim_ok s (snd (claim_loop now es s1)) a)"
      if "updates s s1" "st_shards s1 = fmupd k ?c (st_shards s)" "st_targets s1 = st_targets s" for s1
    proof -
      have "\<forall>(k', h') \<in> set es. fmlookup (st_shards s1) k' = Some h'"
        using Cons.prems(2) rest(1) by (force simp: that(2) e)
      note IH = Cons.IH [OF wf_updates [OF Cons.prems(1) that(1)] rest(2) this]
      have "claim_ok s s' a" if "claim_ok s1 s' a" for s' a
        using that by (rule claim_ok_earlier)
          (auto simp: \<open>st_shards s1 = fmupd k ?c (st_shards s)\<close> \<open>st_targets s1 = st_targets s\<close> split: if_splits)
      then show ?thesis using IH updates_trans [OF that(1)] by blast
    qed
    have uc: "updates s (upd_shard k ?c s)"
      using kh queued by (intro updates_shard [of _ _ h]) (simp_all add: shard_keeps_def shard_next_def)
    show ?thesis
    proof (cases "run_Status run \<noteq> ''queued'' \<and> run_Status run \<noteq> ''running''")
      case True
      then show ?thesis using queued run step [OF uc] by (simp add: e)
    next
      case active: False
      show ?thesis
      proof (cases "fmlookup (st_targets s) (rc_TargetID (run_Config run))")
        case None
        let ?s1 = "upd_run (run_ID run) (run\<lparr>run_Status := ''cancelled''\<rparr>) s"
        have "updates s ?s1"
          using run active by (intro updates_run) (auto simp: run_keeps_def)
        moreover have "updates ?s1 (upd_shard k ?c ?s1)"
          using kh queued by (intro updates_shard [of _ _ h]) (simp_all add: shard_keeps_def shard_next_def)
        ultimately have "updates s (upd_shard k ?c ?s1)" by (rule updates_trans)
        from step [OF this] show ?thesis using queued run active None by (auto simp: e Let_def)
      next
        case (Some target)
        let ?h = "h\<lparr>sh_Status := ''running''\<rparr>"
        let ?run = "(if run_StartedUnix run = 0 then run\<lparr>run_Status := ''running'', run_StartedUnix := now\<rparr>
          else run\<lparr>run_Status := ''running''\<rparr>)"
        let ?s1 = "upd_shard k ?h s"
        let ?s2 = "upd_run (run_ID run) ?run ?s1"
        have "updates s ?s1"
          using kh queued by (intro updates_shard [of _ _ h]) (simp_all add: shard_keeps_def shard_next_def)
        moreover have "updates ?s1 ?s2"
          using run active by (intro updates_run) (auto simp: run_keeps_def)
        ultimately have u: "updates s ?s2" by (rule updates_trans)
        have c: "claim_loop now (e # es) s = (Some \<lparr>asg_Run = ?run\<lparr>run_Config := shard_config ?run ?h\<rparr>,
            asg_Target = target, asg_Shard = ?h\<rparr>, ?s2)"
          using queued run active Some by (auto simp: e Let_def)
        have "claim_ok s ?s2 \<lparr>asg_Run = ?run\<lparr>run_Config := shard_config ?run ?h\<rparr>,
            asg_Target = target, asg_Shard = ?h\<rparr>"
          using kh queued run Some \<open>sh_ID h = k\<close> unfolding claim_ok_def
          by (intro exI [of _ h] exI [of _ ?run]) simp
        with u show ?thesis by (simp add: c)
      qed
    qed
  qed
qed simp

lemma ClaimRun_ok:
  assumes "wf_store s" "iter_order ord (st_shards s)" "ClaimRun ord now s = (a, s')"
  shows "updates s s'" "a = Some x \<Longrightarrow> claim_ok s s' x"
  using claim_loop_ok [OF assms(1) entries_facts [OF assms(2)], of now] assms(3)
  by (simp_all add: ClaimRun_def)

lemma updates_CompleteShard:
  assumes "wf_store s" "iter_order ord (st_shards s)"
  shows "updates s (snd (CompleteShard ord tord i result s))"
proof (cases "fmlookup (st_shards s) i")
  case (Some shard)
  obtain run where run: "fmlookup (st_runs s) (sh_RunID shard) = Some run" "run_ID run = sh_RunID shard"
    "run_Status run \<in> {''queued'', ''running'', ''completed'', ''cancelled''}"
    using assms(1) Some by (fastforce simp: wf_store_def wf_shards_def wf_runs_def)
  have rep: "reports s i shard run" using Some run by (simp add: reports_def)
  let ?s1 = "record_result i shard result s"
  have u1: "updates s ?s1" using Some by (rule updates_record_result)
  show ?thesis
  proof (cases "run_Status run = ''cancelled'' \<or> \<not> others_completed i s (run_ID run)")
    case True
    then show ?thesis using CompleteShard_waits [OF assms(2) rep] u1 by simp
  next
    case False
    let ?run = "run\<lparr>run_Status := ''completed'',
      run_Result := merged_result tord (run_Config run) (shard_values ord (run_ID run) ?s1)\<rparr>"
    have "updates ?s1 (upd_run (run_ID run) ?run ?s1)"
      using run False by (intro updates_run) (auto simp: run_keeps_def)
    with u1 have "updates s (clearShardSamplesLocked ord (run_ID run)
        (clearRunProgressLocked ord (run_ID run) (upd_run (run_ID run) ?run ?s1)))"
      by (blast intro: updates_trans updates_clearing)
    then show ?thesis
      using False run by (simp add: CompleteShard_eq [OF assms(2) Some] all_completed_record Let_def)
  qed
qed (simp add: CompleteShard_def)

end
