(* ===== verification/Store_Machine.thy ===== *)
theory Store_Machine
  imports Store_Invariant
begin

text \<open>
  The store as a state machine. First the operations that create runs, searches and targets keep a
  store well-formed; then a step relation with one rule per operation of the \<open>Store\<close> interface that
  changes the store, executions from the empty store, and what holds along them: statuses only move
  forward, a shard is handed out at most once, and the shares handed out for a run add up to its load.
  The rules that draw identifiers require that the counter does not pass the largest 64-bit integer.
\<close>

subsection \<open>Adding the shards of a run\<close>

abbreviation new_shard :: "string \<Rightarrow> int \<Rightarrow> int \<Rightarrow> Shard" where
  "new_shard R n i \<equiv> \<lparr>sh_ID = ''shard-'' @ dec_int n, sh_RunID = R, sh_Status = ''queued'', sh_Index = i\<rparr>"

lemma queue_shards_loop_eq:
  assumes "0 \<le> st_nextID s" "st_nextID s + int n \<le> MaxInt64"
  shows "\<exists>m. queue_shards_loop n i R s = s\<lparr>st_nextID := st_nextID s + int n, st_shards := m\<rparr> \<and>
    (\<forall>j \<in> {1..int n}. fmlookup m (''shard-'' @ dec_int (st_nextID s + j)) =
       Some (new_shard R (st_nextID s + j) (i + j - 1))) \<and>
    (\<forall>k. (\<forall>j \<in> {1..int n}. k \<noteq> ''shard-'' @ dec_int (st_nextID s + j)) \<longrightarrow> fmlookup m k = fmlookup (st_shards s) k)"
  using assms
proof (induction n arbitrary: i s)
  case (Suc n)
  let ?m = "st_nextID s"
  have w: "i64 (?m + 1) = ?m + 1" using Suc.prems by (intro i64_id) (simp add: in64_def MaxInt64_def)
  let ?s = "s\<lparr>st_nextID := ?m + 1, st_shards := fmupd (''shard-'' @ dec_int (?m + 1))
    (new_shard R (?m + 1) i) (st_shards s)\<rparr>"
  have l: "queue_shards_loop (Suc n) i R s = queue_shards_loop n (i + 1) R ?s"
    by (simp add: Let_def w)
  from Suc.IH [of ?s "i + 1"] Suc.prems obtain m where
    m: "queue_shards_loop n (i + 1) R ?s = ?s\<lparr>st_nextID := ?m + 1 + int n, st_shards := m\<rparr>"
    and new: "\<forall>j \<in> {1..int n}. fmlookup m (''shard-'' @ dec_int (?m + 1 + j)) =
       Some (new_shard R (?m + 1 + j) (i + 1 + j - 1))"
    and old: "\<forall>k. (\<forall>j \<in> {1..int n}. k \<noteq> ''shard-'' @ dec_int (?m + 1 + j)) \<longrightarrow>
       fmlookup m k = fmlookup (st_shards ?s) k"
    by auto
  have first: "fmlookup m (''shard-'' @ dec_int (?m + 1)) = Some (new_shard R (?m + 1) i)"
    using old by simp
  have "fmlookup m (''shard-'' @ dec_int (?m + j)) = Some (new_shard R (?m + j) (i + j - 1))"
    if "j \<in> {1..int (Suc n)}" for j
  proof (cases "j = 1")
    case False
    with that have "j - 1 \<in> {1..int n}" by simp
    with new have "fmlookup m (''shard-'' @ dec_int (?m + 1 + (j - 1))) =
        Some (new_shard R (?m + 1 + (j - 1)) (i + 1 + (j - 1) - 1))" by blast
    then show ?thesis by simp
  qed (use first in simp)
  moreover have "fmlookup m k = fmlookup (st_shards s) k"
    if k: "\<forall>j \<in> {1..int (Suc n)}. k \<noteq> ''shard-'' @ dec_int (?m + j)" for k
  proof -
    have "k \<noteq> ''shard-'' @ dec_int (?m + 1 + j)" if "j \<in> {1..int n}" for j
      using k that by (auto dest: bspec [of _ _ "j + 1"] simp: add.assoc add.commute [of 1])
    moreover have "k \<noteq> ''shard-'' @ dec_int (?m + 1)" using k by auto
    ultimately show ?thesis using old by simp
  qed
  ultimately show ?case unfolding l m by (intro exI [of _ m]) (simp add: add.assoc)
next
  case 0
  show ?case by (rule exI [of _ "st_shards s"]) simp
qed

subsection \<open>A new run\<close>

text \<open>What \<open>CreateRun\<close> and \<open>queueSearchRunLocked\<close> share.\<close>

definition new_run :: "RunConfig \<Rightarrow> string \<Rightarrow> int \<Rightarrow> Run" where
  "new_run config searchID n = zero_Run\<lparr>run_ID := ''run-'' @ dec_int n, run_Status := ''queued'',
     run_SearchID := searchID, run_Config := config\<lparr>rc_WorkloadID := ''run-'' @ dec_int n\<rparr>\<rparr>"

definition add_run :: "RunConfig \<Rightarrow> string \<Rightarrow> Store \<Rightarrow> Run \<times> Store" where
  "add_run config searchID s =
     (let n = i64 (st_nextID s + 1); run = new_run config searchID n
      in (run, queueShardsLocked run (upd_run (run_ID run) run (s\<lparr>st_nextID := n\<rparr>))))"

lemma CreateRun_add_run: "CreateRun config s = add_run config [] s"
  by (simp add: CreateRun_def add_run_def new_run_def Let_def zero_Run_def)

definition search_run_config :: "AutoSearch \<Rightarrow> int \<Rightarrow> RunConfig" where
  "search_run_config search load = (let config = asc_Run (as_Config search) in
     if rc_Mode config = LoadModeRPS then config\<lparr>rc_RPS := load\<rparr> else config\<lparr>rc_VUs := load\<rparr>)"

lemma queueSearchRun_add_run: "queueSearchRunLocked search load s =
    (let (run, s) = add_run (search_run_config search load) (as_ID search) s
     in (search\<lparr>as_RunIDs := as_RunIDs search @ [run_ID run]\<rparr>,
         s\<lparr>st_searchRun := fmupd (run_ID run) (as_ID search) (st_searchRun s)\<rparr>))"
  by (simp add: queueSearchRunLocked_def add_run_def new_run_def search_run_config_def Let_def)

text \<open>The identifiers one new run draws.\<close>

definition draws :: "RunConfig \<Rightarrow> int" where
  "draws config = 1 + shard_count config"

lemma shard_count_pos: "1 \<le> shard_count config"
  by (simp add: shard_count_def)

lemma new_run_simps [simp]:
  "run_ID (new_run config sid n) = ''run-'' @ dec_int n" "run_Status (new_run config sid n) = ''queued''"
  "run_SearchID (new_run config sid n) = sid"
  "shard_count (run_Config (new_run config sid n)) = shard_count config"
  by (simp_all add: new_run_def shard_count_def)

lemma add_run_eq:
  assumes "0 \<le> st_nextID s" "st_nextID s + draws config \<le> MaxInt64"
  obtains m where
    "add_run config sid s = (new_run config sid (st_nextID s + 1),
       s\<lparr>st_nextID := st_nextID s + draws config,
         st_runs := fmupd (''run-'' @ dec_int (st_nextID s + 1)) (new_run config sid (st_nextID s + 1)) (st_runs s),
         st_shards := m\<rparr>)"
    "\<And>j. 1 \<le> j \<Longrightarrow> j \<le> shard_count config \<Longrightarrow> fmlookup m (''shard-'' @ dec_int (st_nextID s + 1 + j)) =
       Some (new_shard (''run-'' @ dec_int (st_nextID s + 1)) (st_nextID s + 1 + j) (j - 1))"
    "\<And>k. (\<And>j. 1 \<le> j \<Longrightarrow> j \<le> shard_count config \<Longrightarrow> k \<noteq> ''shard-'' @ dec_int (st_nextID s + 1 + j)) \<Longrightarrow>
       fmlookup m k = fmlookup (st_shards s) k"
proof -
  let ?n = "st_nextID s + 1" and ?c = "shard_count config"
  let ?run = "new_run config sid ?n"
  have w: "i64 ?n = ?n"
    using assms shard_count_pos [of config] by (intro i64_id) (simp add: in64_def MaxInt64_def draws_def)
  let ?s = "upd_run (run_ID ?run) ?run (s\<lparr>st_nextID := ?n\<rparr>)"
  have "int (nat ?c) = ?c" using shard_count_pos [of config] by simp
  then obtain m where m: "queue_shards_loop (nat ?c) 0 (run_ID ?run) ?s = ?s\<lparr>st_nextID := ?n + ?c, st_shards := m\<rparr>"
    "\<forall>j \<in> {1..?c}. fmlookup m (''shard-'' @ dec_int (?n + j)) = Some (new_shard (run_ID ?run) (?n + j) (0 + j - 1))"
    "\<forall>k. (\<forall>j \<in> {1..?c}. k \<noteq> ''shard-'' @ dec_int (?n + j)) \<longrightarrow> fmlookup m k = fmlookup (st_shards s) k"
    using queue_shards_loop_eq [of ?s "nat ?c" 0 "run_ID ?run"] assms by (auto simp: draws_def add.assoc)
  have "add_run config sid s = (?run, s\<lparr>st_nextID := st_nextID s + draws config,
      st_runs := fmupd (''run-'' @ dec_int ?n) ?run (st_runs s), st_shards := m\<rparr>)"
    using m(1) by (simp add: add_run_def w Let_def queueShardsLocked_def draws_def add.assoc)
  then show ?thesis using m(2,3) by (intro that [of m]) auto
qed

subsection \<open>Creating keeps a store well-formed\<close>

lemma numbered_mono: "numbered p m k \<Longrightarrow> m \<le> n \<Longrightarrow> numbered p n k"
  by (force simp: numbered_def)

lemma numbered_new: "0 \<le> m \<Longrightarrow> 1 \<le> j \<Longrightarrow> m + j \<le> n \<Longrightarrow> numbered p n (p @ dec_int (m + j))"
  by (force simp: numbered_def)

lemma not_numbered: "m < j \<Longrightarrow> \<not> numbered p m (p @ dec_int j)"
  by (auto simp: numbered_def)

text \<open>Everything there was is still there, moved forward.\<close>

definition evolves :: "Store \<Rightarrow> Store \<Rightarrow> bool" where
  "evolves s s' \<longleftrightarrow> st_nextID s \<le> st_nextID s' \<and>
     (\<forall>k r. fmlookup (st_runs s) k = Some r \<longrightarrow> (\<exists>r'. fmlookup (st_runs s') k = Some r' \<and> run_keeps r r')) \<and>
     (\<forall>k h. fmlookup (st_shards s) k = Some h \<longrightarrow> (\<exists>h'. fmlookup (st_shards s') k = Some h' \<and> shard_keeps h h'))"

lemma evolves_refl [simp]: "evolves s s"
  by (auto simp: evolves_def intro: run.keeps_refl shard.keeps_refl)

lemma evolves_trans: "evolves s s' \<Longrightarrow> evolves s' s'' \<Longrightarrow> evolves s s''"
  unfolding evolves_def using run.keeps_trans shard.keeps_trans by (meson order_trans)

lemma updates_evolves: "updates s s' \<Longrightarrow> evolves s s'"
  using updatesD [of s s'] by (auto simp: evolves_def)

lemma shard_of_new_run:
  assumes "wf_store s" "st_nextID s < n"
  shows "shards_of s (''run-'' @ dec_int n) = {}"
proof -
  have "fmlookup (st_runs s) (''run-'' @ dec_int n) = None"
    using assms not_numbered [of "st_nextID s" n "''run-''"]
    by (cases "fmlookup (st_runs s) (''run-'' @ dec_int n)") (auto simp: wf_store_def wf_runs_def)
  then show ?thesis using assms(1) by (force simp: shards_of_def wf_store_def wf_shards_def)
qed

lemma add_run_wf:
  assumes "wf_store s" "st_nextID s + draws config \<le> MaxInt64" "add_run config sid s = (run, s')"
  shows "wf_store s'" "evolves s s'" "run = new_run config sid (st_nextID s + 1)"
    "fmlookup (st_runs s') (run_ID run) = Some run" "st_searchRun s' = st_searchRun s"
    "st_searches s' = st_searches s" "st_nextID s' = st_nextID s + draws config"
proof -
  let ?m = "st_nextID s" and ?c = "shard_count config"
  let ?R = "''run-'' @ dec_int (?m + 1)" and ?run = "new_run config sid (?m + 1)"
  have w: "0 \<le> ?m" "wf_runs s" "wf_shards s" "wf_searches s" "wf_targets s" "wf_indices s"
    using assms(1) by (simp_all add: wf_store_def)
  from add_run_eq [OF w(1) assms(2), of sid] obtain M where
    s': "add_run config sid s = (?run, s\<lparr>st_nextID := ?m + draws config,
      st_runs := fmupd ?R ?run (st_runs s), st_shards := M\<rparr>)"
    and new: "\<And>j. 1 \<le> j \<Longrightarrow> j \<le> ?c \<Longrightarrow> fmlookup M (''shard-'' @ dec_int (?m + 1 + j)) =
       Some (new_shard ?R (?m + 1 + j) (j - 1))"
    and old: "\<And>k. (\<And>j. 1 \<le> j \<Longrightarrow> j \<le> ?c \<Longrightarrow> k \<noteq> ''shard-'' @ dec_int (?m + 1 + j)) \<Longrightarrow>
       fmlookup M k = fmlookup (st_shards s) k" by blast
  from trans [OF assms(3) [symmetric] s'] have e: "run = ?run" "s' = s\<lparr>st_nextID := ?m + draws config,
      st_runs := fmupd ?R ?run (st_runs s), st_shards := M\<rparr>" by (simp_all only: prod.inject)
  have d: "draws config = 1 + ?c" "1 \<le> ?c" by (simp_all add: draws_def shard_count_pos)
  have R_new: "fmlookup (st_runs s) ?R = None"
    using w(2) not_numbered [of ?m "?m + 1" "''run-''"]
    by (cases "fmlookup (st_runs s) ?R") (auto simp: wf_runs_def)
  have M_old: "fmlookup M k = fmlookup (st_shards s) k" if "fmlookup (st_shards s) k \<noteq> None" for k
  proof (rule old)
    fix j :: int
    assume "1 \<le> j"
    moreover have "numbered ''shard-'' ?m k" using w(3) that by (auto simp: wf_shards_def)
    ultimately show "k \<noteq> ''shard-'' @ dec_int (?m + 1 + j)"
      using not_numbered [of ?m "?m + 1 + j" "''shard-''"] by auto
  qed
  have M_cases: "fmlookup (st_shards s) k = Some h \<or>
      (\<exists>j. 1 \<le> j \<and> j \<le> ?c \<and> k = ''shard-'' @ dec_int (?m + 1 + j) \<and> h = new_shard ?R (?m + 1 + j) (j - 1))"
    if "fmlookup M k = Some h" for k h
    using old [of k] new that by (cases "\<exists>j. 1 \<le> j \<and> j \<le> ?c \<and> k = ''shard-'' @ dec_int (?m + 1 + j)") auto
  show "run = ?run" by (rule e(1))
  show "fmlookup (st_runs s') (run_ID run) = Some run" by (simp add: e)
  show "st_searchRun s' = st_searchRun s" "st_searches s' = st_searches s" "st_nextID s' = ?m + draws config"
    by (simp_all add: e)
  show "evolves s s'"
    using R_new M_old d by (auto simp: evolves_def e intro: run.keeps_refl shard.keeps_refl)
  have "wf_runs s'"
    using w(2) numbered_mono [of "''run-''" ?m _ "?m + draws config"] numbered_new [of ?m 1 "?m + draws config" "''run-''"] w(1) d
    by (auto simp: wf_runs_def e split: if_splits)
  moreover have "wf_shards s'"
    unfolding wf_shards_def
  proof (intro allI impI)
    fix k h
    assume "fmlookup (st_shards s') k = Some h"
    then have "fmlookup M k = Some h" by (simp add: e)
    from M_cases [OF this] show "sh_ID h = k \<and> numbered ''shard-'' (st_nextID s') k \<and>
        sh_Status h \<in> {''queued'', ''running'', ''completed'', ''cancelled''} \<and>
        fmlookup (st_runs s') (sh_RunID h) \<noteq> None"
    proof (elim disjE exE conjE)
      assume "fmlookup (st_shards s) k = Some h"
      then show ?thesis
        using w(3) numbered_mono [of "''shard-''" ?m k "?m + draws config"] d by (auto simp: wf_shards_def e)
    next
      fix j
      assume "1 \<le> j" "j \<le> ?c" "k = ''shard-'' @ dec_int (?m + 1 + j)" "h = new_shard ?R (?m + 1 + j) (j - 1)"
      then show ?thesis
        using numbered_new [of ?m "1 + j" "?m + draws config" "''shard-''"] w(1) d by (simp add: e add.assoc)
    qed
  qed
  moreover have "wf_searches s'"
    using w(4) R_new numbered_mono [of "''search-''" ?m _ "?m + draws config"] d
    by (fastforce simp: wf_searches_def e)
  moreover have "wf_targets s'"
    using w(5) numbered_mono [of "''target-''" ?m _ "?m + draws config"] d by (auto simp: wf_targets_def e)
  moreover have "wf_indices s'"
    unfolding wf_indices_def
  proof (intro allI impI)
    fix R r
    assume Rr: "fmlookup (st_runs s') R = Some r"
    show "bij_betw (shard_index s') (shards_of s' R) {0..<shard_count (run_Config r)}"
    proof (cases "R = ?R")
      case True
      then have "shard_count (run_Config r) = ?c" using Rr by (auto simp: e)
      moreover have K: "shards_of s' R = (\<lambda>j. ''shard-'' @ dec_int (?m + 1 + j)) ` {1..?c}"
        using new M_cases shard_of_new_run [OF assms(1), of "?m + 1"] True
        by (fastforce simp: shards_of_def e image_iff)
      moreover have "bij_betw (shard_index s') (shards_of s' R) {0..<?c}"
      proof (rule bij_betw_imageI)
        have i: "shard_index s' (''shard-'' @ dec_int (?m + 1 + j)) = j - 1" if "j \<in> {1..?c}" for j
          using new that by (simp add: shard_index_def e)
        then show "inj_on (shard_index s') (shards_of s' R)" unfolding K by (auto simp: inj_on_def)
        have "shard_index s' ` shards_of s' R = (\<lambda>j. j - 1) ` {1..?c}"
          unfolding K image_image using i by (intro image_cong) auto
        also have "\<dots> = {0..<?c}" by (auto simp: image_iff intro!: bexI [of _ "_ + 1"])
        finally show "shard_index s' ` shards_of s' R = {0..<?c}" .
      qed
      ultimately show ?thesis by simp
    next
      case False
      then have r: "fmlookup (st_runs s) R = Some r" using Rr by (simp add: e)
      have "shards_of s' R = shards_of s R"
        using M_cases M_old False by (fastforce simp: shards_of_def e)
      moreover have "shard_index s' k = shard_index s k" if "k \<in> shards_of s R" for k
        using that M_old by (auto simp: shard_index_def shards_of_def e get_or_def)
      ultimately have "bij_betw (shard_index s') (shards_of s' R) I = bij_betw (shard_index s) (shards_of s R) I" for I
        by (metis bij_betw_cong)
      then show ?thesis using w(6) r by (simp add: wf_indices_def)
    qed
  qed
  ultimately show "wf_store s'" using w(1) d by (simp add: wf_store_def e)
qed

lemma wf_indices_cong: "st_shards s' = st_shards s \<Longrightarrow> st_runs s' = st_runs s \<Longrightarrow> wf_indices s' = wf_indices s"
proof -
  assume "st_shards s' = st_shards s" "st_runs s' = st_runs s"
  then have "shards_of s' = shards_of s" "shard_index s' = shard_index s" "st_runs s' = st_runs s"
    by (simp_all add: shards_of_def shard_index_def fun_eq_iff)
  then show ?thesis by (simp add: wf_indices_def)
qed

lemma wf_CreateTarget:
  assumes "wf_store s" "st_nextID s + 1 \<le> MaxInt64"
  shows "wf_store (snd (CreateTarget t s))" "evolves s (snd (CreateTarget t s))"
proof -
  have w: "0 \<le> st_nextID s" "wf_runs s" "wf_shards s" "wf_searches s" "wf_targets s" "wf_indices s"
    using assms(1) by (simp_all add: wf_store_def)
  have i: "i64 (st_nextID s + 1) = st_nextID s + 1"
    using assms(2) w(1) by (intro i64_id) (simp add: in64_def MaxInt64_def)
  let ?s = "s\<lparr>st_nextID := st_nextID s + 1, st_targets := fmupd (''target-'' @ dec_int (st_nextID s + 1))
      (t\<lparr>tgt_ID := ''target-'' @ dec_int (st_nextID s + 1)\<rparr>) (st_targets s)\<rparr>"
  have c: "snd (CreateTarget t s) = ?s" by (simp add: CreateTarget_def Let_def i)
  note mono = numbered_mono [of _ "st_nextID s" _ "st_nextID s + 1"]
  have sh: "wf_indices ?s = wf_indices s" by (rule wf_indices_cong) simp_all
  have "wf_runs ?s" using w(2) mono by (simp add: wf_runs_def)
  moreover have "wf_shards ?s" using w(3) mono by (simp add: wf_shards_def)
  moreover have "wf_searches ?s" using w(4) mono by (simp add: wf_searches_def)
  moreover have "wf_targets ?s"
    using w(5) mono numbered_new [OF w(1), of 1 "st_nextID s + 1" "''target-''"] by (simp add: wf_targets_def)
  moreover have "wf_indices ?s" using w(6) by (simp only: sh)
  ultimately show "wf_store (snd (CreateTarget t s))" using w(1) by (simp add: c wf_store_def)
  show "evolves s (snd (CreateTarget t s))"
    by (auto simp: c evolves_def intro: run.keeps_refl shard.keeps_refl)
qed

text \<open>Storing a search under its identifier and linking one of its runs to it.\<close>

lemma wf_link:
  assumes "wf_store s" "fmlookup (st_runs s) R = Some r" "run_SearchID r = as_ID a"
    "numbered ''search-'' (st_nextID s) (as_ID a)"
  shows "wf_store (s\<lparr>st_searchRun := fmupd R (as_ID a) (st_searchRun s),
      st_searches := fmupd (as_ID a) a (st_searches s)\<rparr>)"
proof -
  let ?s = "s\<lparr>st_searchRun := fmupd R (as_ID a) (st_searchRun s), st_searches := fmupd (as_ID a) a (st_searches s)\<rparr>"
  have w: "0 \<le> st_nextID s" "wf_runs s" "wf_shards s" "wf_searches s" "wf_targets s" "wf_indices s"
    using assms(1) by (simp_all add: wf_store_def)
  have sh: "wf_indices ?s = wf_indices s" by (rule wf_indices_cong) simp_all
  have "wf_searches ?s" using w(4) assms(2-4) by (simp add: wf_searches_def)
  moreover have "wf_runs ?s" "wf_shards ?s" "wf_targets ?s" "wf_indices ?s"
    using w by (simp_all add: wf_runs_def wf_shards_def wf_targets_def sh)
  ultimately show ?thesis using w(1) by (simp add: wf_store_def)
qed

lemma evolves_search: "evolves s (s\<lparr>st_searchRun := x, st_searches := y\<rparr>)" "evolves s (s\<lparr>st_searches := y\<rparr>)"
  by (auto simp: evolves_def intro: run.keeps_refl shard.keeps_refl)

lemma draws_search_run [simp]: "draws (search_run_config search load) = draws (asc_Run (as_Config search))"
  by (simp add: draws_def search_run_config_def shard_count_def Let_def)

text \<open>Queueing a run for a search and then storing the search.\<close>

lemma wf_queue_search:
  assumes "wf_store s" "st_nextID s + draws (asc_Run (as_Config a)) \<le> MaxInt64"
    and "numbered ''search-'' (st_nextID s) (as_ID a)" "queueSearchRunLocked a load s = (a', s')"
  shows "wf_store (upd_search (as_ID a) a' s')" "evolves s (upd_search (as_ID a) a' s')" "as_ID a' = as_ID a"
proof -
  obtain run s1 where r: "add_run (search_run_config a load) (as_ID a) s = (run, s1)" by (rule prod.exhaust)
  note A = add_run_wf [OF assms(1) _ r, unfolded draws_search_run, OF assms(2)]
  have e: "a' = a\<lparr>as_RunIDs := as_RunIDs a @ [run_ID run]\<rparr>"
    "s' = s1\<lparr>st_searchRun := fmupd (run_ID run) (as_ID a) (st_searchRun s1)\<rparr>"
    using assms(4) by (simp_all add: queueSearchRun_add_run r)
  have n: "numbered ''search-'' (st_nextID s1) (as_ID a')"
    using numbered_mono [OF assms(3), of "st_nextID s1"] A(2) by (simp add: e evolves_def)
  have "run_SearchID run = as_ID a'" using A(3) by (simp add: e)
  from wf_link [OF A(1,4) this n]
  show "wf_store (upd_search (as_ID a) a' s')" by (simp add: e)
  show "evolves s (upd_search (as_ID a) a' s')"
    using evolves_trans [OF A(2) evolves_search(1)] by (simp add: e)
  show "as_ID a' = as_ID a" by (simp add: e)
qed

lemma wf_CreateSearch:
  assumes "wf_store s" "st_nextID s + 1 + draws (asc_Run config) \<le> MaxInt64"
  shows "wf_store (snd (CreateSearch config s))" "evolves s (snd (CreateSearch config s))"
proof -
  have w: "0 \<le> st_nextID s" using assms(1) by (simp add: wf_store_def)
  have i: "i64 (st_nextID s + 1) = st_nextID s + 1"
    using assms(2) w shard_count_pos [of "asc_Run config"]
    by (intro i64_id) (simp add: in64_def MaxInt64_def draws_def)
  let ?s = "s\<lparr>st_nextID := st_nextID s + 1\<rparr>"
  let ?a = "zero_AutoSearch\<lparr>as_ID := ''search-'' @ dec_int (st_nextID s + 1),
            as_Status := AutoSearchRunning, as_Config := config, as_NextLoad := asc_StartLoad config,
            as_Ladder := SweepLadder (asc_StartLoad config) (asc_MaxLoad config)\<rparr>"
  note mono = numbered_mono [of _ "st_nextID s" _ "st_nextID s + 1"]
  have sh: "wf_indices ?s = wf_indices s" by (rule wf_indices_cong) simp_all
  have "wf_store ?s"
    using assms(1) mono by (simp add: wf_store_def wf_runs_def wf_shards_def wf_searches_def wf_targets_def sh)
  moreover have "numbered ''search-'' (st_nextID ?s) (as_ID ?a)"
    using numbered_new [OF w, of 1 "st_nextID s + 1" "''search-''"] by simp
  moreover obtain a' s' where q: "queueSearchRunLocked ?a (asc_StartLoad config) ?s = (a', s')"
    by (rule prod.exhaust)
  ultimately have W: "wf_store (upd_search (as_ID ?a) a' s')" "evolves ?s (upd_search (as_ID ?a) a' s')" "as_ID a' = as_ID ?a"
    using wf_queue_search [of ?s ?a, OF _ _ _ q] assms(2) by simp_all
  have "snd (CreateSearch config s) = upd_search (as_ID ?a) a' s'"
    using W(3) q by (simp add: CreateSearch_def Let_def i)
  moreover have "evolves s ?s"
    by (auto simp: evolves_def intro: run.keeps_refl shard.keeps_refl)
  ultimately show "wf_store (snd (CreateSearch config s))" "evolves s (snd (CreateSearch config s))"
    using W(1) evolves_trans [OF _ W(2)] by simp_all
qed

lemma search_keeps_AdvanceSearch: "search_keeps a (fst (AdvanceSearch a r))"
proof -
  have "search_keeps a (record_step a r)"
    by (simp add: search_keeps_def)
  moreover have "search_keeps a (finishSearch a)" for a
    by (simp add: search_keeps_def)
  moreover have "search_keeps a (a\<lparr>as_NextLoad := n\<rparr>)" for a n
    by (simp add: search_keeps_def)
  ultimately show ?thesis
    using search.keeps_trans [of a "record_step a r"]
    by (simp add: AdvanceSearch_def Let_def split: option.split)
qed

lemma wf_advanceSearch:
  assumes "wf_store s"
    and "\<forall>k a. fmlookup (st_searches s) k = Some a \<longrightarrow> st_nextID s + draws (asc_Run (as_Config a)) \<le> MaxInt64"
  shows "wf_store (advanceSearch R s) \<and> evolves s (advanceSearch R s)"
proof (cases "fmlookup (st_searchRun s) R")
  case (Some S)
  then obtain a where a: "fmlookup (st_searches s) S = Some a" "as_ID a = S"
    "numbered ''search-'' (st_nextID s) S"
    using assms(1) by (fastforce simp: wf_store_def wf_searches_def)
  let ?r = "get_or zero_Run (st_runs s) R"
  obtain a1 load more where adv: "AdvanceSearch a ?r = (a1, load, more)" by (metis prod.exhaust)
  have k: "as_ID a1 = S" "as_Config a1 = as_Config a" "search_keeps a a1"
    using search_keeps_AdvanceSearch [of a ?r] a(2) by (simp_all add: adv search_keeps_def)
  show ?thesis
  proof (cases "as_Status a = AutoSearchRunning")
    case False
    then show ?thesis using assms(1) by (simp add: advanceSearch_def Some a(1) Let_def)
  next
    case run: True
    show ?thesis
    proof (cases more)
      case False
      then have e: "advanceSearch R s = upd_search S a1 s"
        using run by (simp add: advanceSearch_def Some a(1) Let_def adv)
      have "updates s (upd_search S a1 s)"
        using updates_search [OF a(1) k(3)] .
      then show ?thesis using wf_updates [OF assms(1)] updates_evolves by (simp add: e)
    next
      case True
      obtain a2 s2 where q: "queueSearchRunLocked a1 load s = (a2, s2)" by (rule prod.exhaust)
      have e: "advanceSearch R s = upd_search (as_ID a1) a2 s2"
        using run True k by (simp add: advanceSearch_def Some a(1) Let_def adv q)
      show ?thesis
        using wf_queue_search [OF assms(1) _ _ q] assms(2) a k by (simp add: e)
    qed
  qed
qed (use assms(1) in \<open>simp add: advanceSearch_def\<close>)

subsection \<open>Steps and executions\<close>

text \<open>One rule per operation that changes the store. The label is the assignment handed out, if any.\<close>

inductive store_step :: "Store \<Rightarrow> Assignment option \<Rightarrow> Store \<Rightarrow> bool" where
  CreateTarget_step: "st_nextID s + 1 \<le> MaxInt64 \<Longrightarrow> store_step s None (snd (CreateTarget t s))"
| DeleteTarget_step: "iter_order ord (st_runs s) \<Longrightarrow> store_step s None (snd (DeleteTarget ord i s))"
| CreateRun_step: "st_nextID s + draws config \<le> MaxInt64 \<Longrightarrow> store_step s None (snd (CreateRun config s))"
| SetCreatedBy_step: "store_step s None (SetCreatedBy i user s)"
| ClaimRun_step: "iter_order ord (st_shards s) \<Longrightarrow> ClaimRun ord now s = (a, s') \<Longrightarrow> store_step s a s'"
| CompleteRun_step: "store_step s None (snd (CompleteRun i result s))"
| CompleteShard_step: "iter_order ord (st_shards s) \<Longrightarrow> \<forall>t. iter_order (tord t) t \<Longrightarrow>
    store_step s None (snd (CompleteShard ord tord i result s))"
| CancelRun_step: "iter_order ord (st_shards s) \<Longrightarrow> store_step s None (snd (CancelRun ord i s))"
| SetShardProgress_step: "store_step s None (snd (SetShardProgress i p s))"
| AddMonitoring_step: "store_step s None (AddMonitoring now i x s)"
| SetDetectedServer_step: "store_step s None (SetDetectedServer i d s)"
| TouchAgent_step: "store_step s None (TouchAgent now s)"
| CreateSearch_step: "st_nextID s + 1 + draws (asc_Run c) \<le> MaxInt64 \<Longrightarrow> store_step s None (snd (CreateSearch c s))"
| CancelSearch_step: "iter_order ord (st_shards s) \<Longrightarrow> store_step s None (snd (CancelSearch ord i s))"
| AdvanceSearch_step:
    "\<forall>k a. fmlookup (st_searches s) k = Some a \<longrightarrow> st_nextID s + draws (asc_Run (as_Config a)) \<le> MaxInt64 \<Longrightarrow>
     store_step s None (advanceSearch i s)"
| RecordCapture_step: "iter_order ord (st_captures s) \<Longrightarrow> store_step s None (snd (RecordCapture ord session event s))"
| DeleteCapture_step: "store_step s None (snd (DeleteCapture i s))"
| SetCaptureSettings_step: "store_step s None (snd (SetCaptureSettings c s))"

inductive_cases store_step_claimE: "store_step s (Some a) s'"
inductive_simps store_step_simps: "store_step s l s'"

text \<open>Executions, with the assignments handed out in order.\<close>

inductive store_exec :: "Store \<Rightarrow> Assignment list \<Rightarrow> Store \<Rightarrow> bool" where
  exec_start: "store_exec s [] s"
| exec_step: "store_exec s as s' \<Longrightarrow> store_step s' l s'' \<Longrightarrow>
    store_exec s (as @ (case l of None \<Rightarrow> [] | Some a \<Rightarrow> [a])) s''"

lemma store_step_ok:
  assumes "store_step s l s'" "wf_store s"
  shows "wf_store s' \<and> evolves s s' \<and> (\<forall>a. l = Some a \<longrightarrow> claim_ok s s' a)"
proof -
  have u: "updates s t \<Longrightarrow> wf_store t \<and> evolves s t" for t
    using wf_updates [OF assms(2)] updates_evolves by blast
  show ?thesis
    using assms(1)
  proof cases
    case (CreateTarget_step t)
    then show ?thesis using wf_CreateTarget [OF assms(2)] by simp
  next
    case (CreateRun_step config)
    obtain run s1 where r: "add_run config [] s = (run, s1)" by (rule prod.exhaust)
    from add_run_wf(1,2) [OF assms(2) CreateRun_step(3) r] show ?thesis
      using CreateRun_step by (simp add: CreateRun_add_run r)
  next
    case (ClaimRun_step ord now)
    then show ?thesis using ClaimRun_ok [OF assms(2)] u by metis
  next
    case (CompleteRun_step i result)
    have "updates s (snd (CompleteRun i result s))"
      using assms(2) by (intro updates_CompleteRun) (auto simp: wf_store_def wf_runs_def)
    then show ?thesis using u CompleteRun_step by simp
  next
    case (CreateSearch_step c)
    then show ?thesis using wf_CreateSearch [OF assms(2)] by simp
  next
    case (AdvanceSearch_step i)
    then show ?thesis using wf_advanceSearch [OF assms(2)] by simp
  qed (use u in \<open>simp_all add: updates_DeleteTarget updates_SetCreatedBy updates_CompleteShard [OF assms(2)]
      updates_cancelRunLocked CancelRun_def updates_SetShardProgress updates_AddMonitoring
      updates_SetDetectedServer TouchAgent_def updates_other updates_CancelSearch updates_RecordCapture
      DeleteCapture_def SetCaptureSettings_def Let_def split: option.splits\<close>)
qed

lemma wf_empty: "wf_store NewMemoryStore"
  by (simp add: wf_store_def NewMemoryStore_def wf_runs_def wf_shards_def wf_searches_def wf_targets_def
      wf_indices_def)

lemma store_exec_ok:
  assumes "store_exec s as s'" "wf_store s"
  shows "wf_store s' \<and> evolves s s'"
  using assms
proof (induction rule: store_exec.induct)
  case (exec_step s as s' l s'')
  then show ?case using store_step_ok [of s' l s''] evolves_trans by blast
qed simp

end
