(* ===== verification/Store_History.thy ===== *)
theory Store_History
  imports Store_Machine
begin

text \<open>
  What holds along the executions of the store: which shards have been handed out, and the properties
  of \<open>store_exec\<close>: statuses only move forward, a shard is handed out at most once, and the shares handed
  out for a run add up to its load.
\<close>

subsection \<open>What has been handed out\<close>

text \<open>Each assignment handed out so far names a shard that is no longer queued, and carries the run of
  that shard with the shard's share of the load.\<close>

definition handed_out :: "Store \<Rightarrow> Assignment \<Rightarrow> bool" where
  "handed_out s a \<longleftrightarrow> (\<exists>h r. fmlookup (st_shards s) (sh_ID (asg_Shard a)) = Some h \<and> sh_Status h \<noteq> ''queued'' \<and>
     sh_RunID (asg_Shard a) = sh_RunID h \<and> sh_Index (asg_Shard a) = sh_Index h \<and>
     fmlookup (st_runs s) (sh_RunID h) = Some r \<and> run_ID (asg_Run a) = run_ID r \<and>
     run_Config (asg_Run a) = shard_config r (asg_Shard a))"

lemma handed_out_evolves:
  assumes "handed_out s a" "evolves s s'"
  shows "handed_out s' a"
proof -
  from assms(1) obtain h r where h: "fmlookup (st_shards s) (sh_ID (asg_Shard a)) = Some h" "sh_Status h \<noteq> ''queued''"
      "sh_RunID (asg_Shard a) = sh_RunID h" "sh_Index (asg_Shard a) = sh_Index h"
    and r: "fmlookup (st_runs s) (sh_RunID h) = Some r" "run_ID (asg_Run a) = run_ID r"
      "run_Config (asg_Run a) = shard_config r (asg_Shard a)"
    unfolding handed_out_def by blast
  obtain h' where h': "fmlookup (st_shards s') (sh_ID (asg_Shard a)) = Some h'" "shard_keeps h h'"
    using assms(2) h(1) unfolding evolves_def by blast
  obtain r' where r': "fmlookup (st_runs s') (sh_RunID h) = Some r'" "run_keeps r r'"
    using assms(2) r(1) unfolding evolves_def by blast
  have "shard_config r' (asg_Shard a) = shard_config r (asg_Shard a)"
    using r'(2) by (simp add: shard_config_def run_keeps_def)
  then show ?thesis
    unfolding handed_out_def using h h' r r'
    by (intro exI [of _ h'] exI [of _ r']) (auto simp: shard_keeps_def shard_next_def run_keeps_def)
qed

lemma claim_ok_handed_out: "claim_ok s s' a \<Longrightarrow> handed_out s' a"
  unfolding claim_ok_def handed_out_def
proof (elim exE conjE)
  fix h r
  assume h: "asg_Shard a = h\<lparr>sh_Status := ''running''\<rparr>"
    "fmlookup (st_shards s') (sh_ID (asg_Shard a)) = Some (asg_Shard a)"
    and r: "fmlookup (st_runs s') (sh_RunID h) = Some r" "asg_Run a = r\<lparr>run_Config := shard_config r (asg_Shard a)\<rparr>"
  show "\<exists>h r. fmlookup (st_shards s') (sh_ID (asg_Shard a)) = Some h \<and> sh_Status h \<noteq> ''queued'' \<and>
     sh_RunID (asg_Shard a) = sh_RunID h \<and> sh_Index (asg_Shard a) = sh_Index h \<and>
     fmlookup (st_runs s') (sh_RunID h) = Some r \<and> run_ID (asg_Run a) = run_ID r \<and>
     run_Config (asg_Run a) = shard_config r (asg_Shard a)"
    by (rule exI [of _ "asg_Shard a"], rule exI [of _ r]) (use h r in simp)
qed

lemma exec_handed_out:
  assumes "store_exec s as s'" "wf_store s"
  shows "distinct (map (\<lambda>a. sh_ID (asg_Shard a)) as) \<and> (\<forall>a \<in> set as. handed_out s' a)"
  using assms
proof (induction rule: store_exec.induct)
  case (exec_step s as s' l s'')
  have "wf_store s'" using store_exec_ok exec_step by blast
  note S = store_step_ok [OF exec_step(2) this]
  have old: "distinct (map (\<lambda>a. sh_ID (asg_Shard a)) as)" "\<forall>a \<in> set as. handed_out s' a"
    using exec_step.IH exec_step.prems by simp_all
  have kept: "\<forall>a \<in> set as. handed_out s'' a" using old(2) handed_out_evolves S by blast
  show ?case
  proof (cases l)
    case (Some a)
    then have c: "claim_ok s' s'' a" using S by simp
    have "sh_ID (asg_Shard b) \<noteq> sh_ID (asg_Shard a)" if "b \<in> set as" for b
    proof
      assume "sh_ID (asg_Shard b) = sh_ID (asg_Shard a)"
      moreover have "handed_out s' b" using old(2) that by blast
      ultimately show False using c by (auto simp: handed_out_def claim_ok_def)
    qed
    then have "sh_ID (asg_Shard a) \<notin> (\<lambda>a. sh_ID (asg_Shard a)) ` set as" by (metis imageE)
    then show ?thesis using old(1) kept claim_ok_handed_out [OF c] Some by simp
  qed (use old kept in simp)
qed simp

subsection \<open>Properties\<close>

text \<open>C16. Whatever operations are applied to the store, in whatever order and
  with whatever map iteration orders, a run is never lost, its identifier and configuration never
  change, and its status only moves from queued to running to completed or cancelled: a completed or
  cancelled run keeps that status for ever, and only a run that was queued can be queued.\<close>

theorem statuses_only_move_forward:
  assumes "store_exec NewMemoryStore as s" "store_exec s bs s'" "fmlookup (st_runs s) R = Some r"
  shows "\<exists>r'. fmlookup (st_runs s') R = Some r' \<and> run_ID r' = R \<and> run_Config r' = run_Config r \<and>
    (run_Status r \<in> {''completed'', ''cancelled''} \<longrightarrow> run_Status r' = run_Status r) \<and>
    (run_Status r' = ''queued'' \<longrightarrow> run_Status r = ''queued'') \<and>
    run_Status r' \<in> {''queued'', ''running'', ''completed'', ''cancelled''}"
proof -
  have wf: "wf_store s" using store_exec_ok [OF assms(1) wf_empty] by simp
  note E = store_exec_ok [OF assms(2) wf]
  obtain r' where r': "fmlookup (st_runs s') R = Some r'" "run_keeps r r'"
    using E assms(3) unfolding evolves_def by blast
  have "run_ID r' = R" "run_Status r' \<in> {''queued'', ''running'', ''completed'', ''cancelled''}"
    using E r'(1) by (auto simp: wf_store_def wf_runs_def)
  then show ?thesis using r' by (auto simp: run_keeps_def run_next_def)
qed

text \<open>A run created, claimed and cancelled.\<close>

definition small_config :: RunConfig where
  "small_config = zero_RunConfig\<lparr>rc_TargetID := ''target-1'', rc_Mode := LoadModeVU, rc_VUs := 5, rc_Shards := 1\<rparr>"

definition small_store :: Store where
  "small_store = snd (CreateRun small_config (snd (CreateTarget zero_Target NewMemoryStore)))"

lemma small_exec: "store_exec NewMemoryStore [] small_store"
proof -
  have "store_exec NewMemoryStore ([] @ []) (snd (CreateTarget zero_Target NewMemoryStore))"
    using exec_step [OF exec_start CreateTarget_step [of NewMemoryStore zero_Target]]
    by (simp add: NewMemoryStore_def MaxInt64_def)
  from exec_step [OF this CreateRun_step [of _ small_config]] show ?thesis
    by (simp add: small_store_def CreateTarget_def NewMemoryStore_def MaxInt64_def Let_def draws_def
        shard_count_def small_config_def zero_RunConfig_def i64_def)
qed

text \<open>The store it reaches: one target, one run, one queued shard.\<close>

abbreviation "small_run \<equiv> new_run small_config [] 2"

lemma dec_int_digits [simp]: "dec_int 1 = ''1''" "dec_int 2 = ''2''" "dec_int 3 = ''3''"
  by code_simp+

lemma small_store_eq: "small_store = NewMemoryStore\<lparr>st_nextID := 3,
    st_targets := fmupd ''target-1'' (zero_Target\<lparr>tgt_ID := ''target-1''\<rparr>) fmempty,
    st_runs := fmupd ''run-2'' small_run fmempty,
    st_shards := fmupd ''shard-3'' (new_shard ''run-2'' 3 0) fmempty\<rparr>"
proof -
  have i: "i64 1 = 1" "i64 2 = 2" "i64 3 = 3" by (simp_all add: i64_small)
  have n: "nat (shard_count small_config) = Suc 0"
    by (simp add: shard_count_def small_config_def zero_RunConfig_def)
  show ?thesis
    by (simp add: small_store_def CreateRun_add_run add_run_def CreateTarget_def NewMemoryStore_def Let_def
        queueShardsLocked_def i n)
qed

theorem statuses_only_move_forward_witness:
  "\<exists>r'. fmlookup (st_runs (snd (CancelRun [''shard-3''] ''run-2'' small_store))) ''run-2'' = Some r' \<and>
     run_Config r' = run_Config small_run"
proof -
  have "store_exec small_store ([] @ []) (snd (CancelRun [''shard-3''] ''run-2'' small_store))"
    using exec_step [OF exec_start CancelRun_step [of "[''shard-3'']" small_store "''run-2''"]]
    by (simp add: iter_order_def small_store_eq)
  moreover have "fmlookup (st_runs small_store) ''run-2'' = Some small_run" by (simp add: small_store_eq)
  ultimately show ?thesis using statuses_only_move_forward [OF small_exec] by fastforce
qed

text \<open>C2. No shard is ever handed to two agents: along any execution from
  the empty store, the assignments returned by \<open>ClaimRun\<close> name pairwise different shards.\<close>

theorem shard_assigned_at_most_once:
  assumes "store_exec NewMemoryStore as s"
  shows "distinct (map (\<lambda>a. sh_ID (asg_Shard a)) as)"
  using exec_handed_out [OF assms wf_empty] by simp

text \<open>The assignment of the small run.\<close>

lemma small_claim: "\<exists>a s. ClaimRun [''shard-3''] 7 small_store = (Some a, s) \<and>
    sh_ID (asg_Shard a) = ''shard-3'' \<and> sh_RunID (asg_Shard a) = ''run-2'' \<and> run_Status (asg_Run a) = ''running'' \<and>
    st_shards s = fmupd ''shard-3'' (asg_Shard a) fmempty \<and>
    fmlookup (st_runs s) ''run-2'' = Some (small_run\<lparr>run_Status := ''running'', run_StartedUnix := 7\<rparr>)"
  by (simp add: ClaimRun_def entries_def small_store_eq Let_def new_run_def small_config_def zero_RunConfig_def
      zero_Run_def NewMemoryStore_def)

lemma small_claim_exec: "\<exists>a s. store_exec NewMemoryStore [a] s \<and> sh_ID (asg_Shard a) = ''shard-3'' \<and>
    sh_RunID (asg_Shard a) = ''run-2'' \<and> st_shards s = fmupd ''shard-3'' (asg_Shard a) fmempty \<and>
    fmlookup (st_runs s) ''run-2'' = Some (small_run\<lparr>run_Status := ''running'', run_StartedUnix := 7\<rparr>)"
proof -
  obtain a s where c: "ClaimRun [''shard-3''] 7 small_store = (Some a, s)" "sh_ID (asg_Shard a) = ''shard-3''"
    "sh_RunID (asg_Shard a) = ''run-2''" "st_shards s = fmupd ''shard-3'' (asg_Shard a) fmempty"
    "fmlookup (st_runs s) ''run-2'' = Some (small_run\<lparr>run_Status := ''running'', run_StartedUnix := 7\<rparr>)"
    using small_claim by blast
  have "iter_order [''shard-3''] (st_shards small_store)" by (simp add: iter_order_def small_store_eq)
  from exec_step [OF small_exec ClaimRun_step [OF this c(1)]] c(2-5) show ?thesis by auto
qed

theorem shard_assigned_at_most_once_witness:
  "\<exists>a s. store_exec NewMemoryStore [a] s \<and> distinct (map (\<lambda>a. sh_ID (asg_Shard a)) [a])"
  using small_claim_exec shard_assigned_at_most_once by blast

lemma share_load:
  assumes "rc_Mode (run_Config r) = LoadModeVU \<or> rc_Mode (run_Config r) = LoadModeRPS"
    "run_Config q = shard_config r h"
  shows "run_load q = split_load (run_load r) (shard_count (run_Config r)) (sh_Index h)"
  using assms(1)
proof
  assume "rc_Mode (run_Config r) = LoadModeVU"
  then show ?thesis by (simp add: run_load_def assms(2) shard_config_def shard_count_def)
next
  assume "rc_Mode (run_Config r) = LoadModeRPS"
  then show ?thesis by (simp add: run_load_def assms(2) shard_config_def shard_count_def)
qed

text \<open>C4. The number of virtual users, or the rate, of a run is neither lost nor
  exceeded by splitting it: once all its shards have been handed out, the numbers the assignments carry
  add up to that of the run, no two of them differ by more than one, and when the run has at least one
  per shard, each assignment has at least one. Only this number is split: the load stages and the trace
  of the run are passed whole to every shard (so a staged run of several shards applies a multiple of
  its stages, which is among the findings), and what the agent makes of a share of zero is not part of
  the statement.\<close>

theorem assigned_loads_add_up:
  assumes "store_exec NewMemoryStore as s" "fmlookup (st_runs s) R = Some r"
    and "rc_Mode (run_Config r) = LoadModeVU \<or> rc_Mode (run_Config r) = LoadModeRPS" "0 \<le> run_load r"
    and "\<forall>k \<in> shards_of s R. \<exists>a \<in> set as. sh_ID (asg_Shard a) = k"
  shows "(\<Sum>a\<leftarrow>filter (\<lambda>a. sh_RunID (asg_Shard a) = R) as. run_load (asg_Run a)) = run_load r \<and>
    (\<forall>a \<in> set as. \<forall>b \<in> set as. sh_RunID (asg_Shard a) = R \<longrightarrow> sh_RunID (asg_Shard b) = R \<longrightarrow>
       run_load (asg_Run a) \<le> run_load (asg_Run b) + 1) \<and>
    (\<forall>a \<in> set as. sh_RunID (asg_Shard a) = R \<longrightarrow>
       rc_Stages (run_Config (asg_Run a)) = rc_Stages (run_Config r) \<and>
       rc_Trace (run_Config (asg_Run a)) = rc_Trace (run_Config r) \<and>
       (shard_count (run_Config r) \<le> run_load r \<longrightarrow> 1 \<le> run_load (asg_Run a)))"
proof -
  let ?F = "filter (\<lambda>a. sh_RunID (asg_Shard a) = R) as" and ?c = "shard_count (run_Config r)"
  let ?id = "\<lambda>a. sh_ID (asg_Shard a)" and ?share = "\<lambda>i. split_load (run_load r) (shard_count (run_Config r)) i"
  have wf: "wf_store s" using store_exec_ok [OF assms(1) wf_empty] by simp
  note H = exec_handed_out [OF assms(1) wf_empty]
  have c: "1 \<le> ?c" by (rule shard_count_pos)
  have load: "run_load (asg_Run a) = ?share (shard_index s (?id a)) \<and> ?id a \<in> shards_of s R \<and>
      rc_Stages (run_Config (asg_Run a)) = rc_Stages (run_Config r) \<and>
      rc_Trace (run_Config (asg_Run a)) = rc_Trace (run_Config r)"
    if "a \<in> set as" "sh_RunID (asg_Shard a) = R" for a
  proof -
    have "handed_out s a" using H that(1) by simp
    then obtain h r' where h: "fmlookup (st_shards s) (?id a) = Some h" "sh_RunID (asg_Shard a) = sh_RunID h"
        "sh_Index (asg_Shard a) = sh_Index h" "fmlookup (st_runs s) (sh_RunID h) = Some r'"
        "run_Config (asg_Run a) = shard_config r' (asg_Shard a)"
      unfolding handed_out_def by blast
    then have r': "r' = r" using that(2) assms(2) by simp
    have "run_load (asg_Run a) = ?share (sh_Index (asg_Shard a))"
      by (rule share_load [OF assms(3)]) (simp add: h(5) r')
    moreover have "?id a \<in> shards_of s R" using h(1,2) that(2) by (simp add: shards_of_def)
    moreover have "rc_Stages (run_Config (asg_Run a)) = rc_Stages (run_Config r)"
      "rc_Trace (run_Config (asg_Run a)) = rc_Trace (run_Config r)"
      by (simp_all add: h(5) r' shard_config_def Let_def)
    ultimately show ?thesis using h(1,3) by (simp add: shard_index_def)
  qed
  have ids: "set (map ?id ?F) = shards_of s R"
  proof
    show "set (map ?id ?F) \<subseteq> shards_of s R" using load by auto
    show "shards_of s R \<subseteq> set (map ?id ?F)"
    proof
      fix k
      assume k: "k \<in> shards_of s R"
      with assms(5) obtain a where a: "a \<in> set as" "?id a = k" by blast
      have "handed_out s a" using H a(1) by blast
      then have "sh_RunID (asg_Shard a) = R" using k a(2) by (auto simp: handed_out_def shards_of_def)
      then show "k \<in> set (map ?id ?F)" using a by auto
    qed
  qed
  have "distinct (map ?id ?F)" using H by (simp add: distinct_map_filter)
  moreover have "map (\<lambda>a. run_load (asg_Run a)) ?F = map (\<lambda>k. ?share (shard_index s k)) (map ?id ?F)"
    unfolding map_map comp_def using load by (intro map_cong) simp_all
  then have "(\<Sum>a\<leftarrow>?F. run_load (asg_Run a)) = (\<Sum>k\<leftarrow>map ?id ?F. ?share (shard_index s k))"
    by (rule arg_cong [where f = sum_list])
  ultimately have "(\<Sum>a\<leftarrow>?F. run_load (asg_Run a)) = (\<Sum>k \<in> shards_of s R. ?share (shard_index s k))"
    using sum_list_distinct_conv_sum_set [of "map ?id ?F" "\<lambda>k. ?share (shard_index s k)"] ids by simp
  also have "\<dots> = (\<Sum>i \<in> {0..<?c}. ?share i)"
    using wf assms(2) by (intro sum.reindex_bij_betw) (simp add: wf_store_def wf_indices_def)
  also have "\<dots> = (\<Sum>i<nat ?c. ?share (int i))"
    using c by (intro sum.reindex_bij_witness [of _ int nat]) auto
  also have "\<dots> = run_load r" using split_load_total [OF assms(4), of ?c] c by simp
  finally have "(\<Sum>a\<leftarrow>?F. run_load (asg_Run a)) = run_load r" .
  moreover have "?share i \<le> ?share j + 1" for i j
    using split_load_range(1) [OF assms(4), of ?c j] split_load_range(2) [OF assms(4), of ?c i] c by linarith
  moreover have "1 \<le> ?share i" if "?c \<le> run_load r" for i
  proof -
    have "1 \<le> run_load r div ?c" using that c by (simp add: pos_imp_zdiv_pos_iff zdiv_mono1 [of ?c "run_load r" ?c, simplified] less_le_trans)
    then show ?thesis using split_load_range(1) [OF assms(4), of ?c i] c by linarith
  qed
  ultimately show ?thesis using load by auto
qed

theorem assigned_loads_add_up_witness:
  "\<exists>a s. store_exec NewMemoryStore [a] s \<and> run_load (asg_Run a) = 5"
proof -
  obtain a s where e: "store_exec NewMemoryStore [a] s" "sh_ID (asg_Shard a) = ''shard-3''"
    "sh_RunID (asg_Shard a) = ''run-2''" "st_shards s = fmupd ''shard-3'' (asg_Shard a) fmempty"
    "fmlookup (st_runs s) ''run-2'' = Some (small_run\<lparr>run_Status := ''running'', run_StartedUnix := 7\<rparr>)"
    using small_claim_exec by blast
  let ?r = "small_run\<lparr>run_Status := ''running'', run_StartedUnix := 7\<rparr>"
  have r: "rc_Mode (run_Config ?r) = LoadModeVU" "run_load ?r = 5"
    by (simp_all add: run_load_def new_run_def small_config_def zero_RunConfig_def)
  have "\<forall>k \<in> shards_of s ''run-2''. \<exists>b \<in> set [a]. sh_ID (asg_Shard b) = k"
    using e(2,4) by (auto simp: shards_of_def split: if_splits)
  from assigned_loads_add_up [OF e(1,5) _ _ this] have "run_load (asg_Run a) = 5"
    using r e(3) by simp
  with e(1) show ?thesis by blast
qed

end
