(* ===== verification/Agent_Samples.thy ===== *)
theory Agent_Samples
  imports Core_Stats
begin

text \<open>
  The bounded sample sets of the agent (\<open>internal/agent/runner.go\<close>: \<open>sampleSet\<close>). A set keeps
  every value until it is full, then every second one, every fourth one, and so on. The lemmas show
  that what it keeps is exactly every \<open>stride\<close>-th value it was given, so a percentile computed from
  it is one of an evenly spread subset of the run.
\<close>

definition maxSamplesPerMetric :: int where
  "maxSamplesPerMetric = 100000"

record sampleSet =
  ss_values :: "int list"
  ss_stride :: int
  ss_seen :: int
  ss_decimated :: bool

definition zero_sampleSet :: sampleSet where
  "zero_sampleSet = \<lparr>ss_values = [], ss_stride = 0, ss_seen = 0, ss_decimated = False\<rparr>"

text \<open>\<open>for i := 1; i < len(s.values); i += 2 { kept = append(kept, s.values[i]) }\<close>\<close>

fun every_other :: "'a list \<Rightarrow> 'a list" where
  "every_other (_ # y # ys) = y # every_other ys"
| "every_other _ = []"

definition sample_add :: "int \<Rightarrow> sampleSet \<Rightarrow> sampleSet" where
  "sample_add value s =
     (let s = (if ss_stride s = 0 then s\<lparr>ss_stride := 1\<rparr> else s);
          s = s\<lparr>ss_seen := i64 (ss_seen s + 1)\<rparr>
      in if rem (ss_seen s) (ss_stride s) \<noteq> 0 then s
         else
           let s = s\<lparr>ss_values := ss_values s @ [value]\<rparr>
           in if int (length (ss_values s)) \<ge> maxSamplesPerMetric
              then s\<lparr>ss_values := every_other (ss_values s), ss_stride := i64 (ss_stride s * 2),
                     ss_decimated := True\<rparr>
              else s)"

definition sample_addAll :: "int list \<Rightarrow> sampleSet \<Rightarrow> sampleSet" where
  "sample_addAll values s = foldl (\<lambda>s value. sample_add value s) s values"

definition sample_len :: "sampleSet \<Rightarrow> nat" where
  "sample_len s = length (ss_values s)"

subsection \<open>Every \<open>k\<close>-th element of a list\<close>

definition every :: "nat \<Rightarrow> 'a list \<Rightarrow> 'a list" where
  "every k xs = map (\<lambda>i. xs ! (Suc i * k - 1)) [0..<length xs div k]"

lemma length_every [simp]: "length (every k xs) = length xs div k"
  by (simp add: every_def)

lemma nth_every [simp]: "i < length xs div k \<Longrightarrow> every k xs ! i = xs ! (Suc i * k - 1)"
  by (simp add: every_def)

lemma every_1 [simp]: "every (Suc 0) xs = xs"
  by (rule nth_equalityI) auto

lemma every_index: "0 < k \<Longrightarrow> i < n div k \<Longrightarrow> Suc i * k - 1 < (n :: nat)"
proof -
  assume a: "0 < k" "i < n div k"
  then have "Suc i * k \<le> n div k * k" by (intro mult_right_mono) auto
  also have "\<dots> \<le> n" by (rule div_times_less_eq_dividend)
  finally show ?thesis using a(1) by (metis One_nat_def Suc_diff_1 less_eq_Suc_le mult_pos_pos zero_less_Suc)
qed

lemma every_snoc:
  assumes "0 < k"
  shows "every k (xs @ [x]) = every k xs @ (if k dvd Suc (length xs) then [x] else [])"
proof (cases "k dvd Suc (length xs)")
  case True
  have d: "Suc (length xs) div k = Suc (length xs div k)"
    using True by (simp add: div_Suc)
  have e: "Suc (length xs div k) * k = Suc (length xs)"
    using True by (metis d dvd_div_mult_self)
  show ?thesis
  proof (rule nth_equalityI)
    fix i assume "i < length (every k (xs @ [x]))"
    then consider "i < length xs div k" | "i = length xs div k" using d by fastforce
    then show "every k (xs @ [x]) ! i = (every k xs @ (if k dvd Suc (length xs) then [x] else [])) ! i"
    proof cases
      case 1
      with every_index [OF assms 1] True d show ?thesis by (simp add: nth_append)
    next
      case 2
      then have "Suc i * k - 1 = length xs" using e by simp
      then show ?thesis using True d 2 by (simp add: nth_append)
    qed
  qed (use True d in simp)
next
  case False
  have d: "Suc (length xs) div k = length xs div k"
    using False assms by (metis div_Suc dvd_eq_mod_eq_0)
  show ?thesis
  proof (rule nth_equalityI)
    fix i assume "i < length (every k (xs @ [x]))"
    then have "i < length xs div k" using d by simp
    with every_index [OF assms this] False d
    show "every k (xs @ [x]) ! i = (every k xs @ (if k dvd Suc (length xs) then [x] else [])) ! i"
      by (simp add: nth_append)
  qed (use False d in simp)
qed

lemma length_every_other [simp]: "length (every_other xs) = length xs div 2"
  by (induction xs rule: every_other.induct) auto

lemma nth_every_other: "i < length xs div 2 \<Longrightarrow> every_other xs ! i = xs ! Suc (2 * i)"
  by (induction xs arbitrary: i rule: every_other.induct) (auto simp: nth_Cons split: nat.split)

lemma every_other_every: "every_other (every k xs) = every (2 * k) xs"
proof (rule nth_equalityI)
  show l: "length (every_other (every k xs)) = length (every (2 * k) xs)"
    by (simp add: div_mult2_eq mult.commute)
  fix i assume i: "i < length (every_other (every k xs))"
  then have "i < length xs div (2 * k)" using l by simp
  moreover from i have "i < length xs div k div 2" by simp
  then have "Suc (2 * i) < length xs div k" by linarith
  ultimately show "every_other (every k xs) ! i = every (2 * k) xs ! i"
    using i by (simp add: nth_every_other algebra_simps)
qed

subsection \<open>What a sample set keeps\<close>

definition samples_of :: "int list \<Rightarrow> nat \<Rightarrow> sampleSet \<Rightarrow> bool" where
  "samples_of xs j s \<longleftrightarrow>
     ss_stride s = 2 ^ j \<and> ss_values s = every (2 ^ j) xs \<and> ss_seen s = int (length xs) \<and>
     (ss_decimated s \<longleftrightarrow> 0 < j) \<and> int (length (ss_values s)) < maxSamplesPerMetric \<and>
     (0 < j \<longrightarrow> maxSamplesPerMetric * 2 ^ (j - 1) \<le> int (length xs))"

lemma samples_of_start: "samples_of [] 0 (zero_sampleSet\<lparr>ss_stride := 1\<rparr>)"
  by (simp add: samples_of_def zero_sampleSet_def maxSamplesPerMetric_def every_def)

lemma sample_add_step:
  assumes s: "samples_of xs j s" and l: "length xs < 2 ^ 62"
  shows "\<exists>j'. samples_of (xs @ [x]) j' (sample_add x s)"
proof -
  let ?n = "int (Suc (length xs))" and ?k = "2 ^ j :: nat"
  have seen: "i64 (ss_seen s + 1) = ?n"
    using s l by (subst i64_id) (auto simp: samples_of_def in64_def)
  have r: "rem ?n (ss_stride s) = 0 \<longleftrightarrow> ?k dvd Suc (length xs)"
  proof -
    have "rem ?n (2 ^ j) = ?n mod int ?k" by (subst rem_nonneg_eq) simp_all
    then have "rem ?n (2 ^ j) = 0 \<longleftrightarrow> int ?k dvd ?n" by (simp only: dvd_eq_mod_eq_0)
    then show ?thesis using s by (simp only: samples_of_def of_nat_dvd_iff)
  qed
  have stride: "ss_stride s \<noteq> 0" using s by (simp add: samples_of_def)
  have grow: "0 < j \<Longrightarrow> maxSamplesPerMetric * 2 ^ (j - 1) \<le> ?n"
    using s by (auto simp: samples_of_def)
  show ?thesis
  proof (cases "?k dvd Suc (length xs)")
    case False
    then have "sample_add x s = s\<lparr>ss_seen := ?n\<rparr>"
      using r stride by (simp add: sample_add_def seen)
    then show ?thesis
      using s False grow by (intro exI [of _ j]) (auto simp: samples_of_def every_snoc)
  next
    case True
    note ev = every_snoc [of ?k xs x, simplified, unfolded if_P [OF True]]
    show ?thesis
    proof (cases "int (length (ss_values s)) + 1 \<ge> maxSamplesPerMetric")
      case False
      then have "sample_add x s = s\<lparr>ss_seen := ?n, ss_values := ss_values s @ [x]\<rparr>"
        using r True stride by (simp add: sample_add_def seen)
      then show ?thesis
        using s False grow ev by (intro exI [of _ j]) (auto simp: samples_of_def)
    next
      case full: True
      have len: "Suc (length xs) div ?k = 100000"
      proof -
        have "length (every ?k (xs @ [x])) = Suc (length (ss_values s))"
          using ev s by (simp add: samples_of_def)
        moreover have "length (ss_values s) = 99999"
          using full s by (auto simp: samples_of_def maxSamplesPerMetric_def)
        ultimately show ?thesis by simp
      qed
      have n: "Suc (length xs) = 100000 * ?k"
        using True len by (metis dvd_div_mult_self)
      have j: "(2::int) ^ j < 2 ^ 62"
      proof -
        have "?k \<le> Suc (length xs)" by (simp add: n)
        then have "?k < 2 ^ 62" using l n by linarith
        then show ?thesis by (metis of_nat_less_iff of_nat_numeral of_nat_power)
      qed
      then have wrap: "i64 (ss_stride s * 2) = 2 ^ Suc j"
      proof -
        define p where "p = (2::int) ^ j"
        have "0 \<le> p" "p < 2 ^ 62" using j by (simp_all add: p_def)
        then have "in64 (p * 2)" by (simp add: in64_def)
        then show ?thesis using s by (simp add: samples_of_def i64_id p_def)
      qed
      have eq: "sample_add x s = s\<lparr>ss_seen := ?n, ss_values := every_other (ss_values s @ [x]),
          ss_stride := 2 ^ Suc j, ss_decimated := True\<rparr>"
        using r True stride full wrap by (simp add: sample_add_def seen)
      have vals: "every_other (ss_values s @ [x]) = every (2 ^ Suc j) (xs @ [x])"
        using s ev every_other_every [of ?k "xs @ [x]"] by (simp add: samples_of_def)
      have "length (every (2 ^ Suc j) (xs @ [x])) = 50000"
        using len by (simp add: div_mult2_eq mult.commute [of 2])
      moreover have "?n = 100000 * 2 ^ j" using n by (metis of_nat_mult of_nat_numeral of_nat_power)
      ultimately have "samples_of (xs @ [x]) (Suc j) (sample_add x s)"
        unfolding eq samples_of_def by (simp add: vals maxSamplesPerMetric_def)
      then show ?thesis ..
    qed
  qed
qed

lemma sample_add_start: "sample_add x zero_sampleSet = sample_add x (zero_sampleSet\<lparr>ss_stride := 1\<rparr>)"
  by (simp add: sample_add_def zero_sampleSet_def)

lemma sample_addAll_snoc [simp]: "sample_addAll (xs @ [x]) s = sample_add x (sample_addAll xs s)"
  by (simp add: sample_addAll_def)

lemma sample_addAll_Nil [simp]: "sample_addAll [] s = s"
  by (simp add: sample_addAll_def)

lemma sample_addAll_append: "sample_addAll (xs @ ys) s = sample_addAll ys (sample_addAll xs s)"
  by (simp add: sample_addAll_def)

lemma sample_addAll_kept:
  "xs \<noteq> [] \<Longrightarrow> length xs \<le> 2 ^ 62 \<Longrightarrow> \<exists>j. samples_of xs j (sample_addAll xs zero_sampleSet)"
proof (induction xs rule: rev_induct)
  case (snoc x xs)
  have l: "length xs < 2 ^ 62" using snoc.prems(2) by simp
  show ?case
  proof (cases "xs = []")
    case True
    then show ?thesis
      using sample_add_step [OF samples_of_start, of x]
      by (simp add: sample_add_start sample_addAll_def)
  next
    case False
    then obtain j where "samples_of xs j (sample_addAll xs zero_sampleSet)"
      using snoc.IH l by auto
    from sample_add_step [OF this l, of x] show ?thesis by simp
  qed
qed simp

lemma samples_of_half:
  assumes s: "samples_of xs j s" and j: "0 < j"
  shows "50000 \<le> length (ss_values s)" "100000 \<le> length xs"
proof -
  obtain i where i: "j = Suc i" using j by (cases j) auto
  have "100000 * 2 ^ i \<le> int (length xs)"
    using s j by (simp add: samples_of_def maxSamplesPerMetric_def i)
  then have n: "100000 * 2 ^ i \<le> length xs"
    by (metis of_nat_le_iff of_nat_mult of_nat_numeral of_nat_power)
  have "50000 * 2 ^ j \<le> length xs" using n by (simp add: i)
  then have "50000 \<le> length xs div 2 ^ j"
    by (metis div_le_mono div_mult_self_is_m zero_less_numeral zero_less_power)
  then show "50000 \<le> length (ss_values s)" using s by (simp add: samples_of_def)
  have "100000 * 1 \<le> 100000 * (2::nat) ^ i" by (intro mult_left_mono) auto
  then show "100000 \<le> length xs" using n by linarith
qed

lemma evenly_spaced:
  assumes "length xs \<le> 2 ^ 62"
  shows "\<exists>j. ss_values (sample_addAll xs zero_sampleSet) = every (2 ^ j) xs \<and>
    int (sample_len (sample_addAll xs zero_sampleSet)) < maxSamplesPerMetric \<and>
    (ss_decimated (sample_addAll xs zero_sampleSet) \<longleftrightarrow> 0 < j) \<and>
    (0 < j \<longrightarrow> maxSamplesPerMetric \<le> 2 * int (sample_len (sample_addAll xs zero_sampleSet))) \<and>
    (int (length xs) < maxSamplesPerMetric \<longrightarrow> ss_values (sample_addAll xs zero_sampleSet) = xs)"
proof (cases "xs = []")
  case True
  then show ?thesis
    by (intro exI [of _ 0]) (simp add: zero_sampleSet_def sample_len_def maxSamplesPerMetric_def)
next
  case False
  then obtain j where s: "samples_of xs j (sample_addAll xs zero_sampleSet)"
    using sample_addAll_kept [OF False assms] by blast
  have "0 < j \<Longrightarrow> 50000 \<le> sample_len (sample_addAll xs zero_sampleSet) \<and> 100000 \<le> length xs"
    using samples_of_half [OF s] by (simp add: sample_len_def)
  moreover have "int (length xs) < maxSamplesPerMetric \<longrightarrow> j = 0"
    using samples_of_half(2) [OF s] unfolding maxSamplesPerMetric_def by linarith
  ultimately show ?thesis
    using s by (intro exI [of _ j]) (auto simp: samples_of_def sample_len_def maxSamplesPerMetric_def)
qed

subsection \<open>Property\<close>

text \<open>C13. However many values a sample set is given, it keeps fewer than
  \<open>maxSamplesPerMetric\<close> of them, and they are exactly every \<open>2 ^ j\<close>-th value in the order given: all
  of them while there are fewer than the maximum, and never fewer than half the maximum once values
  were dropped, which is also exactly when the set is marked as decimated.\<close>

theorem samples_are_evenly_spaced:
  assumes "length xs \<le> 2 ^ 62"
  shows "\<exists>j. ss_values (sample_addAll xs zero_sampleSet) = every (2 ^ j) xs \<and>
    int (sample_len (sample_addAll xs zero_sampleSet)) < maxSamplesPerMetric \<and>
    (ss_decimated (sample_addAll xs zero_sampleSet) \<longleftrightarrow> 0 < j) \<and>
    (0 < j \<longrightarrow> maxSamplesPerMetric \<le> 2 * int (sample_len (sample_addAll xs zero_sampleSet))) \<and>
    (int (length xs) < maxSamplesPerMetric \<longrightarrow> ss_values (sample_addAll xs zero_sampleSet) = xs)"
  by (rule evenly_spaced [OF assms])

theorem samples_are_evenly_spaced_witness:
  "ss_values (sample_addAll [40, 10, 30] zero_sampleSet) = [40, 10, 30]"
  using samples_are_evenly_spaced [of "[40, 10, 30]"]
  by (auto simp: maxSamplesPerMetric_def)

end
