(* ===== verification/Go_Time.thy ===== *)
theory Go_Time
  imports Go_Float
begin

text \<open>
  Instants and durations. A \<open>time.Duration\<close> is a signed 64-bit number of nanoseconds. An instant
  is its monotonic reading in nanoseconds; a function that reads the clock takes the reading as an
  argument \<open>now\<close>. \<open>time.Time.Sub\<close> saturates instead of wrapping.
\<close>

definition Millisecond :: int where "Millisecond = 1000000"
definition Second :: int where "Second = 1000000000"

definition sat64 :: "int \<Rightarrow> int" where
  "sat64 x = max (- (2 ^ 63)) (min x (2 ^ 63 - 1))"

definition time_Sub :: "int \<Rightarrow> int \<Rightarrow> int" where
  "time_Sub t u = sat64 (t - u)"

definition Milliseconds :: "int \<Rightarrow> int" where
  "Milliseconds d = quot d Millisecond"

text \<open>\<open>Duration.Seconds\<close> adds the whole seconds and the rest as floats.\<close>

definition Seconds :: "int \<Rightarrow> float64" where
  "Seconds d = fadd (f_of_int (quot d Second)) (fdiv (f_of_int (rem d Second)) (f_of_int Second))"

text \<open>\<open>int64(x)\<close> truncates; outside of the range the result is \<open>- 2 ^ 63\<close> on amd64.\<close>

definition int64_of :: "float64 \<Rightarrow> int" where
  "int64_of x = (case x of
     Fin r \<Rightarrow> (let n = (if 0 \<le> r then \<lfloor>r\<rfloor> else \<lceil>r\<rceil>) in if in64 n then n else - (2 ^ 63))
   | _ \<Rightarrow> - (2 ^ 63))"

subsection \<open>Lemmas\<close>

lemma sat64_id: "in64 x \<Longrightarrow> sat64 x = x"
  by (simp add: sat64_def in64_def)

lemma time_Sub_self [simp]: "time_Sub t t = 0"
  by (simp add: time_Sub_def sat64_def)

lemma time_Sub_nonneg: "u \<le> t \<Longrightarrow> 0 \<le> time_Sub t u"
  by (simp add: time_Sub_def sat64_def)

lemma Milliseconds_nonneg: "0 \<le> d \<Longrightarrow> 0 \<le> Milliseconds d"
  by (simp add: Milliseconds_def Millisecond_def quot_nonneg_eq)

lemma Milliseconds_eq: "0 \<le> d \<Longrightarrow> Milliseconds d = d div 1000000"
  by (simp add: Milliseconds_def Millisecond_def quot_nonneg_eq)

lemma int64_of_Fin:
  "0 \<le> r \<Longrightarrow> r < 2 ^ 63 \<Longrightarrow> int64_of (Fin r) = \<lfloor>r\<rfloor>"
  by (simp add: int64_of_def in64_def floor_less_iff)

lemma int64_of_range:
  assumes "0 \<le> r" "r \<le> of_int n" "n < 2 ^ 63"
  shows "0 \<le> int64_of (Fin r)" "int64_of (Fin r) \<le> n"
proof -
  have "r < 2 ^ 63"
    using assms(2,3) by (metis (mono_tags) le_less_trans of_int_less_iff of_int_numeral of_int_power)
  then have e: "int64_of (Fin r) = \<lfloor>r\<rfloor>" using assms(1) by (rule int64_of_Fin [rotated])
  show "0 \<le> int64_of (Fin r)" unfolding e using assms(1) by simp
  show "int64_of (Fin r) \<le> n" unfolding e using assms(2) by (simp add: floor_le_iff)
qed

lemma mk_float_between:
  assumes "mk_float a = Fin a" "mk_float b = Fin b" "a \<le> x" "x \<le> b"
  shows "\<exists>q. mk_float x = Fin q \<and> a \<le> q \<and> q \<le> b"
  using mk_float_mono [OF assms(3)] mk_float_mono [OF assms(4)] assms(1,2)
  by (cases "mk_float x") (auto simp: fle_def)

text \<open>For about 48 days, truncating the float loses no second.\<close>

lemma int64_Seconds:
  assumes "0 \<le> d" "d \<le> 2 ^ 22 * Second"
  shows "int64_of (Seconds d) = d div Second"
proof -
  define s where "s = d div Second"
  define n where "n = d mod Second"
  have s: "0 \<le> s" "s \<le> 2 ^ 22" and n: "0 \<le> n" "n < Second"
    using assms by (simp_all add: s_def n_def Second_def)
  have q: "quot d Second = s" "rem d Second = n"
    using assms(1) by (simp_all add: s_def n_def quot_nonneg_eq rem_nonneg_eq Second_def)
  let ?top = "of_int (2 ^ 30 - 1) / 2 ^ 30 :: rat"
  have "of_int n / of_int Second \<le> ?top"
    using n(2) by (simp add: Second_def field_simps flip: of_int_le_iff [where 'a = rat])
  then obtain x where x: "mk_float (of_int n / of_int Second) = Fin x" "0 \<le> x" "x \<le> ?top"
    using mk_float_between [of 0 ?top "of_int n / of_int Second"] n(1)
      mk_float_of_int [of 0] mk_float_dyadic [of "2 ^ 30 - 1" 30]
    by (auto simp: Second_def)
  let ?hi = "of_int (s * 2 ^ 30 + (2 ^ 30 - 1)) / 2 ^ 30 :: rat"
  have hi: "?hi = of_int s + ?top" by (simp add: field_simps)
  have "mk_float ?hi = Fin ?hi"
    using s by (intro mk_float_dyadic) auto
  moreover have "mk_float (of_int s) = Fin (of_int s)"
    using s by (intro mk_float_of_int) auto
  ultimately obtain y where y: "mk_float (of_int s + x) = Fin y" "of_int s \<le> y" "y \<le> ?hi"
    using mk_float_between [of "of_int s" ?hi "of_int s + x"] x(2,3) hi by auto
  have e: "Seconds d = Fin y"
    using s n x(1) y(1) unfolding Seconds_def q by (simp add: f_of_int_exact Second_def)
  have "y < of_int s + 1" using y(3) unfolding hi by simp
  then have "\<lfloor>y\<rfloor> = s" using y(2) by (intro floor_unique) auto
  moreover have "0 \<le> y" using y(2) s(1) by (metis of_int_0_le_iff order_trans)
  moreover have "y < 2 ^ 63"
  proof -
    have "rat_of_int s \<le> of_int (2 ^ 22)" using s(2) by (subst of_int_le_iff)
    then have "rat_of_int s \<le> 4194304" by simp
    with \<open>y < of_int s + 1\<close> show ?thesis by simp
  qed
  ultimately show ?thesis unfolding e by (subst int64_of_Fin) (auto simp: s_def)
qed

end
