(* ===== verification/Agent_Workload.thy ===== *)
theory Agent_Workload
  imports Core_Types Go_Time "HOL-Library.Word" "HOL-Library.Multiset"
begin

unbundle bit_operations_syntax

text \<open>
  What a request of the agent looks like and when it is sent (\<open>internal/agent/runner.go\<close>):
  arrival schedules, the deterministic jitter, the cache-bypass nonce, backoff, prompt padding, the
  conversation a session carries, and the weighted choice of tasks and journeys. FNV-1a
  (\<open>hash/fnv\<close>) is written out on 32 and 64-bit words. The natural logarithm and the random source
  of the backoff are arguments.
\<close>

definition load :: "RunConfig \<Rightarrow> int" where
  "load config = (if rc_Mode config = LoadModeRPS then rc_RPS config else rc_VUs config)"

subsection \<open>FNV-1a\<close>

definition fnv32a :: "string \<Rightarrow> 32 word" where
  "fnv32a = foldl (\<lambda>h c. (h XOR of_nat (of_char c)) * 16777619) 2166136261"

definition fnv64a :: "string \<Rightarrow> 64 word" where
  "fnv64a = foldl (\<lambda>h c. (h XOR of_nat (of_char c)) * 1099511628211) 14695981039346656037"

subsection \<open>Arrivals\<close>

record arrivalSchedule =
  ar_pattern :: string
  ar_interval :: int
  ar_sequence :: int

definition newArrivalSchedule :: "string \<Rightarrow> int \<Rightarrow> arrivalSchedule" where
  "newArrivalSchedule pattern ratePerSecond =
     (let ratePerSecond = (if ratePerSecond < 1 then 1 else ratePerSecond)
      in \<lparr>ar_pattern = pattern, ar_interval = quot Second ratePerSecond, ar_sequence = 0\<rparr>)"

definition uniform_draw :: "int \<Rightarrow> float64" where
  "uniform_draw sequence =
     fdiv (f_of_int (uint (fnv64a (''arrival#'' @ dec_int sequence) mod 2 ^ 52 + 1))) (f_of_int (2 ^ 52))"

definition next_arrival :: "(float64 \<Rightarrow> float64) \<Rightarrow> arrivalSchedule \<Rightarrow> int \<times> arrivalSchedule" where
  "next_arrival Log s =
     (if ar_pattern s \<noteq> ArrivalPoisson then (ar_interval s, s)
      else
        let s = s\<lparr>ar_sequence := i64 (ar_sequence s + 1)\<rparr>;
            gap = fmul (fneg (Log (uniform_draw (ar_sequence s)))) (f_of_int (ar_interval s));
            limit = fmul (f_of_int (ar_interval s)) (f_of_int 8);
            gap = (if fless limit gap then limit else gap)
        in (int64_of gap, s))"

subsection \<open>Jitter and the nonce\<close>

definition jitter :: "string \<Rightarrow> int \<Rightarrow> int \<Rightarrow> int" where
  "jitter seed sequence stdev =
     (if stdev \<le> 0 then 0
      else let span = i64 (2 * stdev + 1)
           in i64 (uint (fnv32a (seed @ ''#'' @ dec_int sequence) mod of_int span) - stdev))"

definition hex_char :: "nat \<Rightarrow> char" where
  "hex_char d = char_of (if d < 10 then 48 + d else 87 + d)"

text \<open>\<open>%08x\<close>\<close>

definition hex8 :: "32 word \<Rightarrow> string" where
  "hex8 w = map (\<lambda>i. hex_char (unat w div 16 ^ i mod 16)) [7, 6, 5, 4, 3, 2, 1, 0]"

definition variationPrefix :: "string \<Rightarrow> int \<Rightarrow> string" where
  "variationPrefix workloadID sequence =
     (let name = workloadID @ ''#'' @ dec_int sequence
      in ''[LO-'' @ hex8 (fnv32a name) @ '' '' @ name @ '']'' @ [CHR 0x0A, CHR 0x0A])"

subsection \<open>Backoff\<close>

definition circuitBreakerThreshold :: int where "circuitBreakerThreshold = 3"
definition baseBackoff :: int where "baseBackoff = 500 * Millisecond"
definition maxBackoff :: int where "maxBackoff = 30 * Second"

text \<open>A negative shift is converted to a huge unsigned one, which shifts everything out.\<close>

definition backoff_ceiling :: "int \<Rightarrow> int" where
  "backoff_ceiling consecutiveFailures =
     (let shift = i64 (consecutiveFailures - circuitBreakerThreshold);
          shift = (if shift > 6 then 6 else shift);
          delay = (if shift < 0 then 0 else i64 (baseBackoff * 2 ^ nat shift))
      in if delay > maxBackoff then maxBackoff else delay)"

definition backoffDelay :: "(int \<Rightarrow> int) \<Rightarrow> int \<Rightarrow> int" where
  "backoffDelay Int63n consecutiveFailures =
     (let delay = backoff_ceiling consecutiveFailures
      in i64 (quot delay 2 + Int63n (i64 (quot delay 2 + 1))))"

subsection \<open>Prompts and conversations\<close>

record chatMessage =
  msg_Role :: string
  msg_Content :: string

definition maxAnswerChars :: int where "maxAnswerChars = 200000"
definition charsPerToken :: int where "charsPerToken = 4"

definition filler_sentence :: string where
  "filler_sentence = ''context filler sentence for input length shaping. ''"

function pad_loop :: "int \<Rightarrow> string \<Rightarrow> string" where
  "pad_loop chars builder =
     (if int (length builder) < chars then pad_loop chars (builder @ filler_sentence) else builder)"
  by pat_completeness auto
termination
  by (relation "measure (\<lambda>(chars, builder). nat (chars - int (length builder)))")
    (auto simp: filler_sentence_def)

declare pad_loop.simps [simp del]

text \<open>Growing a builder and slicing a string by a negative amount panic: the result is \<open>None\<close>.\<close>

definition promptFiller :: "int \<Rightarrow> int \<Rightarrow> string option" where
  "promptFiller sequence tokens =
     (let chars = i64 (tokens * charsPerToken)
      in if i64 (chars + 16) < 0 \<or> chars < 0 then None
         else Some (take (nat chars) (pad_loop chars (''[pad-'' @ dec_int sequence @ ''] ''))))"

fun trim_loop :: "int \<Rightarrow> chatMessage list \<Rightarrow> chatMessage list" where
  "trim_loop whole (a # b # c # history) =
     (if whole > maxAnswerChars
      then trim_loop (whole - int (length (msg_Content a) + length (msg_Content b))) (c # history)
      else a # b # c # history)"
| "trim_loop whole history = history"

definition content_length :: "chatMessage list \<Rightarrow> int" where
  "content_length history = foldl (\<lambda>whole message. whole + int (length (msg_Content message))) 0 history"

definition trimHistory :: "chatMessage list \<Rightarrow> chatMessage list" where
  "trimHistory history = trim_loop (content_length history) history"

subsection \<open>Choosing the next task or journey\<close>

fun pick_weighted :: "('a \<Rightarrow> int) \<Rightarrow> int \<Rightarrow> 'a list \<Rightarrow> 'a option" where
  "pick_weighted weight pick [] = None"
| "pick_weighted weight pick (x # xs) =
     (let pick = i64 (pick - weight x)
      in if pick < 0 then Some x else pick_weighted weight pick xs)"

definition total_weight :: "('a \<Rightarrow> int) \<Rightarrow> 'a list \<Rightarrow> int" where
  "total_weight weight xs = foldl (\<lambda>whole x. i64 (whole + weight x)) 0 xs"

definition is_varied :: "RunConfig \<Rightarrow> int \<Rightarrow> bool" where
  "is_varied config sequence =
     (let policy = (if rc_CachePolicy config = [] then CachePolicyReuse else rc_CachePolicy config)
      in if policy = CachePolicyMixed
         then (let percent = (if rc_VariationPercent config = 0 then 30 else rc_VariationPercent config)
               in rem (i64 (sequence * 37)) 100 < percent)
         else policy = CachePolicyBypass)"

record workload =
  wl_sequence :: int
  wl_varied :: bool
  wl_name :: string
  wl_prompt :: string
  wl_think :: int
  wl_maxTokens :: int

text \<open>\<open>sequence\<close> is the value the shared counter has after it was incremented.\<close>

definition nextWorkload :: "RunConfig \<Rightarrow> int \<Rightarrow> workload option" where
  "nextWorkload config sequence =
     (let whole = total_weight tsk_Weight (rc_Scenario config);
          (name, prompt, think, maxTokens) =
            (case if whole > 0 then pick_weighted tsk_Weight (rem sequence whole) (rc_Scenario config)
                  else None of
               None \<Rightarrow> ([], rc_Prompt config, 0, rc_MaxTokens config)
             | Some task \<Rightarrow> (tsk_Name task, tsk_Prompt task, i64 (tsk_ThinkTimeMillis task * Millisecond),
                 if tsk_MaxTokens task > 0 then tsk_MaxTokens task else rc_MaxTokens config));
          spread = jitter ''osl'' sequence (rc_OutputTokensStdev config);
          maxTokens = (if spread \<noteq> 0 \<and> i64 (maxTokens + spread) \<ge> 1 then i64 (maxTokens + spread)
                       else maxTokens);
          pad = i64 (rc_PromptPadTokens config + jitter ''isl'' sequence (rc_PromptPadStdev config));
          padded = (if pad > 0
            then map_option (\<lambda>filler. prompt @ [CHR 0x0A, CHR 0x0A] @ filler) (promptFiller sequence pad)
            else Some prompt)
      in map_option (\<lambda>prompt. \<lparr>wl_sequence = sequence, wl_varied = is_varied config sequence,
           wl_name = name, wl_prompt = prompt, wl_think = think, wl_maxTokens = maxTokens\<rparr>) padded)"

text \<open>\<open>None\<close> for an empty list, where reading \<open>journeys[0]\<close> panics.\<close>

definition nextJourney :: "UserJourney list \<Rightarrow> int \<Rightarrow> UserJourney option" where
  "nextJourney journeys sequence =
     (let whole = total_weight jr_Weight journeys; first = (case journeys of [] \<Rightarrow> None | j # _ \<Rightarrow> Some j)
      in if whole = 0 then first
         else case pick_weighted jr_Weight (rem sequence whole) journeys of
             None \<Rightarrow> first | Some j \<Rightarrow> Some j)"

subsection \<open>Lemmas on arrivals, jitter and backoff\<close>

lemma uniform_draw_range: "\<exists>u. uniform_draw q = Fin u \<and> 0 < u \<and> u \<le> 1"
proof -
  define w where "w = fnv64a (''arrival#'' @ dec_int q) mod 2 ^ 52"
  have "uint w < 2 ^ 52"
    by (simp add: w_def uint_mod)
  then have v: "uint (w + 1) = uint w + 1"
    by (simp add: uint_plus_if')
  define v where "v = uint w + 1"
  have b: "1 \<le> v" "v \<le> 2 ^ 52" using \<open>uint w < 2 ^ 52\<close> by (simp_all add: v_def)
  have "uniform_draw q = mk_float (of_int v / 2 ^ 52)"
    unfolding uniform_draw_def w_def [symmetric] v v_def [symmetric]
    using b by (simp add: f_of_int_exact)
  also have "\<dots> = Fin (of_int v / 2 ^ 52)"
    using b by (intro mk_float_dyadic) auto
  finally have e: "uniform_draw q = Fin (of_int v / 2 ^ 52)" .
  have "0 < rat_of_int v" using b(1) by (simp only: of_int_0_less_iff)
  moreover have "rat_of_int v \<le> 2 ^ 52"
    using b(2) by (metis of_int_le_iff of_int_numeral of_int_power)
  ultimately show ?thesis unfolding e by (intro exI [of _ "of_int v / 2 ^ 52"]) auto
qed

lemma jitter_range:
  assumes "0 < stdev" "stdev < 2 ^ 31"
  shows "- stdev \<le> jitter seed q stdev" "jitter seed q stdev \<le> stdev"
proof -
  define span where "span = 2 * stdev + 1"
  have s: "0 < span" "span < 2 ^ 32" using assms by (simp_all add: span_def)
  have w: "i64 span = span" using s by (intro i64_id) (simp add: in64_def)
  define d where "d = uint (fnv32a (seed @ ''#'' @ dec_int q)) mod span"
  have "uint (of_int span :: 32 word) = span"
    using s by (simp add: uint_word_of_int)
  then have u: "uint (fnv32a (seed @ ''#'' @ dec_int q) mod of_int span) = d"
    by (simp add: uint_mod d_def)
  have d: "0 \<le> d" "d < span" using s by (simp_all add: d_def)
  have "jitter seed q stdev = i64 (d - stdev)"
    using assms(1) u w by (simp add: jitter_def span_def)
  also have "\<dots> = d - stdev"
    using d s assms by (intro i64_id) (simp add: in64_def)
  finally show "- stdev \<le> jitter seed q stdev" "jitter seed q stdev \<le> stdev"
    using d by (simp_all add: span_def)
qed

lemma jitter_0 [simp]: "jitter seed q 0 = 0"
  by (simp add: jitter_def)

lemma jitter_abs: "stdev < 2 ^ 31 \<Longrightarrow> \<bar>jitter seed q stdev\<bar> \<le> max 0 stdev"
  using jitter_range [of stdev seed q] by (cases "0 < stdev") (auto simp: jitter_def)

lemma backoff_ceiling_eq:
  assumes "circuitBreakerThreshold \<le> n" "n < 2 ^ 63"
  shows "backoff_ceiling n = min maxBackoff (baseBackoff * 2 ^ nat (min 6 (n - circuitBreakerThreshold)))"
proof -
  define k where "k = nat (min 6 (n - circuitBreakerThreshold))"
  have n: "i64 (n - circuitBreakerThreshold) = n - circuitBreakerThreshold"
    using assms by (intro i64_id) (simp add: in64_def circuitBreakerThreshold_def)
  have "k \<le> 6" by (simp add: k_def)
  define p where "p = (2::int) ^ k"
  have "p \<le> 2 ^ 6" unfolding p_def using \<open>k \<le> 6\<close> by (intro power_increasing) auto
  moreover have "0 \<le> p" by (simp add: p_def)
  ultimately have "i64 (baseBackoff * p) = baseBackoff * p"
    by (intro i64_id) (simp add: in64_def baseBackoff_def Millisecond_def)
  then have "i64 (baseBackoff * 2 ^ k) = baseBackoff * 2 ^ k" by (simp only: p_def)
  then show ?thesis
    using assms(1) unfolding backoff_ceiling_def n k_def [symmetric]
    by (auto simp: k_def min_def Let_def)
qed

subsection \<open>Lemmas on prompts\<close>

text \<open>A decimal numeral ends at the first character that is neither a digit nor a minus sign.\<close>

definition numeral_char :: "char \<Rightarrow> bool" where
  "numeral_char c \<longleftrightarrow> c = CHR ''-'' \<or> 48 \<le> (of_char c :: nat) \<and> (of_char c :: nat) < 58"

lemma dec_int_chars: "c \<in> set (dec_int n) \<Longrightarrow> numeral_char c"
  using dec_nat_digits by (auto simp: dec_int_def numeral_char_def split: if_splits)

lemma dec_int_sep:
  assumes "\<not> numeral_char c" "dec_int m @ c # xs = dec_int n @ c # ys"
  shows "m = n \<and> xs = ys"
proof -
  have t: "takeWhile (\<lambda>d. d \<noteq> c) (dec_int k @ c # zs) = dec_int k" for k zs
    using assms(1) dec_int_chars by (subst takeWhile_append2) auto
  from assms(2) t have "dec_int m = dec_int n" by metis
  with assms(2) show ?thesis by simp
qed

lemma pad_loop_length:
  assumes "0 \<le> chars"
  shows "chars \<le> int (length (pad_loop chars b)) \<and> (\<exists>more. pad_loop chars b = b @ more)"
proof (induction chars b rule: pad_loop.induct)
  case (1 chars b)
  then show ?case
    by (subst (1 2) pad_loop.simps) (auto simp: append_assoc)
qed

lemma promptFiller_some:
  assumes "0 \<le> tokens" "tokens < 2 ^ 60"
  shows "\<exists>p. promptFiller q tokens = Some p \<and> int (length p) = 4 * tokens \<and>
    (length (''[pad-'' @ dec_int q @ ''] '') \<le> length p \<longrightarrow>
      (\<exists>more. p = ''[pad-'' @ dec_int q @ ''] '' @ more))"
proof -
  define head where "head = ''[pad-'' @ dec_int q @ ''] ''"
  have w: "i64 (tokens * charsPerToken) = 4 * tokens" "i64 (4 * tokens + 16) = 4 * tokens + 16"
    using assms by (auto simp: in64_def charsPerToken_def mult.commute [of tokens] i64_id)
  obtain more where m: "pad_loop (4 * tokens) head = head @ more"
    and l: "4 * tokens \<le> int (length (head @ more))"
    using pad_loop_length [of "4 * tokens" head] assms(1) by auto
  let ?p = "take (nat (4 * tokens)) (head @ more)"
  have e: "promptFiller q tokens = Some ?p"
    using assms(1) unfolding promptFiller_def w Let_def head_def [symmetric] m by simp
  have "int (length ?p) = 4 * tokens"
    using l assms(1) by (auto simp: min_def)
  moreover have "\<exists>x. ?p = head @ x" if "length head \<le> length ?p"
    using that by (auto simp: take_append)
  ultimately have "\<exists>p. promptFiller q tokens = Some p \<and> int (length p) = 4 * tokens \<and>
      (length head \<le> length p \<longrightarrow> (\<exists>more. p = head @ more))"
    using e by blast
  then show ?thesis by (simp add: head_def)
qed

lemma content_length_sum: "content_length h = (\<Sum>m\<leftarrow>h. int (length (msg_Content m)))"
proof -
  have "foldl (\<lambda>w m. w + int (length (msg_Content m))) a h = a + (\<Sum>m\<leftarrow>h. int (length (msg_Content m)))" for a
    by (induction h arbitrary: a) auto
  then show ?thesis by (simp add: content_length_def)
qed

lemma trim_loop_spec:
  assumes "n = content_length h"
  shows "\<exists>k. trim_loop n h = drop (2 * k) h \<and>
    (content_length (drop (2 * k) h) \<le> maxAnswerChars \<or> length (drop (2 * k) h) \<le> 2) \<and>
    (\<forall>i<k. maxAnswerChars < content_length (drop (2 * i) h))"
  using assms
proof (induction n h rule: trim_loop.induct)
  case (1 n a b c h)
  show ?case
  proof (cases "n > maxAnswerChars")
    case True
    have "n - int (length (msg_Content a) + length (msg_Content b)) = content_length (c # h)"
      using "1.prems" by (simp add: content_length_sum)
    from "1.IH" [OF True this] obtain k where
      k: "trim_loop n (a # b # c # h) = drop (2 * k) (c # h)"
        "content_length (drop (2 * k) (c # h)) \<le> maxAnswerChars \<or> length (drop (2 * k) (c # h)) \<le> 2"
        "\<forall>i<k. maxAnswerChars < content_length (drop (2 * i) (c # h))"
      using True by auto
    have d: "drop (2 * Suc i) (a # b # c # h) = drop (2 * i) (c # h)" for i by simp
    have "\<forall>i<Suc k. maxAnswerChars < content_length (drop (2 * i) (a # b # c # h))"
    proof (intro allI impI)
      fix i assume "i < Suc k"
      then show "maxAnswerChars < content_length (drop (2 * i) (a # b # c # h))"
        using k(3) True "1.prems" by (cases i) (simp_all del: mult_Suc_right add: d)
    qed
    then show ?thesis using k(1,2) by (intro exI [of _ "Suc k"]) (simp only: d simp_thms)
  next
    case False
    then show ?thesis using "1.prems" by (intro exI [of _ 0]) simp
  qed
qed (auto intro: exI [of _ 0])

lemma trim_loop_nonempty: "h \<noteq> [] \<Longrightarrow> trim_loop n h \<noteq> []"
  by (induction n h rule: trim_loop.induct) auto

subsection \<open>Lemmas on weighted choice\<close>

definition weights_ok :: "('a \<Rightarrow> int) \<Rightarrow> 'a list \<Rightarrow> bool" where
  "weights_ok weight xs \<longleftrightarrow> (\<forall>x \<in> set xs. 0 \<le> weight x) \<and> (\<Sum>x\<leftarrow>xs. weight x) < 2 ^ 62"

lemma total_weight_eq:
  assumes "weights_ok weight xs"
  shows "total_weight weight xs = (\<Sum>x\<leftarrow>xs. weight x)"
proof -
  have "0 \<le> (\<Sum>x\<leftarrow>xs. weight x)"
    using assms by (intro sum_list_nonneg) (auto simp: weights_ok_def)
  then show ?thesis
    using assms i64_foldl_add [where f = weight and a = 0 and xs = xs]
    by (simp add: total_weight_def weights_ok_def i64_small)
qed

text \<open>The whole cycle of the loop: task by task, each as often as its weight says.\<close>

definition weighted :: "('a \<Rightarrow> int) \<Rightarrow> 'a list \<Rightarrow> 'a list" where
  "weighted weight xs = concat (map (\<lambda>x. replicate (nat (weight x)) x) xs)"

lemma pick_weighted_nth:
  assumes "weights_ok weight xs" "0 \<le> p" "p < (\<Sum>x\<leftarrow>xs. weight x)"
  shows "pick_weighted weight p xs = Some (weighted weight xs ! nat p)"
  using assms
proof (induction xs arbitrary: p)
  case (Cons x xs)
  have ok: "weights_ok weight xs" and w: "0 \<le> weight x" "weight x < 2 ^ 62"
  proof -
    have "0 \<le> sum_list (map weight xs)"
      using Cons.prems(1) by (intro sum_list_nonneg) (auto simp: weights_ok_def)
    with Cons.prems(1) show "weights_ok weight xs" "0 \<le> weight x" "weight x < 2 ^ 62"
      by (auto simp: weights_ok_def)
  qed
  have p: "p < 2 ^ 62" using Cons.prems(1,3) by (simp add: weights_ok_def)
  have d: "i64 (p - weight x) = p - weight x"
    using w p Cons.prems(2) by (intro i64_small) auto
  show ?case
  proof (cases "p < weight x")
    case True
    then show ?thesis
      using Cons.prems(2) by (simp add: d weighted_def nth_append nat_less_iff)
  next
    case False
    have "nat (p - weight x) = nat p - nat (weight x)" 
      using w(1) Cons.prems(2) by (simp add: nat_diff_distrib')
    moreover have "pick_weighted weight (p - weight x) xs = Some (weighted weight xs ! nat (p - weight x))"
      using Cons.prems(3) False by (intro Cons.IH [OF ok]) auto
    ultimately show ?thesis
      using False by (simp add: d weighted_def nth_append nat_less_eq_zless)
  qed
qed simp

lemma length_weighted: "weights_ok weight xs \<Longrightarrow> int (length (weighted weight xs)) = (\<Sum>x\<leftarrow>xs. weight x)"
proof (induction xs)
  case (Cons x xs)
  then have "weights_ok weight xs" "0 \<le> weight x"
    using sum_list_nonneg [of "map weight xs"] by (auto simp: weights_ok_def)
  with Cons.IH show ?case by (simp add: weighted_def)
qed (simp add: weighted_def)

lemma size_filter_map: "size (filter_mset P (mset (map f xs))) = length (filter (\<lambda>x. P (f x)) xs)"
  by (induction xs) auto

lemma length_filter_weighted:
  "\<forall>x \<in> set xs. 0 \<le> weight x \<Longrightarrow>
    int (length (filter P (weighted weight xs))) = (\<Sum>x\<leftarrow>filter P xs. weight x)"
  by (induction xs) (auto simp: weighted_def filter_replicate)

lemma pick_weighted_mem:
  assumes "weights_ok weight xs" "0 \<le> p" "p < (\<Sum>x\<leftarrow>xs. weight x)"
  shows "\<exists>x. pick_weighted weight p xs = Some x \<and> x \<in> set xs"
proof -
  have "nat p < length (weighted weight xs)"
    using assms length_weighted [OF assms(1)] by linarith
  then have "weighted weight xs ! nat p \<in> set (weighted weight xs)" by simp
  then show ?thesis
    using pick_weighted_nth [OF assms] by (auto simp: weighted_def split: if_splits)
qed

text \<open>Over one cycle of consecutive sequence numbers every residue occurs once.\<close>

lemma cycle_residues:
  assumes "0 < (n :: int)"
  shows "mset (map (\<lambda>q. q mod n) [a + 1..a + n]) = mset [0..n - 1]"
proof -
  have "inj_on (\<lambda>q. q mod n) {a + 1..a + n}"
  proof (rule inj_onI)
    fix x y assume xy: "x \<in> {a + 1..a + n}" "y \<in> {a + 1..a + n}" "x mod n = y mod n"
    then have "n dvd x - y" by (simp add: mod_eq_dvd_iff)
    moreover have "\<bar>x - y\<bar> < n" using xy by auto
    ultimately show "x = y" using zdvd_imp_le [of n "\<bar>x - y\<bar>"] by fastforce
  qed
  moreover have "(\<lambda>q. q mod n) ` {a + 1..a + n} = {0..n - 1}"
  proof (rule card_subset_eq)
    show "(\<lambda>q. q mod n) ` {a + 1..a + n} \<subseteq> {0..n - 1}" using assms by auto
    show "card ((\<lambda>q. q mod n) ` {a + 1..a + n}) = card {0..n - 1}"
      using calculation by (simp add: card_image)
  qed simp
  ultimately have "image_mset (\<lambda>q. q mod n) (mset_set {a + 1..a + n}) = mset_set {0..n - 1}"
    by (simp add: image_mset_mset_set)
  moreover have "mset [x..y] = mset_set {x..y}" for x y :: int
    by (metis set_upto distinct_upto mset_set_set)
  ultimately show ?thesis by simp
qed

lemma map_nth_upto: "map (\<lambda>p. xs ! nat p) [0..int (length xs) - 1] = xs"
  by (rule nth_equalityI) (auto simp: nth_upto)

lemma pick_cycle:
  assumes "weights_ok weight xs" "0 < total_weight weight xs" "0 \<le> a"
  shows "mset (map (\<lambda>q. pick_weighted weight (rem q (total_weight weight xs)) xs)
      [a + 1..a + total_weight weight xs]) = image_mset Some (mset (weighted weight xs))"
proof -
  define n where "n = total_weight weight xs"
  have n: "0 < n" "n = (\<Sum>x\<leftarrow>xs. weight x)"
    using assms total_weight_eq [OF assms(1)] by (simp_all add: n_def)
  have l: "n = int (length (weighted weight xs))"
    using length_weighted [OF assms(1)] n(2) by simp
  let ?pick = "\<lambda>p. Some (weighted weight xs ! nat p)"
  have "map (\<lambda>q. pick_weighted weight (rem q n) xs) [a + 1..a + n] =
      map ?pick (map (\<lambda>q. q mod n) [a + 1..a + n])"
  proof (simp only: map_map, rule map_cong)
    fix q assume "q \<in> set [a + 1..a + n]"
    then have "rem q n = q mod n" using n(1) assms(3) by (intro rem_nonneg_eq) auto
    then show "pick_weighted weight (rem q n) xs = (?pick \<circ> (\<lambda>q. q mod n)) q"
      using n pick_weighted_nth [OF assms(1), of "q mod n"] by simp
  qed simp
  then have "mset (map (\<lambda>q. pick_weighted weight (rem q n) xs) [a + 1..a + n]) =
      image_mset ?pick (mset (map (\<lambda>q. q mod n) [a + 1..a + n]))"
    by (simp only: mset_map)
  also have "\<dots> = mset (map ?pick [0..n - 1])"
    by (subst cycle_residues [OF n(1)]) simp
  also have "map ?pick [0..n - 1] = map Some (weighted weight xs)"
    unfolding l by (subst map_nth_upto [of "weighted weight xs", symmetric]) simp
  finally show ?thesis by (simp add: n_def)
qed

subsection \<open>Lemmas on requests\<close>

text \<open>Bounds under which the padding of a prompt does not overflow; validation does not check them.\<close>

definition padding_ok :: "RunConfig \<Rightarrow> bool" where
  "padding_ok config \<longleftrightarrow> 0 \<le> rc_PromptPadTokens config \<and> rc_PromptPadTokens config < 2 ^ 59 \<and>
     rc_PromptPadStdev config < 2 ^ 31"

lemma padding_some:
  assumes "padding_ok config"
    and "pad = i64 (rc_PromptPadTokens config + jitter ''isl'' q (rc_PromptPadStdev config))"
  shows "\<exists>more. (if pad > 0 then map_option (\<lambda>filler. prompt @ [CHR 0x0A, CHR 0x0A] @ filler)
      (promptFiller q pad) else Some prompt) = Some (prompt @ more)"
proof (cases "pad > 0")
  case True
  have j: "\<bar>jitter ''isl'' q (rc_PromptPadStdev config)\<bar> < 2 ^ 31"
    using jitter_abs [of "rc_PromptPadStdev config" "''isl''" q] assms(1) by (auto simp: padding_ok_def)
  have "pad = rc_PromptPadTokens config + jitter ''isl'' q (rc_PromptPadStdev config)"
    unfolding assms(2) using assms(1) j by (intro i64_small) (auto simp: padding_ok_def)
  then have "pad < 2 ^ 60" using assms(1) j by (auto simp: padding_ok_def)
  with True promptFiller_some [of pad q] obtain p where "promptFiller q pad = Some p" by auto
  with True show ?thesis by simp
qed simp

lemma nextWorkload_some:
  assumes "padding_ok config"
  shows "\<exists>w. nextWorkload config q = Some w \<and> wl_sequence w = q \<and> wl_varied w = is_varied config q"
proof -
  define pad where "pad = i64 (rc_PromptPadTokens config + jitter ''isl'' q (rc_PromptPadStdev config))"
  have "\<exists>p. (if pad > 0 then map_option (\<lambda>filler. prompt @ [CHR 0x0A, CHR 0x0A] @ filler)
      (promptFiller q pad) else Some prompt) = Some p" for prompt
    using padding_some [OF assms pad_def, of prompt] by blast
  then show ?thesis
    unfolding nextWorkload_def Let_def pad_def [symmetric] by (auto split: prod.split)
qed

lemma nextWorkload_task:
  assumes "padding_ok config" "0 < total_weight tsk_Weight (rc_Scenario config)"
    and "pick_weighted tsk_Weight (rem q (total_weight tsk_Weight (rc_Scenario config)))
      (rc_Scenario config) = Some task"
  shows "\<exists>w more. nextWorkload config q = Some w \<and> wl_name w = tsk_Name task \<and>
    wl_prompt w = tsk_Prompt task @ more \<and> wl_think w = i64 (tsk_ThinkTimeMillis task * Millisecond)"
proof -
  obtain more where "(if i64 (rc_PromptPadTokens config + jitter ''isl'' q (rc_PromptPadStdev config)) > 0
      then map_option (\<lambda>filler. tsk_Prompt task @ [CHR 0x0A, CHR 0x0A] @ filler) (promptFiller q
        (i64 (rc_PromptPadTokens config + jitter ''isl'' q (rc_PromptPadStdev config))))
      else Some (tsk_Prompt task)) = Some (tsk_Prompt task @ more)"
    using padding_some [OF assms(1) refl, of q "tsk_Prompt task"] by blast
  then show ?thesis
    using assms(2,3) by (simp add: nextWorkload_def Let_def split del: if_split)
qed

lemma nonce_first:
  assumes "CHR ''#'' \<notin> set w" "CHR ''#'' \<notin> set w'"
    and "variationPrefix w q @ p = variationPrefix w' q' @ p'"
  shows "w = w' \<and> q = q' \<and> p = p'"
proof -
  have sep: "\<not> numeral_char CHR '']''" by (simp add: numeral_char_def)
  have "hex8 (fnv32a (w @ ''#'' @ dec_int q)) @ '' '' @ (w @ CHR ''#'' # dec_int q @ CHR '']'' # CHR 0x0A # CHR 0x0A # p) =
      hex8 (fnv32a (w' @ ''#'' @ dec_int q')) @ '' '' @ (w' @ CHR ''#'' # dec_int q' @ CHR '']'' # CHR 0x0A # CHR 0x0A # p')"
    using assms(3) by (simp add: variationPrefix_def Let_def)
  moreover have "length (hex8 (fnv32a (w @ ''#'' @ dec_int q))) = length (hex8 (fnv32a (w' @ ''#'' @ dec_int q')))"
    by (simp add: hex8_def)
  ultimately have e: "w @ CHR ''#'' # dec_int q @ CHR '']'' # CHR 0x0A # CHR 0x0A # p =
      w' @ CHR ''#'' # dec_int q' @ CHR '']'' # CHR 0x0A # CHR 0x0A # p'"
    by (simp only: append_eq_append_conv append_Cons append_Nil list.inject simp_thms)
  have t: "takeWhile (\<lambda>c. c \<noteq> CHR ''#'') (v @ CHR ''#'' # zs) = v" if "CHR ''#'' \<notin> set v" for v zs
    using that by (induction v) auto
  from arg_cong [OF e, of "takeWhile (\<lambda>c. c \<noteq> CHR ''#'')"] have w: "w = w'"
    using t [OF assms(1)] t [OF assms(2)] by simp
  with e have "dec_int q @ CHR '']'' # CHR 0x0A # CHR 0x0A # p = dec_int q' @ CHR '']'' # CHR 0x0A # CHR 0x0A # p'"
    by simp
  from dec_int_sep [OF sep this] w show ?thesis by simp
qed

subsection \<open>Properties\<close>

text \<open>Over any cycle of consecutive requests (as many as the weights of the scenario add up to) exactly as
  many requests carry a task's name as the weights of the tasks of that name say.\<close>

lemma tasks_over_a_cycle:
  assumes "padding_ok config" "weights_ok tsk_Weight (rc_Scenario config)"
    and "0 < total_weight tsk_Weight (rc_Scenario config)" "0 \<le> n"
  shows "int (length (filter (\<lambda>q. map_option wl_name (nextWorkload config q) = Some name)
        [n + 1..n + total_weight tsk_Weight (rc_Scenario config)])) =
      (\<Sum>task\<leftarrow>filter (\<lambda>task. tsk_Name task = name) (rc_Scenario config). tsk_Weight task) \<and>
    (\<forall>q \<in> {n + 1..n + total_weight tsk_Weight (rc_Scenario config)}. \<exists>w task more.
      nextWorkload config q = Some w \<and> task \<in> set (rc_Scenario config) \<and> wl_name w = tsk_Name task \<and>
      wl_prompt w = tsk_Prompt task @ more \<and> wl_think w = i64 (tsk_ThinkTimeMillis task * Millisecond))"
proof -
  let ?xs = "rc_Scenario config" and ?S = "total_weight tsk_Weight (rc_Scenario config)"
  define pick where "pick = (\<lambda>q. pick_weighted tsk_Weight (rem q ?S) ?xs)"
  have chosen: "\<exists>task. pick q = Some task \<and> task \<in> set ?xs" if "0 \<le> q" for q
    using pick_weighted_mem [OF assms(2), of "rem q ?S"] that assms(3)
    by (simp add: pick_def total_weight_eq [OF assms(2)] rem_nonneg_eq)
  have sent: "\<exists>w more. nextWorkload config q = Some w \<and> wl_name w = tsk_Name task \<and>
      wl_prompt w = tsk_Prompt task @ more \<and> wl_think w = i64 (tsk_ThinkTimeMillis task * Millisecond)"
    if "pick q = Some task" for q task
    using that by (intro nextWorkload_task [OF assms(1,3)]) (simp add: pick_def)
  have "map_option wl_name (nextWorkload config q) = map_option tsk_Name (pick q)" if "0 \<le> q" for q
    using chosen [OF that] sent [of q] by auto
  then have "filter (\<lambda>q. map_option wl_name (nextWorkload config q) = Some name) [n + 1..n + ?S] =
      filter (\<lambda>q. map_option tsk_Name (pick q) = Some name) [n + 1..n + ?S]"
    using assms(4) by (intro filter_cong) auto
  then have "length (filter (\<lambda>q. map_option wl_name (nextWorkload config q) = Some name) [n + 1..n + ?S]) =
      size (filter_mset (\<lambda>r. map_option tsk_Name r = Some name) (mset (map pick [n + 1..n + ?S])))"
    by (simp only: size_filter_map)
  also have "\<dots> = length (filter (\<lambda>task. tsk_Name task = name) (weighted tsk_Weight ?xs))"
    unfolding pick_def pick_cycle [OF assms(2-4)] mset_map [symmetric] size_filter_map by simp
  finally have "int (length (filter (\<lambda>q. map_option wl_name (nextWorkload config q) = Some name)
      [n + 1..n + ?S])) = (\<Sum>task\<leftarrow>filter (\<lambda>task. tsk_Name task = name) ?xs. tsk_Weight task)"
    using length_filter_weighted [of ?xs tsk_Weight "\<lambda>task. tsk_Name task = name"] assms(2)
    by (simp add: weights_ok_def)
  moreover have "\<exists>w task more. nextWorkload config q = Some w \<and> task \<in> set ?xs \<and> wl_name w = tsk_Name task \<and>
      wl_prompt w = tsk_Prompt task @ more \<and> wl_think w = i64 (tsk_ThinkTimeMillis task * Millisecond)"
    if "0 \<le> q" for q
    using chosen [OF that] sent by blast
  ultimately show ?thesis using assms(4) by simp
qed

text \<open>With the mixed cache policy, of any 100 consecutive
  requests exactly \<open>variation_percent\<close> are varied (30 when it is not set); with the bypass policy all
  are, with the reuse policy and by default none.\<close>

theorem mixed_cache_varies_the_share_asked_for:
  assumes "padding_ok config" "0 \<le> rc_VariationPercent config" "rc_VariationPercent config \<le> 100"
    and "0 \<le> n" "n \<le> 2 ^ 56"
  shows "int (length (filter (\<lambda>q. map_option wl_varied (nextWorkload config q) = Some True) [n + 1..n + 100])) =
    (if rc_CachePolicy config = CachePolicyMixed
     then if rc_VariationPercent config = 0 then 30 else rc_VariationPercent config
     else if rc_CachePolicy config = CachePolicyBypass then 100 else 0)"
proof -
  have v: "map_option wl_varied (nextWorkload config q) = Some True \<longleftrightarrow> is_varied config q" for q
    using nextWorkload_some [OF assms(1), of q] by auto
  show ?thesis
  proof (cases "rc_CachePolicy config = CachePolicyMixed")
    case True
    define p where "p = (if rc_VariationPercent config = 0 then 30 else rc_VariationPercent config)"
    have p: "0 \<le> p" "p \<le> 100" using assms(2,3) by (auto simp: p_def)
    have "is_varied config q \<longleftrightarrow> (q mod 100) * 37 mod 100 < p" if "q \<in> set [n + 1..n + 100]" for q
    proof -
      have "i64 (q * 37) = q * 37" using that assms(4,5) by (intro i64_small) auto
      then have "rem (i64 (q * 37)) 100 = q * 37 mod 100"
        using that assms(4) by (simp add: rem_nonneg_eq)
      then show ?thesis using True by (simp add: is_varied_def p_def mod_mult_left_eq Let_def)
    qed
    then have "length (filter (is_varied config) [n + 1..n + 100]) =
        length (filter (\<lambda>q. (q mod 100) * 37 mod 100 < p) [n + 1..n + 100])"
      by (metis (mono_tags, lifting) filter_cong)
    also have "\<dots> = size (filter_mset (\<lambda>r. r * 37 mod 100 < p) (mset (map (\<lambda>q. q mod 100) [n + 1..n + 100])))"
      by (simp only: size_filter_map)
    also have "\<dots> = length (filter (\<lambda>r. r * 37 mod 100 < p) [0..99])"
      using cycle_residues [of 100 n] by (simp del: upto.simps flip: mset_filter)
    also have "\<dots> = size (filter_mset (\<lambda>r. r < p) (mset (map (\<lambda>r. r * 37 mod 100) [0..99])))"
      by (simp only: size_filter_map)
    also have "mset (map (\<lambda>r :: int. r * 37 mod 100) [0..99]) = mset [0..99]"
      by code_simp
    also have "size (filter_mset (\<lambda>r. r < p) (mset [0..99])) = length (filter (\<lambda>r. r < p) [0..99])"
      by (simp flip: mset_filter)
    also have "filter (\<lambda>r. r < p) [0..99] = [0..p - 1]"
    proof -
      have "[0..99] = [0..p - 1] @ [p..99]" using p upto_split1 [of 0 p 99] by (cases "p = 100") auto
      then show ?thesis by (simp del: upto.simps add: filter_empty_conv)
    qed
    finally show ?thesis using True p unfolding v p_def [symmetric] by simp
  next
    case False
    then show ?thesis unfolding v by (simp add: is_varied_def del: upto.simps)
  qed
qed

theorem mixed_cache_varies_the_share_asked_for_witness:
  "int (length (filter (\<lambda>q. map_option wl_varied
    (nextWorkload (zero_RunConfig\<lparr>rc_CachePolicy := CachePolicyMixed\<rparr>) q) = Some True) [7 + 1..7 + 100])) = 30"
  using mixed_cache_varies_the_share_asked_for [of "zero_RunConfig\<lparr>rc_CachePolicy := CachePolicyMixed\<rparr>" 7]
  by (simp add: padding_ok_def zero_RunConfig_def del: upto.simps)

text \<open>How long a request is held back at the threshold and beyond, whatever the random source returns.\<close>

lemma backoffDelay_range:
  assumes "\<forall>k > 0. 0 \<le> Int63n k \<and> Int63n k < k"
    and "circuitBreakerThreshold \<le> failures" "failures < 2 ^ 63"
  shows "let ceiling = min maxBackoff (baseBackoff * 2 ^ nat (min 6 (failures - circuitBreakerThreshold)))
    in ceiling div 2 \<le> backoffDelay Int63n failures \<and> backoffDelay Int63n failures \<le> ceiling \<and>
       250 * Millisecond \<le> backoffDelay Int63n failures"
proof -
  define p where "p = (2::int) ^ nat (min 6 (failures - circuitBreakerThreshold))"
  define c where "c = min maxBackoff (baseBackoff * p)"
  have "1 \<le> p" by (simp add: p_def)
  then have c: "500000000 \<le> c" "c \<le> 30000000000"
    by (auto simp: c_def min_def maxBackoff_def baseBackoff_def Second_def Millisecond_def)
  have e: "backoff_ceiling failures = c"
    using backoff_ceiling_eq [OF assms(2,3)] by (simp add: c_def p_def)
  have w: "i64 (c div 2 + 1) = c div 2 + 1" using c by (intro i64_small) auto
  have r: "0 \<le> Int63n (c div 2 + 1)" "Int63n (c div 2 + 1) < c div 2 + 1"
    using assms(1) [rule_format, of "c div 2 + 1"] c by simp_all
  have "backoffDelay Int63n failures = i64 (c div 2 + Int63n (c div 2 + 1))"
    using c by (simp add: backoffDelay_def e quot_nonneg_eq w)
  also have "\<dots> = c div 2 + Int63n (c div 2 + 1)"
    using r c by (intro i64_small) auto
  finally have "c div 2 \<le> backoffDelay Int63n failures \<and> backoffDelay Int63n failures \<le> c \<and>
      250 * Millisecond \<le> backoffDelay Int63n failures"
    using r c by (simp add: Millisecond_def) linarith
  then show ?thesis by (simp add: c_def p_def)
qed

text \<open>C29. The gap to the next arrival is never negative and never more than
  eight intervals; with uniform arrivals it is the interval itself, and one second holds at least as
  many of them as the rate asks for.\<close>

theorem arrivals_stay_on_schedule:
  assumes "\<forall>u. 0 < u \<and> u \<le> 1 \<longrightarrow> (\<exists>r. Log (Fin u) = Fin r \<and> r \<le> 0)"
    and "s = (newArrivalSchedule pattern rate)\<lparr>ar_sequence := n\<rparr>"
  shows "0 \<le> fst (next_arrival Log s) \<and> fst (next_arrival Log s) \<le> 8 * ar_interval s \<and>
    (pattern \<noteq> ArrivalPoisson \<longrightarrow>
       fst (next_arrival Log s) = ar_interval s \<and> max 1 rate * fst (next_arrival Log s) \<le> Second) \<and>
    (pattern = ArrivalPoisson \<longrightarrow> ar_sequence (snd (next_arrival Log s)) = i64 (n + 1))"
proof -
  define i where "i = ar_interval s"
  have i: "i = Second div max 1 rate"
    by (simp add: i_def assms(2) newArrivalSchedule_def max_def quot_nonneg_eq Second_def)
  have "i \<le> Second div 1"
    unfolding i by (rule zdiv_mono2) (auto simp: Second_def)
  then have r: "0 \<le> i" "i \<le> 1000000000"
    by (auto simp: i Second_def pos_imp_zdiv_nonneg_iff)
  have m: "max 1 rate * i \<le> Second"
    unfolding i minus_mod_eq_mult_div [symmetric] by simp
  have p: "ar_pattern s = pattern" by (simp add: assms(2) newArrivalSchedule_def)
  have n: "ar_sequence s = n" by (simp add: assms(2))
  show ?thesis
  proof (cases "pattern = ArrivalPoisson")
    case False
    then show ?thesis using r m by (simp add: next_arrival_def p i_def)
  next
    case True
    obtain u where u: "uniform_draw (i64 (n + 1)) = Fin u" "0 < u" "u \<le> 1"
      using uniform_draw_range by blast
    then obtain l where l: "Log (Fin u) = Fin l" "l \<le> 0" using assms(1) by blast
    define gap where "gap = mk_float (- l * of_int i)"
    have "0 \<le> - l * of_int i" using l(2) r(1) by (simp add: mult_nonpos_nonneg)
    then have g: "fle (Fin 0) gap"
      using mk_float_mono [of 0 "- l * of_int i"] mk_float_of_int [of 0] by (simp add: gap_def)
    have lim: "fmul (f_of_int i) (f_of_int 8) = Fin (of_int (8 * i))"
    proof -
      have "fmul (f_of_int i) (f_of_int 8) = mk_float (of_int i * of_int 8)"
        using r by (simp add: f_of_int_exact)
      also have "\<dots> = mk_float (of_int (8 * i))" by (simp add: mult.commute)
      finally show ?thesis using r by (simp add: mk_float_of_int del: of_int_mult)
    qed
    have "\<exists>q. (if fless (Fin (of_int (8 * i))) gap then Fin (of_int (8 * i)) else gap) = Fin q \<and>
        0 \<le> q \<and> q \<le> of_int (8 * i)"
      using g r by (cases gap) (auto simp: fle_def)
    then obtain q where q: "(if fless (Fin (of_int (8 * i))) gap then Fin (of_int (8 * i)) else gap) = Fin q"
      "0 \<le> q" "q \<le> of_int (8 * i)" by blast
    have g': "fmul (fneg (Log (uniform_draw (i64 (n + 1))))) (f_of_int i) = gap"
      using r by (simp add: u(1) l(1) f_of_int_exact gap_def)
    have "fst (next_arrival Log s) = int64_of
        (if fless (fmul (f_of_int i) (f_of_int 8)) (fmul (fneg (Log (uniform_draw (i64 (n + 1))))) (f_of_int i))
         then fmul (f_of_int i) (f_of_int 8) else fmul (fneg (Log (uniform_draw (i64 (n + 1))))) (f_of_int i))"
      using True by (simp add: next_arrival_def p n i_def Let_def)
    also have "\<dots> = int64_of (Fin q)"
      unfolding lim g' q(1) ..
    finally have "fst (next_arrival Log s) = int64_of (Fin q)" .
    moreover have "0 \<le> int64_of (Fin q)" "int64_of (Fin q) \<le> 8 * i"
      using int64_of_range [OF q(2,3)] r by auto
    ultimately show ?thesis
      using True by (simp add: i_def next_arrival_def p n Let_def)
  qed
qed

theorem arrivals_stay_on_schedule_witness:
  "fst (next_arrival (\<lambda>_. Fin 0) (newArrivalSchedule ArrivalUniform 7)) = 142857142"
  using arrivals_stay_on_schedule [where Log = "\<lambda>_. Fin 0" and n = 0
      and s = "newArrivalSchedule ArrivalUniform 7" and pattern = ArrivalUniform and rate = 7]
  by (simp add: newArrivalSchedule_def quot_nonneg_eq Second_def)

text \<open>C30. Trimming a conversation drops whole turns (a question
  and its answer) from its beginning, as few as possible, until what is left fits the limit or is one
  turn; the most recent turn always survives, and trimming again changes nothing.\<close>

theorem history_keeps_the_most_recent_turns:
  shows "(\<exists>k. trimHistory h = drop (2 * k) h \<and> (\<forall>i<k. maxAnswerChars < content_length (drop (2 * i) h))) \<and>
    (content_length (trimHistory h) \<le> maxAnswerChars \<or> length (trimHistory h) \<le> 2) \<and>
    (h \<noteq> [] \<and> even (length h) \<longrightarrow> 2 \<le> length (trimHistory h)) \<and>
    trimHistory (trimHistory h) = trimHistory h"
proof -
  obtain k where k: "trimHistory h = drop (2 * k) h"
      "content_length (drop (2 * k) h) \<le> maxAnswerChars \<or> length (drop (2 * k) h) \<le> 2"
      "\<forall>i<k. maxAnswerChars < content_length (drop (2 * i) h)"
    using trim_loop_spec [OF refl, of h] unfolding trimHistory_def by blast
  have "trim_loop n g = g" if "n \<le> maxAnswerChars \<or> length g \<le> 2" for n g
    using that by (cases "(n, g)" rule: trim_loop.cases) auto
  then have "trimHistory (trimHistory h) = trimHistory h"
    using k(2) unfolding k(1) by (auto simp: trimHistory_def)
  moreover have "2 \<le> length (trimHistory h)" if h: "h \<noteq> []" "even (length h)"
  proof -
    have "even (length (trimHistory h))" using h(2) by (simp add: k(1))
    moreover have "trimHistory h \<noteq> []"
      using trim_loop_nonempty [OF h(1)] by (simp add: trimHistory_def)
    ultimately show ?thesis by (cases "trimHistory h" rule: remdups_adj.cases) auto
  qed
  ultimately show ?thesis using k by metis
qed

theorem history_keeps_the_most_recent_turns_witness:
  "trimHistory [\<lparr>msg_Role = ''user'', msg_Content = ''hi''\<rparr>, \<lparr>msg_Role = ''assistant'', msg_Content = ''yes''\<rparr>] =
    [\<lparr>msg_Role = ''user'', msg_Content = ''hi''\<rparr>, \<lparr>msg_Role = ''assistant'', msg_Content = ''yes''\<rparr>]"
  (is "trimHistory ?h = ?h")
proof -
  obtain k where k: "trimHistory ?h = drop (2 * k) ?h"
      "\<forall>i<k. maxAnswerChars < content_length (drop (2 * i) ?h)"
    using history_keeps_the_most_recent_turns [of ?h] by blast
  have "content_length (drop (2 * 0) ?h) \<le> maxAnswerChars"
    by (simp add: maxAnswerChars_def content_length_def)
  with k(2) have "k = 0" by fastforce
  with k(1) show ?thesis by simp
qed

text \<open>The filler for a request is exactly four characters for each
  token asked for, and two requests of one run never share a filler that is long enough to show its
  sequence number.\<close>

theorem padding_has_the_requested_length:
  assumes "0 \<le> tokens" "tokens < 2 ^ 60"
  shows "\<exists>p. promptFiller q tokens = Some p \<and> int (length p) = 4 * tokens \<and>
    (\<forall>q' tokens' p'. 0 \<le> tokens' \<and> tokens' < 2 ^ 60 \<and> promptFiller q' tokens' = Some p' \<and>
       length (dec_int q) + 7 \<le> length p \<and> length (dec_int q') + 7 \<le> length p' \<and> p = p' \<longrightarrow> q = q')"
proof -
  obtain p where p: "promptFiller q tokens = Some p" "int (length p) = 4 * tokens"
      "length (dec_int q) + 7 \<le> length p \<longrightarrow> (\<exists>more. p = ''[pad-'' @ dec_int q @ ''] '' @ more)"
    using promptFiller_some [OF assms, of q] by auto
  have "q = q'" if t: "0 \<le> tokens'" "tokens' < 2 ^ 60" "promptFiller q' tokens' = Some p"
    "length (dec_int q) + 7 \<le> length p" "length (dec_int q') + 7 \<le> length p" for q' tokens'
  proof -
    obtain a where a: "p = ''[pad-'' @ dec_int q @ ''] '' @ a" using p(3) t(4) by blast
    obtain b where b: "p = ''[pad-'' @ dec_int q' @ ''] '' @ b"
      using promptFiller_some [OF t(1,2), of q'] t(3,5) by auto
    have "dec_int q @ CHR '']'' # CHR '' '' # a = dec_int q' @ CHR '']'' # CHR '' '' # b"
      using a b by simp
    then show "q = q'"
      using dec_int_sep [of "CHR '']''"] by (simp add: numeral_char_def)
  qed
  then show ?thesis using p(1,2) by blast
qed

theorem padding_has_the_requested_length_witness:
  "map_option length (promptFiller 1 3) = Some 12"
  using padding_has_the_requested_length [of 3 1] by auto

end
