(* ===== verification/Agent_Measure.thy ===== *)
theory Agent_Measure
  imports Agent_Samples Agent_Workload
begin

text \<open>
  What the agent measures (\<open>internal/agent/runner.go\<close>: \<open>measurements\<close> and its methods). Every
  method below holds the mutex of the record or changes one atomic counter, so it is one step on the
  shared record; \<open>now\<close> is the reading of the clock. Cancelling the run's context is the only effect
  outside of the record; whether it was cancelled is kept in \<open>me_runCancelled\<close>.
\<close>

definition maxTimelinePoints :: int where
  "maxTimelinePoints = MaxDurationSeconds + 600"

definition maxSecondSamples :: int where
  "maxSecondSamples = 1000"

abbreviation phaseWarmup :: string where "phaseWarmup \<equiv> ''warmup''"
abbreviation phaseLoad :: string where "phaseLoad \<equiv> ''load''"
abbreviation phaseDrain :: string where "phaseDrain \<equiv> ''drain''"
abbreviation phaseCooldown :: string where "phaseCooldown \<equiv> ''cooldown''"
abbreviation phaseDone :: string where "phaseDone \<equiv> ''done''"

record timelineMeasurement =
  tm_issued :: int
  tm_completed :: int
  tm_successes :: int
  tm_failures :: int
  tm_cancelled :: int
  tm_active :: int
  tm_waiting :: int
  tm_targetLoad :: int
  tm_latencies :: "int list"

record scenarioMeasurement =
  sm_issued :: int
  sm_completed :: int
  sm_failures :: int
  sm_cancelled :: int
  sm_latencies :: sampleSet
  sm_ttfts :: sampleSet
  sm_outputTokens :: int
  sm_inputTokens :: int

record modelTiming =
  mt_ttft :: int
  mt_ttfo :: int
  mt_tpot :: int
  mt_itls :: "int list"
  mt_chunks :: int
  mt_usageReported :: bool
  mt_answer :: string

record attempt =
  at_scheduledAt :: int
  at_startedAt :: int
  at_scenario :: string
  at_steady :: bool

record measurements =
  me_started :: int
  me_steadyAfter :: int
  me_issued :: int
  me_cancelled :: int
  me_httpFailures :: int
  me_transportErrors :: int
  me_successes :: int
  me_goodput :: int
  me_dropped :: int
  me_sessions :: int
  me_completedSessions :: int
  me_latencies :: sampleSet
  me_ttfts :: sampleSet
  me_ttfos :: sampleSet
  me_itls :: sampleSet
  me_tpots :: sampleSet
  me_generatorDelays :: sampleSet
  me_steadySamples :: int
  me_missingUsage :: int
  me_contentChunks :: int
  me_statusCounts :: "int smap"
  me_errors :: "string list"
  me_tokens :: TokenUsage
  me_timeline :: "(int, timelineMeasurement) fmap"
  me_scenarios :: "scenarioMeasurement smap"
  me_scenarioOrder :: "string list"
  me_active :: int
  me_waiting :: int
  me_targetLoad :: int
  me_phase :: string
  me_drainedSeconds :: int
  me_consecutiveFailures :: int
  me_backoffEvents :: int
  me_backoffMillis :: int
  me_sequence :: int
  me_journeySequence :: int
  me_stopped :: bool
  me_guardrail :: string
  me_runCancelled :: bool

definition zero_timelineMeasurement :: timelineMeasurement where
  "zero_timelineMeasurement = \<lparr>tm_issued = 0, tm_completed = 0, tm_successes = 0, tm_failures = 0,
     tm_cancelled = 0, tm_active = 0, tm_waiting = 0, tm_targetLoad = 0, tm_latencies = []\<rparr>"

definition zero_scenarioMeasurement :: scenarioMeasurement where
  "zero_scenarioMeasurement = \<lparr>sm_issued = 0, sm_completed = 0, sm_failures = 0, sm_cancelled = 0,
     sm_latencies = zero_sampleSet, sm_ttfts = zero_sampleSet, sm_outputTokens = 0, sm_inputTokens = 0\<rparr>"

definition zero_modelTiming :: modelTiming where
  "zero_modelTiming = \<lparr>mt_ttft = 0, mt_ttfo = 0, mt_tpot = 0, mt_itls = [], mt_chunks = 0,
     mt_usageReported = False, mt_answer = []\<rparr>"

text \<open>The record \<open>RunTargetWithProgress\<close> starts from.\<close>

definition new_measurements :: "int \<Rightarrow> RunConfig \<Rightarrow> measurements" where
  "new_measurements now config = \<lparr>me_started = now,
     me_steadyAfter = i64 (rc_SteadyStateSeconds config * Second), me_issued = 0, me_cancelled = 0,
     me_httpFailures = 0, me_transportErrors = 0, me_successes = 0, me_goodput = 0, me_dropped = 0,
     me_sessions = 0, me_completedSessions = 0, me_latencies = zero_sampleSet, me_ttfts = zero_sampleSet,
     me_ttfos = zero_sampleSet, me_itls = zero_sampleSet, me_tpots = zero_sampleSet,
     me_generatorDelays = zero_sampleSet, me_steadySamples = 0, me_missingUsage = 0,
     me_contentChunks = 0, me_statusCounts = fmempty, me_errors = [], me_tokens = zero_TokenUsage,
     me_timeline = fmempty, me_scenarios = fmempty, me_scenarioOrder = [], me_active = 0, me_waiting = 0,
     me_targetLoad = 0, me_phase = phaseWarmup, me_drainedSeconds = 0, me_consecutiveFailures = 0,
     me_backoffEvents = 0, me_backoffMillis = 0, me_sequence = 0, me_journeySequence = 0,
     me_stopped = False, me_guardrail = [], me_runCancelled = False\<rparr>"

definition reset :: "int \<Rightarrow> measurements \<Rightarrow> measurements" where
  "reset now m = m\<lparr>me_started := now, me_issued := 0, me_cancelled := 0, me_httpFailures := 0,
     me_transportErrors := 0, me_successes := 0, me_goodput := 0, me_dropped := 0, me_sessions := 0,
     me_completedSessions := 0, me_stopped := False, me_guardrail := [],
     me_latencies := zero_sampleSet, me_ttfts := zero_sampleSet, me_ttfos := zero_sampleSet,
     me_itls := zero_sampleSet, me_tpots := zero_sampleSet, me_generatorDelays := zero_sampleSet,
     me_steadySamples := 0, me_missingUsage := 0, me_contentChunks := 0, me_statusCounts := fmempty,
     me_errors := [], me_tokens := zero_TokenUsage, me_timeline := fmempty, me_scenarios := fmempty,
     me_scenarioOrder := []\<rparr>"

definition setPhase :: "string \<Rightarrow> measurements \<Rightarrow> measurements" where
  "setPhase phase m = m\<lparr>me_phase := phase\<rparr>"

subsection \<open>The timeline and the scenarios\<close>

text \<open>\<open>timelineAtLocked\<close> returns a pointer through which the caller changes the point, or \<open>nil\<close> when
  the timeline is full. Here the change is an argument.\<close>

definition timelineAtLocked ::
    "int \<Rightarrow> (timelineMeasurement \<Rightarrow> timelineMeasurement) \<Rightarrow> measurements \<Rightarrow> measurements" where
  "timelineAtLocked second change m =
     (case fmlookup (me_timeline m) second of
        Some point \<Rightarrow> m\<lparr>me_timeline := fmupd second (change point) (me_timeline m)\<rparr>
      | None \<Rightarrow>
          if int (fcard (fmdom (me_timeline m))) \<ge> maxTimelinePoints then m
          else m\<lparr>me_timeline := fmupd second (change zero_timelineMeasurement) (me_timeline m)\<rparr>)"

definition scenarioLocked ::
    "string \<Rightarrow> (scenarioMeasurement \<Rightarrow> scenarioMeasurement) \<Rightarrow> measurements \<Rightarrow> measurements" where
  "scenarioLocked name change m =
     (case fmlookup (me_scenarios m) name of
        Some entry \<Rightarrow> m\<lparr>me_scenarios := fmupd name (change entry) (me_scenarios m)\<rparr>
      | None \<Rightarrow> m\<lparr>me_scenarios := fmupd name (change zero_scenarioMeasurement) (me_scenarios m),
                 me_scenarioOrder := me_scenarioOrder m @ [name]\<rparr>)"

text \<open>\<open>if call.scenario != "" { \<dots> }\<close>\<close>

definition for_scenario ::
    "string \<Rightarrow> (scenarioMeasurement \<Rightarrow> scenarioMeasurement) \<Rightarrow> measurements \<Rightarrow> measurements" where
  "for_scenario name change m = (if name \<noteq> [] then scenarioLocked name change m else m)"

datatype timelineOutcome = timelineSuccess | timelineFailure | timelineCancelled

definition add_latency :: "int \<Rightarrow> timelineMeasurement \<Rightarrow> timelineMeasurement" where
  "add_latency latency point =
     (if int (length (tm_latencies point)) < maxSecondSamples
      then point\<lparr>tm_latencies := tm_latencies point @ [latency]\<rparr> else point)"

definition timeline_outcome :: "int \<Rightarrow> timelineOutcome \<Rightarrow> timelineMeasurement \<Rightarrow> timelineMeasurement" where
  "timeline_outcome latency outcome point = (case outcome of
     timelineSuccess \<Rightarrow> add_latency latency (point\<lparr>tm_successes := i64 (tm_successes point + 1),
       tm_completed := i64 (tm_completed point + 1)\<rparr>)
   | timelineFailure \<Rightarrow> add_latency latency (point\<lparr>tm_failures := i64 (tm_failures point + 1),
       tm_completed := i64 (tm_completed point + 1)\<rparr>)
   | timelineCancelled \<Rightarrow> point\<lparr>tm_cancelled := i64 (tm_cancelled point + 1)\<rparr>)"

definition recordTimelineLocked :: "int \<Rightarrow> int \<Rightarrow> timelineOutcome \<Rightarrow> measurements \<Rightarrow> measurements" where
  "recordTimelineLocked now latency outcome m =
     timelineAtLocked (int64_of (Seconds (time_Sub now (me_started m)))) (timeline_outcome latency outcome) m"

definition appendErrorLocked :: "string \<Rightarrow> measurements \<Rightarrow> measurements" where
  "appendErrorLocked message m =
     (if length (me_errors m) \<ge> 20 then m else m\<lparr>me_errors := me_errors m @ [take 180 message]\<rparr>)"

definition count_status :: "int \<Rightarrow> measurements \<Rightarrow> measurements" where
  "count_status status m = m\<lparr>me_statusCounts := fmupd (dec_int status)
     (i64 (get_or 0 (me_statusCounts m) (dec_int status) + 1)) (me_statusCounts m)\<rparr>"

subsection \<open>Issuing a request\<close>

text \<open>\<open>scheduled\<close> is \<open>None\<close> for the zero time.\<close>

definition beginAttempt :: "string \<Rightarrow> int option \<Rightarrow> int \<Rightarrow> measurements \<Rightarrow> attempt \<times> measurements" where
  "beginAttempt scenario scheduled now m =
     (let scheduled = (case scheduled of None \<Rightarrow> now | Some t \<Rightarrow> if t > now then now else t);
          offset = time_Sub scheduled (me_started m);
          m = m\<lparr>me_issued := i64 (me_issued m + 1)\<rparr>;
          m = timelineAtLocked (int64_of (Seconds offset))
                (\<lambda>point. point\<lparr>tm_issued := i64 (tm_issued point + 1)\<rparr>) m;
          m = for_scenario scenario (\<lambda>entry. entry\<lparr>sm_issued := i64 (sm_issued entry + 1)\<rparr>) m;
          m = m\<lparr>me_generatorDelays :=
                sample_add (Milliseconds (time_Sub now scheduled)) (me_generatorDelays m)\<rparr>
      in (\<lparr>at_scheduledAt = scheduled, at_startedAt = now, at_scenario = scenario,
           at_steady = (offset \<ge> me_steadyAfter m)\<rparr>, m))"

subsection \<open>Recording how a request ended\<close>

definition meetsSLO :: "int \<Rightarrow> modelTiming \<Rightarrow> TokenUsage \<Rightarrow> RunConfig \<Rightarrow> bool" where
  "meetsSLO latency timing usage config =
     (if rc_MaxP95Millis config > 0 \<and> latency > rc_MaxP95Millis config \<or>
         rc_MaxTTFTP95Millis config > 0 \<and> mt_ttft timing > rc_MaxTTFTP95Millis config \<or>
         rc_MaxTTPOTP95Millis config > 0 \<and> mt_tpot timing > rc_MaxTTPOTP95Millis config then False
      else if fless fzero (rc_MinOutputTokensPerSecond config) \<and> latency > 0 \<and>
         fless (fdiv (fmul (f_of_int (tu_Completion usage)) (f_of_int 1000)) (f_of_int latency))
           (rc_MinOutputTokensPerSecond config) then False
      else True)"

definition guardrail_message :: "RunConfig \<Rightarrow> measurements \<Rightarrow> string" where
  "guardrail_message config m =
     (let message = (if rc_MaxP95Millis config > 0 \<and> p95 (ss_values (me_latencies m)) > rc_MaxP95Millis config
            then ''E2E P95 SLO exceeded'' else []);
          message = (if message = [] \<and> rc_MaxTTFTP95Millis config > 0 \<and>
              p95 (ss_values (me_ttfts m)) > rc_MaxTTFTP95Millis config
            then ''TTFT P95 SLO exceeded'' else message);
          message = (if message = [] \<and> rc_MaxTTPOTP95Millis config > 0 \<and>
              p95 (ss_values (me_tpots m)) > rc_MaxTTPOTP95Millis config
            then ''TPOT P95 SLO exceeded'' else message);
          finished = i64 (me_successes m + me_httpFailures m + me_transportErrors m)
      in if message = [] \<and> fless fzero (rc_MinGoodputPercent config) \<and> finished > 0 \<and>
            fless (fpercent (me_goodput m) finished) (rc_MinGoodputPercent config)
         then ''goodput SLO not met'' else message)"

definition maybeStopLocked :: "RunConfig \<Rightarrow> measurements \<Rightarrow> measurements" where
  "maybeStopLocked config m =
     (if me_stopped m \<or> me_steadySamples m < 10 then m
      else
        let message = guardrail_message config m
        in if message \<noteq> []
           then m\<lparr>me_stopped := True, me_guardrail := message, me_runCancelled := True\<rparr> else m)"

definition steady_samples :: "int \<Rightarrow> modelTiming \<Rightarrow> measurements \<Rightarrow> measurements" where
  "steady_samples latency timing m =
     m\<lparr>me_steadySamples := i64 (me_steadySamples m + 1),
       me_latencies := sample_add latency (me_latencies m),
       me_ttfts := sample_add (mt_ttft timing) (me_ttfts m),
       me_ttfos := sample_add (mt_ttfo timing) (me_ttfos m),
       me_itls := sample_addAll (mt_itls timing) (me_itls m),
       me_tpots := (if mt_tpot timing > 0 then sample_add (mt_tpot timing) (me_tpots m) else me_tpots m)\<rparr>"

definition add_usage :: "TokenUsage \<Rightarrow> TokenUsage \<Rightarrow> TokenUsage" where
  "add_usage tokens usage = tokens\<lparr>tu_Prompt := i64 (tu_Prompt tokens + tu_Prompt usage),
     tu_Completion := i64 (tu_Completion tokens + tu_Completion usage),
     tu_Reasoning := i64 (tu_Reasoning tokens + tu_Reasoning usage)\<rparr>"

definition scenario_success ::
    "bool \<Rightarrow> int \<Rightarrow> modelTiming \<Rightarrow> TokenUsage \<Rightarrow> scenarioMeasurement \<Rightarrow> scenarioMeasurement" where
  "scenario_success steady latency timing usage entry =
     (let entry = entry\<lparr>sm_completed := i64 (sm_completed entry + 1),
            sm_outputTokens := i64 (sm_outputTokens entry + tu_Completion usage),
            sm_inputTokens := i64 (sm_inputTokens entry + tu_Prompt usage)\<rparr>
      in if steady
         then entry\<lparr>sm_latencies := sample_add latency (sm_latencies entry),
                    sm_ttfts := sample_add (mt_ttft timing) (sm_ttfts entry)\<rparr>
         else entry)"

definition recordSuccess ::
    "attempt \<Rightarrow> int \<Rightarrow> modelTiming \<Rightarrow> int \<Rightarrow> TokenUsage \<Rightarrow> RunConfig \<Rightarrow> int \<Rightarrow> measurements \<Rightarrow> measurements" where
  "recordSuccess call latency timing status usage config now m =
     (let m = m\<lparr>me_consecutiveFailures := 0\<rparr>;
          m = m\<lparr>me_successes := i64 (me_successes m + 1)\<rparr>;
          m = (if at_steady call then steady_samples latency timing m else m);
          m = count_status status m;
          m = m\<lparr>me_tokens := add_usage (me_tokens m) usage,
                me_contentChunks := i64 (me_contentChunks m + mt_chunks timing)\<rparr>;
          m = (if \<not> mt_usageReported timing then m\<lparr>me_missingUsage := i64 (me_missingUsage m + 1)\<rparr> else m);
          m = (if meetsSLO latency timing usage config then m\<lparr>me_goodput := i64 (me_goodput m + 1)\<rparr> else m);
          m = for_scenario (at_scenario call)
                (scenario_success (at_steady call) latency timing usage) m;
          m = recordTimelineLocked now latency timelineSuccess m
      in maybeStopLocked config m)"

definition recordDropped :: "measurements \<Rightarrow> measurements" where
  "recordDropped m = m\<lparr>me_dropped := i64 (me_dropped m + 1)\<rparr>"

definition startSession :: "measurements \<Rightarrow> measurements" where
  "startSession m = m\<lparr>me_sessions := i64 (me_sessions m + 1)\<rparr>"

definition completeSession :: "bool \<Rightarrow> measurements \<Rightarrow> measurements" where
  "completeSession completed m =
     (if completed then m\<lparr>me_completedSessions := i64 (me_completedSessions m + 1)\<rparr> else m)"

definition recordCancelled :: "attempt \<Rightarrow> int \<Rightarrow> measurements \<Rightarrow> measurements" where
  "recordCancelled call now m =
     (let m = m\<lparr>me_cancelled := i64 (me_cancelled m + 1)\<rparr>;
          m = for_scenario (at_scenario call)
                (\<lambda>entry. entry\<lparr>sm_cancelled := i64 (sm_cancelled entry + 1)\<rparr>) m
      in recordTimelineLocked now (Milliseconds (time_Sub now (at_scheduledAt call))) timelineCancelled m)"

definition recordTransportError :: "attempt \<Rightarrow> string \<Rightarrow> int \<Rightarrow> measurements \<Rightarrow> measurements" where
  "recordTransportError call message now m =
     (let m = m\<lparr>me_consecutiveFailures := i64 (me_consecutiveFailures m + 1)\<rparr>;
          m = m\<lparr>me_transportErrors := i64 (me_transportErrors m + 1)\<rparr>;
          m = appendErrorLocked message m;
          m = for_scenario (at_scenario call)
                (\<lambda>entry. entry\<lparr>sm_failures := i64 (sm_failures entry + 1)\<rparr>) m
      in recordTimelineLocked now (Milliseconds (time_Sub now (at_scheduledAt call))) timelineFailure m)"

definition recordHTTPFailure ::
    "attempt \<Rightarrow> int \<Rightarrow> int \<Rightarrow> string \<Rightarrow> int \<Rightarrow> measurements \<Rightarrow> measurements" where
  "recordHTTPFailure call latency status message now m =
     (let m = m\<lparr>me_consecutiveFailures := i64 (me_consecutiveFailures m + 1)\<rparr>;
          m = m\<lparr>me_httpFailures := i64 (me_httpFailures m + 1)\<rparr>;
          m = count_status status m;
          m = appendErrorLocked message m;
          m = for_scenario (at_scenario call)
                (\<lambda>entry. entry\<lparr>sm_failures := i64 (sm_failures entry + 1),
                               sm_completed := i64 (sm_completed entry + 1)\<rparr>) m
      in recordTimelineLocked now latency timelineFailure m)"

text \<open>An error of the HTTP client: whether it is one of the two context errors, and its text.\<close>

record request_error =
  err_context :: bool
  err_text :: string

definition recordAborted :: "attempt \<Rightarrow> bool \<Rightarrow> request_error \<Rightarrow> int \<Rightarrow> measurements \<Rightarrow> measurements" where
  "recordAborted call ctx_done err now m =
     (if ctx_done \<or> err_context err then recordCancelled call now m
      else recordTransportError call (err_text err) now m)"

subsection \<open>Gauges\<close>

definition sampleGauges :: "int \<Rightarrow> measurements \<Rightarrow> RunProgress \<times> measurements" where
  "sampleGauges now m =
     (let active = me_active m; waiting = me_waiting m; target = me_targetLoad m;
          elapsed = Seconds (time_Sub now (me_started m)); second = int64_of elapsed;
          m = timelineAtLocked second (\<lambda>point. point\<lparr>tm_active := max (tm_active point) active,
                tm_waiting := max (tm_waiting point) waiting,
                tm_targetLoad := max (tm_targetLoad point) target\<rparr>) m;
          completed = i64 (me_successes m + me_httpFailures m)
      in (\<lparr>rp_ShardID = [], rp_Phase = me_phase m, rp_Second = second, rp_TargetLoad = target,
           rp_Active = active, rp_Waiting = waiting, rp_Issued = me_issued m, rp_Completed = completed,
           rp_Failures = i64 (me_httpFailures m + me_transportErrors m), rp_Cancelled = me_cancelled m,
           rp_Dropped = me_dropped m,
           rp_CompletedRPS = (if fless fzero elapsed then fdiv (f_of_int completed) elapsed else fzero)\<rparr>, m))"

subsection \<open>The result\<close>

definition timeline_point :: "int \<Rightarrow> timelineMeasurement \<Rightarrow> TimelinePoint" where
  "timeline_point second point =
     \<lparr>tp_Second = second, tp_Requests = i64 (tm_successes point + tm_failures point),
      tp_Successes = tm_successes point, tp_Failures = tm_failures point,
      tp_P95Millis = p95 (tm_latencies point), tp_Issued = tm_issued point,
      tp_Completed = tm_completed point, tp_Cancelled = tm_cancelled point,
      tp_Active = tm_active point, tp_Waiting = tm_waiting point, tp_TargetLoad = tm_targetLoad point\<rparr>"

text \<open>\<open>ord\<close> is the order in which Go iterates over the timeline; the seconds are distinct.\<close>

definition result_timeline :: "int list \<Rightarrow> measurements \<Rightarrow> TimelinePoint list" where
  "result_timeline ord m = sort_key tp_Second
     (map (\<lambda>second. timeline_point second (get_or zero_timelineMeasurement (me_timeline m) second)) ord)"

definition scenario_item :: "float64 \<Rightarrow> measurements \<Rightarrow> string \<Rightarrow> ScenarioResult" where
  "scenario_item elapsed m name =
     (let entry = get_or zero_scenarioMeasurement (me_scenarios m) name;
          latencies = ss_values (sm_latencies entry); ttfts = ss_values (sm_ttfts entry)
      in \<lparr>scr_Name = name, scr_Issued = sm_issued entry, scr_Completed = sm_completed entry,
          scr_Failures = sm_failures entry, scr_Cancelled = sm_cancelled entry,
          scr_CompletionPercent =
            (if sm_issued entry > 0 then fpercent (sm_completed entry) (sm_issued entry) else fzero),
          scr_Latency = agent_distribution latencies, scr_TTFT = agent_distribution ttfts,
          scr_OutputTokens = sm_outputTokens entry,
          scr_OutputPerSecond =
            (if fless fzero elapsed then fdiv (f_of_int (sm_outputTokens entry)) elapsed else fzero),
          scr_InputTokens = sm_inputTokens entry,
          scr_Samples = (if latencies \<noteq> [] \<or> ttfts \<noteq> []
            then Some (zero_RunSamples\<lparr>smp_Latency := latencies, smp_TTFT := ttfts,
              smp_Decimated := (ss_decimated (sm_latencies entry) \<or> ss_decimated (sm_ttfts entry))\<rparr>)
            else None)\<rparr>)"

definition result_samples :: "measurements \<Rightarrow> RunSamples option" where
  "result_samples m =
     (if ss_values (me_latencies m) \<noteq> [] \<or> ss_values (me_ttfts m) \<noteq> [] \<or> ss_values (me_itls m) \<noteq> []
      then Some \<lparr>smp_Latency = ss_values (me_latencies m), smp_TTFT = ss_values (me_ttfts m),
        smp_TTFO = ss_values (me_ttfos m), smp_ITL = ss_values (me_itls m),
        smp_TPOT = ss_values (me_tpots m),
        smp_Decimated = (ss_decimated (me_latencies m) \<or> ss_decimated (me_ttfts m) \<or>
          ss_decimated (me_ttfos m) \<or> ss_decimated (me_itls m) \<or> ss_decimated (me_tpots m))\<rparr>
      else None)"

definition measured_result :: "RunConfig \<Rightarrow> int list \<Rightarrow> int \<Rightarrow> measurements \<Rightarrow> RunResult" where
  "measured_result config ord now m =
     (let completed = i64 (me_successes m + me_httpFailures m);
          failures = i64 (me_httpFailures m + me_transportErrors m);
          whole = i64 (me_successes m + failures);
          elapsed = Seconds (time_Sub now (me_started m));
          tokens = (if fless fzero elapsed
            then (me_tokens m)\<lparr>tu_OutputPerSecond := fdiv (f_of_int (tu_Completion (me_tokens m))) elapsed\<rparr>
            else me_tokens m);
          samples = result_samples m
      in zero_RunResult\<lparr>rr_Successes := me_successes m, rr_Failures := failures,
        rr_P95Millis := p95 (ss_values (me_latencies m)), rr_TTFTP95Millis := p95 (ss_values (me_ttfts m)),
        rr_Total := whole, rr_ThroughputRPS := fdiv (f_of_int whole) elapsed,
        rr_Latency := agent_distribution (ss_values (me_latencies m)),
        rr_TTFT := agent_distribution (ss_values (me_ttfts m)),
        rr_TTFO := agent_distribution (ss_values (me_ttfos m)),
        rr_ITL := agent_distribution (ss_values (me_itls m)),
        rr_TPOT := agent_distribution (ss_values (me_tpots m)), rr_Tokens := tokens,
        rr_GoodputPercent := (if whole > 0 then fpercent (me_goodput m) whole else fzero),
        rr_DroppedArrivals := me_dropped m, rr_StoppedByGuardrail := me_stopped m,
        rr_GuardrailMessage := me_guardrail m, rr_AgentSessions := me_sessions m,
        rr_CompletedSessions := me_completedSessions m, rr_StatusCounts := me_statusCounts m,
        rr_Errors := me_errors m, rr_Timeline := result_timeline ord m, rr_Issued := me_issued m,
        rr_Completed := completed, rr_Cancelled := me_cancelled m, rr_HTTPFailures := me_httpFailures m,
        rr_TransportErrors := me_transportErrors m,
        rr_CompletionPercent := (if me_issued m > 0 then fpercent completed (me_issued m) else fzero),
        rr_SteadySeconds := int64_of (Seconds (me_steadyAfter m)), rr_SteadySamples := me_steadySamples m,
        rr_Scenarios := map (scenario_item elapsed m) (me_scenarioOrder m),
        rr_DrainedSeconds := me_drainedSeconds m, rr_Samples := samples,
        rr_GeneratorDelay := agent_distribution (ss_values (me_generatorDelays m)),
        rr_LatencyFromIntendedArrival := (rc_Mode config = LoadModeRPS),
        rr_MissingUsageResponses := me_missingUsage m, rr_ContentChunks := me_contentChunks m,
        rr_OutputLengthPinned := rc_IgnoreEOS config, rr_ContextAccumulated := rc_AccumulateContext config,
        rr_SamplesDecimated := (case samples of None \<Rightarrow> False | Some s \<Rightarrow> smp_Decimated s),
        rr_BackoffEvents := me_backoffEvents m,
        rr_BackoffSeconds := Seconds (i64 (me_backoffMillis m * Millisecond))\<rparr>)"

subsection \<open>Backing off and thinking\<close>

text \<open>The part of \<open>backoffBeforeAttempt\<close> before it waits: how long, and what it counts.\<close>

definition backoffBeforeAttempt :: "(int \<Rightarrow> int) \<Rightarrow> measurements \<Rightarrow> int \<times> measurements" where
  "backoffBeforeAttempt Int63n m =
     (if me_consecutiveFailures m < circuitBreakerThreshold then (0, m)
      else
        let delay = backoffDelay Int63n (me_consecutiveFailures m)
        in (delay, m\<lparr>me_backoffEvents := i64 (me_backoffEvents m + 1),
              me_backoffMillis := i64 (me_backoffMillis m + Milliseconds delay)\<rparr>))"

end
