(* ===== verification/Agent_Events.thy ===== *)
theory Agent_Events
  imports Agent_Measure Lo_Fold
begin

text \<open>
  Many requests run at once, but each of their calls into the measurements is one step. An execution
  is therefore a sequence of events, in the order in which they take the lock, and \<open>agent_run\<close> says
  which sequences the agent can produce: a request ends only after it was issued, and only once. The
  lemmas give every counter, sample set and gauge of the measurements as a function of the events
  alone, through the contracts of \<open>Lo_Fold\<close> and the contract \<open>sampled\<close> of a sample set.
\<close>

datatype agent_event =
    Issue string "int option" int
  | Succeed attempt int modelTiming int TokenUsage RunConfig int
  | FailHTTP attempt int int string int
  | FailTransport attempt string int
  | Abort attempt bool request_error int
  | DropArrival
  | StartSession
  | CompleteSession bool
  | Gauges int
  | Backoff "int \<Rightarrow> int"
  | Active int
  | Waiting int
  | TargetLoad int
  | Phase string
  | Drained int
  | NextSequence
  | NextJourney

primrec event_step :: "measurements \<Rightarrow> agent_event \<Rightarrow> measurements" where
  "event_step m (Issue scenario scheduled now) = snd (beginAttempt scenario scheduled now m)"
| "event_step m (Succeed call latency timing status usage config now) =
     recordSuccess call latency timing status usage config now m"
| "event_step m (FailHTTP call latency status message now) =
     recordHTTPFailure call latency status message now m"
| "event_step m (FailTransport call message now) = recordTransportError call message now m"
| "event_step m (Abort call ctx_done err now) = recordAborted call ctx_done err now m"
| "event_step m DropArrival = recordDropped m"
| "event_step m StartSession = startSession m"
| "event_step m (CompleteSession completed) = completeSession completed m"
| "event_step m (Gauges now) = snd (sampleGauges now m)"
| "event_step m (Backoff Int63n) = snd (backoffBeforeAttempt Int63n m)"
| "event_step m (Active d) = m\<lparr>me_active := i64 (me_active m + d)\<rparr>"
| "event_step m (Waiting d) = m\<lparr>me_waiting := i64 (me_waiting m + d)\<rparr>"
| "event_step m (TargetLoad n) = m\<lparr>me_targetLoad := n\<rparr>"
| "event_step m (Phase phase) = setPhase phase m"
| "event_step m (Drained d) = m\<lparr>me_drainedSeconds := i64 (me_drainedSeconds m + d)\<rparr>"
| "event_step m NextSequence = m\<lparr>me_sequence := i64 (me_sequence m + 1)\<rparr>"
| "event_step m NextJourney = m\<lparr>me_journeySequence := i64 (me_journeySequence m + 1)\<rparr>"

text \<open>How a request ended, when the event ends one.\<close>

datatype ending = Succeeded | HTTPFailed | TransportFailed | WasCancelled

primrec ended :: "agent_event \<Rightarrow> (attempt \<times> ending) option" where
  "ended (Issue _ _ _) = None"
| "ended (Succeed call _ _ _ _ _ _) = Some (call, Succeeded)"
| "ended (FailHTTP call _ _ _ _) = Some (call, HTTPFailed)"
| "ended (FailTransport call _ _) = Some (call, TransportFailed)"
| "ended (Abort call ctx_done err _) =
     Some (call, if ctx_done \<or> err_context err then WasCancelled else TransportFailed)"
| "ended DropArrival = None"
| "ended StartSession = None"
| "ended (CompleteSession _) = None"
| "ended (Gauges _) = None"
| "ended (Backoff _) = None"
| "ended (Active _) = None"
| "ended (Waiting _) = None"
| "ended (TargetLoad _) = None"
| "ended (Phase _) = None"
| "ended (Drained _) = None"
| "ended NextSequence = None"
| "ended NextJourney = None"

definition is_issue :: "agent_event \<Rightarrow> bool" where
  "is_issue e \<longleftrightarrow> (case e of Issue _ _ _ \<Rightarrow> True | _ \<Rightarrow> False)"

definition ends :: "ending \<Rightarrow> agent_event \<Rightarrow> bool" where
  "ends k e \<longleftrightarrow> (case ended e of None \<Rightarrow> False | Some (_, k') \<Rightarrow> k' = k)"

text \<open>The executions of the agent: the events so far, the requests in flight, the measurements.\<close>

inductive agent_run :: "measurements \<Rightarrow> agent_event list \<Rightarrow> attempt multiset \<Rightarrow> measurements \<Rightarrow> bool"
  for m0 :: measurements where
  start: "agent_run m0 [] {#} m0"
| issue: "agent_run m0 es flight m \<Longrightarrow> beginAttempt scenario scheduled now m = (call, m') \<Longrightarrow>
    agent_run m0 (es @ [Issue scenario scheduled now]) (add_mset call flight) m'"
| finish: "agent_run m0 es flight m \<Longrightarrow> ended e = Some (call, k) \<Longrightarrow> call \<in># flight \<Longrightarrow>
    agent_run m0 (es @ [e]) (flight - {#call#}) (event_step m e)"
| other: "agent_run m0 es flight m \<Longrightarrow> ended e = None \<Longrightarrow> \<not> is_issue e \<Longrightarrow>
    agent_run m0 (es @ [e]) flight (event_step m e)"

lemma agent_run_fold: "agent_run m0 es flight m \<Longrightarrow> m = foldl event_step m0 es"
  by (induction rule: agent_run.induct) simp_all

text \<open>The contract of a sample set: every step adds some samples to it.\<close>

locale sampled =
  fixes step :: "'s \<Rightarrow> 'v \<Rightarrow> 's" and get :: "'s \<Rightarrow> sampleSet" and val :: "'v \<Rightarrow> int list"
  assumes get_step: "get (step s v) = sample_addAll (val v) (get s)"
begin

lemma get_fold: "get (foldl step s vs) = sample_addAll (concat (map val vs)) (get s)"
  by (induction vs arbitrary: s) (simp_all add: get_step sample_addAll_append)

end

subsection \<open>What the helpers leave alone\<close>

lemma timelineAt_frame [simp]:
  "me_started (timelineAtLocked second change m) = me_started m"
  "me_steadyAfter (timelineAtLocked second change m) = me_steadyAfter m"
  "me_issued (timelineAtLocked second change m) = me_issued m"
  "me_cancelled (timelineAtLocked second change m) = me_cancelled m"
  "me_httpFailures (timelineAtLocked second change m) = me_httpFailures m"
  "me_transportErrors (timelineAtLocked second change m) = me_transportErrors m"
  "me_successes (timelineAtLocked second change m) = me_successes m"
  "me_goodput (timelineAtLocked second change m) = me_goodput m"
  "me_dropped (timelineAtLocked second change m) = me_dropped m"
  "me_sessions (timelineAtLocked second change m) = me_sessions m"
  "me_completedSessions (timelineAtLocked second change m) = me_completedSessions m"
  "me_latencies (timelineAtLocked second change m) = me_latencies m"
  "me_ttfts (timelineAtLocked second change m) = me_ttfts m"
  "me_ttfos (timelineAtLocked second change m) = me_ttfos m"
  "me_itls (timelineAtLocked second change m) = me_itls m"
  "me_tpots (timelineAtLocked second change m) = me_tpots m"
  "me_generatorDelays (timelineAtLocked second change m) = me_generatorDelays m"
  "me_steadySamples (timelineAtLocked second change m) = me_steadySamples m"
  "me_missingUsage (timelineAtLocked second change m) = me_missingUsage m"
  "me_contentChunks (timelineAtLocked second change m) = me_contentChunks m"
  "me_statusCounts (timelineAtLocked second change m) = me_statusCounts m"
  "me_errors (timelineAtLocked second change m) = me_errors m"
  "me_tokens (timelineAtLocked second change m) = me_tokens m"
  "me_scenarios (timelineAtLocked second change m) = me_scenarios m"
  "me_scenarioOrder (timelineAtLocked second change m) = me_scenarioOrder m"
  "me_consecutiveFailures (timelineAtLocked second change m) = me_consecutiveFailures m"
  "me_backoffEvents (timelineAtLocked second change m) = me_backoffEvents m"
  "me_backoffMillis (timelineAtLocked second change m) = me_backoffMillis m"
  "me_stopped (timelineAtLocked second change m) = me_stopped m"
  "me_guardrail (timelineAtLocked second change m) = me_guardrail m"
  "me_runCancelled (timelineAtLocked second change m) = me_runCancelled m"
  by (simp_all add: timelineAtLocked_def split: option.split)

lemma scenario_frame [simp]:
  "me_started (for_scenario name change m) = me_started m"
  "me_steadyAfter (for_scenario name change m) = me_steadyAfter m"
  "me_issued (for_scenario name change m) = me_issued m"
  "me_cancelled (for_scenario name change m) = me_cancelled m"
  "me_httpFailures (for_scenario name change m) = me_httpFailures m"
  "me_transportErrors (for_scenario name change m) = me_transportErrors m"
  "me_successes (for_scenario name change m) = me_successes m"
  "me_goodput (for_scenario name change m) = me_goodput m"
  "me_dropped (for_scenario name change m) = me_dropped m"
  "me_sessions (for_scenario name change m) = me_sessions m"
  "me_completedSessions (for_scenario name change m) = me_completedSessions m"
  "me_latencies (for_scenario name change m) = me_latencies m"
  "me_ttfts (for_scenario name change m) = me_ttfts m"
  "me_ttfos (for_scenario name change m) = me_ttfos m"
  "me_itls (for_scenario name change m) = me_itls m"
  "me_tpots (for_scenario name change m) = me_tpots m"
  "me_generatorDelays (for_scenario name change m) = me_generatorDelays m"
  "me_steadySamples (for_scenario name change m) = me_steadySamples m"
  "me_missingUsage (for_scenario name change m) = me_missingUsage m"
  "me_contentChunks (for_scenario name change m) = me_contentChunks m"
  "me_statusCounts (for_scenario name change m) = me_statusCounts m"
  "me_errors (for_scenario name change m) = me_errors m"
  "me_tokens (for_scenario name change m) = me_tokens m"
  "me_timeline (for_scenario name change m) = me_timeline m"
  "me_consecutiveFailures (for_scenario name change m) = me_consecutiveFailures m"
  "me_backoffEvents (for_scenario name change m) = me_backoffEvents m"
  "me_backoffMillis (for_scenario name change m) = me_backoffMillis m"
  "me_stopped (for_scenario name change m) = me_stopped m"
  "me_guardrail (for_scenario name change m) = me_guardrail m"
  "me_runCancelled (for_scenario name change m) = me_runCancelled m"
  by (simp_all add: for_scenario_def scenarioLocked_def split: option.split)

lemma error_frame [simp]:
  "me_started (appendErrorLocked message m) = me_started m"
  "me_steadyAfter (appendErrorLocked message m) = me_steadyAfter m"
  "me_issued (appendErrorLocked message m) = me_issued m"
  "me_cancelled (appendErrorLocked message m) = me_cancelled m"
  "me_httpFailures (appendErrorLocked message m) = me_httpFailures m"
  "me_transportErrors (appendErrorLocked message m) = me_transportErrors m"
  "me_successes (appendErrorLocked message m) = me_successes m"
  "me_goodput (appendErrorLocked message m) = me_goodput m"
  "me_dropped (appendErrorLocked message m) = me_dropped m"
  "me_sessions (appendErrorLocked message m) = me_sessions m"
  "me_completedSessions (appendErrorLocked message m) = me_completedSessions m"
  "me_latencies (appendErrorLocked message m) = me_latencies m"
  "me_ttfts (appendErrorLocked message m) = me_ttfts m"
  "me_ttfos (appendErrorLocked message m) = me_ttfos m"
  "me_itls (appendErrorLocked message m) = me_itls m"
  "me_tpots (appendErrorLocked message m) = me_tpots m"
  "me_generatorDelays (appendErrorLocked message m) = me_generatorDelays m"
  "me_steadySamples (appendErrorLocked message m) = me_steadySamples m"
  "me_missingUsage (appendErrorLocked message m) = me_missingUsage m"
  "me_contentChunks (appendErrorLocked message m) = me_contentChunks m"
  "me_statusCounts (appendErrorLocked message m) = me_statusCounts m"
  "me_tokens (appendErrorLocked message m) = me_tokens m"
  "me_timeline (appendErrorLocked message m) = me_timeline m"
  "me_scenarios (appendErrorLocked message m) = me_scenarios m"
  "me_scenarioOrder (appendErrorLocked message m) = me_scenarioOrder m"
  "me_consecutiveFailures (appendErrorLocked message m) = me_consecutiveFailures m"
  "me_backoffEvents (appendErrorLocked message m) = me_backoffEvents m"
  "me_backoffMillis (appendErrorLocked message m) = me_backoffMillis m"
  "me_stopped (appendErrorLocked message m) = me_stopped m"
  "me_guardrail (appendErrorLocked message m) = me_guardrail m"
  "me_runCancelled (appendErrorLocked message m) = me_runCancelled m"
  by (simp_all add: appendErrorLocked_def)

lemma stop_frame [simp]:
  "me_started (maybeStopLocked config m) = me_started m"
  "me_steadyAfter (maybeStopLocked config m) = me_steadyAfter m"
  "me_issued (maybeStopLocked config m) = me_issued m"
  "me_cancelled (maybeStopLocked config m) = me_cancelled m"
  "me_httpFailures (maybeStopLocked config m) = me_httpFailures m"
  "me_transportErrors (maybeStopLocked config m) = me_transportErrors m"
  "me_successes (maybeStopLocked config m) = me_successes m"
  "me_goodput (maybeStopLocked config m) = me_goodput m"
  "me_dropped (maybeStopLocked config m) = me_dropped m"
  "me_sessions (maybeStopLocked config m) = me_sessions m"
  "me_completedSessions (maybeStopLocked config m) = me_completedSessions m"
  "me_latencies (maybeStopLocked config m) = me_latencies m"
  "me_ttfts (maybeStopLocked config m) = me_ttfts m"
  "me_ttfos (maybeStopLocked config m) = me_ttfos m"
  "me_itls (maybeStopLocked config m) = me_itls m"
  "me_tpots (maybeStopLocked config m) = me_tpots m"
  "me_generatorDelays (maybeStopLocked config m) = me_generatorDelays m"
  "me_steadySamples (maybeStopLocked config m) = me_steadySamples m"
  "me_missingUsage (maybeStopLocked config m) = me_missingUsage m"
  "me_contentChunks (maybeStopLocked config m) = me_contentChunks m"
  "me_statusCounts (maybeStopLocked config m) = me_statusCounts m"
  "me_errors (maybeStopLocked config m) = me_errors m"
  "me_tokens (maybeStopLocked config m) = me_tokens m"
  "me_timeline (maybeStopLocked config m) = me_timeline m"
  "me_scenarios (maybeStopLocked config m) = me_scenarios m"
  "me_scenarioOrder (maybeStopLocked config m) = me_scenarioOrder m"
  "me_consecutiveFailures (maybeStopLocked config m) = me_consecutiveFailures m"
  "me_backoffEvents (maybeStopLocked config m) = me_backoffEvents m"
  "me_backoffMillis (maybeStopLocked config m) = me_backoffMillis m"
  by (simp_all add: maybeStopLocked_def Let_def)

lemmas event_defs = beginAttempt_def recordSuccess_def recordHTTPFailure_def recordTransportError_def
  recordAborted_def recordCancelled_def recordDropped_def startSession_def completeSession_def
  sampleGauges_def backoffBeforeAttempt_def setPhase_def recordTimelineLocked_def steady_samples_def
  count_status_def add_usage_def ends_def is_issue_def Let_def i64_id

subsection \<open>The counters\<close>

interpretation ev_issued: counter event_step me_issued "\<lambda>e. of_bool (is_issue e)"
proof
  show "(me_issued) (event_step m e) = i64 ((me_issued) m + of_bool (is_issue e))" if "in64 ((me_issued) m)" for m e
    using that by (cases e) (simp_all add: event_defs)
qed

interpretation ev_successes: counter event_step me_successes "\<lambda>e. of_bool (ends Succeeded e)"
proof
  show "(me_successes) (event_step m e) = i64 ((me_successes) m + of_bool (ends Succeeded e))" if "in64 ((me_successes) m)" for m e
    using that by (cases e) (simp_all add: event_defs)
qed

interpretation ev_http: counter event_step me_httpFailures "\<lambda>e. of_bool (ends HTTPFailed e)"
proof
  show "(me_httpFailures) (event_step m e) = i64 ((me_httpFailures) m + of_bool (ends HTTPFailed e))" if "in64 ((me_httpFailures) m)" for m e
    using that by (cases e) (simp_all add: event_defs)
qed

interpretation ev_transport: counter event_step me_transportErrors "\<lambda>e. of_bool (ends TransportFailed e)"
proof
  show "(me_transportErrors) (event_step m e) = i64 ((me_transportErrors) m + of_bool (ends TransportFailed e))" if "in64 ((me_transportErrors) m)" for m e
    using that by (cases e) (simp_all add: event_defs)
qed

interpretation ev_cancelled: counter event_step me_cancelled "\<lambda>e. of_bool (ends WasCancelled e)"
proof
  show "(me_cancelled) (event_step m e) = i64 ((me_cancelled) m + of_bool (ends WasCancelled e))" if "in64 ((me_cancelled) m)" for m e
    using that by (cases e) (simp_all add: event_defs)
qed

interpretation ev_goodput: counter event_step me_goodput "\<lambda>e. (case e of Succeed call latency timing status usage config now \<Rightarrow>
       of_bool (meetsSLO latency timing usage config) | _ \<Rightarrow> 0)"
proof
  show "(me_goodput) (event_step m e) = i64 ((me_goodput) m + (case e of Succeed call latency timing status usage config now \<Rightarrow>
       of_bool (meetsSLO latency timing usage config) | _ \<Rightarrow> 0))" if "in64 ((me_goodput) m)" for m e
    using that by (cases e) (simp_all add: event_defs)
qed

interpretation ev_dropped: counter event_step me_dropped "\<lambda>e. (case e of DropArrival \<Rightarrow> 1 | _ \<Rightarrow> 0)"
proof
  show "(me_dropped) (event_step m e) = i64 ((me_dropped) m + (case e of DropArrival \<Rightarrow> 1 | _ \<Rightarrow> 0))" if "in64 ((me_dropped) m)" for m e
    using that by (cases e) (simp_all add: event_defs)
qed

interpretation ev_sessions: counter event_step me_sessions "\<lambda>e. (case e of StartSession \<Rightarrow> 1 | _ \<Rightarrow> 0)"
proof
  show "(me_sessions) (event_step m e) = i64 ((me_sessions) m + (case e of StartSession \<Rightarrow> 1 | _ \<Rightarrow> 0))" if "in64 ((me_sessions) m)" for m e
    using that by (cases e) (simp_all add: event_defs)
qed

interpretation ev_completed_sessions: counter event_step me_completedSessions "\<lambda>e. (case e of CompleteSession completed \<Rightarrow> of_bool completed | _ \<Rightarrow> 0)"
proof
  show "(me_completedSessions) (event_step m e) = i64 ((me_completedSessions) m + (case e of CompleteSession completed \<Rightarrow> of_bool completed | _ \<Rightarrow> 0))" if "in64 ((me_completedSessions) m)" for m e
    using that by (cases e) (simp_all add: event_defs)
qed

interpretation ev_steady: counter event_step me_steadySamples "\<lambda>e. (case e of Succeed call latency timing status usage config now \<Rightarrow>
       of_bool (at_steady call) | _ \<Rightarrow> 0)"
proof
  show "(me_steadySamples) (event_step m e) = i64 ((me_steadySamples) m + (case e of Succeed call latency timing status usage config now \<Rightarrow>
       of_bool (at_steady call) | _ \<Rightarrow> 0))" if "in64 ((me_steadySamples) m)" for m e
    using that by (cases e) (simp_all add: event_defs)
qed

interpretation ev_missing_usage: counter event_step me_missingUsage "\<lambda>e. (case e of Succeed call latency timing status usage config now \<Rightarrow>
       of_bool (\<not> mt_usageReported timing) | _ \<Rightarrow> 0)"
proof
  show "(me_missingUsage) (event_step m e) = i64 ((me_missingUsage) m + (case e of Succeed call latency timing status usage config now \<Rightarrow>
       of_bool (\<not> mt_usageReported timing) | _ \<Rightarrow> 0))" if "in64 ((me_missingUsage) m)" for m e
    using that by (cases e) (simp_all add: event_defs)
qed

interpretation ev_chunks: counter event_step me_contentChunks "\<lambda>e. (case e of Succeed call latency timing status usage config now \<Rightarrow>
       mt_chunks timing | _ \<Rightarrow> 0)"
proof
  show "(me_contentChunks) (event_step m e) = i64 ((me_contentChunks) m + (case e of Succeed call latency timing status usage config now \<Rightarrow>
       mt_chunks timing | _ \<Rightarrow> 0))" if "in64 ((me_contentChunks) m)" for m e
    using that by (cases e) (simp_all add: event_defs)
qed

interpretation ev_prompt_tokens: counter event_step "\<lambda>m. tu_Prompt (me_tokens m)" "\<lambda>e. (case e of Succeed call latency timing status usage config now \<Rightarrow>
       tu_Prompt usage | _ \<Rightarrow> 0)"
proof
  show "(\<lambda>m. tu_Prompt (me_tokens m)) (event_step m e) = i64 ((\<lambda>m. tu_Prompt (me_tokens m)) m + (case e of Succeed call latency timing status usage config now \<Rightarrow>
       tu_Prompt usage | _ \<Rightarrow> 0))" if "in64 ((\<lambda>m. tu_Prompt (me_tokens m)) m)" for m e
    using that by (cases e) (simp_all add: event_defs)
qed

interpretation ev_completion_tokens: counter event_step "\<lambda>m. tu_Completion (me_tokens m)" "\<lambda>e. (case e of Succeed call latency timing status usage config now \<Rightarrow>
       tu_Completion usage | _ \<Rightarrow> 0)"
proof
  show "(\<lambda>m. tu_Completion (me_tokens m)) (event_step m e) = i64 ((\<lambda>m. tu_Completion (me_tokens m)) m + (case e of Succeed call latency timing status usage config now \<Rightarrow>
       tu_Completion usage | _ \<Rightarrow> 0))" if "in64 ((\<lambda>m. tu_Completion (me_tokens m)) m)" for m e
    using that by (cases e) (simp_all add: event_defs)
qed

subsection \<open>The sample sets\<close>

interpretation ev_latencies: sampled event_step me_latencies "\<lambda>e. (case e of Succeed call latency timing status usage config now \<Rightarrow>
       if at_steady call then [latency] else [] | _ \<Rightarrow> [])"
proof
  show "(me_latencies) (event_step m e) = sample_addAll (case e of Succeed call latency timing status usage config now \<Rightarrow>
       if at_steady call then [latency] else [] | _ \<Rightarrow> []) ((me_latencies) m)" for m e
    by (cases e) (simp_all add: event_defs sample_addAll_def)
qed

interpretation ev_ttfts: sampled event_step me_ttfts "\<lambda>e. (case e of Succeed call latency timing status usage config now \<Rightarrow>
       if at_steady call then [mt_ttft timing] else [] | _ \<Rightarrow> [])"
proof
  show "(me_ttfts) (event_step m e) = sample_addAll (case e of Succeed call latency timing status usage config now \<Rightarrow>
       if at_steady call then [mt_ttft timing] else [] | _ \<Rightarrow> []) ((me_ttfts) m)" for m e
    by (cases e) (simp_all add: event_defs sample_addAll_def)
qed

interpretation ev_ttfos: sampled event_step me_ttfos "\<lambda>e. (case e of Succeed call latency timing status usage config now \<Rightarrow>
       if at_steady call then [mt_ttfo timing] else [] | _ \<Rightarrow> [])"
proof
  show "(me_ttfos) (event_step m e) = sample_addAll (case e of Succeed call latency timing status usage config now \<Rightarrow>
       if at_steady call then [mt_ttfo timing] else [] | _ \<Rightarrow> []) ((me_ttfos) m)" for m e
    by (cases e) (simp_all add: event_defs sample_addAll_def)
qed

interpretation ev_itls: sampled event_step me_itls "\<lambda>e. (case e of Succeed call latency timing status usage config now \<Rightarrow>
       if at_steady call then mt_itls timing else [] | _ \<Rightarrow> [])"
proof
  show "(me_itls) (event_step m e) = sample_addAll (case e of Succeed call latency timing status usage config now \<Rightarrow>
       if at_steady call then mt_itls timing else [] | _ \<Rightarrow> []) ((me_itls) m)" for m e
    by (cases e) (simp_all add: event_defs sample_addAll_def)
qed

interpretation ev_tpots: sampled event_step me_tpots "\<lambda>e. (case e of Succeed call latency timing status usage config now \<Rightarrow>
       if at_steady call \<and> 0 < mt_tpot timing then [mt_tpot timing] else [] | _ \<Rightarrow> [])"
proof
  show "(me_tpots) (event_step m e) = sample_addAll (case e of Succeed call latency timing status usage config now \<Rightarrow>
       if at_steady call \<and> 0 < mt_tpot timing then [mt_tpot timing] else [] | _ \<Rightarrow> []) ((me_tpots) m)" for m e
    by (cases e) (simp_all add: event_defs sample_addAll_def)
qed

subsection \<open>The scenarios\<close>

lemma scenarios_if: "me_scenarios (if b then m else m') = (if b then me_scenarios m else me_scenarios m')"
  by simp

definition change_entry ::
    "string \<Rightarrow> (scenarioMeasurement \<Rightarrow> scenarioMeasurement) \<Rightarrow> scenarioMeasurement smap \<Rightarrow> scenarioMeasurement smap" where
  "change_entry name change t =
     (if name = [] then t else fmupd name (change (get_or zero_scenarioMeasurement t name)) t)"

lemma scenarios_changed: "me_scenarios (for_scenario n change m) = change_entry n change (me_scenarios m)"
  by (simp add: for_scenario_def scenarioLocked_def change_entry_def get_or_def split: option.split)

lemma change_entry_at: "get_or zero_scenarioMeasurement (change_entry n change t) name =
    (if n = name \<and> n \<noteq> [] then change (get_or zero_scenarioMeasurement t name)
     else get_or zero_scenarioMeasurement t name)"
  by (simp add: change_entry_def)

lemma scenarios_step:
  "me_scenarios (event_step m e) = (case e of
     Issue scenario _ _ \<Rightarrow>
       change_entry scenario (\<lambda>entry. entry\<lparr>sm_issued := i64 (sm_issued entry + 1)\<rparr>) (me_scenarios m)
   | Succeed call latency timing _ usage _ _ \<Rightarrow>
       change_entry (at_scenario call) (scenario_success (at_steady call) latency timing usage) (me_scenarios m)
   | FailHTTP call _ _ _ _ \<Rightarrow>
       change_entry (at_scenario call) (\<lambda>entry. entry\<lparr>sm_failures := i64 (sm_failures entry + 1),
         sm_completed := i64 (sm_completed entry + 1)\<rparr>) (me_scenarios m)
   | FailTransport call _ _ \<Rightarrow>
       change_entry (at_scenario call) (\<lambda>entry. entry\<lparr>sm_failures := i64 (sm_failures entry + 1)\<rparr>)
         (me_scenarios m)
   | Abort call ctx_done err _ \<Rightarrow>
       (if ctx_done \<or> err_context err
        then change_entry (at_scenario call)
          (\<lambda>entry. entry\<lparr>sm_cancelled := i64 (sm_cancelled entry + 1)\<rparr>) (me_scenarios m)
        else change_entry (at_scenario call)
          (\<lambda>entry. entry\<lparr>sm_failures := i64 (sm_failures entry + 1)\<rparr>) (me_scenarios m))
   | _ \<Rightarrow> me_scenarios m)"
  by (cases e)
    (simp_all add: event_defs scenarios_changed scenarios_if if_distrib [of snd] cong: if_cong split del: if_split)

text \<open>What a scenario's entry counts; \<open>name\<close> is any name but the empty one.\<close>

definition scenario_of :: "string \<Rightarrow> measurements \<Rightarrow> scenarioMeasurement" where
  "scenario_of name m = get_or zero_scenarioMeasurement (me_scenarios m) name"

definition issues_in :: "string \<Rightarrow> agent_event \<Rightarrow> bool" where
  "issues_in name e \<longleftrightarrow> name \<noteq> [] \<and> (case e of Issue scenario _ _ \<Rightarrow> scenario = name | _ \<Rightarrow> False)"

definition ends_in :: "string \<Rightarrow> ending set \<Rightarrow> agent_event \<Rightarrow> bool" where
  "ends_in name ks e \<longleftrightarrow> name \<noteq> [] \<and>
     (case ended e of Some (call, k) \<Rightarrow> at_scenario call = name \<and> k \<in> ks | None \<Rightarrow> False)"

interpretation ev_scenario_issued: counter event_step "\<lambda>m. sm_issued (scenario_of name m)" "\<lambda>e. of_bool (issues_in name e)" for name
proof
  show "sm_issued (scenario_of name (event_step m e)) = i64 (sm_issued (scenario_of name m) + of_bool (issues_in name e))"
    if "in64 (sm_issued (scenario_of name m))" for m e
    using that unfolding scenario_of_def scenarios_step
    by (cases e) (auto simp: change_entry_at issues_in_def ends_in_def scenario_success_def i64_id Let_def)
qed

interpretation ev_scenario_completed: counter event_step "\<lambda>m. sm_completed (scenario_of name m)" "\<lambda>e. of_bool (ends_in name {Succeeded, HTTPFailed} e)" for name
proof
  show "sm_completed (scenario_of name (event_step m e)) = i64 (sm_completed (scenario_of name m) + of_bool (ends_in name {Succeeded, HTTPFailed} e))"
    if "in64 (sm_completed (scenario_of name m))" for m e
    using that unfolding scenario_of_def scenarios_step
    by (cases e) (auto simp: change_entry_at issues_in_def ends_in_def scenario_success_def i64_id Let_def)
qed

interpretation ev_scenario_failures: counter event_step "\<lambda>m. sm_failures (scenario_of name m)" "\<lambda>e. of_bool (ends_in name {HTTPFailed, TransportFailed} e)" for name
proof
  show "sm_failures (scenario_of name (event_step m e)) = i64 (sm_failures (scenario_of name m) + of_bool (ends_in name {HTTPFailed, TransportFailed} e))"
    if "in64 (sm_failures (scenario_of name m))" for m e
    using that unfolding scenario_of_def scenarios_step
    by (cases e) (auto simp: change_entry_at issues_in_def ends_in_def scenario_success_def i64_id Let_def)
qed

interpretation ev_scenario_cancelled: counter event_step "\<lambda>m. sm_cancelled (scenario_of name m)" "\<lambda>e. of_bool (ends_in name {WasCancelled} e)" for name
proof
  show "sm_cancelled (scenario_of name (event_step m e)) = i64 (sm_cancelled (scenario_of name m) + of_bool (ends_in name {WasCancelled} e))"
    if "in64 (sm_cancelled (scenario_of name m))" for m e
    using that unfolding scenario_of_def scenarios_step
    by (cases e) (auto simp: change_entry_at issues_in_def ends_in_def scenario_success_def i64_id Let_def)
qed

subsection \<open>The timeline\<close>

definition change_point ::
    "int \<Rightarrow> (timelineMeasurement \<Rightarrow> timelineMeasurement) \<Rightarrow> (int, timelineMeasurement) fmap
     \<Rightarrow> (int, timelineMeasurement) fmap" where
  "change_point second change t =
     (if second |\<notin>| fmdom t \<and> maxTimelinePoints \<le> int (fcard (fmdom t)) then t
      else fmupd second (change (get_or zero_timelineMeasurement t second)) t)"

lemma timeline_changed: "me_timeline (timelineAtLocked second change m) = change_point second change (me_timeline m)"
  by (auto simp: timelineAtLocked_def change_point_def get_or_def fmlookup_dom_iff split: option.split)

text \<open>Which point of the timeline an event changes, and how.\<close>

definition point_change ::
    "measurements \<Rightarrow> agent_event \<Rightarrow> (int \<times> (timelineMeasurement \<Rightarrow> timelineMeasurement)) option" where
  "point_change m e = (case e of
     Issue _ scheduled now \<Rightarrow>
       Some (int64_of (Seconds (time_Sub
           (case scheduled of None \<Rightarrow> now | Some t \<Rightarrow> if t > now then now else t) (me_started m))),
         \<lambda>point. point\<lparr>tm_issued := i64 (tm_issued point + 1)\<rparr>)
   | Succeed call latency _ _ _ _ now \<Rightarrow>
       Some (int64_of (Seconds (time_Sub now (me_started m))), timeline_outcome latency timelineSuccess)
   | FailHTTP call latency _ _ now \<Rightarrow>
       Some (int64_of (Seconds (time_Sub now (me_started m))), timeline_outcome latency timelineFailure)
   | FailTransport call _ now \<Rightarrow>
       Some (int64_of (Seconds (time_Sub now (me_started m))),
         timeline_outcome (Milliseconds (time_Sub now (at_scheduledAt call))) timelineFailure)
   | Abort call ctx_done err now \<Rightarrow>
       Some (int64_of (Seconds (time_Sub now (me_started m))),
         timeline_outcome (Milliseconds (time_Sub now (at_scheduledAt call)))
           (if ctx_done \<or> err_context err then timelineCancelled else timelineFailure))
   | Gauges now \<Rightarrow>
       Some (int64_of (Seconds (time_Sub now (me_started m))),
         \<lambda>point. point\<lparr>tm_active := max (tm_active point) (me_active m),
           tm_waiting := max (tm_waiting point) (me_waiting m),
           tm_targetLoad := max (tm_targetLoad point) (me_targetLoad m)\<rparr>)
   | _ \<Rightarrow> None)"

lemma timeline_if: "me_timeline (if b then m else m') = (if b then me_timeline m else me_timeline m')"
  by simp

lemma started_if: "me_started (if b then m else m') = (if b then me_started m else me_started m')"
  by simp

lemma timeline_step: "me_timeline (event_step m e) = (case point_change m e of
    None \<Rightarrow> me_timeline m | Some (second, change) \<Rightarrow> change_point second change (me_timeline m))"
proof (cases e)
  case (Abort call ctx_done err now)
  then show ?thesis
    by (cases "ctx_done \<or> err_context err") (simp_all add: event_defs point_change_def timeline_changed)
qed (simp_all add: event_defs point_change_def timeline_changed timeline_if started_if if_distrib [of snd]
    cong: if_cong split del: if_split)

lemma started_step [simp]: "me_started (event_step m e) = me_started m"
  by (cases e) (simp_all add: event_defs started_if if_distrib [of snd] cong: if_cong split del: if_split)

definition timeline_total :: "(timelineMeasurement \<Rightarrow> int) \<Rightarrow> (int, timelineMeasurement) fmap \<Rightarrow> int" where
  "timeline_total get t = (\<Sum>second \<in> fset (fmdom t). get (get_or zero_timelineMeasurement t second))"

lemma change_point_dom: "fmdom t |\<subseteq>| fmdom (change_point second change t)"
  by (auto simp: change_point_def)

lemma timeline_total_upd:
  assumes "get zero_timelineMeasurement = 0" "get v = get (get_or zero_timelineMeasurement t second) + d"
  shows "timeline_total get (fmupd second v t) = timeline_total get t + d"
proof -
  let ?D = "fset (fmdom t)" and ?g = "\<lambda>k. get (get_or zero_timelineMeasurement t k)"
  have rest: "(\<Sum>k \<in> ?D - {second}. get (get_or zero_timelineMeasurement (fmupd second v t) k)) = sum ?g (?D - {second})"
    by (rule sum.cong) auto
  have new: "timeline_total get (fmupd second v t) = get v + sum ?g (?D - {second})"
    unfolding timeline_total_def using rest by (simp add: sum.insert_remove)
  have old: "timeline_total get t = ?g second + sum ?g (?D - {second})"
  proof (cases "second \<in> ?D")
    case True
    then show ?thesis unfolding timeline_total_def by (simp add: sum.remove)
  next
    case False
    then have "?g second = 0" using assms(1) by (simp add: get_or_def fmlookup_dom_iff split: option.split)
    with False show ?thesis by (simp add: timeline_total_def)
  qed
  show ?thesis unfolding new old assms(2) by simp
qed

lemma timeline_total_ge:
  assumes "get zero_timelineMeasurement = 0" "\<forall>k. 0 \<le> get (get_or zero_timelineMeasurement t k)"
  shows "get (get_or zero_timelineMeasurement t second) \<le> timeline_total get t"
proof (cases "second |\<in>| fmdom t")
  case True
  then show ?thesis
    unfolding timeline_total_def using assms(2)
    by (intro member_le_sum) auto
next
  case False
  then have "get (get_or zero_timelineMeasurement t second) = 0"
    using assms(1) by (simp add: get_or_def fmlookup_dom_iff split: option.split)
  then show ?thesis
    unfolding timeline_total_def using assms(2) by (simp add: sum_nonneg)
qed

text \<open>A field of the timeline's points that the events count.\<close>

locale point_counter =
  fixes get :: "timelineMeasurement \<Rightarrow> int" and val :: "agent_event \<Rightarrow> bool"
  assumes zero: "get zero_timelineMeasurement = 0"
    and unchanged: "point_change m e = None \<Longrightarrow> \<not> val e"
    and changed: "point_change m e = Some (second, change) \<Longrightarrow> in64 (get p) \<Longrightarrow>
      get (change p) = i64 (get p + of_bool (val e))"
begin

lemma total_step:
  assumes "int (fcard (fmdom (me_timeline (event_step m e)))) < maxTimelinePoints"
    and "\<forall>k. 0 \<le> get (get_or zero_timelineMeasurement (me_timeline m) k)"
    and "timeline_total get (me_timeline m) < 2 ^ 62"
  shows "timeline_total get (me_timeline (event_step m e)) = timeline_total get (me_timeline m) + of_bool (val e) \<and>
    (\<forall>k. 0 \<le> get (get_or zero_timelineMeasurement (me_timeline (event_step m e)) k))"
proof (cases "point_change m e")
  case None
  then show ?thesis using unchanged assms(2) by (simp add: timeline_step)
next
  case (Some sc)
  then obtain second change where sc: "point_change m e = Some (second, change)" by (cases sc) auto
  let ?t = "me_timeline m"
  let ?p = "get_or zero_timelineMeasurement ?t second"
  have "\<not> (second |\<notin>| fmdom ?t \<and> maxTimelinePoints \<le> int (fcard (fmdom ?t)))"
    using assms(1) by (auto simp: timeline_step sc change_point_def split: if_splits)
  then have e: "me_timeline (event_step m e) = fmupd second (change ?p) ?t"
    by (auto simp: timeline_step sc change_point_def)
  have b: "0 \<le> get ?p" "get ?p < 2 ^ 62"
    using assms(2,3) timeline_total_ge [OF zero assms(2), of second] by auto
  have "in64 (get ?p)" using b by (simp add: in64_def)
  then have "get (change ?p) = i64 (get ?p + of_bool (val e))" by (rule changed [OF sc])
  also have "\<dots> = get ?p + of_bool (val e)" using b by (intro i64_id) (simp add: in64_def)
  finally have p: "get (change ?p) = get ?p + of_bool (val e)" .
  show ?thesis
    unfolding e using timeline_total_upd [OF zero p] p b(1) assms(2) by simp
qed

lemma total_run:
  assumes "agent_run m0 es flight m" "int (fcard (fmdom (me_timeline m))) < maxTimelinePoints"
    and "me_timeline m0 = fmempty" "length es < 2 ^ 62"
  shows "timeline_total get (me_timeline m) = int (length (filter val es))"
proof -
  have "int (fcard (fmdom (me_timeline (foldl event_step m0 es)))) < maxTimelinePoints \<Longrightarrow> length es < 2 ^ 62 \<Longrightarrow>
      timeline_total get (me_timeline (foldl event_step m0 es)) = int (length (filter val es)) \<and>
      (\<forall>k. 0 \<le> get (get_or zero_timelineMeasurement (me_timeline (foldl event_step m0 es)) k))"
  proof (induction es rule: rev_induct)
    case Nil
    then show ?case by (simp add: timeline_total_def assms(3) zero)
  next
    case (snoc e es)
    let ?m = "foldl event_step m0 es"
    have "fmdom (me_timeline ?m) |\<subseteq>| fmdom (me_timeline (event_step ?m e))"
      using change_point_dom by (auto simp: timeline_step split: option.split)
    then have "fcard (fmdom (me_timeline ?m)) \<le> fcard (fmdom (me_timeline (event_step ?m e)))"
      by (rule fcard_mono)
    with snoc.prems(1) have small: "int (fcard (fmdom (me_timeline ?m))) < maxTimelinePoints" by simp
    have l: "length es < 2 ^ 62" using snoc.prems(2) by simp
    note IH = snoc.IH [OF small l]
    have "length (filter val es) < 2 ^ 62" using length_filter_le [of val es] l by linarith
    then have "timeline_total get (me_timeline ?m) < 2 ^ 62" using IH by simp
    with total_step [of ?m e] snoc.prems(1) IH show ?case by simp
  qed
  then show ?thesis using assms agent_run_fold [OF assms(1)] by simp
qed

end

interpretation tl_issued: point_counter tm_issued is_issue
  by unfold_locales
    (auto simp: zero_timelineMeasurement_def point_change_def is_issue_def timeline_outcome_def
      add_latency_def i64_id split: agent_event.splits timelineOutcome.splits)

interpretation tl_successes: point_counter tm_successes "ends Succeeded"
  by unfold_locales
    (auto simp: zero_timelineMeasurement_def point_change_def ends_def timeline_outcome_def
      add_latency_def i64_id split: agent_event.splits timelineOutcome.splits if_splits)

interpretation tl_failures: point_counter tm_failures "\<lambda>e. ends HTTPFailed e \<or> ends TransportFailed e"
  by unfold_locales
    (auto simp: zero_timelineMeasurement_def point_change_def ends_def timeline_outcome_def
      add_latency_def i64_id split: agent_event.splits timelineOutcome.splits if_splits)

interpretation tl_completed: point_counter tm_completed
    "\<lambda>e. ends Succeeded e \<or> ends HTTPFailed e \<or> ends TransportFailed e"
  by unfold_locales
    (auto simp: zero_timelineMeasurement_def point_change_def ends_def timeline_outcome_def
      add_latency_def i64_id split: agent_event.splits timelineOutcome.splits if_splits)

interpretation tl_cancelled: point_counter tm_cancelled "ends WasCancelled"
  by unfold_locales
    (auto simp: zero_timelineMeasurement_def point_change_def ends_def timeline_outcome_def
      add_latency_def i64_id split: agent_event.splits timelineOutcome.splits if_splits)

end
