(* ===== verification/Agent_History.thy ===== *)
theory Agent_History
  imports Agent_Events
begin

text \<open>
  What the result of an agent's run says about the requests it sent, for every sequence of events the
  agent can produce. The run starts from measurements that were just reset, as
  \<open>RunTargetWithProgress\<close> does after the warmup.
\<close>

subsection \<open>Counting events\<close>

definition tally :: "(agent_event \<Rightarrow> bool) \<Rightarrow> agent_event list \<Rightarrow> int" where
  "tally P es = int (length (filter P es))"

lemma sum_of_bool: "(\<Sum>e\<leftarrow>es. of_bool (P e)) = tally P es"
  by (induction es) (auto simp: tally_def)

lemma tally_simps [simp]:
  "tally P [] = 0" "tally P (es @ [e]) = tally P es + of_bool (P e)"
  by (simp_all add: tally_def)

lemma tally_bounds: "0 \<le> tally P es" "tally P es \<le> int (length es)"
  by (simp_all add: tally_def)

lemma tally_i64 [simp]: "length es < 2 ^ 62 \<Longrightarrow> i64 (tally P es) = tally P es"
  using tally_bounds [of P es] by (intro i64_small) auto

lemma tally_or: "\<forall>e. \<not> (P e \<and> Q e) \<Longrightarrow> tally (\<lambda>e. P e \<or> Q e) es = tally P es + tally Q es"
  by (induction es) (auto simp: tally_def)

lemma tally_mono: "(\<And>e. P e \<Longrightarrow> Q e) \<Longrightarrow> tally P es \<le> tally Q es"
  by (induction es) (auto simp: tally_def)

lemma ends_exclusive: "k \<noteq> k' \<Longrightarrow> \<not> (ends k e \<and> ends k' e)"
  by (auto simp: ends_def split: option.splits prod.splits)

lemma ended_cases: "ended e \<noteq> None \<longleftrightarrow>
    ((ends Succeeded e \<or> ends HTTPFailed e) \<or> ends TransportFailed e) \<or> ends WasCancelled e"
  by (cases "ended e") (auto simp: ends_def intro: ending.exhaust)

lemma tally_ended: "tally (\<lambda>e. ended e \<noteq> None) es =
    tally (ends Succeeded) es + tally (ends HTTPFailed) es + tally (ends TransportFailed) es +
    tally (ends WasCancelled) es"
  unfolding ended_cases using ends_exclusive by (subst tally_or, blast)+ simp

text \<open>Requests in flight are those that were issued and have not ended.\<close>

lemma flight_size:
  "agent_run m0 es flight m \<Longrightarrow> tally is_issue es = tally (\<lambda>e. ended e \<noteq> None) es + int (size flight)"
proof (induction rule: agent_run.induct)
  case (finish es flight m e call k)
  have "size flight = Suc (size (flight - {#call#}))"
    using finish.hyps(3) by (metis insert_DiffM size_add_mset)
  moreover have "\<not> is_issue e" using finish.hyps(2) by (cases e) (auto simp: is_issue_def)
  ultimately show ?case using finish by simp
qed (auto simp: is_issue_def)

lemma flight_scenario:
  assumes "name \<noteq> []"
  shows "agent_run m0 es flight m \<Longrightarrow> tally (issues_in name) es =
    tally (ends_in name UNIV) es + int (size (filter_mset (\<lambda>call. at_scenario call = name) flight))"
proof (induction rule: agent_run.induct)
  case (issue es flight m scenario scheduled now call m')
  have "at_scenario call = scenario"
    using issue.hyps(2) by (auto simp: beginAttempt_def Let_def)
  then show ?case using issue.IH assms by (simp add: issues_in_def ends_in_def)
next
  case (finish es flight m e call k)
  have "\<not> issues_in name e" using finish.hyps(2) by (cases e) (auto simp: issues_in_def)
  moreover have "ends_in name UNIV e \<longleftrightarrow> at_scenario call = name"
    using finish.hyps(2) assms by (simp add: ends_in_def)
  moreover obtain rest where r: "flight = add_mset call rest"
    using finish.hyps(3) by (metis insert_DiffM)
  ultimately show ?case using finish.IH by (simp add: r)
next
  case (other es flight m e)
  then show ?case by (cases e) (auto simp: issues_in_def ends_in_def is_issue_def)
qed simp

subsection \<open>The counters of a run\<close>

lemma reset_zero [simp]:
  "me_issued (reset t m) = 0" "me_successes (reset t m) = 0" "me_httpFailures (reset t m) = 0"
  "me_transportErrors (reset t m) = 0" "me_cancelled (reset t m) = 0" "me_goodput (reset t m) = 0"
  "me_steadySamples (reset t m) = 0" "me_dropped (reset t m) = 0" "me_timeline (reset t m) = fmempty"
  "me_latencies (reset t m) = zero_sampleSet" "me_ttfts (reset t m) = zero_sampleSet"
  "me_ttfos (reset t m) = zero_sampleSet" "me_itls (reset t m) = zero_sampleSet"
  "me_tpots (reset t m) = zero_sampleSet" "me_scenarios (reset t m) = fmempty"
  "me_scenarioOrder (reset t m) = []" "me_stopped (reset t m) = False" "me_guardrail (reset t m) = []"
  "me_runCancelled (reset t m) = me_runCancelled m"
  by (simp_all add: reset_def)

lemma scenario_reset [simp]: "scenario_of name (reset t m) = zero_scenarioMeasurement"
  by (simp add: scenario_of_def)

lemma in64_zero [simp]: "in64 0"
  by (simp add: in64_def)

text \<open>The requests that met every limit of their configuration, and those of the steady window.\<close>

definition is_good :: "agent_event \<Rightarrow> bool" where
  "is_good e \<longleftrightarrow> (case e of Succeed call latency timing status usage config now \<Rightarrow>
     meetsSLO latency timing usage config | _ \<Rightarrow> False)"

definition is_steady :: "agent_event \<Rightarrow> bool" where
  "is_steady e \<longleftrightarrow> (case e of Succeed call latency timing status usage config now \<Rightarrow> at_steady call | _ \<Rightarrow> False)"

lemma run_counters:
  assumes "agent_run (reset t0 m0) es flight m" "length es < 2 ^ 62"
  shows "me_issued m = tally is_issue es" "me_successes m = tally (ends Succeeded) es"
    "me_httpFailures m = tally (ends HTTPFailed) es" "me_transportErrors m = tally (ends TransportFailed) es"
    "me_cancelled m = tally (ends WasCancelled) es" "me_goodput m = tally is_good es"
    "me_steadySamples m = tally is_steady es"
proof -
  have good: "(\<lambda>e. case e of Succeed call latency timing status usage config now \<Rightarrow>
      of_bool (meetsSLO latency timing usage config) | _ \<Rightarrow> 0) = (\<lambda>e. of_bool (is_good e) :: int)"
    by (rule ext) (auto simp: is_good_def split: agent_event.split)
  have steady: "(\<lambda>e. case e of Succeed call latency timing status usage config now \<Rightarrow>
      of_bool (at_steady call) | _ \<Rightarrow> 0) = (\<lambda>e. of_bool (is_steady e) :: int)"
    by (rule ext) (auto simp: is_steady_def split: agent_event.split)
  note f = agent_run_fold [OF assms(1)]
  show "me_issued m = tally is_issue es" "me_successes m = tally (ends Succeeded) es"
    "me_httpFailures m = tally (ends HTTPFailed) es" "me_transportErrors m = tally (ends TransportFailed) es"
    "me_cancelled m = tally (ends WasCancelled) es" "me_goodput m = tally is_good es"
    "me_steadySamples m = tally is_steady es"
    using assms(2) unfolding f
    by (simp_all add: ev_issued.get_fold ev_successes.get_fold ev_http.get_fold ev_transport.get_fold
        ev_cancelled.get_fold ev_goodput.get_fold ev_steady.get_fold good steady sum_of_bool)
qed

lemma run_scenarios:
  assumes "agent_run (reset t0 m0) es flight m" "length es < 2 ^ 62"
  shows "sm_issued (scenario_of name m) = tally (issues_in name) es"
    "sm_completed (scenario_of name m) = tally (ends_in name {Succeeded, HTTPFailed}) es"
    "sm_failures (scenario_of name m) = tally (ends_in name {HTTPFailed, TransportFailed}) es"
    "sm_cancelled (scenario_of name m) = tally (ends_in name {WasCancelled}) es"
proof -
  have z: "sm_issued zero_scenarioMeasurement = 0" "sm_completed zero_scenarioMeasurement = 0"
    "sm_failures zero_scenarioMeasurement = 0" "sm_cancelled zero_scenarioMeasurement = 0"
    by (simp_all add: zero_scenarioMeasurement_def)
  note f = agent_run_fold [OF assms(1)]
  show "sm_issued (scenario_of name m) = tally (issues_in name) es"
    "sm_completed (scenario_of name m) = tally (ends_in name {Succeeded, HTTPFailed}) es"
    "sm_failures (scenario_of name m) = tally (ends_in name {HTTPFailed, TransportFailed}) es"
    "sm_cancelled (scenario_of name m) = tally (ends_in name {WasCancelled}) es"
    using assms(2) unfolding f
    by (simp_all add: z ev_scenario_issued.get_fold ev_scenario_completed.get_fold
        ev_scenario_failures.get_fold ev_scenario_cancelled.get_fold sum_of_bool)
qed

lemma good_succeeded: "tally is_good es \<le> tally (ends Succeeded) es"
  by (rule tally_mono) (auto simp: is_good_def ends_def split: agent_event.splits)

lemma percent_range:
  assumes "0 \<le> part" "part \<le> whole" "whole \<le> 2 ^ 46"
  shows "\<exists>q. (if 0 < whole then fpercent part whole else fzero) = Fin q \<and> 0 \<le> q \<and> q \<le> 100"
  using fpercent_range [OF assms(1,2) _ assms(3)] by (auto simp: fzero_def)

lemma result_accounts:
  assumes "agent_run (reset t0 m0) es flight m" "length es \<le> 2 ^ 46"
  shows "let r = measured_result config ord now m in
    rr_Issued r = rr_Successes r + rr_HTTPFailures r + rr_TransportErrors r + rr_Cancelled r + int (size flight) \<and>
    rr_Failures r = rr_HTTPFailures r + rr_TransportErrors r \<and>
    rr_Total r = rr_Successes r + rr_Failures r \<and>
    rr_Completed r = rr_Successes r + rr_HTTPFailures r \<and> rr_Completed r \<le> rr_Issued r \<and>
    (\<exists>c g. rr_CompletionPercent r = Fin c \<and> 0 \<le> c \<and> c \<le> 100 \<and>
       rr_GoodputPercent r = Fin g \<and> 0 \<le> g \<and> g \<le> 100)"
proof -
  have l: "length es < 2 ^ 62" using assms(2) by simp
  note c = run_counters [OF assms(1) l]
  define s h t a where "s = tally (ends Succeeded) es" and "h = tally (ends HTTPFailed) es"
    and "t = tally (ends TransportFailed) es" and "a = tally (ends WasCancelled) es"
  have i: "tally is_issue es = s + h + t + a + int (size flight)"
    using flight_size [OF assms(1)] tally_ended [of es] by (simp add: s_def h_def t_def a_def)
  have b: "0 \<le> s" "0 \<le> h" "0 \<le> t" "0 \<le> a" "tally is_issue es \<le> 2 ^ 46"
    "0 \<le> tally is_good es" "tally is_good es \<le> s"
    using tally_bounds(1) tally_bounds(2) [of is_issue es] assms(2) good_succeeded [of es]
    by (simp_all add: s_def h_def t_def a_def)
  have w: "i64 (s + h) = s + h" "i64 (h + t) = h + t" "i64 (s + (h + t)) = s + h + t"
    using b i by (simp_all add: i64_small)
  obtain q where q: "(if 0 < tally is_issue es then fpercent (s + h) (tally is_issue es) else fzero) = Fin q"
    "0 \<le> q" "q \<le> 100"
    using percent_range [of "s + h" "tally is_issue es"] b i by auto
  obtain g where g: "(if 0 < s + h + t then fpercent (tally is_good es) (s + h + t) else fzero) = Fin g"
    "0 \<le> g" "g \<le> 100"
    using percent_range [of "tally is_good es" "s + h + t"] b i by auto
  define r where "r = measured_result config ord now m"
  note c' = c [folded s_def h_def t_def a_def]
  have r: "rr_Issued r = tally is_issue es" "rr_Successes r = s" "rr_HTTPFailures r = h"
    "rr_TransportErrors r = t" "rr_Cancelled r = a" "rr_Failures r = h + t" "rr_Total r = s + h + t"
    "rr_Completed r = s + h" "rr_CompletionPercent r = Fin q" "rr_GoodputPercent r = Fin g"
    unfolding r_def measured_result_def Let_def by (simp_all add: c' w q(1) g(1) cong: if_cong split del: if_split)
  show ?thesis
    unfolding r_def [symmetric] Let_def using b(1-4) q g by (simp add: r i)
qed

subsection \<open>Properties\<close>

text \<open>C5. In every execution, the result accounts for every request: those
  issued are those that succeeded, failed with a status, failed in transport, were cancelled, or are
  still in flight; failures, total and completed requests are the sums the documentation gives them;
  and the completion and goodput percentages are numbers between 0 and 100.\<close>

theorem requests_are_never_lost:
  assumes "agent_run (reset t0 m0) es flight m" "length es \<le> 2 ^ 46"
  shows "let r = measured_result config ord now m in
    rr_Issued r = rr_Successes r + rr_HTTPFailures r + rr_TransportErrors r + rr_Cancelled r + int (size flight) \<and>
    rr_Failures r = rr_HTTPFailures r + rr_TransportErrors r \<and>
    rr_Total r = rr_Successes r + rr_Failures r \<and>
    rr_Completed r = rr_Successes r + rr_HTTPFailures r \<and> rr_Completed r \<le> rr_Issued r \<and>
    (\<exists>c g. rr_CompletionPercent r = Fin c \<and> 0 \<le> c \<and> c \<le> 100 \<and>
       rr_GoodputPercent r = Fin g \<and> 0 \<le> g \<and> g \<le> 100)"
  by (rule result_accounts [OF assms])

text \<open>One request that is still in flight.\<close>

lemma one_request: "agent_run m0 [Issue name None now] {#fst (beginAttempt name None now m0)#}
    (event_step m0 (Issue name None now))"
proof -
  have "agent_run m0 ([] @ [Issue name None now]) (add_mset (fst (beginAttempt name None now m0)) {#})
      (snd (beginAttempt name None now m0))"
    by (rule agent_run.issue [OF agent_run.start]) simp
  then show ?thesis by simp
qed

theorem requests_are_never_lost_witness:
  "let r = measured_result zero_RunConfig [] 9
      (event_step (reset 0 (new_measurements 0 zero_RunConfig)) (Issue ''ask'' None 5))
   in rr_Issued r = rr_Successes r + rr_HTTPFailures r + rr_TransportErrors r + rr_Cancelled r + 1"
  using requests_are_never_lost [OF one_request [where ?m0.0 = "reset 0 (new_measurements 0 zero_RunConfig)"
        and name = "''ask''" and now = 5], where config = zero_RunConfig and ord = "[]" and now = 9]
  by (simp add: Let_def)

text \<open>The entries of the scenarios, in the order they were first used, each once.\<close>

definition uses_scenario :: "agent_event \<Rightarrow> string" where
  "uses_scenario e = (case e of Issue scenario _ _ \<Rightarrow> scenario
     | _ \<Rightarrow> (case ended e of Some (call, _) \<Rightarrow> at_scenario call | None \<Rightarrow> []))"

lemma order_if: "me_scenarioOrder (if b then m else m') = (if b then me_scenarioOrder m else me_scenarioOrder m')"
  by simp

lemma order_changed: "me_scenarioOrder (for_scenario n change m) =
    (if n = [] \<or> n |\<in>| fmdom (me_scenarios m) then me_scenarioOrder m else me_scenarioOrder m @ [n])"
  by (auto simp: for_scenario_def scenarioLocked_def fmlookup_dom_iff split: option.split)

lemma order_step: "me_scenarioOrder (event_step m e) =
    (if uses_scenario e = [] \<or> uses_scenario e |\<in>| fmdom (me_scenarios m) then me_scenarioOrder m
     else me_scenarioOrder m @ [uses_scenario e])"
  by (cases e) (simp_all add: uses_scenario_def event_defs order_changed order_if scenarios_if
      if_distrib [of snd] cong: if_cong split del: if_split)

lemma scenarios_dom_step: "fmdom (me_scenarios (event_step m e)) =
    (if uses_scenario e = [] then fmdom (me_scenarios m) else finsert (uses_scenario e) (fmdom (me_scenarios m)))"
  unfolding scenarios_step by (cases e) (simp_all add: uses_scenario_def change_entry_def)

lemma uses_scenario_iff: "name \<noteq> [] \<Longrightarrow> uses_scenario e = name \<longleftrightarrow> issues_in name e \<or> ends_in name UNIV e"
  by (cases e) (auto simp: uses_scenario_def issues_in_def ends_in_def)

lemma run_scenario_names:
  assumes "agent_run (reset t0 m0) es flight m"
  shows "distinct (me_scenarioOrder m)" "fset_of_list (me_scenarioOrder m) = fmdom (me_scenarios m)"
    "name |\<in>| fmdom (me_scenarios m) \<longleftrightarrow> name \<noteq> [] \<and> 0 < tally (issues_in name) es"
proof -
  have names: "distinct (me_scenarioOrder m) \<and> fset_of_list (me_scenarioOrder m) = fmdom (me_scenarios m) \<and>
      (\<forall>name. name |\<in>| fmdom (me_scenarios m) \<longleftrightarrow> name \<noteq> [] \<and> (\<exists>e \<in> set es. uses_scenario e = name))"
    unfolding agent_run_fold [OF assms]
  proof (induction es rule: rev_induct)
    case (snoc e es)
    let ?m = "foldl event_step (reset t0 m0) es"
    have new: "uses_scenario e \<notin> set (me_scenarioOrder ?m)" if "uses_scenario e |\<notin>| fmdom (me_scenarios ?m)"
      using snoc.IH that by (metis fset_of_list_elem)
    show ?case
      using snoc.IH new by (auto simp: order_step scenarios_dom_step finsert_absorb)
  qed simp
  have used: "(\<exists>e \<in> set es. uses_scenario e = name) \<longleftrightarrow> 0 < tally (issues_in name) es" if "name \<noteq> []"
  proof -
    have "tally (ends_in name UNIV) es \<le> tally (issues_in name) es"
      using flight_scenario [OF that assms] by simp
    moreover have pos: "0 < tally P es \<longleftrightarrow> (\<exists>e \<in> set es. P e)" for P
      by (auto simp: tally_def filter_empty_conv)
    have "(\<exists>e \<in> set es. uses_scenario e = name) \<longleftrightarrow>
        0 < tally (issues_in name) es \<or> 0 < tally (ends_in name UNIV) es"
      unfolding uses_scenario_iff [OF that] pos by blast
    ultimately show ?thesis by linarith
  qed
  show "distinct (me_scenarioOrder m)" "fset_of_list (me_scenarioOrder m) = fmdom (me_scenarios m)"
    using names by simp_all
  show "name |\<in>| fmdom (me_scenarios m) \<longleftrightarrow> name \<noteq> [] \<and> 0 < tally (issues_in name) es"
    using names used by (cases "name = []") simp_all
qed

lemma tally_in_split:
  "tally (ends_in name UNIV) es = tally (ends_in name {Succeeded, HTTPFailed}) es +
     tally (ends_in name {TransportFailed}) es + tally (ends_in name {WasCancelled}) es"
proof -
  have "ends_in name UNIV = (\<lambda>e. (ends_in name {Succeeded, HTTPFailed} e \<or> ends_in name {TransportFailed} e) \<or>
      ends_in name {WasCancelled} e)"
    by (rule ext) (auto simp: ends_in_def split: option.splits intro: ending.exhaust)
  then show ?thesis
    by (simp only:) ((subst tally_or, (auto simp: ends_in_def split: option.splits)[1])+, rule refl)
qed

text \<open>C11. The breakdown by scenario has one entry for each scenario
  that was used, and in each entry the requests issued are those completed (successfully or with a
  failing status), those that failed in transport, those cancelled, and those still in flight; its
  completion percentage is between 0 and 100.\<close>

theorem scenarios_account_for_their_requests:
  assumes "agent_run (reset t0 m0) es flight m" "length es \<le> 2 ^ 46"
  shows "let items = rr_Scenarios (measured_result config ord now m) in
    distinct (map scr_Name items) \<and>
    set (map scr_Name items) = {name. name \<noteq> [] \<and> 0 < tally (issues_in name) es} \<and>
    (\<forall>item \<in> set items.
       scr_Issued item = tally (issues_in (scr_Name item)) es \<and>
       scr_Issued item = scr_Completed item + tally (ends_in (scr_Name item) {TransportFailed}) es +
         scr_Cancelled item + int (size (filter_mset (\<lambda>call. at_scenario call = scr_Name item) flight)) \<and>
       scr_Failures item = tally (ends_in (scr_Name item) {HTTPFailed, TransportFailed}) es \<and>
       (\<exists>q. scr_CompletionPercent item = Fin q \<and> 0 \<le> q \<and> q \<le> 100))"
proof -
  have l: "length es < 2 ^ 62" using assms(2) by simp
  let ?elapsed = "Seconds (time_Sub now (me_started m))"
  have items: "rr_Scenarios (measured_result config ord now m) = map (scenario_item ?elapsed m) (me_scenarioOrder m)"
    by (simp add: measured_result_def Let_def)
  have n: "scr_Name (scenario_item ?elapsed m name) = name" for name
    by (simp add: scenario_item_def Let_def)
  then have names: "map scr_Name (map (scenario_item ?elapsed m) (me_scenarioOrder m)) = me_scenarioOrder m"
    by (simp add: comp_def)
  note N = run_scenario_names [OF assms(1)]
  have dom: "name \<in> set (me_scenarioOrder m) \<longleftrightarrow> name \<noteq> [] \<and> 0 < tally (issues_in name) es" for name
    using N(2,3) by (metis fset_of_list_elem)
  have each: "scr_Issued item = tally (issues_in (scr_Name item)) es \<and>
       scr_Issued item = scr_Completed item + tally (ends_in (scr_Name item) {TransportFailed}) es +
         scr_Cancelled item + int (size (filter_mset (\<lambda>call. at_scenario call = scr_Name item) flight)) \<and>
       scr_Failures item = tally (ends_in (scr_Name item) {HTTPFailed, TransportFailed}) es \<and>
       (\<exists>q. scr_CompletionPercent item = Fin q \<and> 0 \<le> q \<and> q \<le> 100)"
    if name: "name \<in> set (me_scenarioOrder m)" and item: "item = scenario_item ?elapsed m name" for name item
  proof -
    note S = run_scenarios [OF assms(1) l, of name, unfolded scenario_of_def]
    have f: "scr_Issued item = tally (issues_in name) es" "scr_Name item = name"
      "scr_Completed item = tally (ends_in name {Succeeded, HTTPFailed}) es"
      "scr_Failures item = tally (ends_in name {HTTPFailed, TransportFailed}) es"
      "scr_Cancelled item = tally (ends_in name {WasCancelled}) es"
      "scr_CompletionPercent item = (if 0 < tally (issues_in name) es
        then fpercent (tally (ends_in name {Succeeded, HTTPFailed}) es) (tally (issues_in name) es) else fzero)"
      by (simp_all add: item scenario_item_def Let_def S)
    have sum: "tally (issues_in name) es = tally (ends_in name {Succeeded, HTTPFailed}) es +
        tally (ends_in name {TransportFailed}) es + tally (ends_in name {WasCancelled}) es +
        int (size (filter_mset (\<lambda>call. at_scenario call = name) flight))"
      using flight_scenario [OF _ assms(1), of name] dom [of name] name tally_in_split [of name es] by simp
    then have "tally (ends_in name {Succeeded, HTTPFailed}) es \<le> tally (issues_in name) es"
      using tally_bounds(1) [of "ends_in name {TransportFailed}" es]
        tally_bounds(1) [of "ends_in name {WasCancelled}" es] by linarith
    then have "\<exists>q. scr_CompletionPercent item = Fin q \<and> 0 \<le> q \<and> q \<le> 100"
      unfolding f(6) using tally_bounds(2) [of "issues_in name" es] assms(2)
      by (intro percent_range) (auto simp: tally_bounds(1))
    then show ?thesis using f(1-5) sum by simp
  qed
  have "set (me_scenarioOrder m) = {name. name \<noteq> [] \<and> 0 < tally (issues_in name) es}"
    using dom by blast
  moreover have "\<forall>item \<in> set (map (scenario_item ?elapsed m) (me_scenarioOrder m)).
      \<exists>name \<in> set (me_scenarioOrder m). item = scenario_item ?elapsed m name" by auto
  ultimately show ?thesis
    unfolding Let_def items names using N(1) each by blast
qed

theorem scenarios_account_for_their_requests_witness:
  "let items = rr_Scenarios (measured_result zero_RunConfig [] 9
      (event_step (reset 0 (new_measurements 0 zero_RunConfig)) (Issue ''ask'' None 5)))
   in set (map scr_Name items) = {''ask''}"
proof -
  have "{name. name \<noteq> [] \<and> 0 < tally (issues_in name) [Issue ''ask'' None 5]} = {''ask''}"
    by (auto simp: tally_def issues_in_def)
  then show ?thesis
    using scenarios_account_for_their_requests [OF one_request [where ?m0.0 = "reset 0 (new_measurements 0 zero_RunConfig)"
        and name = "''ask''" and now = 5], where config = zero_RunConfig and ord = "[]" and now = 9]
    unfolding Let_def by simp
qed

subsection \<open>The timeline\<close>

lemma sum_result_timeline:
  assumes "iter_order ord (me_timeline m)" "\<And>second point. tp (timeline_point second point) = get point"
  shows "(\<Sum>p\<leftarrow>result_timeline ord m. tp p) = timeline_total get (me_timeline m)"
proof -
  have "(\<Sum>p\<leftarrow>result_timeline ord m. tp p) =
      (\<Sum>p\<leftarrow>map (\<lambda>second. timeline_point second (get_or zero_timelineMeasurement (me_timeline m) second)) ord. tp p)"
    unfolding result_timeline_def by (simp add: image_mset.compositionality comp_def flip: sum_mset_sum_list)
  also have "\<dots> = (\<Sum>second\<leftarrow>ord. get (get_or zero_timelineMeasurement (me_timeline m) second))"
    by (simp add: comp_def assms(2))
  also have "\<dots> = (\<Sum>second \<in> set ord. get (get_or zero_timelineMeasurement (me_timeline m) second))"
    using iter_order_distinct [OF assms(1)] by (rule sum_list_distinct_conv_sum_set)
  also have "set ord = fset (fmdom (me_timeline m))"
    using assms(1) by (metis iter_order_def fset_of_list.rep_eq)
  finally show ?thesis by (simp add: timeline_total_def)
qed

text \<open>C10. As long as the timeline is not full (more than an hour of seconds),
  it has one point per second in ascending order, and over all points the requests issued, succeeded,
  failed and cancelled add up to those of the run. The points count a request that failed in
  transport as completed, so their completed requests add up to all that finished, not to the
  completed requests of the run, which are those that received a response.\<close>

theorem timeline_adds_up_to_the_run:
  assumes "agent_run (reset t0 m0) es flight m" "length es \<le> 2 ^ 46"
    and "iter_order ord (me_timeline m)" "int (fcard (fmdom (me_timeline m))) < maxTimelinePoints"
  shows "let r = measured_result config ord now m in
    sorted_wrt (<) (map tp_Second (rr_Timeline r)) \<and>
    (\<Sum>p\<leftarrow>rr_Timeline r. tp_Issued p) = rr_Issued r \<and>
    (\<Sum>p\<leftarrow>rr_Timeline r. tp_Successes p) = rr_Successes r \<and>
    (\<Sum>p\<leftarrow>rr_Timeline r. tp_Failures p) = rr_Failures r \<and>
    (\<Sum>p\<leftarrow>rr_Timeline r. tp_Cancelled p) = rr_Cancelled r \<and>
    (\<Sum>p\<leftarrow>rr_Timeline r. tp_Completed p) = rr_Completed r + rr_TransportErrors r"
proof -
  have l: "length es < 2 ^ 62" using assms(2) by simp
  note c = run_counters [OF assms(1) l]
  note total = tl_issued.total_run tl_successes.total_run tl_failures.total_run tl_cancelled.total_run
    tl_completed.total_run
  note T = total [OF assms(1,4) reset_zero(9) l, folded tally_def]
  have hf: "\<forall>e. \<not> (ends HTTPFailed e \<and> ends TransportFailed e)"
    "\<forall>e. \<not> (ends Succeeded e \<and> (ends HTTPFailed e \<or> ends TransportFailed e))"
    using ends_exclusive by blast+
  have small: "tally P es \<le> 2 ^ 46" "0 \<le> tally P es" for P
    using tally_bounds [of P es] assms(2) by auto
  have w: "i64 (tally P es + tally Q es) = tally P es + tally Q es" for P Q
    using small [of P] small [of Q] by (intro i64_small) auto
  define r where "r = measured_result config ord now m"
  have r: "rr_Timeline r = result_timeline ord m" "rr_Issued r = tally is_issue es"
    "rr_Successes r = tally (ends Succeeded) es" "rr_Cancelled r = tally (ends WasCancelled) es"
    "rr_Failures r = tally (ends HTTPFailed) es + tally (ends TransportFailed) es"
    "rr_Completed r = tally (ends Succeeded) es + tally (ends HTTPFailed) es"
    "rr_TransportErrors r = tally (ends TransportFailed) es"
    by (simp_all add: r_def measured_result_def Let_def c w)
  have "sorted (map tp_Second (result_timeline ord m))"
    by (simp add: result_timeline_def)
  moreover have "mset (map tp_Second (result_timeline ord m)) = mset ord"
    unfolding result_timeline_def mset_map mset_sort by (simp add: timeline_point_def image_mset.compositionality comp_def)
  then have "distinct (map tp_Second (result_timeline ord m))"
    using iter_order_distinct [OF assms(3)] mset_eq_imp_distinct_iff by blast
  ultimately have "sorted_wrt (<) (map tp_Second (result_timeline ord m))"
    by (simp add: strict_sorted_iff)
  moreover note S = sum_result_timeline [OF assms(3)]
  have "(\<Sum>p\<leftarrow>result_timeline ord m. tp_Issued p) = tally is_issue es"
    "(\<Sum>p\<leftarrow>result_timeline ord m. tp_Successes p) = tally (ends Succeeded) es"
    "(\<Sum>p\<leftarrow>result_timeline ord m. tp_Failures p) = tally (ends HTTPFailed) es + tally (ends TransportFailed) es"
    "(\<Sum>p\<leftarrow>result_timeline ord m. tp_Cancelled p) = tally (ends WasCancelled) es"
    "(\<Sum>p\<leftarrow>result_timeline ord m. tp_Completed p) =
      tally (ends Succeeded) es + (tally (ends HTTPFailed) es + tally (ends TransportFailed) es)"
    using S [of tp_Issued tm_issued] S [of tp_Successes tm_successes] S [of tp_Failures tm_failures]
      S [of tp_Cancelled tm_cancelled] S [of tp_Completed tm_completed] T hf
    by (simp_all add: timeline_point_def tally_or)
  ultimately show ?thesis
    unfolding r_def [symmetric] Let_def by (simp add: r)
qed

theorem timeline_adds_up_to_the_run_witness:
  "let r = measured_result zero_RunConfig [0] 9
      (event_step (reset 0 (new_measurements 0 zero_RunConfig)) (Issue ''ask'' None 5))
   in (\<Sum>p\<leftarrow>rr_Timeline r. tp_Issued p) = rr_Issued r"
proof -
  let ?m = "event_step (reset 0 (new_measurements 0 zero_RunConfig)) (Issue ''ask'' None 5)"
  have "int64_of (Seconds (time_Sub 5 0)) = 0"
    using int64_Seconds [of 5] by (simp add: time_Sub_def sat64_def Second_def)
  then have t: "fmdom (me_timeline ?m) = {|0|}"
    unfolding timeline_step by (simp add: point_change_def change_point_def reset_def
        maxTimelinePoints_def MaxDurationSeconds_def fcard.rep_eq)
  have "iter_order [0] (me_timeline ?m)" "int (fcard (fmdom (me_timeline ?m))) < maxTimelinePoints"
    unfolding iter_order_def t by (simp_all add: maxTimelinePoints_def MaxDurationSeconds_def fcard.rep_eq)
  from timeline_adds_up_to_the_run [OF one_request _ this, of zero_RunConfig 9] show ?thesis
    unfolding Let_def by simp
qed

subsection \<open>The samples\<close>

text \<open>What the successful requests of the steady window measured, in the order they ended.\<close>

definition steady_values :: "(int \<Rightarrow> modelTiming \<Rightarrow> int list) \<Rightarrow> agent_event list \<Rightarrow> int list" where
  "steady_values f es = concat (map (\<lambda>e. case e of
     Succeed call latency timing status usage config now \<Rightarrow> if at_steady call then f latency timing else []
   | _ \<Rightarrow> []) es)"

text \<open>The five kinds of samples: what is measured, where it is sent, where it is reported.\<close>

definition sample_kinds ::
    "((int \<Rightarrow> modelTiming \<Rightarrow> int list) \<times> (RunSamples \<Rightarrow> int list) \<times> (RunResult \<Rightarrow> Distribution)) list" where
  "sample_kinds =
     [(\<lambda>latency timing. [latency], smp_Latency, rr_Latency),
      (\<lambda>latency timing. [mt_ttft timing], smp_TTFT, rr_TTFT),
      (\<lambda>latency timing. [mt_ttfo timing], smp_TTFO, rr_TTFO),
      (\<lambda>latency timing. mt_itls timing, smp_ITL, rr_ITL),
      (\<lambda>latency timing. if 0 < mt_tpot timing then [mt_tpot timing] else [], smp_TPOT, rr_TPOT)]"

lemma run_samples:
  assumes "agent_run (reset t0 m0) es flight m"
  shows "me_latencies m = sample_addAll (steady_values (\<lambda>latency timing. [latency]) es) zero_sampleSet"
    "me_ttfts m = sample_addAll (steady_values (\<lambda>latency timing. [mt_ttft timing]) es) zero_sampleSet"
    "me_ttfos m = sample_addAll (steady_values (\<lambda>latency timing. [mt_ttfo timing]) es) zero_sampleSet"
    "me_itls m = sample_addAll (steady_values (\<lambda>latency timing. mt_itls timing) es) zero_sampleSet"
    "me_tpots m = sample_addAll (steady_values (\<lambda>latency timing. if 0 < mt_tpot timing
      then [mt_tpot timing] else []) es) zero_sampleSet"
proof -
  have split: "(if b \<and> p then x else []) = (if b then if p then x else [] else [])" for b p and x :: "int list"
    by simp
  show "me_latencies m = sample_addAll (steady_values (\<lambda>latency timing. [latency]) es) zero_sampleSet"
    "me_ttfts m = sample_addAll (steady_values (\<lambda>latency timing. [mt_ttft timing]) es) zero_sampleSet"
    "me_ttfos m = sample_addAll (steady_values (\<lambda>latency timing. [mt_ttfo timing]) es) zero_sampleSet"
    "me_itls m = sample_addAll (steady_values (\<lambda>latency timing. mt_itls timing) es) zero_sampleSet"
    "me_tpots m = sample_addAll (steady_values (\<lambda>latency timing. if 0 < mt_tpot timing
      then [mt_tpot timing] else []) es) zero_sampleSet"
    unfolding agent_run_fold [OF assms] steady_values_def split [symmetric]
    by (simp_all only: ev_latencies.get_fold ev_ttfts.get_fold ev_ttfos.get_fold ev_itls.get_fold
        ev_tpots.get_fold reset_zero)
qed

text \<open>One kind of sample in the result: an evenly spaced part of the values, all of them when there are
  fewer than the maximum.\<close>

lemma sample_kind_reported:
  assumes "agent_run (reset t0 m0) es flight m" "(f, smp, d) \<in> set sample_kinds"
    and "length (steady_values f es) \<le> 2 ^ 62"
  shows "\<exists>j. d (measured_result config ord now m) = agent_distribution (every (2 ^ j) (steady_values f es)) \<and>
    (\<forall>s. rr_Samples (measured_result config ord now m) = Some s \<longrightarrow> smp s = every (2 ^ j) (steady_values f es)) \<and>
    (int (length (steady_values f es)) < maxSamplesPerMetric \<longrightarrow> j = 0)"
proof -
  have sent: "rr_Samples (measured_result config ord now m) = result_samples m"
    by (simp add: measured_result_def Let_def)
  have "\<exists>get. get m = sample_addAll (steady_values f es) zero_sampleSet \<and>
      d (measured_result config ord now m) = agent_distribution (ss_values (get m)) \<and>
      (\<forall>s. result_samples m = Some s \<longrightarrow> smp s = ss_values (get m))"
    using assms(2) run_samples [OF assms(1)] unfolding sample_kinds_def
    by (auto simp: measured_result_def Let_def result_samples_def split: if_splits)
  then obtain get where g: "get m = sample_addAll (steady_values f es) zero_sampleSet"
    "d (measured_result config ord now m) = agent_distribution (ss_values (get m))"
    "\<forall>s. result_samples m = Some s \<longrightarrow> smp s = ss_values (get m)" by blast
  show ?thesis
  proof (cases "steady_values f es = []")
    case True
    then show ?thesis using g sent by (intro exI [of _ 0]) (simp add: zero_sampleSet_def)
  next
    case False
    then obtain j where j: "samples_of (steady_values f es) j (get m)"
      using sample_addAll_kept [OF False assms(3)] g(1) by auto
    have "j = 0" if "int (length (steady_values f es)) < maxSamplesPerMetric"
      using samples_of_half(2) [OF j] that unfolding maxSamplesPerMetric_def by linarith
    then show ?thesis
      using g j sent by (intro exI [of _ j]) (auto simp: samples_of_def)
  qed
qed

text \<open>The steady window is a matter of time: a request belongs to it when it was due at least the length
  of the ramp-up after the measurements were reset. The flag it carries says just that.\<close>

lemma steadyAfter_if: "me_steadyAfter (if b then m else m') = (if b then me_steadyAfter m else me_steadyAfter m')"
  by simp

lemma steadyAfter_step [simp]: "me_steadyAfter (event_step m e) = me_steadyAfter m"
  by (cases e) (simp_all add: event_defs steadyAfter_if if_distrib [of snd] cong: if_cong split del: if_split)

lemma fold_frame: "me_started (foldl event_step m es) = me_started m"
    "me_steadyAfter (foldl event_step m es) = me_steadyAfter m"
  by (induction es arbitrary: m) simp_all

definition due_after :: "int \<Rightarrow> int \<Rightarrow> attempt \<Rightarrow> bool" where
  "due_after t0 rampUp call \<longleftrightarrow> rampUp \<le> time_Sub (at_scheduledAt call) t0"

definition window_values :: "int \<Rightarrow> int \<Rightarrow> (int \<Rightarrow> modelTiming \<Rightarrow> int list) \<Rightarrow> agent_event list \<Rightarrow> int list" where
  "window_values t0 rampUp f es = concat (map (\<lambda>e. case e of
     Succeed call latency timing status usage config now \<Rightarrow> if due_after t0 rampUp call then f latency timing else []
   | _ \<Rightarrow> []) es)"

lemma steady_flags:
  assumes "agent_run (reset t0 m0) es flight m"
  shows "(\<forall>call \<in># flight. at_steady call = due_after t0 (me_steadyAfter m0) call) \<and>
    (\<forall>e \<in> set es. \<forall>call k. ended e = Some (call, k) \<longrightarrow> at_steady call = due_after t0 (me_steadyAfter m0) call)"
  using assms
proof (induction rule: agent_run.induct)
  case (issue es flight m scenario scheduled now call m')
  have "me_started m = t0" "me_steadyAfter m = me_steadyAfter m0"
    using agent_run_fold [OF issue.hyps(1)] by (simp_all add: fold_frame reset_def)
  then have "at_steady call = due_after t0 (me_steadyAfter m0) call"
    using issue.hyps(2) by (auto simp: beginAttempt_def Let_def due_after_def)
  then show ?case using issue.IH by auto
next
  case (finish es flight m e call k)
  then show ?case by (auto dest: in_diffD)
qed auto

lemma steady_window:
  assumes "agent_run (reset t0 m0) es flight m"
  shows "steady_values f es = window_values t0 (me_steadyAfter m0) f es"
  unfolding steady_values_def window_values_def
  by (intro arg_cong [where f = concat] map_cong refl, use steady_flags [OF assms] in \<open>auto split: agent_event.split\<close>)


text \<open>A request that took 7 ms, in a run whose steady window starts at once.\<close>

abbreviation "first_call \<equiv> fst (beginAttempt [] None 5 (reset 0 (new_measurements 0 zero_RunConfig)))"
abbreviation "first_timing \<equiv> zero_modelTiming\<lparr>mt_ttft := 3, mt_usageReported := True\<rparr>"
abbreviation "short_run \<equiv> [Issue [] None 5,
  Succeed first_call 7 first_timing 200 zero_TokenUsage zero_RunConfig 12]"

lemma short_run: "agent_run (reset 0 (new_measurements 0 zero_RunConfig)) short_run {#}
    (event_step (event_step (reset 0 (new_measurements 0 zero_RunConfig)) (Issue [] None 5))
      (Succeed first_call 7 first_timing 200 zero_TokenUsage zero_RunConfig 12))"
proof -
  let ?m = "event_step (reset 0 (new_measurements 0 zero_RunConfig)) (Issue [] None 5)"
  have "agent_run (reset 0 (new_measurements 0 zero_RunConfig))
      ([Issue [] None 5] @ [Succeed first_call 7 first_timing 200 zero_TokenUsage zero_RunConfig 12])
      ({#first_call#} - {#first_call#})
      (event_step ?m (Succeed first_call 7 first_timing 200 zero_TokenUsage zero_RunConfig 12))"
    by (rule agent_run.finish [OF one_request]) simp_all
  then show ?thesis by simp
qed

lemma first_call_steady [simp]: "at_steady first_call"
  by (simp add: beginAttempt_def Let_def reset_def new_measurements_def zero_RunConfig_def
      time_Sub_def sat64_def)


subsection \<open>The guardrail\<close>

definition slo_violated :: "RunConfig \<Rightarrow> measurements \<Rightarrow> bool" where
  "slo_violated config m \<longleftrightarrow>
     rc_MaxP95Millis config > 0 \<and> p95 (ss_values (me_latencies m)) > rc_MaxP95Millis config \<or>
     rc_MaxTTFTP95Millis config > 0 \<and> p95 (ss_values (me_ttfts m)) > rc_MaxTTFTP95Millis config \<or>
     rc_MaxTTPOTP95Millis config > 0 \<and> p95 (ss_values (me_tpots m)) > rc_MaxTTPOTP95Millis config \<or>
     (let finished = i64 (me_successes m + me_httpFailures m + me_transportErrors m)
      in fless fzero (rc_MinGoodputPercent config) \<and> finished > 0 \<and>
         fless (fpercent (me_goodput m) finished) (rc_MinGoodputPercent config))"

lemma guardrail_message_iff: "guardrail_message config m \<noteq> [] \<longleftrightarrow> slo_violated config m"
  by (simp add: guardrail_message_def slo_violated_def Let_def)

lemma slo_violated_frame:
  "slo_violated config (m\<lparr>me_stopped := s, me_guardrail := g, me_runCancelled := c\<rparr>) = slo_violated config m"
  by (simp add: slo_violated_def)

lemma maybeStop_cases:
  "maybeStopLocked config m =
    (if me_stopped m \<or> me_steadySamples m < 10 \<or> \<not> slo_violated config m then m
     else m\<lparr>me_stopped := True, me_guardrail := guardrail_message config m, me_runCancelled := True\<rparr>)"
  by (auto simp: maybeStopLocked_def guardrail_message_iff Let_def)

lemma recordSuccess_stop: "\<exists>m'. recordSuccess call latency timing status usage config now m = maybeStopLocked config m' \<and>
    me_stopped m' = me_stopped m \<and> me_guardrail m' = me_guardrail m \<and> me_runCancelled m' = me_runCancelled m"
proof -
  have fields: "me_stopped (if b then x else y) = (if b then me_stopped x else me_stopped y)"
    "me_guardrail (if b then x else y) = (if b then me_guardrail x else me_guardrail y)"
    "me_runCancelled (if b then x else y) = (if b then me_runCancelled x else me_runCancelled y)"
    for b and x y :: measurements
    by simp_all
  show ?thesis
    unfolding recordSuccess_def Let_def
    by (rule exI, rule conjI, rule refl)
      (simp add: fields recordTimelineLocked_def count_status_def steady_samples_def cong: if_cong split del: if_split)
qed

lemma stop_other:
  assumes "\<forall>call latency timing status usage config now. e \<noteq> Succeed call latency timing status usage config now"
  shows "me_stopped (event_step m e) = me_stopped m \<and> me_guardrail (event_step m e) = me_guardrail m \<and>
    me_runCancelled (event_step m e) = me_runCancelled m"
  using assms by (cases e) (simp_all add: event_defs)

text \<open>Some request succeeded after which a limit of its configuration was exceeded by at least ten
  steady samples.\<close>

definition tripped :: "measurements \<Rightarrow> agent_event list \<Rightarrow> bool" where
  "tripped m0 es \<longleftrightarrow> (\<exists>before call latency timing status usage config now after.
     es = before @ Succeed call latency timing status usage config now # after \<and>
     10 \<le> me_steadySamples (event_step (foldl event_step m0 before)
       (Succeed call latency timing status usage config now)) \<and>
     slo_violated config (event_step (foldl event_step m0 before)
       (Succeed call latency timing status usage config now)))"

lemma tripped_append: "tripped m0 es \<Longrightarrow> tripped m0 (es @ [e])"
  unfolding tripped_def by (metis append_Cons append_assoc)

lemma stopped_keeps:
  assumes "me_stopped m"
  shows "me_runCancelled (event_step m e) = me_runCancelled m \<and> me_guardrail (event_step m e) = me_guardrail m"
proof (cases e)
  case (Succeed call latency timing status usage config now)
  obtain m' where m': "recordSuccess call latency timing status usage config now m = maybeStopLocked config m'"
    "me_stopped m' = me_stopped m" "me_guardrail m' = me_guardrail m" "me_runCancelled m' = me_runCancelled m"
    using recordSuccess_stop by blast
  then show ?thesis using assms by (simp add: Succeed maybeStop_cases)
qed (use stop_other [of e m] in auto)

lemma stops_now:
  assumes "\<not> me_stopped m" "me_stopped (event_step m e)"
  shows "\<exists>call latency timing status usage config now. e = Succeed call latency timing status usage config now \<and>
    10 \<le> me_steadySamples (event_step m e) \<and> slo_violated config (event_step m e) \<and>
    me_runCancelled (event_step m e) \<and> me_guardrail (event_step m e) \<noteq> []"
proof -
  have "\<exists>call latency timing status usage config now. e = Succeed call latency timing status usage config now"
    using stop_other [of e m] assms by blast
  then obtain call latency timing status usage config now where
    e: "e = Succeed call latency timing status usage config now" by blast
  obtain m' where m': "recordSuccess call latency timing status usage config now m = maybeStopLocked config m'"
    "me_stopped m' = me_stopped m"
    using recordSuccess_stop by blast
  have trip: "\<not> (me_stopped m' \<or> me_steadySamples m' < 10 \<or> \<not> slo_violated config m')"
    using assms m' by (auto simp: e maybeStop_cases split: if_splits)
  then have n: "event_step m e = m'\<lparr>me_stopped := True, me_guardrail := guardrail_message config m',
      me_runCancelled := True\<rparr>"
    using m'(1) by (simp add: e maybeStop_cases)
  have "10 \<le> me_steadySamples (event_step m e) \<and> slo_violated config (event_step m e) \<and>
      me_runCancelled (event_step m e) \<and> me_guardrail (event_step m e) \<noteq> []"
    using trip unfolding n by (simp add: slo_violated_frame guardrail_message_iff)
  then show ?thesis using e by blast
qed

lemma guardrail_history:
  assumes "agent_run (reset t0 m0) es flight m" "me_stopped m"
  shows "me_runCancelled m \<and> me_guardrail m \<noteq> [] \<and> tripped (reset t0 m0) es"
  using assms(2) unfolding agent_run_fold [OF assms(1)]
proof (induction es rule: rev_induct)
  case (snoc e es)
  let ?m = "foldl event_step (reset t0 m0) es"
  show ?case
  proof (cases "me_stopped ?m")
    case True
    with snoc.IH tripped_append stopped_keeps [OF True, of e] show ?thesis by simp
  next
    case False
    have "me_stopped (event_step ?m e)" using snoc.prems by simp
    from stops_now [OF False this] obtain call latency timing status usage config now where
      e: "e = Succeed call latency timing status usage config now"
      "10 \<le> me_steadySamples (event_step ?m e)" "slo_violated config (event_step ?m e)"
      "me_runCancelled (event_step ?m e)" "me_guardrail (event_step ?m e) \<noteq> []" by blast
    then have "tripped (reset t0 m0) (es @ [e])"
      unfolding tripped_def by blast
    with e show ?thesis by simp
  qed
qed simp

text \<open>C26. The agent stops a run early only after at least ten successful
  requests of the steady window, right after a request at which the P95 of latency, of time to first
  token or of time per output token was above its limit, or the percentage of the finished requests
  that met every limit was below its minimum; then the result carries a message and the run's context
  is cancelled. A run whose requests set no limit is never stopped.\<close>

theorem guardrail_trips_on_evidence:
  assumes "agent_run (reset t0 m0) es flight m" "rr_StoppedByGuardrail (measured_result config ord now m)"
  shows "rr_GuardrailMessage (measured_result config ord now m) \<noteq> [] \<and> me_runCancelled m \<and>
    (\<exists>before call latency timing status usage config' now' after m'.
       es = before @ Succeed call latency timing status usage config' now' # after \<and>
       m' = event_step (foldl event_step (reset t0 m0) before)
         (Succeed call latency timing status usage config' now') \<and>
       10 \<le> me_steadySamples m' \<and>
       (rc_MaxP95Millis config' > 0 \<and> p95 (ss_values (me_latencies m')) > rc_MaxP95Millis config' \<or>
        rc_MaxTTFTP95Millis config' > 0 \<and> p95 (ss_values (me_ttfts m')) > rc_MaxTTFTP95Millis config' \<or>
        rc_MaxTTPOTP95Millis config' > 0 \<and> p95 (ss_values (me_tpots m')) > rc_MaxTTPOTP95Millis config' \<or>
        (let finished = i64 (me_successes m' + me_httpFailures m' + me_transportErrors m')
         in fless fzero (rc_MinGoodputPercent config') \<and> finished > 0 \<and>
            fless (fpercent (me_goodput m') finished) (rc_MinGoodputPercent config'))))"
proof -
  have s: "me_stopped m" "rr_GuardrailMessage (measured_result config ord now m) = me_guardrail m"
    using assms(2) by (simp_all add: measured_result_def Let_def)
  from guardrail_history [OF assms(1) s(1)] have
    g: "me_runCancelled m" "me_guardrail m \<noteq> []" "tripped (reset t0 m0) es" by blast+
  from g(3) obtain before call latency timing status usage config' now' after where
    t: "es = before @ Succeed call latency timing status usage config' now' # after"
      "10 \<le> me_steadySamples (event_step (foldl event_step (reset t0 m0) before)
         (Succeed call latency timing status usage config' now'))"
      "slo_violated config' (event_step (foldl event_step (reset t0 m0) before)
         (Succeed call latency timing status usage config' now'))"
    unfolding tripped_def by blast
  show ?thesis
    unfolding s(2) using g(1,2) t(1,2) t(3) [unfolded slo_violated_def] by blast
qed

text \<open>Warmup requests of 500 ms against a limit of 100 ms.\<close>

abbreviation "strict_config \<equiv> zero_RunConfig\<lparr>rc_MaxP95Millis := 100\<rparr>"
abbreviation "slow_request \<equiv> [Issue [] None 5,
  Succeed first_call 500 first_timing 200 zero_TokenUsage strict_config 12]"

lemma begin_same: "me_started m = me_started m' \<Longrightarrow> me_steadyAfter m = me_steadyAfter m' \<Longrightarrow>
    fst (beginAttempt name sched now m) = fst (beginAttempt name sched now m')"
  by (simp add: beginAttempt_def Let_def)

lemma slow_requests:
  assumes "m0 = reset 0 (new_measurements 0 config)" "rc_SteadyStateSeconds config = 0"
  shows "agent_run m0 (concat (replicate n slow_request)) {#} (foldl event_step m0 (concat (replicate n slow_request)))"
proof (induction n)
  case (Suc n)
  let ?es = "concat (replicate n slow_request)"
  let ?m = "foldl event_step m0 ?es"
  have call: "fst (beginAttempt [] None 5 ?m) = first_call"
    using assms by (intro begin_same) (simp_all add: fold_frame reset_def new_measurements_def zero_RunConfig_def)
  have i: "agent_run m0 (?es @ [Issue [] None 5]) {#first_call#} (event_step ?m (Issue [] None 5))"
    using agent_run.issue [OF Suc.IH, of "[]" None 5] call by (metis event_step.simps(1) prod.collapse)
  have "agent_run m0 ((?es @ [Issue [] None 5]) @ [Succeed first_call 500 first_timing 200 zero_TokenUsage strict_config 12])
      ({#first_call#} - {#first_call#})
      (event_step (event_step ?m (Issue [] None 5)) (Succeed first_call 500 first_timing 200 zero_TokenUsage strict_config 12))"
    by (rule agent_run.finish [OF i]) simp_all
  moreover have "concat (replicate (Suc n) slow_request) = ?es @ slow_request"
    by (induction n) simp_all
  ultimately show ?case by simp
qed (simp add: agent_run.start)

lemma strict_steady: "rc_SteadyStateSeconds strict_config = 0"
  by (simp add: zero_RunConfig_def)

lemma not_stopped: "\<not> me_stopped (maybeStopLocked config m) \<Longrightarrow> maybeStopLocked config m = m \<and>
    \<not> (10 \<le> me_steadySamples m \<and> slo_violated config m)"
  by (auto simp: maybeStop_cases split: if_splits)

lemma foldl_snoc: "foldl f s (xs @ [x]) = f (foldl f s xs) x"
  by simp

lemma slow_run_stops:
  "me_stopped (foldl event_step (reset 0 (new_measurements 0 strict_config)) (concat (replicate 10 slow_request)))"
proof -
  let ?last = "foldl event_step (reset 0 (new_measurements 0 strict_config)) (concat (replicate 10 slow_request))"
  let ?start = "reset 0 (new_measurements 0 strict_config)"
  let ?before = "concat (replicate 9 slow_request) @ [Issue [] None 5]"
  let ?e = "Succeed first_call 500 first_timing 200 zero_TokenUsage strict_config 12"
  have es: "concat (replicate 10 slow_request) = ?before @ [?e]"
    by (simp add: numeral_eq_Suc)
  have run: "agent_run ?start (concat (replicate 10 slow_request)) {#} ?last"
    by (rule slow_requests [OF refl strict_steady])
  have len: "length (concat (replicate 10 slow_request)) < 2 ^ 62"
    by (simp add: length_concat sum_list_replicate)
  have "tally is_steady (concat (replicate 10 slow_request)) = 10"
    by (simp add: numeral_eq_Suc tally_def is_steady_def)
  then have n: "me_steadySamples ?last = 10"
    using run_counters(7) [OF run len] by (simp only:)
  have "steady_values (\<lambda>latency timing. [latency]) (concat (replicate 10 slow_request)) = replicate 10 500"
    by (simp add: steady_values_def numeral_eq_Suc)
  then have l: "me_latencies ?last = sample_addAll (replicate 10 500) zero_sampleSet"
    using run_samples(1) [OF run] by simp
  have "ss_values (me_latencies ?last) = replicate 10 500"
    unfolding l using evenly_spaced [of "replicate 10 500"] by (auto simp: maxSamplesPerMetric_def)
  moreover have "p95 (replicate 10 500) = 500" by code_simp
  ultimately have p: "p95 (ss_values (me_latencies ?last)) = 500" by (simp only:)
  show ?thesis
  proof (rule ccontr)
    assume ns: "\<not> me_stopped ?last"
    have "?last = event_step (foldl event_step ?start ?before) ?e"
      unfolding es by (rule foldl_snoc)
    then obtain m' where m': "?last = maybeStopLocked strict_config m'"
      using recordSuccess_stop unfolding event_step.simps(2) by metis
    from not_stopped [OF ns [unfolded m']]
    have "\<not> (10 \<le> me_steadySamples ?last \<and> slo_violated strict_config ?last)" unfolding m' by simp
    moreover have "slo_violated strict_config ?last" unfolding slo_violated_def p by simp
    ultimately show False unfolding n by simp
  qed
qed

theorem guardrail_trips_on_evidence_witness:
  "rr_GuardrailMessage (measured_result strict_config [] 20
    (foldl event_step (reset 0 (new_measurements 0 strict_config)) (concat (replicate 10 slow_request)))) \<noteq> []"
proof -
  have run: "agent_run (reset 0 (new_measurements 0 strict_config)) (concat (replicate 10 slow_request)) {#}
      (foldl event_step (reset 0 (new_measurements 0 strict_config)) (concat (replicate 10 slow_request)))"
    by (rule slow_requests [OF refl strict_steady])
  show ?thesis
    using guardrail_trips_on_evidence [OF run, of strict_config "[]" 20] slow_run_stops
    by (simp add: measured_result_def Let_def)
qed

end
