(* ===== verification/Go_Strings.thy ===== *)
theory Go_Strings
  imports Core_Target
begin

text \<open>
  More functions of the package \<open>strings\<close>, on byte strings; \<open>Core_Target\<close> has those that the
  validation of targets uses.
\<close>

definition HasPrefix :: "string \<Rightarrow> string \<Rightarrow> bool" where
  "HasPrefix s pre \<longleftrightarrow> take (length pre) s = pre"

definition TrimPrefix :: "string \<Rightarrow> string \<Rightarrow> string" where
  "TrimPrefix s pre = (if HasPrefix s pre then drop (length pre) s else s)"

fun Contains :: "string \<Rightarrow> string \<Rightarrow> bool" where
  "Contains [] sub \<longleftrightarrow> sub = []"
| "Contains (c # s) sub \<longleftrightarrow> HasPrefix (c # s) sub \<or> Contains s sub"

text \<open>The text before and after the first separator; \<open>None\<close> when there is none.\<close>

fun split_first :: "string \<Rightarrow> string \<Rightarrow> (string \<times> string) option" where
  "split_first sep [] = None"
| "split_first sep (c # s) =
     (if HasPrefix (c # s) sep then Some ([], drop (length sep) (c # s))
      else map_option (\<lambda>(before, after). (c # before, after)) (split_first sep s))"

lemma split_first_Some:
  "split_first sep s = Some (before, after) \<Longrightarrow> s = before @ sep @ after"
proof (induction s arbitrary: before)
  case (Cons c s)
  show ?case
  proof (cases "HasPrefix (c # s) sep")
    case True
    then have "c # s = sep @ drop (length sep) (c # s)"
      unfolding HasPrefix_def by (metis append_take_drop_id)
    then show ?thesis using Cons.prems True by auto
  qed (use Cons in auto)
qed simp

lemma split_first_length: "split_first sep s = Some (before, after) \<Longrightarrow> sep \<noteq> [] \<Longrightarrow> length after < length s"
  by (drule split_first_Some) (cases sep; simp)

lemma split_first_char:
  "c \<notin> set a \<Longrightarrow> split_first [c] (a @ c # b) = Some (a, b)"
  by (induction a) (auto simp: HasPrefix_def)

lemma split_first_None: "split_first [c] s = None \<longleftrightarrow> c \<notin> set s"
  by (induction s) (auto simp: HasPrefix_def)

text \<open>\<open>strings.Split\<close> and \<open>bytes.Split\<close> with a separator that is not empty.\<close>

function Split :: "string \<Rightarrow> string \<Rightarrow> string list" where
  "Split s sep = (if sep = [] then [s] else case split_first sep s of
     None \<Rightarrow> [s] | Some (before, after) \<Rightarrow> before # Split after sep)"
  by pat_completeness auto
termination
  by (relation "measure (\<lambda>(s, sep). length s)") (auto dest: split_first_length)

declare Split.simps [simp del]

end
