(* ===== verification/Agent_Stream.thy ===== *)
theory Agent_Stream
  imports Agent_Measure Go_Strings
begin

text \<open>
  Reading the response of a model server (\<open>internal/agent/runner.go\<close>: \<open>readModelResponse\<close>,
  \<open>readModelJSON\<close>). A body is the list of its lines, each with the clock reading at which it was
  read, and how it ended. Decoding JSON (\<open>encoding/json\<close>) is an argument: \<open>decode\<close> gives the fields
  of a stream event the code looks at.
\<close>

record modelUsage =
  mu_PromptTokens :: int
  mu_CompletionTokens :: int
  mu_ReasoningTokens :: int
  mu_Details :: int        \<comment> \<open>\<open>completion_tokens_details.reasoning_tokens\<close>\<close>

definition tokenUsage :: "modelUsage \<Rightarrow> TokenUsage" where
  "tokenUsage u =
     (let r = mu_ReasoningTokens u; r = (if r = 0 then mu_Details u else r)
      in zero_TokenUsage\<lparr>tu_Prompt := mu_PromptTokens u, tu_Completion := mu_CompletionTokens u,
           tu_Reasoning := r\<rparr>)"

record delta =
  dl_Content :: string
  dl_ReasoningContent :: string

record streamEvent =
  ev_Choices :: "delta list"
  ev_Usage :: modelUsage

subsection \<open>The state of the loop\<close>

record stream =
  sr_timing :: modelTiming
  sr_usage :: TokenUsage
  sr_lastChunk :: "int option"     \<comment> \<open>\<open>None\<close> for the zero time\<close>
  sr_answer :: string

definition stream_start :: stream where
  "stream_start = \<lparr>sr_timing = zero_modelTiming, sr_usage = zero_TokenUsage, sr_lastChunk = None, sr_answer = []\<rparr>"

text \<open>The body of \<open>if delta.Content != "" || delta.ReasoningContent != ""\<close>.\<close>

definition read_chunk :: "int \<Rightarrow> int \<Rightarrow> delta \<Rightarrow> stream \<Rightarrow> stream" where
  "read_chunk started now delta s =
     (let timing = sr_timing s;
          timing = timing\<lparr>mt_chunks := i64 (mt_chunks timing + 1)\<rparr>;
          answer = (if dl_Content delta \<noteq> [] \<and> int (length (sr_answer s)) < maxAnswerChars
            then sr_answer s @ dl_Content delta else sr_answer s);
          timing = (if mt_ttft timing = 0
            then timing\<lparr>mt_ttft := Milliseconds (time_Sub now started)\<rparr> else timing);
          timing = (case sr_lastChunk s of
              None \<Rightarrow> timing
            | Some prev \<Rightarrow> timing\<lparr>mt_itls := mt_itls timing @ [Milliseconds (time_Sub now prev)]\<rparr>);
          timing = (if mt_ttfo timing = 0 \<and> dl_Content delta \<noteq> []
            then timing\<lparr>mt_ttfo := Milliseconds (time_Sub now started)\<rparr> else timing)
      in s\<lparr>sr_timing := timing, sr_answer := answer, sr_lastChunk := Some now\<rparr>)"

definition is_chunk :: "streamEvent \<Rightarrow> bool" where
  "is_chunk event \<longleftrightarrow> (case ev_Choices event of [] \<Rightarrow> False
     | d # _ \<Rightarrow> dl_Content d \<noteq> [] \<or> dl_ReasoningContent d \<noteq> [])"

definition reports_usage :: "streamEvent \<Rightarrow> bool" where
  "reports_usage event \<longleftrightarrow> (let reported = tokenUsage (ev_Usage event)
     in tu_Completion reported > 0 \<or> tu_Prompt reported > 0)"

definition read_event :: "int \<Rightarrow> int \<Rightarrow> streamEvent \<Rightarrow> stream \<Rightarrow> stream" where
  "read_event started now event s =
     (let s = (if is_chunk event then read_chunk started now (hd (ev_Choices event)) s else s)
      in if reports_usage event
         then s\<lparr>sr_usage := tokenUsage (ev_Usage event),
                sr_timing := (sr_timing s)\<lparr>mt_usageReported := True\<rparr>\<rparr>
         else s)"

text \<open>The loop over the lines: \<open>Inl\<close> is the return in the middle, when a line does not decode.\<close>

fun read_lines :: "(string \<Rightarrow> string + streamEvent) \<Rightarrow> int \<Rightarrow> (string \<times> int) list \<Rightarrow> stream
    \<Rightarrow> (stream \<times> string) + stream" where
  "read_lines decode started [] s = Inr s"
| "read_lines decode started ((line, now) # rest) s =
     (if \<not> HasPrefix line ''data: '' \<or> line = ''data: [DONE]'' then read_lines decode started rest s
      else case decode (drop 6 line) of
          Inl err \<Rightarrow> Inl (s, err)
        | Inr event \<Rightarrow> read_lines decode started rest (read_event started now event s))"

definition finish_timing :: "int \<Rightarrow> int \<Rightarrow> int \<Rightarrow> stream \<Rightarrow> modelTiming" where
  "finish_timing started now now2 s =
     (let timing = sr_timing s; usage = sr_usage s;
          timing = (if mt_ttft timing = 0
            then timing\<lparr>mt_ttft := Milliseconds (time_Sub now started)\<rparr> else timing);
          timing = (if mt_ttfo timing = 0 then timing\<lparr>mt_ttfo := mt_ttft timing\<rparr> else timing);
          timing = (if tu_Completion usage > 1
            then timing\<lparr>mt_tpot := i64 (quot (i64 (Milliseconds (time_Sub now2 started) - mt_ttfo timing))
              (i64 (tu_Completion usage - 1)))\<rparr> else timing);
          timing = (if mt_tpot timing = 0 \<and> mt_itls timing \<noteq> []
            then timing\<lparr>mt_tpot := average (mt_itls timing)\<rparr> else timing)
      in timing\<lparr>mt_answer := sr_answer s\<rparr>)"

record response_body =
  rb_stream :: bool                              \<comment> \<open>the content type contains \<open>text/event-stream\<close>\<close>
  rb_lines :: "(string \<times> int) list"
  rb_scanError :: "request_error option"
  rb_json :: "request_error + modelUsage"        \<comment> \<open>the error or the usage; an empty body is a zero usage\<close>
  rb_end :: int                                  \<comment> \<open>the clock when the body was read\<close>
  rb_end2 :: int                                 \<comment> \<open>the clock when the time per token is computed\<close>

text \<open>An error of \<open>json.Unmarshal\<close> is none of the context errors; an error of reading the body may be one.\<close>

definition readModelResponse ::
    "(string \<Rightarrow> string + streamEvent) \<Rightarrow> response_body \<Rightarrow> int \<Rightarrow> modelTiming \<times> TokenUsage \<times> request_error option" where
  "readModelResponse decode body started =
     (if \<not> rb_stream body then
        let elapsed = Milliseconds (time_Sub (rb_end body) started);
            (usage, err) = (case rb_json body of
                Inl e \<Rightarrow> (zero_TokenUsage, Some (e\<lparr>err_text := ''decode model response: '' @ err_text e\<rparr>))
              | Inr u \<Rightarrow> (tokenUsage u, None))
        in (zero_modelTiming\<lparr>mt_ttft := elapsed, mt_ttfo := elapsed,
              mt_usageReported := (tu_Completion usage > 0)\<rparr>, usage, err)
      else case read_lines decode started (rb_lines body) stream_start of
          Inl (s, e) \<Rightarrow> (sr_timing s, sr_usage s, Some \<lparr>err_context = False, err_text = ''decode model stream: '' @ e\<rparr>)
        | Inr s \<Rightarrow> (case rb_scanError body of
              Some err \<Rightarrow> (sr_timing s, sr_usage s, Some (err\<lparr>err_text := ''read model stream: '' @ err_text err\<rparr>))
            | None \<Rightarrow> (finish_timing started (rb_end body) (rb_end2 body) s, sr_usage s, None)))"

subsection \<open>What the loop computes\<close>

text \<open>The decoded events of a body with their times; \<open>None\<close> when a line does not decode.\<close>

fun decoded :: "(string \<Rightarrow> string + streamEvent) \<Rightarrow> (string \<times> int) list \<Rightarrow> (streamEvent \<times> int) list option" where
  "decoded decode [] = Some []"
| "decoded decode ((line, now) # rest) =
     (if \<not> HasPrefix line ''data: '' \<or> line = ''data: [DONE]'' then decoded decode rest
      else case decode (drop 6 line) of
          Inl err \<Rightarrow> None
        | Inr event \<Rightarrow> map_option ((#) (event, now)) (decoded decode rest))"

definition read_events :: "int \<Rightarrow> (streamEvent \<times> int) list \<Rightarrow> stream" where
  "read_events started evs = foldl (\<lambda>s (event, now). read_event started now event s) stream_start evs"

lemma read_lines_decoded:
  "(case decoded decode lines of
     None \<Rightarrow> (\<exists>e. read_lines decode started lines s = Inl e)
   | Some evs \<Rightarrow> read_lines decode started lines s =
       Inr (foldl (\<lambda>s (event, now). read_event started now event s) s evs))"
proof (induction decode started lines s rule: read_lines.induct)
  case (2 decode started line now rest s)
  show ?case
  proof (cases "\<not> HasPrefix line ''data: '' \<or> line = ''data: [DONE]''")
    case True
    then show ?thesis using "2.IH"(1) by (auto split: option.splits)
  next
    case False
    show ?thesis
    proof (cases "decode (drop 6 line)")
      case (Inr event)
      from "2.IH"(2) [OF False Inr] show ?thesis using False Inr by (auto split: option.splits)
    qed (use False in auto)
  qed
qed simp

text \<open>The times of the chunks, and of those with content.\<close>

definition chunk_times :: "(streamEvent \<times> int) list \<Rightarrow> int list" where
  "chunk_times evs = map snd (filter (\<lambda>(event, _). is_chunk event) evs)"

definition has_content :: "streamEvent \<Rightarrow> bool" where
  "has_content event \<longleftrightarrow> (case ev_Choices event of [] \<Rightarrow> False | d # _ \<Rightarrow> dl_Content d \<noteq> [])"

definition content_times :: "(streamEvent \<times> int) list \<Rightarrow> int list" where
  "content_times evs = map snd (filter (\<lambda>(event, _). has_content event) evs)"

definition contents :: "(streamEvent \<times> int) list \<Rightarrow> string" where
  "contents evs = concat (map (\<lambda>(event, _). if is_chunk event then dl_Content (hd (ev_Choices event)) else []) evs)"

definition reported_usage :: "(streamEvent \<times> int) list \<Rightarrow> TokenUsage option" where
  "reported_usage evs = (case rev (filter reports_usage (map fst evs)) of
     [] \<Rightarrow> None | event # _ \<Rightarrow> Some (tokenUsage (ev_Usage event)))"

text \<open>The first offset that is a whole millisecond or more, 0 when there is none.\<close>

fun first_nonzero :: "int list \<Rightarrow> int" where
  "first_nonzero [] = 0"
| "first_nonzero (x # xs) = (if x \<noteq> 0 then x else first_nonzero xs)"

definition offsets :: "int \<Rightarrow> int list \<Rightarrow> int list" where
  "offsets started ts = map (\<lambda>t. Milliseconds (time_Sub t started)) ts"

fun gaps :: "int list \<Rightarrow> int list" where
  "gaps (a # b # ts) = Milliseconds (time_Sub b a) # gaps (b # ts)"
| "gaps _ = []"

lemma first_nonzero_snoc: "first_nonzero (xs @ [x]) = (if first_nonzero xs = 0 then x else first_nonzero xs)"
  by (induction xs) auto

lemma gaps_snoc: "gaps (ts @ [t]) = gaps ts @ (if ts = [] then [] else [Milliseconds (time_Sub t (last ts))])"
  by (induction ts rule: gaps.induct) auto

lemma length_gaps: "length (gaps ts) = length ts - 1"
  by (induction ts rule: gaps.induct) auto

lemma events_snoc:
  "read_events started (evs @ [(event, now)]) = read_event started now event (read_events started evs)"
  "chunk_times (evs @ [(event, now)]) = chunk_times evs @ (if is_chunk event then [now] else [])"
  "content_times (evs @ [(event, now)]) = content_times evs @ (if has_content event then [now] else [])"
  "contents (evs @ [(event, now)]) = contents evs @ (if is_chunk event then dl_Content (hd (ev_Choices event)) else [])"
  "reported_usage (evs @ [(event, now)]) =
    (if reports_usage event then Some (tokenUsage (ev_Usage event)) else reported_usage evs)"
  by (simp_all add: read_events_def chunk_times_def content_times_def contents_def reported_usage_def)

lemma events_Nil:
  "read_events started [] = stream_start" "chunk_times [] = []" "content_times [] = []" "contents [] = []"
  "reported_usage [] = None" "offsets started [] = []"
  by (simp_all add: read_events_def chunk_times_def content_times_def contents_def reported_usage_def offsets_def)

lemma has_content_is_chunk: "has_content event \<longleftrightarrow> is_chunk event \<and> dl_Content (hd (ev_Choices event)) \<noteq> []"
  by (auto simp: has_content_def is_chunk_def split: list.splits)

lemma offsets_snoc: "offsets started (ts @ [t]) = offsets started ts @ [Milliseconds (time_Sub t started)]"
  by (simp add: offsets_def)

lemma stream_start_sel [simp]:
  "sr_timing stream_start = zero_modelTiming" "sr_usage stream_start = zero_TokenUsage"
  "sr_lastChunk stream_start = None" "sr_answer stream_start = []"
  by (simp_all add: stream_start_def)

lemma zero_modelTiming_sel [simp]:
  "mt_ttft zero_modelTiming = 0" "mt_ttfo zero_modelTiming = 0" "mt_tpot zero_modelTiming = 0"
  "mt_itls zero_modelTiming = []" "mt_chunks zero_modelTiming = 0" "\<not> mt_usageReported zero_modelTiming"
  by (simp_all add: zero_modelTiming_def)

lemmas read_sel = read_event_def read_chunk_def Let_def

lemma lastChunk_eq:
  "sr_lastChunk (read_events started evs) = (if chunk_times evs = [] then None else Some (last (chunk_times evs)))"
  by (induction evs rule: rev_induct) (auto simp: events_Nil events_snoc read_sel split: if_splits)

lemma chunks_eq: "mt_chunks (sr_timing (read_events started evs)) = i64 (int (length (chunk_times evs)))"
proof (induction evs rule: rev_induct)
  case (snoc x evs)
  obtain event now where x: "x = (event, now)" by (cases x)
  show ?case unfolding x events_snoc
    by (auto simp: read_sel snoc i64_simps add.commute split: option.splits)
qed (simp add: events_Nil)

lemma itls_eq: "mt_itls (sr_timing (read_events started evs)) = gaps (chunk_times evs)"
proof (induction evs rule: rev_induct)
  case (snoc x evs)
  obtain event now where x: "x = (event, now)" by (cases x)
  show ?case unfolding x events_snoc
    by (auto simp: read_sel snoc lastChunk_eq gaps_snoc split: option.splits if_splits)
qed (simp add: events_Nil)

lemma ttft_eq: "mt_ttft (sr_timing (read_events started evs)) = first_nonzero (offsets started (chunk_times evs))"
proof (induction evs rule: rev_induct)
  case (snoc x evs)
  obtain event now where x: "x = (event, now)" by (cases x)
  show ?case unfolding x events_snoc
    by (auto simp: read_sel snoc offsets_snoc first_nonzero_snoc split: option.splits)
qed (simp add: events_Nil)

lemma ttfo_eq: "mt_ttfo (sr_timing (read_events started evs)) = first_nonzero (offsets started (content_times evs))"
proof (induction evs rule: rev_induct)
  case (snoc x evs)
  obtain event now where x: "x = (event, now)" by (cases x)
  show ?case unfolding x events_snoc has_content_is_chunk
    by (auto simp: read_sel snoc offsets_snoc first_nonzero_snoc split: option.splits)
qed (simp add: events_Nil)

lemma tpot_zero: "mt_tpot (sr_timing (read_events started evs)) = 0"
  by (induction evs rule: rev_induct) (auto simp: events_Nil events_snoc read_sel split: option.splits)

lemma usage_eq:
  "sr_usage (read_events started evs) = (case reported_usage evs of None \<Rightarrow> zero_TokenUsage | Some u \<Rightarrow> u)"
  by (induction evs rule: rev_induct) (auto simp: events_Nil events_snoc read_sel)

lemma usageReported_eq:
  "mt_usageReported (sr_timing (read_events started evs)) \<longleftrightarrow> reported_usage evs \<noteq> None"
  by (induction evs rule: rev_induct) (auto simp: events_Nil events_snoc read_sel split: option.splits if_splits)

text \<open>The answer is cut only after it has reached \<open>maxAnswerChars\<close>.\<close>

lemma answer_eq:
  "(\<exists>rest. contents evs = sr_answer (read_events started evs) @ rest) \<and>
   (int (length (sr_answer (read_events started evs))) < maxAnswerChars \<longrightarrow>
     sr_answer (read_events started evs) = contents evs)"
proof (induction evs rule: rev_induct)
  case (snoc x evs)
  obtain event now where x: "x = (event, now)" by (cases x)
  show ?case using snoc unfolding x events_snoc
    by (auto simp: read_sel)
qed (simp add: events_Nil)

lemma first_nonzero_min:
  "sorted xs \<Longrightarrow> \<forall>x\<in>set xs. 0 \<le> x \<Longrightarrow> y \<in> set xs \<Longrightarrow> y \<noteq> 0 \<Longrightarrow> 0 < first_nonzero xs \<and> first_nonzero xs \<le> y"
  by (induction xs) auto

lemma first_nonzero_in: "first_nonzero xs \<noteq> 0 \<Longrightarrow> first_nonzero xs \<in> set xs"
  by (induction xs) (auto split: if_splits)

lemma offset_mono: "t \<le> u \<Longrightarrow> started \<le> t \<Longrightarrow> Milliseconds (time_Sub t started) \<le> Milliseconds (time_Sub u started)"
  by (simp add: Milliseconds_eq time_Sub_nonneg zdiv_mono1) (simp add: time_Sub_def sat64_def zdiv_mono1)

lemma chunk_times_of: "set (chunk_times evs) \<subseteq> snd ` set evs" "set (content_times evs) \<subseteq> set (chunk_times evs)"
  by (auto simp: chunk_times_def content_times_def has_content_is_chunk)

lemma sorted_offsets:
  assumes "sorted (map snd evs)" "\<forall>t\<in>snd ` set evs. started \<le> t"
  shows "sorted (offsets started (chunk_times evs))"
proof -
  have "sorted (chunk_times evs)"
    unfolding chunk_times_def using assms(1) by (rule sorted_filter)
  moreover have "\<forall>t\<in>set (chunk_times evs). started \<le> t" using assms(2) chunk_times_of(1) by blast
  ultimately show ?thesis
    unfolding offsets_def sorted_map by (auto simp: sorted_wrt_iff_nth_less offset_mono)
qed

lemma ttft_nonneg:
  assumes "sorted (map snd evs)" "\<forall>t\<in>snd ` set evs. started \<le> t"
  shows "0 \<le> first_nonzero (offsets started (chunk_times evs))"
    "first_nonzero (offsets started (content_times evs)) \<noteq> 0 \<Longrightarrow>
      0 < first_nonzero (offsets started (chunk_times evs)) \<and>
      first_nonzero (offsets started (chunk_times evs)) \<le> first_nonzero (offsets started (content_times evs))"
proof -
  have nonneg: "\<forall>x\<in>set (offsets started (chunk_times evs)). 0 \<le> x"
    using assms(2) chunk_times_of(1)
    by (fastforce simp: offsets_def intro!: Milliseconds_nonneg time_Sub_nonneg)
  then show "0 \<le> first_nonzero (offsets started (chunk_times evs))"
    using first_nonzero_in [of "offsets started (chunk_times evs)"]
    by (cases "first_nonzero (offsets started (chunk_times evs)) = 0") auto
  assume ne: "first_nonzero (offsets started (content_times evs)) \<noteq> 0"
  from first_nonzero_in [OF this]
  have "first_nonzero (offsets started (content_times evs)) \<in> set (offsets started (chunk_times evs))"
    using chunk_times_of(2) by (auto simp: offsets_def)
  from first_nonzero_min [OF sorted_offsets [OF assms] nonneg this ne]
  show "0 < first_nonzero (offsets started (chunk_times evs)) \<and>
      first_nonzero (offsets started (chunk_times evs)) \<le> first_nonzero (offsets started (content_times evs))" .
qed

lemma finish_sel:
  "mt_itls (finish_timing started now now2 s) = mt_itls (sr_timing s)"
  "mt_chunks (finish_timing started now now2 s) = mt_chunks (sr_timing s)"
  "mt_usageReported (finish_timing started now now2 s) = mt_usageReported (sr_timing s)"
  "mt_answer (finish_timing started now now2 s) = sr_answer s"
  "mt_ttft (finish_timing started now now2 s) =
    (if mt_ttft (sr_timing s) = 0 then Milliseconds (time_Sub now started) else mt_ttft (sr_timing s))"
  "mt_ttfo (finish_timing started now now2 s) =
    (if mt_ttfo (sr_timing s) = 0 then mt_ttft (finish_timing started now now2 s) else mt_ttfo (sr_timing s))"
  by (simp_all add: finish_timing_def Let_def)

lemma readModelResponse_stream:
  assumes "rb_stream body" "rb_scanError body = None" "decoded decode (rb_lines body) = Some evs"
  shows "readModelResponse decode body started =
    (finish_timing started (rb_end body) (rb_end2 body) (read_events started evs), sr_usage (read_events started evs), None)"
  using assms read_lines_decoded [of decode started "rb_lines body" stream_start]
  by (simp add: readModelResponse_def read_events_def)

text \<open>C12. A streamed response whose lines decode and that ends without a read error
  is measured by its events. The number of chunks is the number of events that carry content or
  reasoning, the inter-token latencies are the gaps between those events, one less than the chunks;
  the usage is the last one a positive token count was reported in, and is flagged as reported exactly
  when there was one. When the events come in order after the request started, the time to first token
  is not negative and not later than the time to first output, and when an event with content came at a
  whole millisecond, these are the first such times. The answer kept for the next turn is what the
  content of the chunks spells, cut only when it reached the limit.\<close>

theorem stream_is_measured:
  assumes "rb_stream body" "rb_scanError body = None" "decoded decode (rb_lines body) = Some evs"
    and "sorted (map snd evs @ [rb_end body])" "\<forall>t\<in>snd ` set evs. started \<le> t" "started \<le> rb_end body"
    and "readModelResponse decode body started = (timing, usage, err)"
  shows "err = None \<and>
    mt_chunks timing = i64 (int (length (chunk_times evs))) \<and>
    mt_itls timing = gaps (chunk_times evs) \<and>
    length (mt_itls timing) = length (chunk_times evs) - 1 \<and>
    usage = (case reported_usage evs of None \<Rightarrow> zero_TokenUsage | Some u \<Rightarrow> u) \<and>
    (mt_usageReported timing \<longleftrightarrow> reported_usage evs \<noteq> None) \<and>
    0 \<le> mt_ttft timing \<and> mt_ttft timing \<le> mt_ttfo timing \<and>
    (first_nonzero (offsets started (content_times evs)) \<noteq> 0 \<longrightarrow>
      mt_ttft timing = first_nonzero (offsets started (chunk_times evs)) \<and>
      mt_ttfo timing = first_nonzero (offsets started (content_times evs))) \<and>
    (\<exists>rest. contents evs = mt_answer timing @ rest) \<and>
    (int (length (mt_answer timing)) < maxAnswerChars \<longrightarrow> mt_answer timing = contents evs)"
proof -
  let ?s = "read_events started evs"
  have r: "timing = finish_timing started (rb_end body) (rb_end2 body) ?s" "usage = sr_usage ?s" "err = None"
    using assms(7) unfolding readModelResponse_stream [OF assms(1-3)] by auto
  have sorted: "sorted (map snd evs)" using assms(4) by (simp add: sorted_append)
  note tt = ttft_nonneg [OF sorted assms(5)]
  have e: "0 \<le> Milliseconds (time_Sub (rb_end body) started)"
    using assms(6) by (intro Milliseconds_nonneg time_Sub_nonneg)
  show ?thesis unfolding r finish_sel chunks_eq itls_eq usage_eq usageReported_eq ttft_eq ttfo_eq
    using tt e answer_eq [of evs started] by (auto simp: length_gaps)
qed

abbreviation "no_usage \<equiv> \<lparr>mu_PromptTokens = 0, mu_CompletionTokens = 0, mu_ReasoningTokens = 0, mu_Details = 0\<rparr>"
abbreviation "demo_decode line \<equiv>
  (if line = ''think'' then Inr \<lparr>ev_Choices = [\<lparr>dl_Content = [], dl_ReasoningContent = ''hm''\<rparr>], ev_Usage = no_usage\<rparr>
   else if line = ''say'' then Inr \<lparr>ev_Choices = [\<lparr>dl_Content = ''yes'', dl_ReasoningContent = []\<rparr>], ev_Usage = no_usage\<rparr>
   else Inr \<lparr>ev_Choices = [], ev_Usage = no_usage\<lparr>mu_PromptTokens := 7, mu_CompletionTokens := 2\<rparr>\<rparr> :: string + streamEvent)"
abbreviation "demo_body \<equiv> \<lparr>rb_stream = True,
   rb_lines = [(''data: think'', 2000000), ([], 2000000), (''data: say'', 5000000), (''data: usage'', 6000000),
     (''data: [DONE]'', 6000000)],
   rb_scanError = None, rb_json = Inr no_usage, rb_end = 7000000, rb_end2 = 7000000\<rparr>"
abbreviation "demo_events \<equiv> [(\<lparr>ev_Choices = [\<lparr>dl_Content = [], dl_ReasoningContent = ''hm''\<rparr>], ev_Usage = no_usage\<rparr>, 2000000),
   (\<lparr>ev_Choices = [\<lparr>dl_Content = ''yes'', dl_ReasoningContent = []\<rparr>], ev_Usage = no_usage\<rparr>, 5000000),
   (\<lparr>ev_Choices = [], ev_Usage = no_usage\<lparr>mu_PromptTokens := 7, mu_CompletionTokens := 2\<rparr>\<rparr>, 6000000 :: int)]"

lemma demo_decoded: "decoded (\<lambda>l. demo_decode l) (rb_lines demo_body) = Some demo_events"
  by (simp add: HasPrefix_def)

theorem stream_is_measured_witness:
  "mt_ttft (fst (readModelResponse (\<lambda>l. demo_decode l) demo_body 0)) = 2 \<and>
   mt_itls (fst (readModelResponse (\<lambda>l. demo_decode l) demo_body 0)) = [3] \<and>
   mt_answer (fst (readModelResponse (\<lambda>l. demo_decode l) demo_body 0)) = ''yes''"
proof -
  obtain timing usage err where r: "readModelResponse (\<lambda>l. demo_decode l) demo_body 0 = (timing, usage, err)"
    by (cases "readModelResponse (\<lambda>l. demo_decode l) demo_body 0")
  have m: "Milliseconds (time_Sub 2000000 0) = 2" "Milliseconds (time_Sub 5000000 0) = 5"
    "Milliseconds (time_Sub 5000000 2000000) = 3"
    by (simp_all add: Milliseconds_eq time_Sub_def sat64_def)
  have t: "chunk_times demo_events = [2000000, 5000000]" "content_times demo_events = [5000000]" "contents demo_events = ''yes''"
    by (simp_all add: chunk_times_def content_times_def contents_def is_chunk_def has_content_def)
  have f: "mt_itls timing = gaps (chunk_times demo_events)"
    "mt_ttft timing = first_nonzero (offsets 0 (chunk_times demo_events))"
    "\<exists>rest. contents demo_events = mt_answer timing @ rest"
    "int (length (mt_answer timing)) < maxAnswerChars \<longrightarrow> mt_answer timing = contents demo_events"
    using stream_is_measured [OF _ _ demo_decoded _ _ _ r] unfolding t offsets_def by (simp_all add: m)
  from f(3) have "int (length (mt_answer timing)) < maxAnswerChars"
    unfolding t maxAnswerChars_def by (auto dest!: arg_cong [where f = length])
  with f show ?thesis unfolding r t offsets_def by (simp add: m)
qed

end
