(* ===== verification/Go_Http.thy ===== *)
theory Go_Http
  imports Go_Strings
begin

text \<open>
  What a handler of \<open>net/http\<close> sees of a request and what it answers. Header, cookie and query
  values are read the way the source reads them. The value of a JSON body is an argument of the
  response type, because its encoding is the library's.
\<close>

record cookie =
  ck_Name :: string
  ck_Value :: string
  ck_Path :: string
  ck_HttpOnly :: bool
  ck_Secure :: bool
  ck_SameSiteLax :: bool
  ck_MaxAge :: int

record request =
  rq_Method :: string
  rq_Path :: string
  rq_Query :: "string \<Rightarrow> string"
  rq_Header :: "string \<Rightarrow> string"
  rq_Cookies :: "(string \<times> string) list"
  rq_TLS :: bool
  rq_Body :: string

definition Cookie :: "request \<Rightarrow> string \<Rightarrow> string option" where
  "Cookie r name = map_of (rq_Cookies r) name"

datatype 'v body = NoBody | Plain string | JSON 'v

datatype 'v response = Response (status: int) (set_cookies: "cookie list") (location: string) (payload: "'v body")

definition Error :: "string \<Rightarrow> int \<Rightarrow> 'v response" where
  "Error message code = Response code [] [] (Plain message)"

definition NotFound :: "'v response" where
  "NotFound = Error ''404 page not found'' 404"

definition WriteHeader :: "int \<Rightarrow> 'v response" where
  "WriteHeader code = Response code [] [] NoBody"

definition writeJSON :: "int \<Rightarrow> 'v \<Rightarrow> 'v response" where
  "writeJSON code value = Response code [] [] (JSON value)"

abbreviation "StatusOK \<equiv> 200 :: int"
abbreviation "StatusCreated \<equiv> 201 :: int"
abbreviation "StatusNoContent \<equiv> 204 :: int"
abbreviation "StatusFound \<equiv> 302 :: int"
abbreviation "StatusBadRequest \<equiv> 400 :: int"
abbreviation "StatusUnauthorized \<equiv> 401 :: int"
abbreviation "StatusNotFound \<equiv> 404 :: int"
abbreviation "StatusConflict \<equiv> 409 :: int"
abbreviation "StatusRequestEntityTooLarge \<equiv> 413 :: int"
abbreviation "StatusInternalServerError \<equiv> 500 :: int"
abbreviation "StatusBadGateway \<equiv> 502 :: int"
abbreviation "StatusServiceUnavailable \<equiv> 503 :: int"

lemma status_simps [simp]:
  "status (Error m code) = code" "status NotFound = 404" "status (WriteHeader code) = code" "status (writeJSON code v) = code"
  by (simp_all add: Error_def NotFound_def WriteHeader_def writeJSON_def)

end
