(* ===== verification/Go_Base64.thy ===== *)
theory Go_Base64
  imports Lo_Prelude
begin

text \<open>
  The package \<open>encoding/base64\<close>, as far as the program uses it: the standard alphabet with padding
  and the URL alphabet without (\<open>RawURLEncoding\<close>). Bytes are characters. The decoder of Go skips
  carriage returns and line feeds anywhere, and does not check the unused bits of the last group.
\<close>

record Encoding =
  enc_url :: bool
  enc_pad :: bool

definition StdEncoding :: Encoding where "StdEncoding = \<lparr>enc_url = False, enc_pad = True\<rparr>"
definition RawURLEncoding :: Encoding where "RawURLEncoding = \<lparr>enc_url = True, enc_pad = False\<rparr>"

definition alphabet :: "bool \<Rightarrow> string" where
  "alphabet url = ''ABCDEFGHIJKLMNOPQRSTUVWXYZabcdefghijklmnopqrstuvwxyz0123456789'' @
     (if url then ''-_'' else ''+/'')"

definition sextet :: "bool \<Rightarrow> nat \<Rightarrow> char" where
  "sextet url n = alphabet url ! n"

definition unsextet :: "bool \<Rightarrow> char \<Rightarrow> nat option" where
  "unsextet url c = map_of (zip (alphabet url) [0..<64]) c"

fun EncodeToString :: "Encoding \<Rightarrow> string \<Rightarrow> string" where
  "EncodeToString e [] = []"
| "EncodeToString e [a] =
     (let a = of_char a; s = sextet (enc_url e)
      in [s (a div 4), s (a mod 4 * 16)] @ (if enc_pad e then ''=='' else []))"
| "EncodeToString e [a, b] =
     (let a = of_char a; b = of_char b; s = sextet (enc_url e)
      in [s (a div 4), s (a mod 4 * 16 + b div 16), s (b mod 16 * 4)] @ (if enc_pad e then ''='' else []))"
| "EncodeToString e (a # b # c # rest) =
     (let a = of_char a; b = of_char b; c = of_char c; s = sextet (enc_url e)
      in [s (a div 4), s (a mod 4 * 16 + b div 16), s (b mod 16 * 4 + c div 64), s (c mod 64)] @
         EncodeToString e rest)"

definition octets :: "nat \<Rightarrow> nat \<Rightarrow> nat \<Rightarrow> nat \<Rightarrow> string" where
  "octets w x y z = [char_of (w * 4 + x div 16), char_of (x mod 16 * 16 + y div 4), char_of (y mod 4 * 64 + z)]"

text \<open>One group of four characters after the other; the last group may be short or padded.\<close>

fun decode_groups :: "Encoding \<Rightarrow> string \<Rightarrow> string option" where
  "decode_groups e [] = Some []"
| "decode_groups e [a] = None"
| "decode_groups e [a, b] =
     (case (unsextet (enc_url e) a, unsextet (enc_url e) b) of
        (Some w, Some x) \<Rightarrow> if enc_pad e then None else Some (take 1 (octets w x 0 0))
      | _ \<Rightarrow> None)"
| "decode_groups e [a, b, c] =
     (case (unsextet (enc_url e) a, unsextet (enc_url e) b, unsextet (enc_url e) c) of
        (Some w, Some x, Some y) \<Rightarrow> if enc_pad e then None else Some (take 2 (octets w x y 0))
      | _ \<Rightarrow> None)"
| "decode_groups e (a # b # c # d # rest) =
     (case (unsextet (enc_url e) a, unsextet (enc_url e) b) of
        (Some w, Some x) \<Rightarrow>
          (case (unsextet (enc_url e) c, unsextet (enc_url e) d) of
             (Some y, Some z) \<Rightarrow> map_option ((@) (octets w x y z)) (decode_groups e rest)
           | (Some y, None) \<Rightarrow>
               if enc_pad e \<and> d = CHR ''='' \<and> rest = [] then Some (take 2 (octets w x y 0)) else None
           | (None, _) \<Rightarrow>
               if enc_pad e \<and> c = CHR ''='' \<and> d = CHR ''='' \<and> rest = []
               then Some (take 1 (octets w x 0 0)) else None)
      | _ \<Rightarrow> None)"

definition DecodeString :: "Encoding \<Rightarrow> string \<Rightarrow> string option" where
  "DecodeString e s = decode_groups e (filter (\<lambda>c. c \<noteq> CHR 0x0D \<and> c \<noteq> CHR 0x0A) s)"

subsection \<open>Decoding undoes encoding\<close>

lemma unsextet_sextet: "n < 64 \<Longrightarrow> unsextet url (sextet url n) = Some n"
proof -
  have d: "distinct (alphabet url)" "length (alphabet url) = 64" by (cases url; simp add: alphabet_def)+
  assume "n < 64"
  then show ?thesis
    using d by (simp add: unsextet_def sextet_def map_of_zip_nth)
qed

lemma sextet_in_alphabet: "n < 64 \<Longrightarrow> sextet url n \<in> set (alphabet url)"
proof -
  have "length (alphabet url) = 64" by (simp add: alphabet_def)
  then show "n < 64 \<Longrightarrow> ?thesis" by (simp add: sextet_def)
qed

lemma no_break_in_alphabet: "CHR 0x0D \<notin> set (alphabet url)" "CHR 0x0A \<notin> set (alphabet url)"
    "CHR ''.'' \<notin> set (alphabet url)" "CHR ''='' \<notin> set (alphabet url)"
  by (simp_all add: alphabet_def)

lemma unsextet_pad [simp]: "unsextet url (CHR ''='') = None"
  by (simp add: unsextet_def map_of_zip_is_None alphabet_def)

lemma of_char_less: "(of_char c :: nat) < 256"
  by (metis of_char_mod_256 mod_less_divisor zero_less_numeral)

lemma two_digits:
  "(y :: nat) < 16 \<Longrightarrow> (x * 16 + y) div 16 = x" "(y :: nat) < 16 \<Longrightarrow> (x * 16 + y) mod 16 = y"
  "(z :: nat) < 4 \<Longrightarrow> (x * 4 + z) div 4 = x" "(z :: nat) < 4 \<Longrightarrow> (x * 4 + z) mod 4 = z"
  by simp_all

lemma high_bits: "(a :: nat) < 256 \<Longrightarrow> a div 4 < 64" "(b :: nat) < 256 \<Longrightarrow> b div 16 < 16" "(c :: nat) < 256 \<Longrightarrow> c div 64 < 4"
  by simp_all

lemma octets_sextets:
  assumes "a < 256" "b < 256" "c < 256"
  shows "octets (a div 4) (a mod 4 * 16 + b div 16) (b mod 16 * 4 + c div 64) (c mod 64) = [char_of a, char_of b, char_of (c :: nat)]"
  unfolding octets_def two_digits(1,2) [OF high_bits(2) [OF assms(2)]]
    two_digits(3,4) [OF high_bits(3) [OF assms(3)]]
  by simp

lemma sextet_bounds:
  "(a :: nat) < 256 \<Longrightarrow> a div 4 < 64" "(b :: nat) < 256 \<Longrightarrow> a mod 4 * 16 + b div 16 < 64"
  "(c :: nat) < 256 \<Longrightarrow> b mod 16 * 4 + c div 64 < 64" "(c :: nat) mod 64 < 64"
proof -
  show "(b :: nat) < 256 \<Longrightarrow> a mod 4 * 16 + b div 16 < 64"
    using high_bits(2) [of b] mod_less_divisor [of 4 a] by linarith
  show "(c :: nat) < 256 \<Longrightarrow> b mod 16 * 4 + c div 64 < 64"
    using high_bits(3) [of c] mod_less_divisor [of 16 b] by linarith
qed simp_all

lemma octets_short:
  "(a :: nat) < 256 \<Longrightarrow> take (Suc 0) (octets (a div 4) (a mod 4 * 16) 0 0) = [char_of a]"
  "(a :: nat) < 256 \<Longrightarrow> b < 256 \<Longrightarrow>
    take 2 (octets (a div 4) (a mod 4 * 16 + b div 16) (b mod 16 * 4) 0) = [char_of a, char_of (b :: nat)]"
  using octets_sextets [of a 0 0] octets_sextets [of a b 0] by simp_all

lemma sextet_short_bounds: "(a :: nat) mod 4 * 16 < 64" "(b :: nat) mod 16 * 4 < 64"
  using mod_less_divisor [of 4 a] mod_less_divisor [of 16 b] by linarith+

lemmas sextet_facts = of_char_less sextet_bounds sextet_short_bounds unsextet_sextet octets_sextets octets_short

lemma decode_groups_encode: "decode_groups e (EncodeToString e s) = Some s"
  by (induction e s rule: EncodeToString.induct) (simp_all add: sextet_facts Let_def)

lemma EncodeToString_chars:
  "set (EncodeToString e s) \<subseteq> set (alphabet (enc_url e)) \<union> (if enc_pad e then {CHR ''=''} else {})"
  by (induction e s rule: EncodeToString.induct) (auto simp: Let_def intro!: sextet_in_alphabet sextet_facts)

theorem DecodeString_EncodeToString: "DecodeString e (EncodeToString e s) = Some s"
proof -
  have "filter (\<lambda>c. c \<noteq> CHR 0x0D \<and> c \<noteq> CHR 0x0A) (EncodeToString e s) = EncodeToString e s"
    using EncodeToString_chars [of e s] no_break_in_alphabet [of "enc_url e"]
    by (intro filter_True) (auto split: if_splits)
  then show ?thesis by (simp add: DecodeString_def decode_groups_encode)
qed

lemma no_dot_in_encoding: "CHR ''.'' \<notin> set (EncodeToString e s)"
  using EncodeToString_chars [of e s] no_break_in_alphabet [of "enc_url e"] by (auto split: if_splits)

end
