(* ===== verification/Auth_Session.thy ===== *)
theory Auth_Session
  imports Go_Http Go_Base64 Go_Time
begin

text \<open>
  \<open>internal/auth/auth.go\<close>: signing in with an identity provider and the signed session cookie. The
  provider (\<open>go-oidc\<close>, \<open>oauth2\<close>), JSON and HMAC-SHA256 are arguments: \<open>mac key payload\<close> is the code of
  a payload, \<open>marshal\<close> and \<open>unmarshal\<close> read and write the claims. The clock is in nanoseconds of Unix
  time.
\<close>

record auth_Config =
  ac_IssuerURL :: string
  ac_ClientID :: string
  ac_ClientSecret :: string
  ac_RedirectURL :: string
  ac_SessionKey :: string

definition enabled :: "auth_Config \<Rightarrow> bool" where
  "enabled c \<longleftrightarrow> ac_IssuerURL c \<noteq> []"

definition sessionCookie :: string where "sessionCookie = ''lo_session''"
definition stateCookie :: string where "stateCookie = ''lo_oauth_state''"
definition sessionTTL :: int where "sessionTTL = 12 * 3600 * Second"
definition stateTTL :: int where "stateTTL = 5 * 60 * Second"

record User =
  us_Subject :: string
  us_Name :: string

text \<open>\<open>oauth2.Config\<close>, with the endpoint the provider published.\<close>

record oauth_Config =
  oa_ClientID :: string
  oa_ClientSecret :: string
  oa_RedirectURL :: string
  oa_Endpoint :: string
  oa_Scopes :: "string list"

record Gate =
  gt_cfg :: auth_Config
  gt_provider :: "string option"
  gt_oauth :: "oauth_Config option"

definition NewGate :: "auth_Config \<Rightarrow> Gate" where
  "NewGate cfg = \<lparr>gt_cfg = cfg, gt_provider = None, gt_oauth = None\<rparr>"

text \<open>The attempts of \<open>discoverUntilReady\<close> so far: each gives the endpoint, or \<open>None\<close> when it failed.\<close>

fun discoverUntilReady :: "string option list \<Rightarrow> Gate \<Rightarrow> Gate" where
  "discoverUntilReady [] g = g"
| "discoverUntilReady (None # attempts) g = discoverUntilReady attempts g"
| "discoverUntilReady (Some endpoint # attempts) g =
     g\<lparr>gt_provider := Some endpoint,
       gt_oauth := Some \<lparr>oa_ClientID = ac_ClientID (gt_cfg g), oa_ClientSecret = ac_ClientSecret (gt_cfg g),
         oa_RedirectURL = ac_RedirectURL (gt_cfg g), oa_Endpoint = endpoint, oa_Scopes = [''openid'', ''profile'']\<rparr>\<rparr>"

definition ready :: "Gate \<Rightarrow> (string \<times> oauth_Config) option" where
  "ready g = (case (gt_provider g, gt_oauth g) of (Some p, Some c) \<Rightarrow> Some (p, c) | _ \<Rightarrow> None)"

subsection \<open>The session cookie\<close>

definition sign :: "(string \<Rightarrow> string \<Rightarrow> string) \<Rightarrow> string \<Rightarrow> string \<Rightarrow> string + string" where
  "sign mac data key =
     (if key = [] then Inl ''no session signing key configured''
      else Inr (EncodeToString RawURLEncoding data @ ''.'' @ EncodeToString RawURLEncoding (mac key data)))"

definition verify :: "(string \<Rightarrow> string \<Rightarrow> string) \<Rightarrow> string \<Rightarrow> string \<Rightarrow> string + string" where
  "verify mac value key =
     (if key = [] then Inl ''no session signing key configured''
      else case split_first ''.'' value of
          None \<Rightarrow> Inl ''malformed session cookie''
        | Some (part0, part1) \<Rightarrow>
            (case DecodeString RawURLEncoding part0 of
               None \<Rightarrow> Inl ''illegal base64 data''
             | Some data \<Rightarrow>
                 (case DecodeString RawURLEncoding part1 of
                    None \<Rightarrow> Inl ''illegal base64 data''
                  | Some signature \<Rightarrow>
                      if signature \<noteq> mac key data then Inl ''session signature mismatch'' else Inr data)))"

record sessionClaims =
  sc_User :: User
  sc_Exp :: int

definition signSession ::
    "(string \<Rightarrow> string \<Rightarrow> string) \<Rightarrow> (sessionClaims \<Rightarrow> string) \<Rightarrow> Gate \<Rightarrow> int \<Rightarrow> User \<Rightarrow> string + cookie" where
  "signSession mac marshal g now user =
     (case sign mac (marshal \<lparr>sc_User = user, sc_Exp = (now + sessionTTL) div Second\<rparr>) (ac_SessionKey (gt_cfg g)) of
        Inl err \<Rightarrow> Inl err
      | Inr value \<Rightarrow> Inr \<lparr>ck_Name = sessionCookie, ck_Value = value, ck_Path = ''/'', ck_HttpOnly = True,
          ck_Secure = False, ck_SameSiteLax = True, ck_MaxAge = int64_of (Seconds sessionTTL)\<rparr>)"

definition verifySession ::
    "(string \<Rightarrow> string \<Rightarrow> string) \<Rightarrow> (string \<Rightarrow> string + sessionClaims) \<Rightarrow> Gate \<Rightarrow> int \<Rightarrow> string \<Rightarrow> string + User" where
  "verifySession mac unmarshal g now value =
     (case verify mac value (ac_SessionKey (gt_cfg g)) of
        Inl err \<Rightarrow> Inl err
      | Inr data \<Rightarrow>
          (case unmarshal data of
             Inl err \<Rightarrow> Inl err
           | Inr claims \<Rightarrow>
               if now div Second > sc_Exp claims then Inl ''session expired'' else Inr (sc_User claims)))"

subsection \<open>The handlers\<close>

text \<open>\<open>token\<close> is the state \<open>randomToken\<close> draws.\<close>

definition Login :: "(oauth_Config \<Rightarrow> string \<Rightarrow> string) \<Rightarrow> Gate \<Rightarrow> string \<Rightarrow> request \<Rightarrow> 'v response" where
  "Login AuthCodeURL g token r =
     (case ready g of
        None \<Rightarrow> Error ''identity provider not reachable yet, try again shortly'' StatusServiceUnavailable
      | Some (_, oauthCfg) \<Rightarrow>
          Response StatusFound
            [\<lparr>ck_Name = stateCookie, ck_Value = token, ck_Path = ''/'', ck_HttpOnly = True, ck_Secure = rq_TLS r,
              ck_SameSiteLax = True, ck_MaxAge = int64_of (Seconds stateTTL)\<rparr>]
            (AuthCodeURL oauthCfg token) NoBody)"

definition randomToken :: "string \<Rightarrow> string" where
  "randomToken buf = EncodeToString RawURLEncoding buf"

record idToken =
  it_Subject :: string
  it_Name :: string
  it_PreferredUsername :: string

definition expired_cookie :: "string \<Rightarrow> cookie" where
  "expired_cookie name = \<lparr>ck_Name = name, ck_Value = [], ck_Path = ''/'', ck_HttpOnly = False, ck_Secure = False,
     ck_SameSiteLax = False, ck_MaxAge = -1\<rparr>"

definition token_user :: "idToken \<Rightarrow> User" where
  "token_user t =
     (let name = it_Name t;
          name = (if name = [] then it_PreferredUsername t else name);
          name = (if name = [] then it_Subject t else name)
      in \<lparr>us_Subject = it_Subject t, us_Name = name\<rparr>)"

text \<open>\<open>Exchange\<close> gives the ID token of a code: no token at all, or a token without the field.\<close>

definition Callback ::
    "(string \<Rightarrow> string \<Rightarrow> string) \<Rightarrow> (sessionClaims \<Rightarrow> string) \<Rightarrow> (oauth_Config \<Rightarrow> string \<Rightarrow> string option option) \<Rightarrow>
     (string \<Rightarrow> idToken option) \<Rightarrow> Gate \<Rightarrow> int \<Rightarrow> request \<Rightarrow> 'v response" where
  "Callback mac marshal Exchange Verify g now r =
     (case ready g of
        None \<Rightarrow> Error ''identity provider not reachable yet, try again shortly'' StatusServiceUnavailable
      | Some (_, oauthCfg) \<Rightarrow>
          if Cookie r stateCookie \<noteq> Some (rq_Query r ''state'') then Error ''invalid OAuth state'' StatusBadRequest
          else
            let cleared = [expired_cookie stateCookie];
                fail = (\<lambda>message code. Response code cleared [] (Plain message))
            in case Exchange oauthCfg (rq_Query r ''code'') of
                None \<Rightarrow> fail ''token exchange failed'' StatusBadGateway
              | Some None \<Rightarrow> fail ''provider did not return an ID token'' StatusBadGateway
              | Some (Some rawIDToken) \<Rightarrow>
                  (case Verify rawIDToken of
                     None \<Rightarrow> fail ''ID token verification failed'' StatusUnauthorized
                   | Some idToken \<Rightarrow>
                       (case signSession mac marshal g now (token_user idToken) of
                          Inl _ \<Rightarrow> fail ''failed to start session'' StatusInternalServerError
                        | Inr session \<Rightarrow> Response StatusFound (cleared @ [session]) ''/'' NoBody)))"

definition Logout :: "'v response" where
  "Logout = Response StatusNoContent [expired_cookie sessionCookie] [] NoBody"

text \<open>The user in the context of a request is \<open>None\<close> when there is none.\<close>

definition Session :: "User option \<Rightarrow> User response" where
  "Session user = (case user of
     None \<Rightarrow> Error ''not signed in'' StatusUnauthorized | Some u \<Rightarrow> writeJSON StatusOK u)"

text \<open>What \<open>Require\<close> does before the handler it wraps: \<open>Inl\<close> the refusal, \<open>Inr\<close> the context.\<close>

definition Require ::
    "(string \<Rightarrow> string \<Rightarrow> string) \<Rightarrow> (string \<Rightarrow> string + sessionClaims) \<Rightarrow> Gate \<Rightarrow> int \<Rightarrow> request \<Rightarrow>
     'v response + User option" where
  "Require mac unmarshal g now r =
     (if \<not> enabled (gt_cfg g) then Inr None
      else case Cookie r sessionCookie of
          None \<Rightarrow> Inl (Error ''not signed in'' StatusUnauthorized)
        | Some value \<Rightarrow>
            (case verifySession mac unmarshal g now value of
               Inl _ \<Rightarrow> Inl (Error ''session invalid or expired'' StatusUnauthorized)
             | Inr user \<Rightarrow> Inr (Some user)))"

subsection \<open>Lemmas\<close>

lemma verify_sign: "key \<noteq> [] \<Longrightarrow> sign mac data key = Inr value \<Longrightarrow> verify mac value key = Inr data"
  using split_first_char [OF no_dot_in_encoding, of RawURLEncoding data]
  by (auto simp: sign_def verify_def DecodeString_EncodeToString)

lemma verify_Inr:
  assumes "verify mac value key = Inr data"
  obtains part0 part1 where "key \<noteq> []" "value = part0 @ ''.'' @ part1" "DecodeString RawURLEncoding part0 = Some data"
    "DecodeString RawURLEncoding part1 = Some (mac key data)"
proof -
  from assms obtain p0 p1 where k: "key \<noteq> []" "split_first ''.'' value = Some (p0, p1)"
    "DecodeString RawURLEncoding p0 = Some data" "DecodeString RawURLEncoding p1 = Some (mac key data)"
    by (auto simp: verify_def split: if_splits option.splits)
  show thesis by (rule that [OF k(1) split_first_Some [OF k(2)] k(3,4)])
qed

lemma verifySession_signed:
  assumes "signSession mac marshal g now user = Inr c"
    and "unmarshal (marshal \<lparr>sc_User = user, sc_Exp = (now + sessionTTL) div Second\<rparr>) =
      Inr \<lparr>sc_User = user, sc_Exp = (now + sessionTTL) div Second\<rparr>"
  shows "verifySession mac unmarshal g now2 (ck_Value c) =
      (if now2 div Second \<le> (now + sessionTTL) div Second then Inr user else Inl ''session expired'')"
    "ck_Name c = sessionCookie"
proof -
  let ?key = "ac_SessionKey (gt_cfg g)"
  from assms(1) have s: "sign mac (marshal \<lparr>sc_User = user, sc_Exp = (now + sessionTTL) div Second\<rparr>) ?key = Inr (ck_Value c)"
    and n: "ck_Name c = sessionCookie"
    by (auto simp: signSession_def split: sum.splits)
  show "ck_Name c = sessionCookie" by (rule n)
  from s have "?key \<noteq> []" by (auto simp: sign_def)
  from verify_sign [OF this s] assms(2) show "verifySession mac unmarshal g now2 (ck_Value c) =
      (if now2 div Second \<le> (now + sessionTTL) div Second then Inr user else Inl ''session expired'')"
    by (simp add: verifySession_def)
qed

text \<open>Only a session the controller signed, and that has not expired, passes.\<close>

lemma Require_signed:
  assumes "enabled (gt_cfg g)" "Require mac unmarshal g now r = Inr ctx"
  obtains user part0 part1 data exp where "ctx = Some user" "Cookie r sessionCookie = Some (part0 @ ''.'' @ part1)"
    "ac_SessionKey (gt_cfg g) \<noteq> []" "DecodeString RawURLEncoding part0 = Some data"
    "DecodeString RawURLEncoding part1 = Some (mac (ac_SessionKey (gt_cfg g)) data)"
    "unmarshal data = Inr \<lparr>sc_User = user, sc_Exp = exp\<rparr>" "now div Second \<le> exp"
proof -
  from assms obtain val user where v: "Cookie r sessionCookie = Some val" "ctx = Some user"
    "verifySession mac unmarshal g now val = Inr user"
    by (auto simp: Require_def split: option.splits sum.splits)
  from v(3) obtain data claims where d: "verify mac val (ac_SessionKey (gt_cfg g)) = Inr data"
    "unmarshal data = Inr claims" "now div Second \<le> sc_Exp claims" "user = sc_User claims"
    by (auto simp: verifySession_def split: sum.splits if_splits)
  have u: "unmarshal data = Inr \<lparr>sc_User = user, sc_Exp = sc_Exp claims\<rparr>" using d(2,4) by simp
  from d(1) obtain part0 part1 where p: "ac_SessionKey (gt_cfg g) \<noteq> []" "val = part0 @ ''.'' @ part1"
    "DecodeString RawURLEncoding part0 = Some data"
    "DecodeString RawURLEncoding part1 = Some (mac (ac_SessionKey (gt_cfg g)) data)"
    by (rule verify_Inr)
  show thesis using v(1) by (intro that [OF v(2) _ p(1,3,4) u d(3)]) (simp add: p(2))
qed

lemma discovered_ready: "(\<exists>endpoint. Some endpoint \<in> set attempts) \<longleftrightarrow> ready (discoverUntilReady attempts (NewGate cfg)) \<noteq> None"
  by (induction attempts "NewGate cfg" rule: discoverUntilReady.induct) (auto simp: ready_def NewGate_def)

lemma discover_cfg [simp]: "gt_cfg (discoverUntilReady attempts g) = gt_cfg g"
  by (induction attempts g rule: discoverUntilReady.induct) simp_all

text \<open>C36. With a signing key, and once one attempt to reach the identity provider
  has succeeded, a callback with the state of the login cookie and a code that the provider exchanges for
  a verified ID token redirects to the application and sets a cookie that the gate accepts in any later
  request for twelve hours, as exactly the user of the ID token, and refuses with 401 after that. The
  claims only have to survive their JSON encoding.\<close>

theorem session_cookie_round_trip:
  assumes "enabled cfg" "ac_SessionKey cfg \<noteq> []" "Some endpoint \<in> set attempts"
    and "g = discoverUntilReady attempts (NewGate cfg)"
    and "Cookie r stateCookie = Some (rq_Query r ''state'')"
    and "\<And>oauthCfg. Exchange oauthCfg (rq_Query r ''code'') = Some (Some raw)" "Verify raw = Some tok"
    and "unmarshal (marshal \<lparr>sc_User = token_user tok, sc_Exp = (now + sessionTTL) div Second\<rparr>) =
      Inr \<lparr>sc_User = token_user tok, sc_Exp = (now + sessionTTL) div Second\<rparr>"
    and "res = (Callback mac marshal Exchange Verify g now r :: 'v response)"
  shows "status res = 302 \<and> location res = ''/'' \<and> length (set_cookies res) = 2 \<and>
    ck_Name (last (set_cookies res)) = sessionCookie \<and>
    (\<forall>r2 now2. Cookie r2 sessionCookie = Some (ck_Value (last (set_cookies res))) \<longrightarrow>
      (Require mac unmarshal g now2 r2 :: 'v response + User option) =
        (if now2 div Second \<le> (now + sessionTTL) div Second then Inr (Some (token_user tok))
         else Inl (Error ''session invalid or expired'' 401)))"
proof -
  from assms(3,4) have "ready g \<noteq> None" using discovered_ready by blast
  then obtain endpoint oauthCfg where rd: "ready g = Some (endpoint, oauthCfg)" by auto
  have cfg: "gt_cfg g = cfg" by (simp add: assms(4)) (simp add: NewGate_def)
  obtain c where c: "signSession mac marshal g now (token_user tok) = Inr c"
    using assms(2) by (auto simp: signSession_def sign_def cfg)
  have res: "res = Response StatusFound [expired_cookie stateCookie, c] ''/'' NoBody"
    unfolding assms(9) Callback_def using rd assms(5-7) c by simp
  note v = verifySession_signed [of mac marshal g now _ _ unmarshal, OF c assms(8)]
  show ?thesis using v assms(1) by (auto simp: res Require_def cfg)
qed

abbreviation "demo_cfg \<equiv> \<lparr>ac_IssuerURL = ''https://id.internal'', ac_ClientID = ''lo'', ac_ClientSecret = ''s'',
   ac_RedirectURL = ''/auth/callback'', ac_SessionKey = ''k''\<rparr>"
abbreviation "demo_token \<equiv> \<lparr>it_Subject = ''42'', it_Name = [], it_PreferredUsername = ''ada''\<rparr>"
abbreviation "demo_marshal claims \<equiv> us_Subject (sc_User claims) @ [CHR 0x00] @ us_Name (sc_User claims) @ [CHR 0x00] @ dec_int (sc_Exp claims)"
abbreviation "demo_unmarshal data \<equiv>
   (case split_first [CHR 0x00] data of
      None \<Rightarrow> Inl ''invalid JSON''
    | Some (sub, rest) \<Rightarrow> (case split_first [CHR 0x00] rest of
          None \<Rightarrow> Inl ''invalid JSON''
        | Some (name, n) \<Rightarrow> Inr \<lparr>sc_User = \<lparr>us_Subject = sub, us_Name = name\<rparr>, sc_Exp = int (undec n)\<rparr>))"
abbreviation "demo_request \<equiv> \<lparr>rq_Method = ''GET'', rq_Path = ''/auth/callback'', rq_Query = (\<lambda>k. ''x''),
   rq_Header = (\<lambda>k. []), rq_Cookies = [(stateCookie, ''x'')], rq_TLS = True, rq_Body = []\<rparr>"

theorem session_cookie_round_trip_witness:
  "(let g = discoverUntilReady [None, Some ''https://id.internal''] (NewGate demo_cfg);
        res = (Callback (\<lambda>k d. rev (k @ d)) (\<lambda>c. demo_marshal c) (\<lambda>_ _. Some (Some ''raw'')) (\<lambda>_. Some demo_token) g 0
                 demo_request :: unit response)
    in status res = 302 \<and>
       Require (\<lambda>k d. rev (k @ d)) (\<lambda>d. demo_unmarshal d) g (3600 * Second)
         (demo_request\<lparr>rq_Cookies := [(sessionCookie, ck_Value (last (set_cookies res)))]\<rparr>) =
       (Inr (Some \<lparr>us_Subject = ''42'', us_Name = ''ada''\<rparr>) :: unit response + User option))"
proof -
  have u: "token_user demo_token = \<lparr>us_Subject = ''42'', us_Name = ''ada''\<rparr>" by (simp add: token_user_def Let_def)
  have t: "(0 + sessionTTL) div Second = 43200" "3600 * Second div Second = 3600" by (simp_all add: sessionTTL_def Second_def)
  have j: "demo_unmarshal (demo_marshal \<lparr>sc_User = token_user demo_token, sc_Exp = (0 + sessionTTL) div Second\<rparr>) =
     Inr \<lparr>sc_User = token_user demo_token, sc_Exp = (0 + sessionTTL) div Second\<rparr>"
    unfolding u t by (simp add: HasPrefix_def dec_int_def undec_dec_nat)
  have e: "enabled demo_cfg" "ac_SessionKey demo_cfg \<noteq> []" "Some ''https://id.internal'' \<in> set [None, Some ''https://id.internal'']"
    "Cookie demo_request stateCookie = Some (rq_Query demo_request ''state'')"
    by (simp_all add: enabled_def Cookie_def)
  define g where "g = discoverUntilReady [None, Some ''https://id.internal''] (NewGate demo_cfg)"
  define res where "res = (Callback (\<lambda>k d. rev (k @ d)) (\<lambda>c. demo_marshal c) (\<lambda>_ _. Some (Some ''raw''))
    (\<lambda>_. Some demo_token) g 0 demo_request :: unit response)"
  have c: "Cookie (demo_request\<lparr>rq_Cookies := [(sessionCookie, v)]\<rparr>) sessionCookie = Some v" for v
    by (simp add: Cookie_def)
  note w = session_cookie_round_trip [where unmarshal = "\<lambda>d. demo_unmarshal d", OF e(1-3) g_def e(4) refl refl j res_def]
  show ?thesis
    unfolding g_def [symmetric] Let_def res_def [symmetric] using w c t u by auto
qed

end
