(* ===== verification/Monitor_Client.thy ===== *)
theory Monitor_Client
  imports Core_Provenance Go_Strings
begin

text \<open>
  \<open>internal/monitor/monitor.go\<close>: one sample of the metrics of a model server, from Prometheus. Names
  differ between engines, so each metric has candidate expressions, and a resolver remembers which one
  answered, or that none did. The HTTP call with the decoding of its answer is an argument; it may answer
  each call differently, so it gets the number of calls made before it. The clock is read between calls,
  so the same number gives the time.
\<close>

record candidate =
  cd_backend :: string
  cd_expression :: string

record metricQuery =
  mq_key :: string
  mq_candidates :: "candidate list"

definition queries :: "metricQuery list" where
  "queries =
     [\<lparr>mq_key = ''requests_running'', mq_candidates =
        [\<lparr>cd_backend = ''vllm'', cd_expression = ''sum(vllm:num_requests_running)''\<rparr>,
         \<lparr>cd_backend = ''sglang'', cd_expression = ''sum(sglang:num_running_reqs)''\<rparr>,
         \<lparr>cd_backend = ''sglang'', cd_expression = ''sum(sglang_num_running_reqs)''\<rparr>,
         \<lparr>cd_backend = ''tgi'', cd_expression = ''sum(tgi_batch_current_size)''\<rparr>]\<rparr>,
      \<lparr>mq_key = ''requests_waiting'', mq_candidates =
        [\<lparr>cd_backend = ''vllm'', cd_expression = ''sum(vllm:num_requests_waiting)''\<rparr>,
         \<lparr>cd_backend = ''sglang'', cd_expression = ''sum(sglang:num_queue_reqs)''\<rparr>,
         \<lparr>cd_backend = ''sglang'', cd_expression = ''sum(sglang_num_queue_reqs)''\<rparr>,
         \<lparr>cd_backend = ''tgi'', cd_expression = ''sum(tgi_queue_size)''\<rparr>]\<rparr>,
      \<lparr>mq_key = ''kv_cache_usage'', mq_candidates =
        [\<lparr>cd_backend = ''vllm'', cd_expression = ''avg(vllm:kv_cache_usage_perc)''\<rparr>,
         \<lparr>cd_backend = ''vllm'', cd_expression = ''avg(vllm:gpu_cache_usage_perc)''\<rparr>,
         \<lparr>cd_backend = ''sglang'', cd_expression = ''avg(sglang:token_usage)''\<rparr>,
         \<lparr>cd_backend = ''sglang'', cd_expression = ''avg(sglang_token_usage)''\<rparr>]\<rparr>,
      \<lparr>mq_key = ''preemption_rate'', mq_candidates =
        [\<lparr>cd_backend = ''vllm'', cd_expression = ''sum(rate(vllm:num_preemptions_total[1m]))''\<rparr>]\<rparr>,
      \<lparr>mq_key = ''queue_time_p95_millis'', mq_candidates =
        [\<lparr>cd_backend = ''vllm'', cd_expression = ''histogram_quantile(0.95, sum(rate(vllm:request_queue_time_seconds_bucket[1m])) by (le)) * 1000''\<rparr>,
         \<lparr>cd_backend = ''tgi'', cd_expression = ''histogram_quantile(0.95, sum(rate(tgi_request_queue_duration_bucket[1m])) by (le)) * 1000''\<rparr>]\<rparr>,
      \<lparr>mq_key = ''prefill_time_p95_millis'', mq_candidates =
        [\<lparr>cd_backend = ''vllm'', cd_expression = ''histogram_quantile(0.95, sum(rate(vllm:request_prefill_time_seconds_bucket[1m])) by (le)) * 1000''\<rparr>]\<rparr>,
      \<lparr>mq_key = ''prefix_cache_hit_rate'', mq_candidates =
        [\<lparr>cd_backend = ''vllm'', cd_expression = ''sum(rate(vllm:prefix_cache_hits_total[2m])) / sum(rate(vllm:prefix_cache_queries_total[2m]))''\<rparr>,
         \<lparr>cd_backend = ''sglang'', cd_expression = ''avg(sglang:cache_hit_rate)''\<rparr>,
         \<lparr>cd_backend = ''sglang'', cd_expression = ''avg(sglang_cache_hit_rate)''\<rparr>]\<rparr>,
      \<lparr>mq_key = ''corrupted_requests_rate'', mq_candidates =
        [\<lparr>cd_backend = ''vllm'', cd_expression = ''sum(rate(vllm:corrupted_requests_total[1m]))''\<rparr>]\<rparr>,
      \<lparr>mq_key = ''gpu_utilization'', mq_candidates =
        [\<lparr>cd_backend = [], cd_expression = ''avg(DCGM_FI_DEV_GPU_UTIL)''\<rparr>]\<rparr>,
      \<lparr>mq_key = ''gpu_memory_used'', mq_candidates =
        [\<lparr>cd_backend = [], cd_expression = ''100 * sum(DCGM_FI_DEV_FB_USED) / sum(DCGM_FI_DEV_FB_USED + DCGM_FI_DEV_FB_FREE)''\<rparr>]\<rparr>,
      \<lparr>mq_key = ''dram_active'', mq_candidates =
        [\<lparr>cd_backend = [], cd_expression = ''avg(DCGM_FI_PROF_DRAM_ACTIVE)''\<rparr>]\<rparr>,
      \<lparr>mq_key = ''tensor_active'', mq_candidates =
        [\<lparr>cd_backend = [], cd_expression = ''avg(DCGM_FI_PROF_PIPE_TENSOR_ACTIVE)''\<rparr>]\<rparr>,
      \<lparr>mq_key = ''sm_active'', mq_candidates =
        [\<lparr>cd_backend = [], cd_expression = ''avg(DCGM_FI_PROF_SM_ACTIVE)''\<rparr>]\<rparr>,
      \<lparr>mq_key = ''sm_occupancy'', mq_candidates =
        [\<lparr>cd_backend = [], cd_expression = ''avg(DCGM_FI_PROF_SM_OCCUPANCY)''\<rparr>]\<rparr>,
      \<lparr>mq_key = ''sm_clock_mhz'', mq_candidates =
        [\<lparr>cd_backend = [], cd_expression = ''avg(DCGM_FI_DEV_SM_CLOCK)''\<rparr>]\<rparr>,
      \<lparr>mq_key = ''power_violation_rate'', mq_candidates =
        [\<lparr>cd_backend = [], cd_expression = ''sum(rate(DCGM_FI_DEV_POWER_VIOLATION[1m]))''\<rparr>]\<rparr>,
      \<lparr>mq_key = ''thermal_violation_rate'', mq_candidates =
        [\<lparr>cd_backend = [], cd_expression = ''sum(rate(DCGM_FI_DEV_THERMAL_VIOLATION[1m]))''\<rparr>]\<rparr>,
      \<lparr>mq_key = ''xid_errors'', mq_candidates =
        [\<lparr>cd_backend = [], cd_expression = ''max(DCGM_FI_DEV_XID_ERRORS)''\<rparr>]\<rparr>,
      \<lparr>mq_key = ''cpu_utilization'', mq_candidates =
        [\<lparr>cd_backend = [], cd_expression = ''100 - avg(rate(node_cpu_seconds_total{mode='' @ [CHR 0x22] @ ''idle'' @ [CHR 0x22] @ ''}[1m])) * 100''\<rparr>]\<rparr>,
      \<lparr>mq_key = ''memory_used'', mq_candidates =
        [\<lparr>cd_backend = [], cd_expression = ''100 * (node_memory_MemTotal_bytes - node_memory_MemAvailable_bytes) / node_memory_MemTotal_bytes''\<rparr>]\<rparr>]"

definition absentRetryInterval :: int where "absentRetryInterval = 60 * 1000000000"

record resolver =
  rs_resolved :: "candidate smap"
  rs_absent :: "int smap"
  rs_calls :: nat            \<comment> \<open>calls made so far, not part of the code's state\<close>

definition New_resolver :: resolver where
  "New_resolver = \<lparr>rs_resolved = fmempty, rs_absent = fmempty, rs_calls = 0\<rparr>"

subsection \<open>One query\<close>

definition upper_hex :: "nat \<Rightarrow> char" where
  "upper_hex n = (''0123456789ABCDEF'' ! n)"

text \<open>\<open>url.QueryEscape\<close>: letters, digits and four marks stay, a space is a plus.\<close>

definition unreserved :: "char \<Rightarrow> bool" where
  "unreserved c \<longleftrightarrow> (let n = of_char c :: nat in
     65 \<le> n \<and> n \<le> 90 \<or> 97 \<le> n \<and> n \<le> 122 \<or> 48 \<le> n \<and> n \<le> 57) \<or> c \<in> set ''-_.~''"

definition QueryEscape :: "string \<Rightarrow> string" where
  "QueryEscape s = concat (map (\<lambda>c. if unreserved c then [c] else if c = CHR '' '' then ''+''
     else [CHR ''%'', upper_hex (of_char c div 16), upper_hex (of_char c mod 16)]) s)"

text \<open>What the library gives: the results of a call, each with the values of the vector or the labels,
  \<open>None\<close> when the call or the decoding fails; a string out of a JSON value; \<open>strconv.ParseFloat\<close>; and
  scanning a float label.\<close>

record prometheus =
  pm_get :: "nat \<Rightarrow> string \<Rightarrow> (string list \<times> string smap) list option"
  pm_string :: "string \<Rightarrow> string option"
  pm_ParseFloat :: "string \<Rightarrow> float64 option"
  pm_scan_float :: "string \<Rightarrow> float64 option"
  pm_now :: "nat \<Rightarrow> int"

definition query_url :: "string \<Rightarrow> string \<Rightarrow> string" where
  "query_url url expression = url @ ''/api/v1/query?query='' @ QueryEscape expression"

definition query :: "prometheus \<Rightarrow> string \<Rightarrow> nat \<Rightarrow> string \<Rightarrow> float64 option" where
  "query p url n expression =
     (case pm_get p n (query_url url expression) of
        Some ((value, _) # _) \<Rightarrow>
          if length value < 2 then None
          else (case pm_string p (value ! 1) of
              None \<Rightarrow> None
            | Some raw \<Rightarrow> (case pm_ParseFloat p raw of
                None \<Rightarrow> None
              | Some v \<Rightarrow> if \<not> feq v v then None else Some v))
      | _ \<Rightarrow> None)"

definition queryLabels :: "prometheus \<Rightarrow> string \<Rightarrow> nat \<Rightarrow> string \<Rightarrow> string smap option" where
  "queryLabels p url n expression =
     (case pm_get p n (query_url url expression) of Some ((_, metric) # _) \<Rightarrow> Some metric | _ \<Rightarrow> None)"

subsection \<open>Resolving a metric\<close>

text \<open>The loop over the candidates: the first that answers, and the calls made.\<close>

fun probe :: "prometheus \<Rightarrow> string \<Rightarrow> nat \<Rightarrow> candidate list \<Rightarrow> (float64 \<times> candidate) option \<times> nat" where
  "probe p url n [] = (None, n)"
| "probe p url n (option # options) =
     (case query p url n (cd_expression option) of
        None \<Rightarrow> probe p url (Suc n) options
      | Some value \<Rightarrow> (Some (value, option), Suc n))"

definition probe_all :: "prometheus \<Rightarrow> string \<Rightarrow> metricQuery \<Rightarrow> resolver \<Rightarrow> (float64 \<times> string) option \<times> resolver" where
  "probe_all p url q s =
     (case probe p url (rs_calls s) (mq_candidates q) of
        (Some (value, option), n) \<Rightarrow> (Some (value, cd_backend option),
          s\<lparr>rs_resolved := fmupd (mq_key q) option (rs_resolved s), rs_absent := fmdrop (mq_key q) (rs_absent s),
            rs_calls := n\<rparr>)
      | (None, n) \<Rightarrow> (None,
          s\<lparr>rs_resolved := fmdrop (mq_key q) (rs_resolved s),
            rs_absent := fmupd (mq_key q) (pm_now p n + absentRetryInterval) (rs_absent s), rs_calls := n\<rparr>))"

definition resolve :: "prometheus \<Rightarrow> string \<Rightarrow> metricQuery \<Rightarrow> resolver \<Rightarrow> (float64 \<times> string) option \<times> resolver" where
  "resolve p url q s =
     (case fmlookup (rs_resolved s) (mq_key q) of
        Some remembered \<Rightarrow>
          (case query p url (rs_calls s) (cd_expression remembered) of
             Some value \<Rightarrow> (Some (value, cd_backend remembered), s\<lparr>rs_calls := Suc (rs_calls s)\<rparr>)
           | None \<Rightarrow> probe_all p url q (s\<lparr>rs_calls := Suc (rs_calls s)\<rparr>))
      | None \<Rightarrow>
          (case fmlookup (rs_absent s) (mq_key q) of
             Some retryAt \<Rightarrow> if pm_now p (rs_calls s) < retryAt then (None, s) else probe_all p url q s
           | None \<Rightarrow> probe_all p url q s))"

subsection \<open>A sample\<close>

text \<open>The three messages of the source, in UTF-8.\<close>

definition message_no_metrics :: string where
  "message_no_metrics = map char_of
      [80, 114, 111, 109, 101, 116, 104, 101, 117, 115, 236, 151, 144, 236, 132, 156, 32, 236, 149, 140, 235, 160, 164, 236,
       167, 132, 32, 236, 167, 128, 237, 145, 156, 235, 165, 188, 32, 236, 176, 190, 236, 167, 128, 32, 235, 170, 187, 237,
       150, 136, 236, 138, 181, 235, 139, 136, 235, 139, 164, 46 :: nat]"

definition message_no_queue :: string where
  "message_no_queue = map char_of
      [235, 170, 168, 235, 141, 184, 32, 236, 132, 156, 235, 178, 132, 32, 237, 129, 144, 32, 236, 167, 128, 237, 145, 156,
       235, 165, 188, 32, 236, 176, 190, 236, 157, 132, 32, 236, 136, 152, 32, 236, 151, 134, 236, 150, 180, 32, 237, 143,
       172, 237, 153, 148, 32, 236, 151, 172, 235, 182, 128, 235, 165, 188, 32, 237, 140, 144, 236, 160, 149, 237, 149, 160,
       32, 236, 136, 152, 32, 236, 151, 134, 236, 138, 181, 235, 139, 136, 235, 139, 164, 46, 32, 118, 76, 76, 77, 194,
       183, 83, 71, 76, 97, 110, 103, 194, 183, 84, 71, 73, 236, 157, 152, 32, 47, 109, 101, 116, 114, 105, 99, 115,
       234, 176, 128, 32, 80, 114, 111, 109, 101, 116, 104, 101, 117, 115, 236, 151, 144, 32, 236, 136, 152, 236, 167, 145,
       235, 144, 152, 235, 138, 148, 236, 167, 128, 32, 237, 153, 149, 236, 157, 184, 237, 149, 152, 236, 132, 184, 236, 154,
       148, 46 :: nat]"

definition message_no_profiling :: string where
  "message_no_profiling = map char_of
      [68, 67, 71, 77, 32, 237, 148, 132, 235, 161, 156, 237, 140, 140, 236, 157, 188, 235, 167, 129, 32, 236, 167, 128,
       237, 145, 156, 40, 68, 67, 71, 77, 95, 70, 73, 95, 80, 82, 79, 70, 95, 42, 41, 235, 165, 188, 32, 236,
       136, 152, 236, 167, 145, 237, 149, 160, 32, 236, 136, 152, 32, 236, 151, 134, 236, 138, 181, 235, 139, 136, 235, 139,
       164, 46, 32, 71, 80, 85, 95, 85, 84, 73, 76, 235, 167, 140, 236, 156, 188, 235, 161, 156, 235, 138, 148, 32,
       71, 80, 85, 32, 237, 143, 172, 237, 153, 148, 235, 165, 188, 32, 237, 140, 144, 235, 139, 168, 237, 149, 160, 32,
       236, 136, 152, 32, 236, 151, 134, 236, 138, 181, 235, 139, 136, 235, 139, 164, 46 :: nat]"

abbreviation MetricDRAMActive :: string where "MetricDRAMActive \<equiv> ''dram_active''"

definition sample_step ::
    "prometheus \<Rightarrow> string \<Rightarrow> metricQuery \<Rightarrow> (float64 smap \<times> string) \<times> resolver \<Rightarrow> (float64 smap \<times> string) \<times> resolver" where
  "sample_step p url q acc =
     (let ((metrics, backend), s) = acc
      in case resolve p url q s of
          (None, s) \<Rightarrow> ((metrics, backend), s)
        | (Some (value, origin), s) \<Rightarrow>
            ((fmupd (mq_key q) value metrics, if origin \<noteq> [] \<and> backend = [] then origin else backend), s))"

definition unavailable :: "string \<Rightarrow> MonitoringSample" where
  "unavailable message = \<lparr>ms_AtSecond = 0, ms_Status = ''unavailable'', ms_Backend = [], ms_Message = message,
     ms_Metrics = fmempty\<rparr>"

definition Sample :: "prometheus \<Rightarrow> string \<Rightarrow> resolver \<Rightarrow> MonitoringSample \<times> resolver" where
  "Sample p url s =
     (if url = [] then (unavailable ''Prometheus URL not configured'', s)
      else
        let ((metrics, backend), s) = fold (sample_step p url) queries ((fmempty, []), s)
        in if fmdom metrics = {||} then (unavailable message_no_metrics, s)
           else
             let sample = \<lparr>ms_AtSecond = 0, ms_Status = ''collected'', ms_Backend = backend, ms_Message = [],
                   ms_Metrics = metrics\<rparr>
             in (if fmlookup metrics MetricRequestsWaiting = None
                 then sample\<lparr>ms_Status := ''partial'', ms_Message := message_no_queue\<rparr>
                 else if fmlookup metrics MetricDRAMActive = None
                 then sample\<lparr>ms_Status := ''partial'', ms_Message := message_no_profiling\<rparr>
                 else sample, s))"

subsection \<open>The configuration of the server\<close>

definition configMetrics :: "string list" where
  "configMetrics = [''vllm:cache_config_info'', ''vllm:num_requests_running'', ''sglang:num_running_reqs'',
     ''sglang_num_running_reqs'']"

text \<open>\<open>n\<close> counts the calls made before it.\<close>

definition ServerConfig_of :: "prometheus \<Rightarrow> string \<Rightarrow> nat \<Rightarrow> ServerConfig \<times> nat" where
  "ServerConfig_of p url n =
     (if url = [] then (zero_ServerConfig, n)
      else fold (\<lambda>metric (merged, n).
          (case queryLabels p url n metric of
             None \<Rightarrow> merged
           | Some labels \<Rightarrow> EffectiveServerConfig merged (ServerConfigFromLabels (pm_scan_float p) labels), Suc n))
        configMetrics (zero_ServerConfig, n))"

subsection \<open>Lemmas\<close>

definition resolver_ok :: "resolver \<Rightarrow> bool" where
  "resolver_ok s \<longleftrightarrow> fmdom (rs_resolved s) |\<inter>| fmdom (rs_absent s) = {||} \<and>
     (\<forall>q\<in>set queries. \<forall>c. fmlookup (rs_resolved s) (mq_key q) = Some c \<longrightarrow> c \<in> set (mq_candidates q))"

text \<open>A call between \<open>lo\<close> and \<open>hi\<close> for a candidate of the metric gave the value.\<close>

definition answered :: "prometheus \<Rightarrow> string \<Rightarrow> nat \<Rightarrow> nat \<Rightarrow> metricQuery \<Rightarrow> float64 \<Rightarrow> bool" where
  "answered p url lo hi q v \<longleftrightarrow>
     (\<exists>c\<in>set (mq_candidates q). \<exists>n\<in>{lo..<hi}. query p url n (cd_expression c) = Some v)"

text \<open>The probing of the metric that ended with call \<open>n\<close> called each of its candidates, and none answered.\<close>

definition probing_failed :: "prometheus \<Rightarrow> string \<Rightarrow> metricQuery \<Rightarrow> nat \<Rightarrow> bool" where
  "probing_failed p url q n \<longleftrightarrow> (let cs = mq_candidates q in length cs \<le> n \<and>
     (\<forall>i<length cs. query p url (n - length cs + i) (cd_expression (cs ! i)) = None))"

text \<open>Such a probing took place between \<open>lo\<close> and \<open>hi\<close>, or it ended less than the retry interval before a
  reading of the clock between them.\<close>

definition unanswered :: "prometheus \<Rightarrow> string \<Rightarrow> nat \<Rightarrow> nat \<Rightarrow> metricQuery \<Rightarrow> bool" where
  "unanswered p url lo hi q \<longleftrightarrow> (\<exists>n0 \<le> hi. probing_failed p url q n0 \<and>
     (lo + length (mq_candidates q) \<le> n0 \<or> (\<exists>n\<in>{lo..hi}. pm_now p n < pm_now p n0 + absentRetryInterval)))"

text \<open>The times in the resolver are those of failed probings.\<close>

definition absence_ok :: "prometheus \<Rightarrow> string \<Rightarrow> resolver \<Rightarrow> bool" where
  "absence_ok p url s \<longleftrightarrow> (\<forall>q\<in>set queries. \<forall>t. fmlookup (rs_absent s) (mq_key q) = Some t \<longrightarrow>
     (\<exists>n0 \<le> rs_calls s. t = pm_now p n0 + absentRetryInterval \<and> probing_failed p url q n0))"

lemma answered_mono: "answered p url lo hi q v \<Longrightarrow> lo' \<le> lo \<Longrightarrow> hi \<le> hi' \<Longrightarrow> answered p url lo' hi' q v"
proof -
  assume "lo' \<le> lo" "hi \<le> hi'"
  then have "{lo..<hi} \<subseteq> {lo'..<hi'}" by auto
  moreover assume "answered p url lo hi q v"
  ultimately show ?thesis unfolding answered_def by blast
qed

lemma unanswered_mono: "unanswered p url lo hi q \<Longrightarrow> lo' \<le> lo \<Longrightarrow> hi \<le> hi' \<Longrightarrow> unanswered p url lo' hi' q"
proof -
  assume le: "lo' \<le> lo" "hi \<le> hi'" and "unanswered p url lo hi q"
  then obtain n0 where n0: "n0 \<le> hi" "probing_failed p url q n0"
    "lo + length (mq_candidates q) \<le> n0 \<or> (\<exists>n\<in>{lo..hi}. pm_now p n < pm_now p n0 + absentRetryInterval)"
    unfolding unanswered_def by blast
  have "{lo..hi} \<subseteq> {lo'..hi'}" using le by auto
  with n0(3) le(1) have "lo' + length (mq_candidates q) \<le> n0 \<or> (\<exists>n\<in>{lo'..hi'}. pm_now p n < pm_now p n0 + absentRetryInterval)"
    by (meson add_le_mono1 order_trans subsetD)
  then show ?thesis unfolding unanswered_def using n0(1,2) le(2) by (meson order_trans)
qed

lemma absence_ok_calls: "absence_ok p url s \<Longrightarrow> absence_ok p url (s\<lparr>rs_calls := Suc (rs_calls s)\<rparr>)"
  unfolding absence_ok_def by (simp, meson le_SucI)

lemma queries_distinct: "distinct (map mq_key queries)"
  by (simp add: queries_def)

lemma query_not_nan: "query p url n e = Some v \<Longrightarrow> feq v v"
  by (auto simp: query_def split: option.splits list.splits if_splits)

lemma probe_found:
  "probe p url n cs = (Some (v, c), m) \<Longrightarrow> c \<in> set cs \<and> n < m \<and> (\<exists>k\<in>{n..<m}. query p url k (cd_expression c) = Some v)"
proof (induction cs arbitrary: n)
  case (Cons x cs)
  show ?case
  proof (cases "query p url n (cd_expression x)")
    case None
    from None Cons.prems have "probe p url (Suc n) cs = (Some (v, c), m)" by simp
    from Cons.IH [OF this] show ?thesis by force
  qed (use Cons.prems in auto)
qed simp

lemma probe_none:
  "probe p url n cs = (None, m) \<Longrightarrow> m = n + length cs \<and>
   (\<forall>i<length cs. query p url (n + i) (cd_expression (cs ! i)) = None)"
proof (induction cs arbitrary: n)
  case (Cons x cs)
  from Cons.prems have q: "query p url n (cd_expression x) = None" "probe p url (Suc n) cs = (None, m)"
    by (auto split: option.splits)
  from Cons.IH [OF q(2)] have m: "m = Suc n + length cs"
    "\<forall>i<length cs. query p url (Suc n + i) (cd_expression (cs ! i)) = None" by blast+
  have "query p url (n + i) (cd_expression ((x # cs) ! i)) = None" if "i < length (x # cs)" for i
    using m(2) q(1) that by (cases i) auto
  then show ?case using m(1) by simp
qed simp

lemma key_in_queries: "q \<in> set queries \<Longrightarrow> q' \<in> set queries \<Longrightarrow> mq_key q = mq_key q' \<Longrightarrow> q = q'"
  using queries_distinct by (auto simp: distinct_map dest: inj_onD)

definition resolved_as ::
    "prometheus \<Rightarrow> string \<Rightarrow> metricQuery \<Rightarrow> resolver \<Rightarrow> (float64 \<times> string) option \<Rightarrow> resolver \<Rightarrow> bool" where
  "resolved_as p url q s r s' \<longleftrightarrow> resolver_ok s' \<and> absence_ok p url s' \<and> rs_calls s \<le> rs_calls s' \<and>
     (case r of Some (v, _) \<Rightarrow> answered p url (rs_calls s) (rs_calls s') q v
        | None \<Rightarrow> unanswered p url (rs_calls s) (rs_calls s') q)"

lemma absence_ok_later:
  assumes "absence_ok p url s" "rs_calls s \<le> rs_calls s'"
    and "\<And>q t. q \<in> set queries \<Longrightarrow> fmlookup (rs_absent s') (mq_key q) = Some t \<Longrightarrow>
      fmlookup (rs_absent s) (mq_key q) = Some t \<or>
      t = pm_now p (rs_calls s') + absentRetryInterval \<and> probing_failed p url q (rs_calls s')"
  shows "absence_ok p url s'"
  using assms unfolding absence_ok_def by (meson order_refl order_trans)

lemma probe_all_resolved:
  assumes "probe_all p url q s = (r, s')" "resolver_ok s" "absence_ok p url s" "q \<in> set queries"
  shows "resolved_as p url q s r s'"
proof -
  obtain found n where f: "probe p url (rs_calls s) (mq_candidates q) = (found, n)" by (cases "probe p url (rs_calls s) (mq_candidates q)")
  show ?thesis
  proof (cases found)
    case None
    note none = probe_none [OF f [unfolded None]]
    then have failed: "probing_failed p url q n" by (simp add: probing_failed_def Let_def)
    have s': "r = None" "s' = s\<lparr>rs_resolved := fmdrop (mq_key q) (rs_resolved s),
        rs_absent := fmupd (mq_key q) (pm_now p n + absentRetryInterval) (rs_absent s), rs_calls := n\<rparr>"
      using assms(1) f None by (simp_all add: probe_all_def)
    have "absence_ok p url s'"
      using assms(3) by (rule absence_ok_later)
        (use none failed assms(4) in \<open>auto simp: s' dest: key_in_queries split: if_splits\<close>)
    moreover have "unanswered p url (rs_calls s) n q"
      unfolding unanswered_def using none failed by (intro exI [of _ n]) simp
    ultimately show ?thesis using none assms(2) by (auto simp: s' resolved_as_def resolver_ok_def fset_eq_iff split: if_splits)
  next
    case (Some vc)
    obtain v c where vc: "vc = (v, c)" by (cases vc)
    note found = probe_found [OF f [unfolded Some vc]]
    then have ans: "answered p url (rs_calls s) n q v" unfolding answered_def by blast
    have s': "r = Some (v, cd_backend c)" "s' = s\<lparr>rs_resolved := fmupd (mq_key q) c (rs_resolved s),
        rs_absent := fmdrop (mq_key q) (rs_absent s), rs_calls := n\<rparr>"
      using assms(1) f Some vc by (simp_all add: probe_all_def)
    have "absence_ok p url s'"
      using assms(3) by (rule absence_ok_later) (use found in \<open>auto simp: s' split: if_splits\<close>)
    with found ans assms(2,4) show ?thesis
      by (auto simp: s' resolved_as_def resolver_ok_def fset_eq_iff dest: key_in_queries split: if_splits)
  qed
qed

lemma resolve_resolved:
  assumes "resolve p url q s = (r, s')" "resolver_ok s" "absence_ok p url s" "q \<in> set queries"
  shows "resolved_as p url q s r s'"
proof -
  let ?s = "s\<lparr>rs_calls := Suc (rs_calls s)\<rparr>"
  show ?thesis
  proof (cases "fmlookup (rs_resolved s) (mq_key q)")
    case again: (Some remembered)
    show ?thesis
    proof (cases "query p url (rs_calls s) (cd_expression remembered)")
      case None
      with assms(1) again have pa: "probe_all p url q ?s = (r, s')" by (simp add: resolve_def)
      have "resolver_ok ?s" using assms(2) by (simp add: resolver_ok_def)
      from probe_all_resolved [OF pa this absence_ok_calls [OF assms(3)] assms(4)] have R: "resolved_as p url q ?s r s'" .
      show ?thesis
      proof (cases r)
        case None
        with R show ?thesis
          using unanswered_mono [of p url "Suc (rs_calls s)" "rs_calls s'" q "rs_calls s" "rs_calls s'"]
          by (simp add: resolved_as_def)
      next
        case (Some vb)
        with R show ?thesis
          using answered_mono [of p url "Suc (rs_calls s)" "rs_calls s'" q "fst vb" "rs_calls s" "rs_calls s'"]
          by (cases vb) (simp add: resolved_as_def)
      qed
    next
      case (Some v)
      from assms(2,4) again have "remembered \<in> set (mq_candidates q)" by (auto simp: resolver_ok_def)
      then have "answered p url (rs_calls s) (Suc (rs_calls s)) q v"
        using Some unfolding answered_def by force
      moreover have "r = Some (v, cd_backend remembered)" "s' = ?s" using assms(1) again Some by (simp_all add: resolve_def)
      ultimately show ?thesis using assms(2) absence_ok_calls [OF assms(3)] by (simp add: resolved_as_def resolver_ok_def)
    qed
  next
    case new: None
    show ?thesis
    proof (cases "\<exists>t. fmlookup (rs_absent s) (mq_key q) = Some t \<and> pm_now p (rs_calls s) < t")
      case True
      then have r: "r = None" "s' = s" using assms(1) new by (auto simp: resolve_def)
      from True assms(3,4) obtain n0 where "n0 \<le> rs_calls s" "probing_failed p url q n0"
        "pm_now p (rs_calls s) < pm_now p n0 + absentRetryInterval" unfolding absence_ok_def by blast
      then have "unanswered p url (rs_calls s) (rs_calls s) q" unfolding unanswered_def by auto
      then show ?thesis using assms(2,3) by (simp add: r resolved_as_def)
    next
      case False
      then have "probe_all p url q s = (r, s')"
        using assms(1) new by (auto simp: resolve_def split: option.splits)
      then show ?thesis using assms(2-4) by (rule probe_all_resolved)
    qed
  qed
qed

lemma samples_resolved:
  assumes "fold (sample_step p url) qs ((metrics, backend), s) = ((metrics', backend'), s')" "resolver_ok s"
    and "absence_ok p url s" "set qs \<subseteq> set queries" "distinct (map mq_key qs)"
  shows "resolver_ok s' \<and> absence_ok p url s' \<and> rs_calls s \<le> rs_calls s' \<and>
     (\<forall>k. k \<notin> mq_key ` set qs \<longrightarrow> fmlookup metrics' k = fmlookup metrics k) \<and>
     (\<forall>q\<in>set qs. fmlookup metrics (mq_key q) = None \<longrightarrow> (case fmlookup metrics' (mq_key q) of
        Some v \<Rightarrow> answered p url (rs_calls s) (rs_calls s') q v
      | None \<Rightarrow> unanswered p url (rs_calls s) (rs_calls s') q))"
  using assms
proof (induction qs arbitrary: metrics backend s)
  case (Cons q qs)
  obtain r s1 where r: "resolve p url q s = (r, s1)" by (cases "resolve p url q s")
  have R: "resolved_as p url q s r s1"
    using resolve_resolved [OF r Cons.prems(2,3)] Cons.prems(4) by simp
  obtain m1 b1 where m: "sample_step p url q ((metrics, backend), s) = ((m1, b1), s1)"
    "m1 = (case r of None \<Rightarrow> metrics | Some (v, _) \<Rightarrow> fmupd (mq_key q) v metrics)"
    using r by (cases r) (auto simp: sample_step_def)
  have f: "fold (sample_step p url) qs ((m1, b1), s1) = ((metrics', backend'), s')"
    using Cons.prems(1) m(1) by simp
  have ok: "resolver_ok s1" "absence_ok p url s1" and c1: "rs_calls s \<le> rs_calls s1"
    using R by (auto simp: resolved_as_def)
  have d: "mq_key q \<notin> mq_key ` set qs" "distinct (map mq_key qs)" using Cons.prems(5) by auto
  note I = Cons.IH [OF f ok _ d(2)]
  have I: "resolver_ok s' \<and> absence_ok p url s' \<and> rs_calls s1 \<le> rs_calls s'"
    "\<And>k. k \<notin> mq_key ` set qs \<Longrightarrow> fmlookup metrics' k = fmlookup m1 k"
    "\<And>q. q \<in> set qs \<Longrightarrow> fmlookup m1 (mq_key q) = None \<Longrightarrow> (case fmlookup metrics' (mq_key q) of
        Some v \<Rightarrow> answered p url (rs_calls s1) (rs_calls s') q v
      | None \<Rightarrow> unanswered p url (rs_calls s1) (rs_calls s') q)"
    using I Cons.prems(4) by auto
  have m1: "k \<noteq> mq_key q \<Longrightarrow> fmlookup m1 k = fmlookup metrics k" for k
    by (auto simp: m(2) split: option.splits)
  have here: "case fmlookup metrics' (mq_key q) of Some v \<Rightarrow> answered p url (rs_calls s) (rs_calls s') q v
      | None \<Rightarrow> unanswered p url (rs_calls s) (rs_calls s') q" if "fmlookup metrics (mq_key q) = None"
  proof (cases r)
    case None
    then have "fmlookup metrics' (mq_key q) = None" using I(2) [OF d(1)] that by (simp add: m(2))
    moreover have "unanswered p url (rs_calls s) (rs_calls s1) q" using R None by (simp add: resolved_as_def)
    ultimately show ?thesis using I(1) by (auto intro: unanswered_mono)
  next
    case (Some vb)
    obtain v b where "vb = (v, b)" by (cases vb)
    then have "fmlookup metrics' (mq_key q) = Some v" "answered p url (rs_calls s) (rs_calls s1) q v"
      using I(2) [OF d(1)] R Some by (simp_all add: m(2) resolved_as_def)
    then show ?thesis using I(1) by (auto intro: answered_mono)
  qed
  have later: "case fmlookup metrics' (mq_key q') of Some v \<Rightarrow> answered p url (rs_calls s) (rs_calls s') q' v
      | None \<Rightarrow> unanswered p url (rs_calls s) (rs_calls s') q'"
    if "q' \<in> set qs" "fmlookup metrics (mq_key q') = None" for q'
  proof -
    have "mq_key q' \<noteq> mq_key q" using d(1) that(1) by (metis imageI)
    from I(3) [OF that(1)] m1 [OF this] that(2) c1 show ?thesis
      by (auto split: option.splits intro: answered_mono unanswered_mono)
  qed
  show ?case using I(1,2) c1 m1 here later by auto
qed simp

text \<open>C39. A sample of a configured monitor holds, for each of the twenty
  metrics, a value only if one of the metric's own candidate expressions answered with it during this
  sample, and never NaN. A metric is missing only if a probing of all its candidates failed: one of this
  sample, or an earlier one that ended less than a minute (the retry interval) before a clock reading of
  this sample. The sample is \<open>collected\<close> exactly when the
  queue and the memory traffic were measured, and \<open>unavailable\<close> exactly when nothing was. The resolver
  stays consistent: what it remembers for a metric is one of the metric's candidates, no metric is
  both remembered and absent, and each absence comes from a failed probing.\<close>

theorem monitor_reports_only_answers:
  assumes "url \<noteq> []" "resolver_ok s" "absence_ok p url s" "Sample p url s = (sample, s')"
  shows "resolver_ok s' \<and> absence_ok p url s' \<and> rs_calls s \<le> rs_calls s' \<and>
    (\<forall>q\<in>set queries. case fmlookup (ms_Metrics sample) (mq_key q) of
       Some v \<Rightarrow> answered p url (rs_calls s) (rs_calls s') q v \<and> feq v v
     | None \<Rightarrow> unanswered p url (rs_calls s) (rs_calls s') q) \<and>
    fset (fmdom (ms_Metrics sample)) \<subseteq> mq_key ` set queries \<and>
    (ms_Status sample = ''collected'' \<longleftrightarrow> fmlookup (ms_Metrics sample) MetricRequestsWaiting \<noteq> None \<and>
       fmlookup (ms_Metrics sample) MetricDRAMActive \<noteq> None) \<and>
    (ms_Status sample = ''unavailable'' \<longleftrightarrow> ms_Metrics sample = fmempty)"
proof -
  obtain metrics backend s1 where f: "fold (sample_step p url) queries ((fmempty, []), s) = ((metrics, backend), s1)"
    by (metis prod.exhaust)
  note S = samples_resolved [OF f assms(2,3) subset_refl queries_distinct]
  have e: "fmdom metrics = {||} \<longleftrightarrow> metrics = fmempty" by (metis fmdom_empty fmrestrict_fset_dom fmrestrict_fset_null)
  have r: "s' = s1" "ms_Metrics sample = metrics"
    "ms_Status sample = ''collected'' \<longleftrightarrow> fmlookup metrics MetricRequestsWaiting \<noteq> None \<and> fmlookup metrics MetricDRAMActive \<noteq> None"
    "ms_Status sample = ''unavailable'' \<longleftrightarrow> metrics = fmempty"
    using assms(1,4) f e by (auto simp: Sample_def unavailable_def Let_def split: if_splits)
  have "fset (fmdom metrics) \<subseteq> mq_key ` set queries"
    using S by (force simp: fmlookup_dom_iff)
  moreover have "case fmlookup metrics (mq_key q) of
       Some v \<Rightarrow> answered p url (rs_calls s) (rs_calls s1) q v \<and> feq v v
     | None \<Rightarrow> unanswered p url (rs_calls s) (rs_calls s1) q" if "q \<in> set queries" for q
    using S that query_not_nan by (fastforce simp: answered_def split: option.splits)
  ultimately show ?thesis using S by (simp only: r) blast
qed

abbreviation "demo_prometheus \<equiv> \<lparr>
   pm_get = (\<lambda>n target. if target = query_url ''http://p'' ''sum(vllm:num_requests_waiting)'' then Some [([''0'', ''4''], fmempty)] else None),
   pm_string = Some, pm_ParseFloat = (\<lambda>raw. Some (f_of_int 4)), pm_scan_float = (\<lambda>raw. None), pm_now = int\<rparr>"

theorem monitor_reports_only_answers_witness:
  "\<exists>sample s'. Sample demo_prometheus ''http://p'' New_resolver = (sample, s') \<and>
     resolver_ok s' \<and> absence_ok demo_prometheus ''http://p'' s' \<and> ms_Status sample \<noteq> ''collected''"
proof -
  obtain sample s' where S: "Sample demo_prometheus ''http://p'' New_resolver = (sample, s')" by (rule prod.exhaust)
  have ok: "resolver_ok New_resolver" "absence_ok demo_prometheus ''http://p'' New_resolver"
    by (simp_all add: resolver_ok_def absence_ok_def New_resolver_def)
  note w = monitor_reports_only_answers [OF _ ok S]
  have no: "query demo_prometheus ''http://p'' n ''avg(DCGM_FI_PROF_DRAM_ACTIVE)'' = None" for n
    by (simp add: query_def query_url_def QueryEscape_def unreserved_def upper_hex_def)
  have "\<lparr>mq_key = ''dram_active'', mq_candidates = [\<lparr>cd_backend = [], cd_expression = ''avg(DCGM_FI_PROF_DRAM_ACTIVE)''\<rparr>]\<rparr> \<in> set queries"
    by (simp add: queries_def)
  with w no have "fmlookup (ms_Metrics sample) ''dram_active'' = None"
    by (fastforce simp: answered_def split: option.splits)
  with w S show ?thesis by simp
qed

end
