(* ===== verification/Ctl_View.thy ===== *)
theory Ctl_View
  imports Core_Saturation Core_Target
begin

text \<open>
  What the controller shows of a run: \<open>view\<close> and \<open>listView\<close> of \<open>internal/controller/server.go\<close>, the
  defaults it fills in, and the rows of the CSV export of \<open>internal/controller/export.go\<close>. A cell of the
  export is the value that \<open>fmt.Sprint\<close> prints.
\<close>

subsection \<open>Defaults of a request\<close>

definition publicTarget :: "Target \<Rightarrow> Target" where
  "publicTarget target = target\<lparr>tgt_HasAPIKey := (tgt_APIKey target \<noteq> []), tgt_APIKey := []\<rparr>"

definition applyWorkloadDefaults :: "RunConfig \<Rightarrow> RunConfig" where
  "applyWorkloadDefaults config =
     (let config = (if rc_CachePolicy config = [] then config\<lparr>rc_CachePolicy := CachePolicyMixed\<rparr> else config);
          config = (if rc_CachePolicy config = CachePolicyMixed \<and> rc_VariationPercent config = 0
            then config\<lparr>rc_VariationPercent := 30\<rparr> else config);
          config = (if rc_DrainSeconds config = 0
            then config\<lparr>rc_DrainSeconds := min 120 (quot (rc_DurationSeconds config) 5)\<rparr> else config);
          config = (if rc_SteadyStateSeconds config = 0 \<and> rc_SessionsPerVU config = 0
            then config\<lparr>rc_SteadyStateSeconds := min 60 (quot (rc_DurationSeconds config) 5)\<rparr> else config)
      in if feq (rc_MinCompletionPercent config) fzero
         then config\<lparr>rc_MinCompletionPercent := f_of_int 95\<rparr> else config)"

text \<open>The three limits that \<open>createRun\<close> and \<open>createSearch\<close> fill in first, then the defaults of the
  workload and the number of shards.\<close>

definition run_defaults :: "RunConfig \<Rightarrow> RunConfig" where
  "run_defaults config =
     (let config = (if rc_MaxTokens config = 0 then config\<lparr>rc_MaxTokens := 4096\<rparr> else config);
          config = (if feq (rc_MaxErrorPercent config) fzero then config\<lparr>rc_MaxErrorPercent := f_of_int 2\<rparr> else config);
          config = (if rc_MaxP95Millis config = 0 then config\<lparr>rc_MaxP95Millis := 2000\<rparr> else config);
          config = applyWorkloadDefaults config
      in if rc_Shards config = 0 then config\<lparr>rc_Shards := 3\<rparr> else config)"

definition search_defaults :: "AutoSearchConfig \<Rightarrow> AutoSearchConfig" where
  "search_defaults config =
     (let config = config\<lparr>asc_Run := run_defaults (asc_Run config)\<rparr>;
          config = (if asc_StartLoad config = 0
            then config\<lparr>asc_StartLoad := (if rc_Mode (asc_Run config) = LoadModeRPS then 10 else 5)\<rparr> else config)
      in if rc_Mode (asc_Run config) = LoadModeRPS
         then config\<lparr>asc_Run := (asc_Run config)\<lparr>rc_RPS := asc_StartLoad config\<rparr>\<rparr>
         else config\<lparr>asc_Run := (asc_Run config)\<lparr>rc_VUs := asc_StartLoad config\<rparr>\<rparr>)"

subsection \<open>A run with its verdicts\<close>

record provenanceView =
  pv_Server :: ServerConfig
  pv_Gaps :: "string list"
  pv_Conflicts :: "ProvenanceLine list"
  pv_TTFTComparable :: bool

record runView =
  vw_Run :: Run
  vw_Saturation :: SaturationVerdict
  vw_Validity :: RunValidity
  vw_Attribution :: LatencyAttribution
  vw_Provenance :: provenanceView

definition run_view :: "Run \<Rightarrow> runView" where
  "run_view run =
     (let effective = EffectiveServerConfig (rc_Server (run_Config run)) (run_DetectedServer run);
          (gaps, ttftComparable) = ProvenanceGaps effective;
          config = (run_Config run)\<lparr>rc_Server := effective\<rparr>
      in \<lparr>vw_Run = run,
          vw_Saturation = AssessSaturation (run_Monitoring run) config,
          vw_Validity = AssessRunValidity (run_Monitoring run) (run_Result run) config,
          vw_Attribution = AttributeTTFT (run_Result run) (run_Monitoring run),
          vw_Provenance = \<lparr>pv_Server = effective, pv_Gaps = gaps,
            pv_Conflicts = ProvenanceConflicts (rc_Server (run_Config run)) (run_DetectedServer run),
            pv_TTFTComparable = ttftComparable\<rparr>\<rparr>)"

definition listView :: "Run list \<Rightarrow> runView list" where
  "listView runs = foldl (\<lambda>views run.
     let item = run_view run in views @ [item\<lparr>vw_Run := (vw_Run item)\<lparr>run_Monitoring := []\<rparr>\<rparr>]) [] runs"

lemma listView_eq: "listView runs = map (\<lambda>run. (run_view run)\<lparr>vw_Run := run\<lparr>run_Monitoring := []\<rparr>\<rparr>) runs"
proof -
  have "foldl (\<lambda>views run. let item = run_view run in
      views @ [item\<lparr>vw_Run := (vw_Run item)\<lparr>run_Monitoring := []\<rparr>\<rparr>]) acc runs =
    acc @ map (\<lambda>run. (run_view run)\<lparr>vw_Run := run\<lparr>run_Monitoring := []\<rparr>\<rparr>) runs" for acc
    by (induction runs arbitrary: acc) (simp_all add: Let_def run_view_def split: prod.split)
  then show ?thesis by (simp add: listView_def)
qed

subsection \<open>The CSV export\<close>

datatype cell =
    CellText string
  | CellInt int
  | CellFloat float64
  | CellBool bool
  | CellConflict ProvenanceLine
  | CellSaturation SaturationHeadline
  | CellReason InvalidReason
  | CellAttribution AttributionHeadline

type_synonym csv_row = "string \<times> string \<times> string \<times> cell"

definition loadOf :: "RunConfig \<Rightarrow> string" where
  "loadOf config = (if rc_Mode config = LoadModeRPS then dec_int (rc_RPS config) @ '' RPS''
     else dec_int (rc_VUs config) @ '' VU'')"

definition run_rows :: "runView \<Rightarrow> csv_row list" where
  "run_rows item =
     (let run = vw_Run item; config = run_Config run; result = run_Result run in
      [(''run'', ''id'', [], CellText (run_ID run)),
       (''run'', ''created_by'', [], CellText (run_CreatedBy run)),
       (''run'', ''status'', [], CellText (run_Status run)),
       (''run'', ''load'', [], CellText (loadOf config)),
       (''run'', ''duration_seconds'', [], CellInt (rc_DurationSeconds config)),
       (''run'', ''drain_seconds'', [], CellInt (rc_DrainSeconds config)),
       (''run'', ''steady_state_seconds'', [], CellInt (rc_SteadyStateSeconds config)),
       (''run'', ''cache_policy'', [], CellText (rc_CachePolicy config)),
       (''run'', ''arrival_pattern'', [], CellText (rc_ArrivalPattern config)),
       (''run'', ''output_tokens_stdev'', [], CellInt (rc_OutputTokensStdev config)),
       (''run'', ''prompt_pad_tokens'', [], CellInt (rc_PromptPadTokens config)),
       (''run'', ''output_length_pinned'', [], CellBool (rr_OutputLengthPinned result)),
       (''run'', ''context_accumulated'', [], CellBool (rr_ContextAccumulated result))])"

definition provenance_rows :: "provenanceView \<Rightarrow> csv_row list" where
  "provenance_rows p =
     (let server = pv_Server p in
      [(''provenance'', ''version'', [], CellText (sc_Version server)),
       (''provenance'', ''model'', [], CellText (sc_Model server)),
       (''provenance'', ''max_num_seqs'', [], CellInt (sc_MaxNumSeqs server)),
       (''provenance'', ''max_num_batched_tokens'', [], CellInt (sc_MaxNumBatchedTokens server)),
       (''provenance'', ''gpu_memory_utilization'', [], CellFloat (sc_GPUMemoryUtilization server)),
       (''provenance'', ''block_size'', [], CellInt (sc_BlockSize server)),
       (''provenance'', ''tensor_parallel_size'', [], CellInt (sc_TensorParallelSize server)),
       (''provenance'', ''prefix_caching'', [], CellText (sc_PrefixCaching server)),
       (''provenance'', ''chunked_prefill'', [], CellText (sc_ChunkedPrefill server)),
       (''provenance'', ''ttft_comparable'', [], CellBool (pv_TTFTComparable p))] @
      map (\<lambda>gap. (''provenance'', ''unknown'', [], CellText gap)) (pv_Gaps p) @
      map (\<lambda>conflict. (''provenance'', ''conflict'', [], CellConflict conflict)) (pv_Conflicts p))"

definition result_rows :: "RunResult \<Rightarrow> csv_row list" where
  "result_rows result =
      [(''lifecycle'', ''issued'', [], CellInt (rr_Issued result)),
       (''lifecycle'', ''completed'', [], CellInt (rr_Completed result)),
       (''lifecycle'', ''cancelled'', [], CellInt (rr_Cancelled result)),
       (''lifecycle'', ''http_failures'', [], CellInt (rr_HTTPFailures result)),
       (''lifecycle'', ''transport_errors'', [], CellInt (rr_TransportErrors result)),
       (''lifecycle'', ''completion_percent'', [], CellFloat (rr_CompletionPercent result)),
       (''lifecycle'', ''dropped_arrivals'', [], CellInt (rr_DroppedArrivals result)),
       (''lifecycle'', ''latency_from_intended_arrival'', [], CellBool (rr_LatencyFromIntendedArrival result)),
       (''lifecycle'', ''backoff_events'', [], CellInt (rr_BackoffEvents result)),
       (''lifecycle'', ''backoff_seconds'', [], CellFloat (rr_BackoffSeconds result)),
       (''throughput'', ''requests_per_second'', [], CellFloat (rr_ThroughputRPS result)),
       (''throughput'', ''output_tokens_per_second'', [], CellFloat (tu_OutputPerSecond (rr_Tokens result))),
       (''throughput'', ''prompt_tokens'', [], CellInt (tu_Prompt (rr_Tokens result))),
       (''throughput'', ''completion_tokens'', [], CellInt (tu_Completion (rr_Tokens result))),
       (''throughput'', ''goodput_percent'', [], CellFloat (rr_GoodputPercent result)),
       (''steady_state'', ''seconds'', [], CellInt (rr_SteadySeconds result)),
       (''steady_state'', ''samples'', [], CellInt (rr_SteadySamples result))]"

text \<open>\<open>names\<close> is the order in which Go iterates over the literal map of the six distributions.\<close>

definition distribution_of :: "RunResult \<Rightarrow> string \<Rightarrow> Distribution" where
  "distribution_of result name =
     (if name = ''latency'' then rr_Latency result else if name = ''ttft'' then rr_TTFT result
      else if name = ''ttfo'' then rr_TTFO result else if name = ''itl'' then rr_ITL result
      else if name = ''tpot'' then rr_TPOT result else rr_GeneratorDelay result)"

definition distribution_names :: "string list" where
  "distribution_names = [''latency'', ''ttft'', ''ttfo'', ''itl'', ''tpot'', ''generator_delay'']"

definition distribution_rows :: "string list \<Rightarrow> RunResult \<Rightarrow> csv_row list" where
  "distribution_rows names result = concat (map (\<lambda>name. let d = distribution_of result name in
      [(''distribution'', name, ''min_millis'', CellInt (ds_MinMillis d)),
       (''distribution'', name, ''avg_millis'', CellInt (ds_AvgMillis d)),
       (''distribution'', name, ''p50_millis'', CellInt (ds_P50Millis d)),
       (''distribution'', name, ''p95_millis'', CellInt (ds_P95Millis d)),
       (''distribution'', name, ''p99_millis'', CellInt (ds_P99Millis d)),
       (''distribution'', name, ''max_millis'', CellInt (ds_MaxMillis d))]) names)"

definition verdict_rows :: "runView \<Rightarrow> csv_row list" where
  "verdict_rows item =
      [(''verdict'', ''saturation'', [], CellText (sv_State (vw_Saturation item))),
       (''verdict'', ''saturation_headline'', [], CellSaturation (sv_Headline (vw_Saturation item))),
       (''verdict'', ''trustworthy'', [], CellBool (rv_Trustworthy (vw_Validity item)))] @
      map (\<lambda>reason. (''verdict'', ''untrustworthy_reason'', [], CellReason reason)) (rv_Reasons (vw_Validity item)) @
      [(''verdict'', ''attribution'', [], CellText (la_Verdict (vw_Attribution item))),
       (''verdict'', ''attribution_headline'', [], CellAttribution (la_Headline (vw_Attribution item)))]"

definition scenario_rows :: "ScenarioResult \<Rightarrow> csv_row list" where
  "scenario_rows s =
      [(''scenario'', scr_Name s, ''issued'', CellInt (scr_Issued s)),
       (''scenario'', scr_Name s, ''completed'', CellInt (scr_Completed s)),
       (''scenario'', scr_Name s, ''completion_percent'', CellFloat (scr_CompletionPercent s)),
       (''scenario'', scr_Name s, ''cancelled'', CellInt (scr_Cancelled s)),
       (''scenario'', scr_Name s, ''failures'', CellInt (scr_Failures s)),
       (''scenario'', scr_Name s, ''latency_p50_millis'', CellInt (ds_P50Millis (scr_Latency s))),
       (''scenario'', scr_Name s, ''latency_p95_millis'', CellInt (ds_P95Millis (scr_Latency s))),
       (''scenario'', scr_Name s, ''ttft_p95_millis'', CellInt (ds_P95Millis (scr_TTFT s))),
       (''scenario'', scr_Name s, ''input_tokens'', CellInt (scr_InputTokens s)),
       (''scenario'', scr_Name s, ''output_tokens'', CellInt (scr_OutputTokens s))]"

definition timeline_rows :: "TimelinePoint \<Rightarrow> csv_row list" where
  "timeline_rows point =
     (let second = dec_int (tp_Second point) in
      [(''timeline'', second, ''target_load'', CellInt (tp_TargetLoad point)),
       (''timeline'', second, ''active'', CellInt (tp_Active point)),
       (''timeline'', second, ''issued'', CellInt (tp_Issued point)),
       (''timeline'', second, ''completed'', CellInt (tp_Completed point)),
       (''timeline'', second, ''cancelled'', CellInt (tp_Cancelled point)),
       (''timeline'', second, ''p95_millis'', CellInt (tp_P95Millis point))])"

text \<open>\<open>ord\<close> is the order in which Go iterates over the metrics of a sample.\<close>

definition metric_rows :: "(string fset \<Rightarrow> string list) \<Rightarrow> MonitoringSample \<Rightarrow> csv_row list" where
  "metric_rows ord sample = map (\<lambda>key. (''server_metrics'', dec_int (ms_AtSecond sample), key,
     CellFloat (get_or fzero (ms_Metrics sample) key))) (ord (fmdom (ms_Metrics sample)))"

definition writeRunCSV :: "string list \<Rightarrow> (string fset \<Rightarrow> string list) \<Rightarrow> runView \<Rightarrow> csv_row list" where
  "writeRunCSV names ord item =
     (let result = run_Result (vw_Run item) in
      [(''section'', ''key'', ''subkey'', CellText ''value'')] @ run_rows item @
      provenance_rows (vw_Provenance item) @ result_rows result @ distribution_rows names result @
      verdict_rows item @ concat (map scenario_rows (rr_Scenarios result)) @
      concat (map timeline_rows (rr_Timeline result)) @
      concat (map (metric_rows ord) (run_Monitoring (vw_Run item))))"

subsection \<open>Reading an export back\<close>

text \<open>The value of a cell of the export that holds a number, for a key that occurs once.\<close>

definition number_at :: "csv_row list \<Rightarrow> string \<Rightarrow> string \<Rightarrow> string \<Rightarrow> int list" where
  "number_at rows section key subkey =
     concat (map (\<lambda>(s, k, u, c). if s = section \<and> k = key \<and> u = subkey
       then (case c of CellInt n \<Rightarrow> [n] | _ \<Rightarrow> []) else []) rows)"

lemma number_at_append [simp]:
  "number_at (xs @ ys) section key subkey = number_at xs section key subkey @ number_at ys section key subkey"
  by (simp add: number_at_def)

lemma number_at_Cons:
  "number_at ((s, k, u, c) # rows) section key subkey =
     (if s = section \<and> k = key \<and> u = subkey then (case c of CellInt n \<Rightarrow> [n] | _ \<Rightarrow> []) else []) @
     number_at rows section key subkey"
  by (simp add: number_at_def)

lemma number_at_Nil [simp]: "number_at [] section key subkey = []"
  by (simp add: number_at_def)

lemma number_at_other:
  "(\<forall>(s, k, u, c) \<in> set rows. s \<noteq> section) \<Longrightarrow> number_at rows section key subkey = []"
  by (induction rows) (auto simp: number_at_Cons)

definition sections :: "csv_row list \<Rightarrow> string set" where
  "sections rows = fst ` set rows"

lemma number_at_sections: "section \<notin> sections rows \<Longrightarrow> number_at rows section key subkey = []"
  by (rule number_at_other) (force simp: sections_def)

lemma sections_of:
  "sections (run_rows item) = {''run''}" "sections (provenance_rows p) = {''provenance''}"
  "sections (result_rows result) = {''lifecycle'', ''throughput'', ''steady_state''}"
  "sections (distribution_rows names result) \<subseteq> {''distribution''}" "sections (verdict_rows item) = {''verdict''}"
  "sections (scenario_rows s) = {''scenario''}" "sections (timeline_rows point) = {''timeline''}"
  "sections (metric_rows ord sample) \<subseteq> {''server_metrics''}"
  by (auto simp: sections_def run_rows_def provenance_rows_def result_rows_def distribution_rows_def verdict_rows_def
      scenario_rows_def timeline_rows_def metric_rows_def Let_def image_Un)

lemma sections_append: "sections (xs @ ys) = sections xs \<union> sections ys"
  by (auto simp: sections_def)

lemma sections_concat: "sections (concat (map f xs)) = (\<Union>x\<in>set xs. sections (f x))"
  by (induction xs) (auto simp: sections_def)

lemma number_at_concat:
  "number_at (concat (map f xs)) section key subkey = concat (map (\<lambda>x. number_at (f x) section key subkey) xs)"
  by (induction xs) simp_all

lemma timeline_export:
  "number_at (writeRunCSV names ord item) ''timeline'' key subkey =
     concat (map (\<lambda>point. number_at (timeline_rows point) ''timeline'' key subkey) (rr_Timeline (run_Result (vw_Run item))))"
proof -
  have other: "number_at rows ''timeline'' key subkey = []" if "sections rows \<subseteq> S" "''timeline'' \<notin> S" for rows S
    using that by (intro number_at_sections) auto
  have c: "sections (concat (map scenario_rows xs)) \<subseteq> {''scenario''}"
    "sections (concat (map (metric_rows ord) ys)) \<subseteq> {''server_metrics''}" for xs ys
    unfolding sections_concat using sections_of(6,8) by (intro UN_least; simp)+
  have z: "number_at (run_rows item) ''timeline'' key subkey = []"
    "number_at (provenance_rows (vw_Provenance item)) ''timeline'' key subkey = []"
    "number_at (result_rows result) ''timeline'' key subkey = []"
    "number_at (distribution_rows names result) ''timeline'' key subkey = []"
    "number_at (verdict_rows item) ''timeline'' key subkey = []"
    "number_at (concat (map scenario_rows xs)) ''timeline'' key subkey = []"
    "number_at (concat (map (metric_rows ord) ys)) ''timeline'' key subkey = []" for result xs ys
    by (rule other [OF equalityD1 [OF sections_of(1)]], simp)
      (rule other [OF equalityD1 [OF sections_of(2)]] other [OF equalityD1 [OF sections_of(3)]]
         other [OF sections_of(4)] other [OF equalityD1 [OF sections_of(5)]] other [OF c(1)] other [OF c(2)], simp)+
  show ?thesis
    unfolding writeRunCSV_def Let_def number_at_append z number_at_concat [of timeline_rows] by (simp add: number_at_Cons)
qed

text \<open>A second that the timeline has once is read back from its rows.\<close>

lemma second_read_back:
  assumes "distinct (map tp_Second points)" "p \<in> set points"
  shows "concat (map (\<lambda>point. number_at (timeline_rows point) ''timeline'' (dec_int (tp_Second p)) ''issued'') points) = [tp_Issued p]"
    and "concat (map (\<lambda>point. number_at (timeline_rows point) ''timeline'' (dec_int (tp_Second p)) ''completed'') points) = [tp_Completed p]"
    and "concat (map (\<lambda>point. number_at (timeline_rows point) ''timeline'' (dec_int (tp_Second p)) ''cancelled'') points) = [tp_Cancelled p]"
    and "concat (map (\<lambda>point. number_at (timeline_rows point) ''timeline'' (dec_int (tp_Second p)) ''p95_millis'') points) = [tp_P95Millis p]"
proof -
  have n: "number_at (timeline_rows q) ''timeline'' (dec_int n) ''issued'' = (if tp_Second q = n then [tp_Issued q] else [])"
    "number_at (timeline_rows q) ''timeline'' (dec_int n) ''completed'' = (if tp_Second q = n then [tp_Completed q] else [])"
    "number_at (timeline_rows q) ''timeline'' (dec_int n) ''cancelled'' = (if tp_Second q = n then [tp_Cancelled q] else [])"
    "number_at (timeline_rows q) ''timeline'' (dec_int n) ''p95_millis'' = (if tp_Second q = n then [tp_P95Millis q] else [])" for q n
    by (simp_all add: timeline_rows_def Let_def number_at_Cons)
  have one: "concat (map (\<lambda>q. if tp_Second q = tp_Second p then [f q] else []) points) = [f p]" for f :: "TimelinePoint \<Rightarrow> int"
  proof -
    have none: "concat (map (\<lambda>q. if tp_Second q = k then [f q] else []) qs) = []" if "k \<notin> tp_Second ` set qs" for k qs
      using that by (induction qs) auto
    show ?thesis using assms by (induction points) (auto simp: none image_iff)
  qed
  show "concat (map (\<lambda>point. number_at (timeline_rows point) ''timeline'' (dec_int (tp_Second p)) ''issued'') points) = [tp_Issued p]"
    "concat (map (\<lambda>point. number_at (timeline_rows point) ''timeline'' (dec_int (tp_Second p)) ''completed'') points) = [tp_Completed p]"
    "concat (map (\<lambda>point. number_at (timeline_rows point) ''timeline'' (dec_int (tp_Second p)) ''cancelled'') points) = [tp_Cancelled p]"
    "concat (map (\<lambda>point. number_at (timeline_rows point) ''timeline'' (dec_int (tp_Second p)) ''p95_millis'') points) = [tp_P95Millis p]"
    unfolding n by (rule one)+
qed

end
