(* ===== verification/Ctl_State.thy ===== *)
theory Ctl_State
  imports Ctl_View Auth_Session Monitor_Client Store_Captures Store_Complete
begin

text \<open>
  The state of the controller (\<open>Server\<close> of \<open>internal/controller/server.go\<close>) and what its handlers take
  from outside: the decoders of \<open>encoding/json\<close>, the hashes, the identity provider, the model servers and
  Prometheus, the clocks, and the orders in which Go iterates over maps. A JSON answer is the value that
  is encoded.
\<close>

subsection \<open>Bodies that handlers decode\<close>

record captureSettingsRequest =
  csr_Enabled :: bool
  csr_Token :: string
  csr_SessionIdleMinutes :: int
  csr_MaxEventsPerSession :: int
  csr_RetentionSessions :: int
  csr_DefaultReplayVUs :: int
  csr_ReplayThinkTimeScale :: float64
  csr_ReplayBufferSeconds :: int
  csr_ReplayDrainSeconds :: int

record captureRequest =
  cq_MaxTokens :: int
  cq_Messages :: string

text \<open>The parts of a chat completion, or of one event of a stream, that a capture looks at. A content
  that is not a string is \<open>None\<close>.\<close>

record capture_choice =
  ch_FinishReason :: string
  ch_MessageToolCalls :: nat
  ch_DeltaContent :: "string option"
  ch_DeltaToolCalls :: nat

record captureResponse =
  cr_PromptTokens :: int
  cr_CompletionTokens :: int
  cr_Choices :: "capture_choice list"

datatype json = JString string | JArray "json list" | JObject "(string \<times> json) list" | JOther

record codecs =
  dec_Target :: "string \<Rightarrow> Target option"
  dec_RunConfig :: "string \<Rightarrow> RunConfig option"
  dec_AutoSearchConfig :: "string \<Rightarrow> AutoSearchConfig option"
  dec_RunResult :: "string \<Rightarrow> RunResult option"
  dec_RunProgress :: "string \<Rightarrow> RunProgress option"
  dec_captureSettings :: "string \<Rightarrow> captureSettingsRequest option"
  dec_captureRequest :: "string \<Rightarrow> captureRequest option"
  dec_captureResponse :: "string \<Rightarrow> captureResponse option"
  dec_json :: "string \<Rightarrow> json option"

subsection \<open>Model servers\<close>

text \<open>A request the controller sends to a target, and its answer: the lines of a streamed body come with
  the clock when each was read.\<close>

record outgoing =
  og_Method :: string
  og_URL :: string
  og_Authorization :: string
  og_Accept :: string
  og_Body :: string

record upstream =
  up_Status :: int
  up_StatusText :: string
  up_Headers :: "(string \<times> string list) list"
  up_ContentType :: string
  up_Lines :: "(string \<times> int) list"
  up_Body :: string
  up_Now :: int         \<comment> \<open>the clock when the headers were read\<close>
  up_End :: int         \<comment> \<open>the clock when the body was read\<close>

datatype exchange = InvalidRequest | ConnectionFailed int | Answered upstream

subsection \<open>The environment of a request\<close>

record env =
  en_codecs :: codecs
  en_ord :: "string fset \<Rightarrow> string list"
  en_tord :: "(int, TimelinePoint) fmap \<Rightarrow> int list"
  en_names :: "string list"
  en_now :: int                       \<comment> \<open>nanoseconds of Unix time\<close>
  en_prometheus :: prometheus
  en_parse_url :: "string \<Rightarrow> RequestURI option"
  en_unicode_lower :: "string \<Rightarrow> string"
  en_hmac :: "string \<Rightarrow> string \<Rightarrow> string"
  en_sha256 :: "string \<Rightarrow> string"
  en_marshal :: "sessionClaims \<Rightarrow> string"
  en_unmarshal :: "string \<Rightarrow> string + sessionClaims"
  en_random :: string
  en_AuthCodeURL :: "oauth_Config \<Rightarrow> string \<Rightarrow> string"
  en_Exchange :: "oauth_Config \<Rightarrow> string \<Rightarrow> string option option"
  en_Verify :: "string \<Rightarrow> idToken option"
  en_send :: "outgoing \<Rightarrow> exchange"

text \<open>Every order is an order of the map it is for.\<close>

definition env_ok :: "env \<Rightarrow> bool" where
  "env_ok e \<longleftrightarrow> (\<forall>ks. distinct (en_ord e ks) \<and> fset_of_list (en_ord e ks) = ks) \<and> (\<forall>t. iter_order (en_tord e t) t)"

definition order_of :: "env \<Rightarrow> 'v smap \<Rightarrow> string list" where
  "order_of e m = en_ord e (fmdom m)"

lemma order_of: "env_ok e \<Longrightarrow> iter_order (order_of e m) m"
  by (simp add: env_ok_def order_of_def iter_order_def)

subsection \<open>The server\<close>

record Server =
  srv_store :: Store
  srv_monitorURL :: string
  srv_resolver :: resolver
  srv_auth :: Gate
  srv_envCaptureTokenHash :: string
  srv_captureSalt :: string
  srv_targetHostSuffixes :: "string list"

definition no_auth :: auth_Config where
  "no_auth = \<lparr>ac_IssuerURL = [], ac_ClientID = [], ac_ClientSecret = [], ac_RedirectURL = [], ac_SessionKey = []\<rparr>"

definition newServer :: "string \<Rightarrow> string \<Rightarrow> Store \<Rightarrow> Server" where
  "newServer salt monitorURL memory = \<lparr>srv_store = memory, srv_monitorURL = monitorURL, srv_resolver = New_resolver,
     srv_auth = NewGate no_auth, srv_envCaptureTokenHash = [], srv_captureSalt = salt,
     srv_targetHostSuffixes = [''.internal'']\<rparr>"

definition WithTargetAllowedHostSuffixes :: "string \<Rightarrow> Server \<Rightarrow> Server" where
  "WithTargetAllowedHostSuffixes val s =
     (if TrimSpace val \<noteq> [] then s\<lparr>srv_targetHostSuffixes := Split val '',''\<rparr> else s)"

definition WithAuth :: "Gate \<Rightarrow> Server \<Rightarrow> Server" where
  "WithAuth gate s = s\<lparr>srv_auth := gate\<rparr>"

text \<open>An operation of the store, run on the server's store.\<close>

definition with_store :: "(Store \<Rightarrow> 'a \<times> Store) \<Rightarrow> Server \<Rightarrow> 'a \<times> Server" where
  "with_store f s = (let (x, st) = f (srv_store s) in (x, s\<lparr>srv_store := st\<rparr>))"

definition monitor_sample :: "env \<Rightarrow> Server \<Rightarrow> MonitoringSample \<times> Server" where
  "monitor_sample e s =
     (let (sample, r) = Sample (en_prometheus e) (srv_monitorURL s) (srv_resolver s)
      in (sample, s\<lparr>srv_resolver := r\<rparr>))"

definition add_monitoring :: "env \<Rightarrow> string \<Rightarrow> MonitoringSample \<Rightarrow> Server \<Rightarrow> Server" where
  "add_monitoring e i sample s = s\<lparr>srv_store := AddMonitoring (en_now e div Second) i sample (srv_store s)\<rparr>"

text \<open>One tick of \<open>sampleServerMetrics\<close>.\<close>

definition sampleServerMetrics :: "env \<Rightarrow> Server \<Rightarrow> Server" where
  "sampleServerMetrics e s =
     (let active = ActiveRunIDs (order_of e (st_runs (srv_store s))) (srv_store s) in
      if active = [] then s
      else
        let (sample, s) = monitor_sample e s;
            (detected, calls) = ServerConfig_of (en_prometheus e) (srv_monitorURL s) (rs_calls (srv_resolver s));
            s = s\<lparr>srv_resolver := (srv_resolver s)\<lparr>rs_calls := calls\<rparr>\<rparr>
        in foldl (\<lambda>s i.
             let s = add_monitoring e i sample s
             in if \<not> ServerConfig_eq detected zero_ServerConfig
                then s\<lparr>srv_store := SetDetectedServer i detected (srv_store s)\<rparr> else s) s active)"

subsection \<open>What a handler answers\<close>

datatype api_value =
    V_Health bool bool int int bool bool   \<comment> \<open>controller, agent, queued, running, login, capture\<close>
  | V_User User
  | V_Assignment Assignment
  | V_Run runView
  | V_Runs "runView list"
  | V_Target Target
  | V_Targets "Target list"
  | V_Search AutoSearch
  | V_Searches "AutoSearch list"
  | V_Captures "CaptureSession list"
  | V_CaptureSettings bool bool CaptureSettings   \<comment> \<open>enabled, token configured\<close>
  | V_Check int int "bool option"                 \<comment> \<open>status, milliseconds, whether \<open>ignore_eos\<close> is accepted\<close>
  | V_Export "csv_row list"
  | V_Upstream "(string \<times> string) list" string   \<comment> \<open>headers and body passed on\<close>

end
