(* ===== verification/Ctl_Capture.thy ===== *)
theory Ctl_Capture
  imports Ctl_State
begin

text \<open>
  \<open>internal/controller/capture.go\<close>: the proxy in front of a model server that records the shape of the
  traffic (token counts and timing, no text), and the handlers of its settings.
\<close>

definition maxCaptureInspectionBytes :: int where "maxCaptureInspectionBytes = 8 * 2 ^ 20"

definition lower_hex :: "nat \<Rightarrow> char" where
  "lower_hex n = ''0123456789abcdef'' ! n"

definition hex_EncodeToString :: "string \<Rightarrow> string" where
  "hex_EncodeToString s = concat (map (\<lambda>c. [lower_hex (of_char c div 16), lower_hex (of_char c mod 16)]) s)"

definition hashCaptureToken :: "env \<Rightarrow> string \<Rightarrow> string" where
  "hashCaptureToken e token = hex_EncodeToString (en_sha256 e token)"

definition WithCaptureProxy :: "env \<Rightarrow> string \<Rightarrow> Server \<Rightarrow> Server" where
  "WithCaptureProxy e token s = (if token \<noteq> [] then s\<lparr>srv_envCaptureTokenHash := hashCaptureToken e token\<rparr> else s)"

text \<open>The hash of the token, whether the proxy is enabled, whether a token is configured.\<close>

definition captureCredentials :: "Server \<Rightarrow> string \<times> bool \<times> bool" where
  "captureCredentials s =
     (let settings = GetCaptureSettings (srv_store s);
          tokenHash = cset_TokenHash settings;
          tokenHash = (if tokenHash = [] then srv_envCaptureTokenHash s else tokenHash);
          enabled = (tokenHash \<noteq> []);
          enabled = (if cset_Configured settings then cset_Enabled settings \<and> tokenHash \<noteq> [] else enabled)
      in (tokenHash, enabled, tokenHash \<noteq> []))"

subsection \<open>Settings\<close>

definition getCaptureSettings :: "Server \<Rightarrow> api_value response" where
  "getCaptureSettings s =
     (let settings = GetCaptureSettings (srv_store s); (_, enabled, configured) = captureCredentials s
      in writeJSON StatusOK (V_CaptureSettings enabled configured settings))"

text \<open>The double nearest to a tenth.\<close>

definition tenth :: float64 where "tenth = mk_float (1 / 10)"

definition settings_out_of_range :: "captureSettingsRequest \<Rightarrow> bool" where
  "settings_out_of_range input \<longleftrightarrow>
     csr_SessionIdleMinutes input < 1 \<or> csr_SessionIdleMinutes input > 120 \<or>
     csr_MaxEventsPerSession input < 8 \<or> csr_MaxEventsPerSession input > 128 \<or>
     csr_RetentionSessions input < 10 \<or> csr_RetentionSessions input > 500 \<or>
     csr_DefaultReplayVUs input < 1 \<or> csr_DefaultReplayVUs input > MaxVUs \<or>
     fless (csr_ReplayThinkTimeScale input) tenth \<or> fless (f_of_int 10) (csr_ReplayThinkTimeScale input) \<or>
     csr_ReplayBufferSeconds input < 30 \<or> csr_ReplayBufferSeconds input > 1800 \<or>
     csr_ReplayDrainSeconds input < 0 \<or> csr_ReplayDrainSeconds input > 600"

definition updateCaptureSettings :: "env \<Rightarrow> request \<Rightarrow> Server \<Rightarrow> api_value response \<times> Server" where
  "updateCaptureSettings e r s =
     (case dec_captureSettings (en_codecs e) (take (16 * 2 ^ 10) (rq_Body r)) of
        None \<Rightarrow> (Error ''invalid JSON'' StatusBadRequest, s)
      | Some input \<Rightarrow>
          if settings_out_of_range input then (Error ''capture setting is out of range'' StatusBadRequest, s)
          else
            let current = GetCaptureSettings (srv_store s); token = TrimSpace (csr_Token input) in
            if token \<noteq> [] \<and> (length token < 24 \<or> length token > 256)
            then (Error ''capture token must be 24 to 256 characters'' StatusBadRequest, s)
            else
              let current = (if token \<noteq> [] then current\<lparr>cset_TokenHash := hashCaptureToken e token\<rparr> else current) in
              if csr_Enabled input \<and> cset_TokenHash current = [] \<and> srv_envCaptureTokenHash s = []
              then (Error ''set a capture token before enabling the proxy'' StatusBadRequest, s)
              else
                let current = current\<lparr>cset_Enabled := csr_Enabled input,
                      cset_SessionIdleMinutes := csr_SessionIdleMinutes input,
                      cset_MaxEventsPerSession := csr_MaxEventsPerSession input,
                      cset_RetentionSessions := csr_RetentionSessions input,
                      cset_DefaultReplayVUs := csr_DefaultReplayVUs input,
                      cset_ReplayThinkTimeScale := csr_ReplayThinkTimeScale input,
                      cset_ReplayBufferSeconds := csr_ReplayBufferSeconds input,
                      cset_ReplayDrainSeconds := csr_ReplayDrainSeconds input\<rparr>;
                    (_, s) = with_store (SetCaptureSettings current) s
                in (getCaptureSettings s, s))"

subsection \<open>Counting prompt tokens\<close>

text \<open>\<open>utf8.RuneCountInString\<close>: the width of the rune at the front, 1 for a byte that starts none.\<close>

definition in_range :: "nat \<Rightarrow> nat \<Rightarrow> nat \<Rightarrow> bool" where
  "in_range lo hi n \<longleftrightarrow> lo \<le> n \<and> n \<le> hi"

fun rune_width :: "nat list \<Rightarrow> nat" where
  "rune_width (a # b # c # d # rest) =
     (if in_range 0xC2 0xDF a \<and> in_range 0x80 0xBF b then 2
      else if in_range 0xE0 0xEF a \<and> in_range (if a = 0xE0 then 0xA0 else 0x80) (if a = 0xED then 0x9F else 0xBF) b \<and>
        in_range 0x80 0xBF c then 3
      else if in_range 0xF0 0xF4 a \<and> in_range (if a = 0xF0 then 0x90 else 0x80) (if a = 0xF4 then 0x8F else 0xBF) b \<and>
        in_range 0x80 0xBF c \<and> in_range 0x80 0xBF d then 4
      else 1)"
| "rune_width [a, b, c] =
     (if in_range 0xC2 0xDF a \<and> in_range 0x80 0xBF b then 2
      else if in_range 0xE0 0xEF a \<and> in_range (if a = 0xE0 then 0xA0 else 0x80) (if a = 0xED then 0x9F else 0xBF) b \<and>
        in_range 0x80 0xBF c then 3
      else 1)"
| "rune_width [a, b] = (if in_range 0xC2 0xDF a \<and> in_range 0x80 0xBF b then 2 else 1)"
| "rune_width bs = 1"

lemma rune_width_pos: "0 < rune_width bs"
  by (induction bs rule: rune_width.induct) auto

function rune_count :: "nat list \<Rightarrow> int" where
  "rune_count bs = (if bs = [] then 0 else 1 + rune_count (drop (rune_width bs) bs))"
  by pat_completeness auto
termination
  by (relation "measure length") (use rune_width_pos in auto)

declare rune_count.simps [simp del]

fun countStringRunes :: "json \<Rightarrow> int" where
  "countStringRunes (JString item) = rune_count (map of_char item)"
| "countStringRunes (JArray items) = foldl (\<lambda>whole child. whole + countStringRunes child) 0 items"
| "countStringRunes (JObject members) =
     foldl (\<lambda>whole field. if fst field \<in> {''content'', ''text'', ''arguments''}
       then whole + countStringRunes (snd field) else whole) 0 members"
| "countStringRunes JOther = 0"

definition approximatePromptTokens :: "env \<Rightarrow> string \<Rightarrow> int" where
  "approximatePromptTokens e raw = (case dec_json (en_codecs e) raw of
     None \<Rightarrow> 0 | Some val \<Rightarrow> quot (countStringRunes val + 3) 4)"

subsection \<open>Reading the response\<close>

definition consume_choice :: "CaptureEvent \<Rightarrow> capture_choice \<Rightarrow> CaptureEvent" where
  "consume_choice event choice =
     (let event = (if ch_FinishReason choice \<noteq> [] then event\<lparr>cev_FinishReason := ch_FinishReason choice\<rparr> else event)
      in event\<lparr>cev_ToolCalls := i64 (cev_ToolCalls event + int (ch_MessageToolCalls choice + ch_DeltaToolCalls choice))\<rparr>)"

definition consume :: "(string \<Rightarrow> captureResponse option) \<Rightarrow> string \<Rightarrow> CaptureEvent \<Rightarrow> CaptureEvent" where
  "consume decode data event = (case decode data of
     None \<Rightarrow> event
   | Some decoded \<Rightarrow>
       let event = (if cr_PromptTokens decoded > 0 then event\<lparr>cev_PromptTokens := cr_PromptTokens decoded\<rparr> else event);
           event = (if cr_CompletionTokens decoded > 0
             then event\<lparr>cev_OutputTokens := cr_CompletionTokens decoded\<rparr> else event)
       in foldl consume_choice event (cr_Choices decoded))"

definition data_of :: "string \<Rightarrow> string" where
  "data_of line = TrimSpace (TrimPrefix line ''data:'')"

definition consume_line :: "(string \<Rightarrow> captureResponse option) \<Rightarrow> CaptureEvent \<Rightarrow> string \<Rightarrow> CaptureEvent" where
  "consume_line decode event line =
     (let line = data_of line
      in if line \<noteq> [] \<and> line \<noteq> ''[DONE]'' then consume decode line event else event)"

definition parseCaptureResponse :: "(string \<Rightarrow> captureResponse option) \<Rightarrow> string \<Rightarrow> CaptureEvent \<Rightarrow> CaptureEvent" where
  "parseCaptureResponse decode raw event =
     (if Contains raw ''data:'' then foldl (consume_line decode) event (Split raw [CHR 0x0A])
      else consume decode raw event)"

definition captureLineHasOutput :: "(string \<Rightarrow> captureResponse option) \<Rightarrow> string \<Rightarrow> bool" where
  "captureLineHasOutput decode line = (case decode (data_of line) of
     None \<Rightarrow> False
   | Some decoded \<Rightarrow> list_ex (\<lambda>choice. ch_DeltaToolCalls choice > 0 \<or>
       (case ch_DeltaContent choice of None \<Rightarrow> False | Some text \<Rightarrow> text \<noteq> [])) (cr_Choices decoded))"

text \<open>\<open>limitedCaptureWriter.Write\<close> into a buffer, which never fails: the buffer and what remains.\<close>

definition limited_write :: "string \<times> int \<Rightarrow> string \<Rightarrow> string \<times> int" where
  "limited_write w p =
     (let (dst, remaining) = w in
      if remaining \<le> 0 then (dst, remaining)
      else let p = (if int (length p) > remaining then take (nat remaining) p else p)
           in (dst @ p, remaining - int (length p)))"

record proxied =
  px_observed :: CaptureEvent
  px_firstByte :: int
  px_inspected :: "string \<times> int"
  px_sent :: string

definition zero_CaptureEvent :: CaptureEvent where
  "zero_CaptureEvent = \<lparr>cev_TimestampMillis = 0, cev_PromptTokens = 0, cev_MaxTokens = 0, cev_OutputTokens = 0,
     cev_ToolCalls = 0, cev_FinishReason = [], cev_LatencyMillis = 0, cev_TTFTMillis = 0, cev_StatusCode = 0\<rparr>"

definition proxy_start :: proxied where
  "proxy_start = \<lparr>px_observed = zero_CaptureEvent, px_firstByte = 0, px_inspected = ([], maxCaptureInspectionBytes),
     px_sent = []\<rparr>"

text \<open>The body of the loop over the lines of a stream.\<close>

definition proxy_line :: "(string \<Rightarrow> captureResponse option) \<Rightarrow> int \<Rightarrow> proxied \<Rightarrow> string \<times> int \<Rightarrow> proxied" where
  "proxy_line decode started p scanned =
     (let (text, now) = scanned;
          p = p\<lparr>px_observed := parseCaptureResponse decode text (px_observed p)\<rparr>;
          p = (if px_firstByte p = 0 \<and> captureLineHasOutput decode text
            then p\<lparr>px_firstByte := Milliseconds (time_Sub now started)\<rparr> else p);
          line = text @ [CHR 0x0A]
      in p\<lparr>px_sent := px_sent p @ line, px_inspected := limited_write (px_inspected p) line\<rparr>)"

definition proxy_body :: "(string \<Rightarrow> captureResponse option) \<Rightarrow> int \<Rightarrow> upstream \<Rightarrow> proxied" where
  "proxy_body decode started u =
     (if Contains (up_ContentType u) ''text/event-stream'' then foldl (proxy_line decode started) proxy_start (up_Lines u)
      else proxy_start\<lparr>px_firstByte := Milliseconds (time_Sub (up_Now u) started), px_sent := up_Body u,
        px_inspected := limited_write (px_inspected proxy_start) (up_Body u)\<rparr>)"

subsection \<open>Recording\<close>

definition client_name :: "env \<Rightarrow> string \<Rightarrow> string" where
  "client_name e header =
     (let raw = ToLower (en_unicode_lower e) header
      in if Contains raw ''qwen'' then ''Qwen Code''
         else if Contains raw ''opencode'' then ''OpenCode'' else ''OpenAI-compatible client'')"

definition capture_event ::
    "env \<Rightarrow> int \<Rightarrow> int \<Rightarrow> captureRequest \<Rightarrow> string \<Rightarrow> CaptureEvent \<Rightarrow> int \<Rightarrow> int \<Rightarrow> CaptureEvent" where
  "capture_event e started now input responseBody observed code ttft =
     (let event = zero_CaptureEvent\<lparr>cev_PromptTokens := approximatePromptTokens e (cq_Messages input),
            cev_MaxTokens := cq_MaxTokens input, cev_StatusCode := code,
            cev_LatencyMillis := Milliseconds (time_Sub now started), cev_TTFTMillis := ttft\<rparr>;
          event = (if cev_PromptTokens observed > 0
            then event\<lparr>cev_PromptTokens := cev_PromptTokens observed\<rparr> else event);
          event = event\<lparr>cev_OutputTokens := cev_OutputTokens observed, cev_ToolCalls := cev_ToolCalls observed,
            cev_FinishReason := cev_FinishReason observed\<rparr>
      in if cev_PromptTokens observed = 0 \<and> cev_OutputTokens observed = 0
         then parseCaptureResponse (dec_captureResponse (en_codecs e)) responseBody event else event)"

definition UnixMilli :: "int \<Rightarrow> int" where "UnixMilli now = now div Millisecond"

definition recordCapture ::
    "env \<Rightarrow> string \<Rightarrow> string \<Rightarrow> request \<Rightarrow> int \<Rightarrow> int \<Rightarrow> captureRequest \<Rightarrow> string \<Rightarrow> CaptureEvent \<Rightarrow> int \<Rightarrow> int \<Rightarrow>
     Server \<Rightarrow> Server" where
  "recordCapture e targetID rawSession r started now input responseBody observed code ttft s =
     (let digest = en_hmac e (srv_captureSalt s) (targetID @ [CHR 0x00] @ rawSession);
          session = \<lparr>cs_ID = ''capture-'' @ hex_EncodeToString (take 10 digest), cs_TargetID = targetID,
            cs_Client = client_name e (rq_Header r ''X-Load-Observatory-Client''),
            cs_StartedUnixMillis = UnixMilli started, cs_UpdatedUnixMillis = UnixMilli now, cs_Events = []\<rparr>;
          event = capture_event e started now input responseBody observed code ttft
      in snd (with_store (RecordCapture (order_of e (st_captures (srv_store s))) session event) s))"

definition skipped_header :: "string \<Rightarrow> bool" where
  "skipped_header key \<longleftrightarrow> map lower_char key \<in> {''connection'', ''transfer-encoding'', ''content-length''}"

definition copied_headers :: "upstream \<Rightarrow> (string \<times> string) list" where
  "copied_headers u = concat (map (\<lambda>(key, vals). if skipped_header key then [] else map (Pair key) vals) (up_Headers u))"

definition captureCompletion :: "env \<Rightarrow> request \<Rightarrow> Server \<Rightarrow> api_value response \<times> Server" where
  "captureCompletion e r s =
     (let (tokenHash, enabled, configured) = captureCredentials s in
      if \<not> configured \<or> \<not> enabled then (Error ''capture proxy is disabled'' StatusServiceUnavailable, s)
      else if hashCaptureToken e (TrimPrefix (rq_Header r ''Authorization'') ''Bearer '') \<noteq> tokenHash
      then (Error ''invalid capture token'' StatusUnauthorized, s)
      else
        let targetID = TrimSuffix (TrimPrefix (rq_Path r) ''/capture/'') ''/v1/chat/completions'' in
        if targetID = [] \<or> rq_Path r \<noteq> ''/capture/'' @ targetID @ ''/v1/chat/completions'' then (NotFound, s)
        else
          let (target, ok) = GetTarget targetID (srv_store s) in
          if \<not> ok \<or> tgt_Type target \<noteq> TargetTypeModel then (Error ''model target not found'' StatusNotFound, s)
          else
            let rawSession = TrimSpace (rq_Header r ''X-Load-Observatory-Session'') in
            if rawSession = [] \<or> length rawSession > 256
            then (Error ''X-Load-Observatory-Session is required'' StatusBadRequest, s)
            else if length (rq_Body r) > 16 * 2 ^ 20
            then (Error ''request body is too large'' StatusRequestEntityTooLarge, s)
            else case dec_captureRequest (en_codecs e) (rq_Body r) of
                None \<Rightarrow> (Error ''invalid OpenAI request'' StatusBadRequest, s)
              | Some input \<Rightarrow>
                  let started = en_now e in
                  (case en_send e \<lparr>og_Method = ''POST'', og_URL = tgt_URL target,
                      og_Authorization = (if tgt_APIKey target \<noteq> [] then ''Bearer '' @ tgt_APIKey target else []),
                      og_Accept = rq_Header r ''Accept'', og_Body = rq_Body r\<rparr> of
                     InvalidRequest \<Rightarrow> (Error ''invalid target URL'' StatusBadGateway, s)
                   | ConnectionFailed now \<Rightarrow>
                       (Error ''upstream request failed'' StatusBadGateway,
                        recordCapture e targetID rawSession r started now input [] zero_CaptureEvent StatusBadGateway 0 s)
                   | Answered u \<Rightarrow>
                       let p = proxy_body (dec_captureResponse (en_codecs e)) started u in
                       (Response (up_Status u) [] [] (JSON (V_Upstream (copied_headers u) (px_sent p))),
                        recordCapture e targetID rawSession r started (up_End u) input (fst (px_inspected p))
                          (px_observed p) (up_Status u) (px_firstByte p) s)))"

end
