(* ===== verification/Ctl_Server.thy ===== *)
theory Ctl_Server
  imports Ctl_Capture
begin

text \<open>
  The handlers of \<open>internal/controller/server.go\<close> and how \<open>ServeHTTP\<close> chooses between them: each takes
  the environment, the request and the server, and gives the response and the new server. \<open>user\<close> is the
  user in the context of the request. The bodies are decoded by the codecs of the environment.
\<close>

subsection \<open>Agents\<close>

definition claimRun :: "env \<Rightarrow> Server \<Rightarrow> api_value response \<times> Server" where
  "claimRun e s =
     (case with_store (ClaimRun (order_of e (st_shards (srv_store s))) (en_now e div Second)) s of
        (None, s) \<Rightarrow> (WriteHeader StatusNoContent, s)
      | (Some assignment, s) \<Rightarrow> (writeJSON StatusOK (V_Assignment assignment), s))"

text \<open>The shard in a path \<open>/api/agent/runs/<run>/shards/<shard>/<what>\<close>.\<close>

definition shard_of_path :: "string \<Rightarrow> string \<Rightarrow> string option" where
  "shard_of_path path what =
     (case Split (TrimSuffix (TrimPrefix path ''/api/agent/runs/'') what) ''/shards/'' of
        [_, shard] \<Rightarrow> if shard = [] then None else Some shard
      | _ \<Rightarrow> None)"

definition get_run :: "env \<Rightarrow> string \<Rightarrow> Server \<Rightarrow> Run \<times> bool" where
  "get_run e i s = GetRun (order_of e (st_shards (srv_store s))) i (srv_store s)"

definition completeShard :: "env \<Rightarrow> request \<Rightarrow> Server \<Rightarrow> api_value response \<times> Server" where
  "completeShard e r s =
     (case shard_of_path (rq_Path r) ''/result'' of
        None \<Rightarrow> (Error ''invalid shard result path'' StatusBadRequest, s)
      | Some shard \<Rightarrow>
          (case dec_RunResult (en_codecs e) (rq_Body r) of
             None \<Rightarrow> (Error ''invalid JSON'' StatusBadRequest, s)
           | Some result \<Rightarrow>
               let ((run, ok), s) = with_store
                     (CompleteShard (order_of e (st_shards (srv_store s))) (en_tord e) shard result) s in
               if \<not> ok then (NotFound, s)
               else if run_Status run = ''completed'' then
                 let (sample, s) = monitor_sample e s;
                     s = add_monitoring e (run_ID run) sample s;
                     s = s\<lparr>srv_store := advanceSearch (run_ID run) (srv_store s)\<rparr>;
                     (fresh, ok) = get_run e (run_ID run) s
                 in (writeJSON StatusOK (V_Run (run_view (if ok then fresh else run))), s)
               else (writeJSON StatusOK (V_Run (run_view run)), s)))"

definition reportProgress :: "env \<Rightarrow> request \<Rightarrow> Server \<Rightarrow> api_value response \<times> Server" where
  "reportProgress e r s =
     (case shard_of_path (rq_Path r) ''/progress'' of
        None \<Rightarrow> (Error ''invalid shard progress path'' StatusBadRequest, s)
      | Some shard \<Rightarrow>
          (case dec_RunProgress (en_codecs e) (rq_Body r) of
             None \<Rightarrow> (Error ''invalid JSON'' StatusBadRequest, s)
           | Some progress \<Rightarrow>
               let (ok, s) = with_store (SetShardProgress shard progress) s
               in (if \<not> ok then NotFound else WriteHeader StatusNoContent, s)))"

subsection \<open>Searches\<close>

definition createSearch :: "env \<Rightarrow> request \<Rightarrow> Server \<Rightarrow> api_value response \<times> Server" where
  "createSearch e r s =
     (case dec_AutoSearchConfig (en_codecs e) (rq_Body r) of
        None \<Rightarrow> (Error ''invalid JSON'' StatusBadRequest, s)
      | Some config \<Rightarrow>
          if \<not> snd (GetTarget (rc_TargetID (asc_Run config)) (srv_store s))
          then (Error ''target not found'' StatusNotFound, s)
          else
            let config = search_defaults config in
            (case ValidateAutoSearchConfig config of
               Some err \<Rightarrow> (Error err StatusBadRequest, s)
             | None \<Rightarrow>
                 let (search, s) = with_store (CreateSearch config) s
                 in (writeJSON StatusCreated (V_Search search), s)))"

definition getSearch :: "request \<Rightarrow> Server \<Rightarrow> api_value response" where
  "getSearch r s =
     (let (search, ok) = GetSearch (TrimPrefix (rq_Path r) ''/api/searches/'') (srv_store s)
      in if \<not> ok then NotFound else writeJSON StatusOK (V_Search search))"

definition cancelSearch :: "env \<Rightarrow> request \<Rightarrow> Server \<Rightarrow> api_value response \<times> Server" where
  "cancelSearch e r s =
     (let i = TrimSuffix (TrimPrefix (rq_Path r) ''/api/searches/'') ''/cancel'';
          ((search, ok), s) = with_store (CancelSearch (order_of e (st_shards (srv_store s))) i) s
      in (if \<not> ok then NotFound else writeJSON StatusOK (V_Search search), s))"

subsection \<open>Targets\<close>

definition createTarget :: "env \<Rightarrow> request \<Rightarrow> Server \<Rightarrow> api_value response \<times> Server" where
  "createTarget e r s =
     (case dec_Target (en_codecs e) (rq_Body r) of
        None \<Rightarrow> (Error ''invalid target'' StatusBadRequest, s)
      | Some target \<Rightarrow>
          if tgt_Name target = [] then (Error ''invalid target'' StatusBadRequest, s)
          else if tgt_Type target \<noteq> TargetTypeWeb \<and> tgt_Type target \<noteq> TargetTypeModel
          then (Error ''type must be web or model'' StatusBadRequest, s)
          else if tgt_Type target = TargetTypeModel \<and> tgt_Model target = []
          then (Error ''model name is required'' StatusBadRequest, s)
          else (case ValidateTargetWithAllowedHostSuffixes (en_parse_url e) (en_unicode_lower e) (tgt_URL target)
              (srv_targetHostSuffixes s) of
             Some err \<Rightarrow> (Error err StatusBadRequest, s)
           | None \<Rightarrow>
               let (target, s) = with_store (CreateTarget target) s
               in (writeJSON StatusCreated (V_Target (publicTarget target)), s)))"

definition listTargets :: "env \<Rightarrow> Server \<Rightarrow> api_value response" where
  "listTargets e s = writeJSON StatusOK (V_Targets (map publicTarget
     (ListTargets (order_of e (st_targets (srv_store s))) (srv_store s))))"

text \<open>The bodies of the two requests of a check: one completion of one token, the second with the
  extension. The JSON text is the library's.\<close>

definition check_request :: "(Target \<Rightarrow> bool \<Rightarrow> string) \<Rightarrow> Target \<Rightarrow> outgoing" where
  "check_request marshal_check target = \<lparr>
     og_Method = (if tgt_Type target = TargetTypeModel then ''POST'' else ''GET''), og_URL = tgt_URL target,
     og_Authorization = (if tgt_APIKey target \<noteq> [] then ''Bearer '' @ tgt_APIKey target else []), og_Accept = [],
     og_Body = (if tgt_Type target = TargetTypeModel then marshal_check target False else [])\<rparr>"

definition probeIgnoreEOS :: "env \<Rightarrow> (Target \<Rightarrow> bool \<Rightarrow> string) \<Rightarrow> Target \<Rightarrow> bool" where
  "probeIgnoreEOS e marshal_check target =
     (case en_send e \<lparr>og_Method = ''POST'', og_URL = tgt_URL target,
          og_Authorization = (if tgt_APIKey target \<noteq> [] then ''Bearer '' @ tgt_APIKey target else []), og_Accept = [],
          og_Body = marshal_check target True\<rparr> of
        Answered u \<Rightarrow> up_Status u \<ge> 200 \<and> up_Status u < 400
      | _ \<Rightarrow> False)"

definition checkTarget :: "env \<Rightarrow> (Target \<Rightarrow> bool \<Rightarrow> string) \<Rightarrow> request \<Rightarrow> Server \<Rightarrow> api_value response" where
  "checkTarget e marshal_check r s =
     (let (target, ok) = GetTarget (TrimSuffix (TrimPrefix (rq_Path r) ''/api/targets/'') ''/check'') (srv_store s) in
      if \<not> ok then NotFound
      else case en_send e (check_request marshal_check target) of
          InvalidRequest \<Rightarrow> Error ''invalid target request'' StatusBadRequest
        | ConnectionFailed _ \<Rightarrow> Error ''target connection failed'' StatusBadGateway
        | Answered u \<Rightarrow>
            if up_Status u < 200 \<or> up_Status u \<ge> 400
            then Error (''target returned '' @ up_StatusText u) StatusBadGateway
            else writeJSON StatusOK (V_Check (up_Status u) (Milliseconds (time_Sub (up_Now u) (en_now e)))
              (if tgt_Type target = TargetTypeModel then Some (probeIgnoreEOS e marshal_check target) else None)))"

definition deleteTarget :: "env \<Rightarrow> request \<Rightarrow> Server \<Rightarrow> api_value response \<times> Server" where
  "deleteTarget e r s =
     (let (outcome, s) = with_store
          (DeleteTarget (order_of e (st_runs (srv_store s))) (TrimPrefix (rq_Path r) ''/api/targets/'')) s
      in (case outcome of
            TargetDeleted \<Rightarrow> WriteHeader StatusNoContent
          | TargetInUse \<Rightarrow> Error ''target is used by an active run'' StatusConflict
          | TargetNotFound \<Rightarrow> NotFound, s))"

subsection \<open>Runs\<close>

definition createRun :: "env \<Rightarrow> User option \<Rightarrow> request \<Rightarrow> Server \<Rightarrow> api_value response \<times> Server" where
  "createRun e user r s =
     (case dec_RunConfig (en_codecs e) (rq_Body r) of
        None \<Rightarrow> (Error ''invalid JSON'' StatusBadRequest, s)
      | Some config \<Rightarrow>
          if \<not> snd (GetTarget (rc_TargetID config) (srv_store s))
          then (Error ''target not found'' StatusNotFound, s)
          else
            let config = run_defaults config in
            (case ValidateRunConfig config of
               Some err \<Rightarrow> (Error err StatusBadRequest, s)
             | None \<Rightarrow>
                 let (run, s) = with_store (CreateRun config) s;
                     (run, s) = (case user of
                         None \<Rightarrow> (run, s)
                       | Some u \<Rightarrow> (run\<lparr>run_CreatedBy := us_Name u\<rparr>,
                           s\<lparr>srv_store := SetCreatedBy (run_ID run) (us_Name u) (srv_store s)\<rparr>));
                     (sample, s) = monitor_sample e s;
                     s = add_monitoring e (run_ID run) sample s
                 in (writeJSON StatusCreated (V_Run (run_view run)), s)))"

definition cancelRun :: "env \<Rightarrow> request \<Rightarrow> Server \<Rightarrow> api_value response \<times> Server" where
  "cancelRun e r s =
     (let i = TrimSuffix (TrimPrefix (rq_Path r) ''/api/runs/'') ''/cancel'';
          ((run, ok), s) = with_store (CancelRun (order_of e (st_shards (srv_store s))) i) s
      in (if \<not> ok then NotFound else writeJSON StatusOK (V_Run (run_view run)), s))"

definition getRun :: "env \<Rightarrow> request \<Rightarrow> Server \<Rightarrow> api_value response" where
  "getRun e r s =
     (let (run, ok) = get_run e (TrimPrefix (rq_Path r) ''/api/runs/'') s
      in if \<not> ok then NotFound else writeJSON StatusOK (V_Run (run_view run)))"

definition exportRun :: "env \<Rightarrow> request \<Rightarrow> Server \<Rightarrow> api_value response" where
  "exportRun e r s =
     (let path = TrimPrefix (rq_Path r) ''/api/runs/'';
          (run, ok) = get_run e (TrimSuffix (TrimSuffix path ''/export.csv'') ''/export.json'') s
      in if \<not> ok then NotFound
         else if HasSuffix path ''/export.json'' then writeJSON StatusOK (V_Run (run_view run))
         else writeJSON StatusOK (V_Export (writeRunCSV (en_names e) (en_ord e) (run_view run))))"

definition deleteCapture :: "request \<Rightarrow> Server \<Rightarrow> api_value response \<times> Server" where
  "deleteCapture r s =
     (let (ok, s) = with_store (DeleteCapture (TrimPrefix (rq_Path r) ''/api/captures/'')) s
      in (if \<not> ok then NotFound else WriteHeader StatusNoContent, s))"

subsection \<open>Routing\<close>

definition under :: "request \<Rightarrow> string \<Rightarrow> string \<Rightarrow> string \<Rightarrow> bool" where
  "under r meth pre suf \<longleftrightarrow> rq_Method r = meth \<and> HasPrefix (rq_Path r) pre \<and> HasSuffix (rq_Path r) suf"

definition exactly :: "request \<Rightarrow> string \<Rightarrow> string \<Rightarrow> bool" where
  "exactly r meth path \<longleftrightarrow> rq_Method r = meth \<and> rq_Path r = path"

definition serveHumanAPI ::
    "env \<Rightarrow> (Target \<Rightarrow> bool \<Rightarrow> string) \<Rightarrow> User option \<Rightarrow> request \<Rightarrow> Server \<Rightarrow> api_value response \<times> Server" where
  "serveHumanAPI e marshal_check user r s =
     (if exactly r ''GET'' ''/api/session'' then (map_response V_User (Session user), s)
      else if exactly r ''POST'' ''/api/targets'' then createTarget e r s
      else if exactly r ''GET'' ''/api/targets'' then (listTargets e s, s)
      else if exactly r ''GET'' ''/api/captures''
      then (writeJSON StatusOK (V_Captures (ListCaptures (order_of e (st_captures (srv_store s))) (srv_store s))), s)
      else if exactly r ''GET'' ''/api/capture-settings'' then (getCaptureSettings s, s)
      else if exactly r ''PUT'' ''/api/capture-settings'' then updateCaptureSettings e r s
      else if under r ''DELETE'' ''/api/captures/'' [] then deleteCapture r s
      else if under r ''POST'' ''/api/targets/'' ''/check'' then (checkTarget e marshal_check r s, s)
      else if under r ''DELETE'' ''/api/targets/'' [] then deleteTarget e r s
      else if exactly r ''POST'' ''/api/runs'' then createRun e user r s
      else if under r ''POST'' ''/api/runs/'' ''/cancel'' then cancelRun e r s
      else if exactly r ''POST'' ''/api/searches'' then createSearch e r s
      else if exactly r ''GET'' ''/api/searches''
      then (writeJSON StatusOK (V_Searches (ListSearches (order_of e (st_searches (srv_store s))) (srv_store s))), s)
      else if under r ''GET'' ''/api/searches/'' [] then (getSearch r s, s)
      else if under r ''POST'' ''/api/searches/'' ''/cancel'' then cancelSearch e r s
      else if exactly r ''GET'' ''/api/runs''
      then (writeJSON StatusOK (V_Runs (listView (ListRuns (order_of e (st_runs (srv_store s)))
        (order_of e (st_shards (srv_store s))) (srv_store s)))), s)
      else if under r ''GET'' ''/api/runs/'' ''/export.json'' \<or> under r ''GET'' ''/api/runs/'' ''/export.csv''
      then (exportRun e r s, s)
      else if under r ''GET'' ''/api/runs/'' [] then (getRun e r s, s)
      else (NotFound, s))"

definition health :: "env \<Rightarrow> Server \<Rightarrow> api_value response" where
  "health e s =
     (let (queued, running, agentOnline) = Health (order_of e (st_runs (srv_store s))) (en_now e) (srv_store s);
          (_, captureEnabled, _) = captureCredentials s
      in writeJSON StatusOK (V_Health True agentOnline queued running (enabled (gt_cfg (srv_auth s))) captureEnabled))"

definition ServeHTTP ::
    "env \<Rightarrow> (Target \<Rightarrow> bool \<Rightarrow> string) \<Rightarrow> request \<Rightarrow> Server \<Rightarrow> api_value response \<times> Server" where
  "ServeHTTP e marshal_check r s =
     (if rq_Path r = ''/auth/login'' then (Login (en_AuthCodeURL e) (srv_auth s) (randomToken (en_random e)) r, s)
      else if rq_Path r = ''/auth/callback''
      then (Callback (en_hmac e) (en_marshal e) (en_Exchange e) (en_Verify e) (srv_auth s) (en_now e) r, s)
      else if rq_Path r = ''/auth/logout'' then (Logout, s)
      else if exactly r ''GET'' ''/api/health'' then (health e s, s)
      else if under r ''POST'' ''/capture/'' [] then captureCompletion e r s
      else if exactly r ''POST'' ''/api/agent/heartbeat''
      then (WriteHeader StatusNoContent, s\<lparr>srv_store := TouchAgent (en_now e) (srv_store s)\<rparr>)
      else if exactly r ''POST'' ''/api/agent/claim'' then claimRun e s
      else if under r ''POST'' ''/api/agent/runs/'' ''/result'' then completeShard e r s
      else if under r ''POST'' ''/api/agent/runs/'' ''/progress'' then reportProgress e r s
      else case Require (en_hmac e) (en_unmarshal e) (srv_auth s) (en_now e) r of
          Inl refusal \<Rightarrow> (refusal, s)
        | Inr user \<Rightarrow> serveHumanAPI e marshal_check user r s)"

end
