(* ===== verification/Ctl_Demo.thy ===== *)
theory Ctl_Demo
  imports Ctl_Server Store_History "HOL-Library.List_Lexorder" "HOL-Library.Char_ord"
begin

text \<open>
  A concrete environment of the controller, for the witnesses of its properties: maps are iterated in
  the order of their keys, every body decodes to one fixed value, the signature of a cookie is its
  content reversed, and the model server answers every request with the same stream.
\<close>

definition demo_target :: Target where
  "demo_target = \<lparr>tgt_ID = [], tgt_Name = ''chat'', tgt_Type = TargetTypeModel, tgt_URL = ''http://m.internal/v1'',
     tgt_Model = ''llm'', tgt_APIKey = ''key'', tgt_HasAPIKey = False\<rparr>"

definition demo_config :: RunConfig where
  "demo_config = zero_RunConfig\<lparr>rc_TargetID := ''target-1'', rc_Mode := LoadModeVU, rc_VUs := 5,
     rc_DurationSeconds := 60, rc_Shards := 1\<rparr>"

definition demo_lines :: "(string \<times> int) list" where
  "demo_lines = [(''data: {tool}'', 2 * Second), (''data: [DONE]'', 3 * Second)]"

definition demo_response :: "string \<Rightarrow> captureResponse option" where
  "demo_response t = (if t = ''{tool}'' then Some \<lparr>cr_PromptTokens = 0, cr_CompletionTokens = 0,
     cr_Choices = [\<lparr>ch_FinishReason = ''tool_calls'', ch_MessageToolCalls = 0, ch_DeltaContent = None,
       ch_DeltaToolCalls = 1\<rparr>]\<rparr> else None)"

definition demo_codecs :: codecs where
  "demo_codecs = \<lparr>dec_Target = (\<lambda>b. Some demo_target), dec_RunConfig = (\<lambda>b. Some demo_config),
     dec_AutoSearchConfig = (\<lambda>b. None), dec_RunResult = (\<lambda>b. Some zero_RunResult), dec_RunProgress = (\<lambda>b. None),
     dec_captureSettings = (\<lambda>b. None), dec_captureRequest = (\<lambda>b. Some \<lparr>cq_MaxTokens = 16, cq_Messages = []\<rparr>),
     dec_captureResponse = demo_response, dec_json = (\<lambda>b. None)\<rparr>"

definition demo_env :: "int \<Rightarrow> env" where
  "demo_env now = \<lparr>en_codecs = demo_codecs, en_ord = (\<lambda>ks. sorted_list_of_fset ks),
     en_tord = (\<lambda>t. sorted_list_of_fset (fmdom t)), en_names = distribution_names, en_now = now,
     en_prometheus = demo_prometheus, en_parse_url = (\<lambda>u. Some \<lparr>u_Scheme = ''http'', u_HasUser = False, u_Hostname = ''m.internal''\<rparr>), en_unicode_lower = (\<lambda>s. s),
     en_hmac = (\<lambda>k d. rev (k @ d)), en_sha256 = rev, en_marshal = (\<lambda>c. us_Name (sc_User c)),
     en_unmarshal = (\<lambda>d. Inr \<lparr>sc_User = \<lparr>us_Subject = d, us_Name = d\<rparr>, sc_Exp = 100\<rparr>), en_random = ''r'',
     en_AuthCodeURL = (\<lambda>c t. t), en_Exchange = (\<lambda>c t. None), en_Verify = (\<lambda>t. None),
     en_send = (\<lambda>sent. Answered \<lparr>up_Status = 200, up_StatusText = ''200 OK'', up_Headers = [],
       up_ContentType = ''text/event-stream'', up_Lines = demo_lines, up_Body = [], up_Now = now, up_End = now\<rparr>)\<rparr>"

lemma demo_env_ok: "env_ok (demo_env now)"
  by (simp add: env_ok_def demo_env_def iter_order_def sorted_list_of_fset.rep_eq fset_of_list.rep_eq
      fset_inject [symmetric])

abbreviation "demo_server \<equiv> newServer ''salt'' [] NewMemoryStore"

definition demo_call :: "string \<Rightarrow> string \<Rightarrow> request" where
  "demo_call meth path = \<lparr>rq_Method = meth, rq_Path = path, rq_Query = (\<lambda>k. []), rq_Header = (\<lambda>k. []),
     rq_Cookies = [], rq_TLS = False, rq_Body = []\<rparr>"

definition demo_check :: "Target \<Rightarrow> bool \<Rightarrow> string" where
  "demo_check target pinned = tgt_Model target"

lemmas routing = ServeHTTP_def serveHumanAPI_def exactly_def under_def

text \<open>Creating a target, creating a run, and claiming its only shard.\<close>

definition demo_stored :: Target where "demo_stored = demo_target\<lparr>tgt_ID := ''target-1''\<rparr>"

lemma demo_env_sel [simp]: "en_codecs (demo_env now) = demo_codecs" "en_now (demo_env now) = now"
    "en_hmac (demo_env now) = (\<lambda>k d. rev (k @ d))" "en_sha256 (demo_env now) = rev"
    "order_of (demo_env now) m = sorted_list_of_fset (fmdom m)" "en_names (demo_env now) = distribution_names"
  by (simp_all add: demo_env_def order_of_def)

lemma demo_url_allowed: "ValidateTargetWithAllowedHostSuffixes (en_parse_url (demo_env now)) (en_unicode_lower (demo_env now))
    (tgt_URL demo_target) [''.internal''] = None"
  unfolding demo_env_def env.select_convs by code_simp

lemma demo_server_sel [simp]: "srv_store demo_server = NewMemoryStore" "srv_auth demo_server = NewGate no_auth"
    "srv_targetHostSuffixes demo_server = [''.internal'']" "srv_monitorURL demo_server = []"
    "enabled (gt_cfg (NewGate no_auth)) = False"
  by (simp_all add: newServer_def NewGate_def no_auth_def enabled_def)

lemma demo_create_target:
  "ServeHTTP (demo_env now) demo_check (demo_call ''POST'' ''/api/targets'') demo_server =
     (writeJSON 201 (V_Target (publicTarget demo_stored)),
      demo_server\<lparr>srv_store := NewMemoryStore\<lparr>st_nextID := 1, st_targets := fmupd ''target-1'' demo_stored fmempty\<rparr>\<rparr>)"
proof -
  have c: "CreateTarget demo_target NewMemoryStore =
      (demo_stored, NewMemoryStore\<lparr>st_nextID := 1, st_targets := fmupd ''target-1'' demo_stored fmempty\<rparr>)"
    by (simp add: CreateTarget_def Let_def i64_small demo_stored_def demo_target_def NewMemoryStore_def)
  have t: "dec_Target demo_codecs body = Some demo_target" "tgt_Name demo_target = ''chat''"
    "tgt_Type demo_target = TargetTypeModel" "tgt_Model demo_target = ''llm''" for body
    by (simp_all add: demo_codecs_def demo_target_def)
  show ?thesis
    by (simp add: routing demo_call_def HasPrefix_def HasSuffix_def Require_def createTarget_def t demo_url_allowed
        with_store_def c del: newServer_def)
qed


abbreviation "demo_store1 \<equiv> NewMemoryStore\<lparr>st_nextID := 1, st_targets := fmupd ''target-1'' demo_stored fmempty\<rparr>"

lemma demo_floats: "f_of_int 2 = Fin 2" "f_of_int 95 = Fin 95" "f_of_int 100 = Fin 100"
  using f_of_int_exact [of 2] f_of_int_exact [of 95] f_of_int_exact [of 100] by simp_all

lemma demo_run_defaults: "run_defaults demo_config = demo_config\<lparr>rc_MaxTokens := 4096, rc_MaxErrorPercent := Fin 2,
    rc_MaxP95Millis := 2000, rc_CachePolicy := CachePolicyMixed, rc_VariationPercent := 30, rc_DrainSeconds := 12,
    rc_SteadyStateSeconds := 12, rc_MinCompletionPercent := Fin 95\<rparr>"
  by (simp add: run_defaults_def applyWorkloadDefaults_def Let_def demo_config_def zero_RunConfig_def fzero_def
      feq_iff demo_floats quot_def)

lemma demo_run_valid: "ValidateRunConfig (run_defaults demo_config) = None"
  unfolding demo_run_defaults
  by (simp add: demo_config_def zero_RunConfig_def ValidateRunConfig_def validate_trace_def fzero_def demo_floats)

definition demo_run :: Run where "demo_run = new_run (run_defaults demo_config) [] 2"

definition demo_sample :: MonitoringSample where
  "demo_sample = unavailable ''Prometheus URL not configured''"

lemma demo_defaults: "shard_count (run_defaults demo_config) = 1" "draws (run_defaults demo_config) = 2"
  unfolding demo_run_defaults by (simp_all add: shard_count_def draws_def demo_config_def)

lemma demo_defaults_sel [simp]: "rc_TargetID (run_defaults demo_config) = ''target-1''"
    "rc_Mode (run_defaults demo_config) = LoadModeVU" "rc_VUs (run_defaults demo_config) = 5"
  unfolding demo_run_defaults by (simp_all add: demo_config_def)

lemma demo_CreateRun: "CreateRun (run_defaults demo_config) demo_store1 =
    (demo_run, demo_store1\<lparr>st_nextID := 3, st_runs := fmupd ''run-2'' demo_run fmempty,
       st_shards := fmupd ''shard-3'' (new_shard ''run-2'' 3 0) fmempty\<rparr>)"
  by (simp add: CreateRun_add_run add_run_def demo_run_def Let_def queueShardsLocked_def i64_small demo_defaults NewMemoryStore_def)


definition demo_store2 :: "int \<Rightarrow> Store" where
  "demo_store2 now = AddMonitoring (now div Second) ''run-2'' demo_sample
   (demo_store1\<lparr>st_nextID := 3, st_runs := fmupd ''run-2'' demo_run fmempty,
      st_shards := fmupd ''shard-3'' (new_shard ''run-2'' 3 0) fmempty\<rparr>)"

lemma demo_monitor: "srv_monitorURL s = [] \<Longrightarrow> monitor_sample e s = (demo_sample, s)"
  by (simp add: monitor_sample_def Sample_def demo_sample_def)

lemma demo_create_run:
  "ServeHTTP (demo_env now) demo_check (demo_call ''POST'' ''/api/runs'') (demo_server\<lparr>srv_store := demo_store1\<rparr>) =
     (writeJSON 201 (V_Run (run_view demo_run)), demo_server\<lparr>srv_store := demo_store2 now\<rparr>)"
proof -
  have t: "dec_RunConfig demo_codecs body = Some demo_config" "rc_TargetID demo_config = ''target-1''" for body
    by (simp_all add: demo_codecs_def demo_config_def)
  have i: "run_ID demo_run = ''run-2''" by (simp add: demo_run_def)
  have g: "snd (GetTarget ''target-1'' demo_store1)" by (simp add: GetTarget_def)
  show ?thesis
    by (simp add: routing demo_call_def HasPrefix_def HasSuffix_def Require_def createRun_def t g demo_run_valid i
        with_store_def demo_CreateRun demo_monitor add_monitoring_def demo_store2_def)
qed


lemma sorted_single: "sorted_list_of_fset {|k|} = [k]"
  by (simp add: sorted_list_of_fset.rep_eq)

lemma demo_run_sel [simp]: "run_ID demo_run = ''run-2''" "run_Monitoring demo_run = []" "run_StartedUnix demo_run = 0"
    "run_Status demo_run = ''queued''" "run_Config demo_run = (run_defaults demo_config)\<lparr>rc_WorkloadID := ''run-2''\<rparr>"
  by (simp_all add: demo_run_def new_run_def zero_Run_def)

lemma demo_store2_eq: "demo_store2 now = demo_store1\<lparr>st_nextID := 3,
    st_runs := fmupd ''run-2'' (demo_run\<lparr>run_Monitoring := [demo_sample\<lparr>ms_AtSecond := 0\<rparr>]\<rparr>) fmempty,
    st_shards := fmupd ''shard-3'' (new_shard ''run-2'' 3 0) fmempty\<rparr>"
  by (simp add: demo_store2_def AddMonitoring_def maxMonitoringSamples_def demo_sample_def unavailable_def)

lemma demo_claim: "\<exists>a s. ServeHTTP (demo_env (7 * Second)) demo_check (demo_call ''POST'' ''/api/agent/claim'')
      (demo_server\<lparr>srv_store := demo_store2 now\<rparr>) = (writeJSON 200 (V_Assignment a), s) \<and>
    asg_Target a = demo_stored \<and> sh_ID (asg_Shard a) = ''shard-3''"
  unfolding demo_store2_eq
  by (simp add: routing demo_call_def HasPrefix_def HasSuffix_def claimRun_def with_store_def ClaimRun_def entries_def
      Let_def sorted_single NewMemoryStore_def Second_def) (rule exI, rule conjI, rule refl, simp)

end
