(* ===== verification/Store_Limits.thy ===== *)
theory Store_Limits
  imports Store_Machine Core_Target
begin

text \<open>
  The limits that the validation of \<open>internal/core\<close> sets, carried through the store: a configuration the
  controller accepted stays accepted in every run made from it, also in the runs that a search queues
  with loads of its own, and the identifiers of 64 bits are enough as long as the counter is below
  \<open>2 ^ 62\<close>.
\<close>

definition run_within :: "Run \<Rightarrow> bool" where
  "run_within r \<longleftrightarrow> ValidateRunConfig (run_Config r) = None"

definition search_within :: "AutoSearch \<Rightarrow> bool" where
  "search_within a \<longleftrightarrow> ValidateAutoSearchConfig (as_Config a) = None \<and>
     as_Ladder a = SweepLadder (asc_StartLoad (as_Config a)) (asc_MaxLoad (as_Config a))"

definition within_limits :: "Store \<Rightarrow> bool" where
  "within_limits s \<longleftrightarrow> (\<forall>k r. fmlookup (st_runs s) k = Some r \<longrightarrow> run_within r) \<and>
     (\<forall>k a. fmlookup (st_searches s) k = Some a \<longrightarrow> search_within a)"

definition store_ok :: "Store \<Rightarrow> bool" where
  "store_ok s \<longleftrightarrow> wf_store s \<and> within_limits s"

definition roomy :: "Store \<Rightarrow> bool" where
  "roomy s \<longleftrightarrow> st_nextID s \<le> 2 ^ 62"

subsection \<open>Validation does not look at the identity of a run\<close>

lemma valid_workload: "ValidateRunConfig (c\<lparr>rc_WorkloadID := w\<rparr>) = ValidateRunConfig c"
proof -
  have "validate_trace (c\<lparr>rc_WorkloadID := w\<rparr>) = validate_trace c"
    by (simp add: validate_trace_def trace_scale_def)
  moreover have "validate_stage (c\<lparr>rc_WorkloadID := w\<rparr>) = validate_stage c"
    by (rule ext) (simp add: validate_stage_def)
  ultimately show ?thesis by (simp add: ValidateRunConfig_def)
qed

text \<open>A load within the bounds of its mode replaces the load of an accepted configuration without a trace.\<close>

lemma require_None: "(if ok then None else Some m) = None \<longleftrightarrow> ok" "(if b then Some m else None) = None \<longleftrightarrow> \<not> b"
  by simp_all

lemma valid_RPS:
  assumes "ValidateRunConfig c = None" "rc_Trace c = []" "rc_Mode c = LoadModeRPS" "1 \<le> load" "load \<le> MaxRPS"
  shows "ValidateRunConfig (c\<lparr>rc_RPS := load\<rparr>) = None"
proof -
  have v: "validate_stage (c\<lparr>rc_RPS := load\<rparr>) = validate_stage c"
    by (rule ext) (simp add: validate_stage_def)
  note old = assms(1) [unfolded ValidateRunConfig_def first_error_None]
  show ?thesis unfolding ValidateRunConfig_def first_error_None using old assms(2-)
    by (simp add: v validate_trace_def require_None split del: if_split)
qed

lemma valid_VUs:
  assumes "ValidateRunConfig c = None" "rc_Trace c = []" "rc_Mode c = LoadModeVU" "1 \<le> load" "load \<le> MaxVUs"
  shows "ValidateRunConfig (c\<lparr>rc_VUs := load\<rparr>) = None"
proof -
  have v: "validate_stage (c\<lparr>rc_VUs := load\<rparr>) = validate_stage c"
    by (rule ext) (simp add: validate_stage_def)
  note old = assms(1) [unfolded ValidateRunConfig_def first_error_None]
  show ?thesis unfolding ValidateRunConfig_def first_error_None using old assms(2-)
    by (simp add: v validate_trace_def require_None split del: if_split)
qed

lemma search_loads:
  assumes "ValidateAutoSearchConfig c = None"
  shows "ValidateRunConfig (asc_Run c) = None" "rc_Trace (asc_Run c) = []" "1 \<le> asc_StartLoad c"
    "asc_StartLoad c \<le> asc_MaxLoad c" "rc_Mode (asc_Run c) = LoadModeVU \<Longrightarrow> asc_MaxLoad c \<le> MaxVUs"
    "rc_Mode (asc_Run c) = LoadModeRPS \<Longrightarrow> asc_MaxLoad c \<le> MaxRPS"
  using assms by (auto simp: ValidateAutoSearchConfig_def split: option.splits if_splits)

lemma search_ladder:
  assumes "search_within a"
  shows "set (as_Ladder a) \<subseteq> {asc_StartLoad (as_Config a)..asc_MaxLoad (as_Config a)}" "as_Ladder a \<noteq> []"
proof -
  note L = search_loads [OF conjunct1 [OF assms [unfolded search_within_def]]]
  have "asc_MaxLoad (as_Config a) \<le> 2 ^ 61"
    using L(5,6) run_config_checks(3) [OF L(1)] by auto
  from SweepLadder_props(4,6) [OF L(3,4) this] assms
  show "set (as_Ladder a) \<subseteq> {asc_StartLoad (as_Config a)..asc_MaxLoad (as_Config a)}" "as_Ladder a \<noteq> []"
    by (simp_all add: search_within_def)
qed

lemma search_run_within:
  assumes "search_within a" "load \<in> {asc_StartLoad (as_Config a)..asc_MaxLoad (as_Config a)}"
  shows "ValidateRunConfig (search_run_config a load) = None"
proof -
  note L = search_loads [OF conjunct1 [OF assms(1) [unfolded search_within_def]]]
  have l: "1 \<le> load" "load \<le> asc_MaxLoad (as_Config a)" using assms(2) L(3) by simp_all
  show ?thesis
  proof (cases "rc_Mode (asc_Run (as_Config a)) = LoadModeRPS")
    case True
    then show ?thesis using valid_RPS [OF L(1,2) True l(1)] l(2) L(6) by (simp add: search_run_config_def Let_def)
  next
    case False
    then have "rc_Mode (asc_Run (as_Config a)) = LoadModeVU" using run_config_checks(3) [OF L(1)] by blast
    then show ?thesis using valid_VUs [OF L(1,2) _ l(1)] l(2) L(5) by (simp add: search_run_config_def Let_def)
  qed
qed

lemma draws_valid: "ValidateRunConfig c = None \<Longrightarrow> draws c \<le> 65"
  using run_config_checks(6,7) [of c] by (simp add: draws_def shard_count_def)

subsection \<open>Operations stay within the limits\<close>

lemma within_updates:
  assumes "updates s s'" "within_limits s"
  shows "within_limits s'" "st_nextID s' = st_nextID s"
proof -
  note U = updatesD [OF assms(1)]
  have "run_within r'" if r': "fmlookup (st_runs s') k = Some r'" for k r'
  proof -
    from U(2) [OF r'] obtain r where "fmlookup (st_runs s) k = Some r" "run_keeps r r'" by blast
    then show ?thesis using assms(2) by (auto simp: within_limits_def run_within_def run_keeps_def)
  qed
  moreover have "search_within a'" if a': "fmlookup (st_searches s') k = Some a'" for k a'
  proof -
    from U(6) [OF a'] obtain a where a: "fmlookup (st_searches s) k = Some a" "search_keeps a a'" by blast
    then have "search_within a" using assms(2) by (simp add: within_limits_def)
    with search_ladder(2) [OF this] a(2) show ?thesis by (auto simp: search_within_def search_keeps_def)
  qed
  ultimately show "within_limits s'" by (simp add: within_limits_def)
  show "st_nextID s' = st_nextID s" by (rule U(7))
qed

lemma ok_updates:
  assumes "updates s s'" "store_ok s"
  shows "store_ok s'" "st_nextID s' = st_nextID s"
  using within_updates [OF assms(1)] wf_updates [OF _ assms(1)] assms(2) by (auto simp: store_ok_def)

lemma add_run_shape:
  assumes "0 \<le> st_nextID s" "st_nextID s + draws config \<le> MaxInt64" "add_run config sid s = (run, s')"
  shows "\<exists>m. run = new_run config sid (st_nextID s + 1) \<and> s' = s\<lparr>st_nextID := st_nextID s + draws config,
     st_runs := fmupd (''run-'' @ dec_int (st_nextID s + 1)) (new_run config sid (st_nextID s + 1)) (st_runs s),
     st_shards := m\<rparr>"
  by (rule add_run_eq [OF assms(1,2), of sid]) (use assms(3) in auto)

lemma within_add_run:
  assumes "store_ok s" "ValidateRunConfig config = None" "roomy s" "add_run config sid s = (run, s')"
  shows "within_limits s'" "st_nextID s' \<le> st_nextID s + 65" "run_Config run = config\<lparr>rc_WorkloadID := run_ID run\<rparr>"
proof -
  have d: "st_nextID s + draws config \<le> MaxInt64"
    using draws_valid [OF assms(2)] assms(3) by (simp add: roomy_def MaxInt64_def)
  have n: "0 \<le> st_nextID s" using assms(1) by (simp add: store_ok_def wf_store_def)
  have R: "run_within (new_run config sid m)" for m
    using assms(2) by (simp add: run_within_def new_run_def valid_workload)
  from add_run_shape [OF n d assms(4)] obtain m where
    e: "run = new_run config sid (st_nextID s + 1)"
      "s' = s\<lparr>st_nextID := st_nextID s + draws config,
         st_runs := fmupd (''run-'' @ dec_int (st_nextID s + 1)) (new_run config sid (st_nextID s + 1)) (st_runs s),
         st_shards := m\<rparr>"
    by blast
  show "within_limits s'" using assms(1) R by (simp add: e within_limits_def store_ok_def)
  show "st_nextID s' \<le> st_nextID s + 65" using draws_valid [OF assms(2)] by (simp add: e)
  show "run_Config run = config\<lparr>rc_WorkloadID := run_ID run\<rparr>" by (simp add: e new_run_def)
qed

lemma ok_CreateRun:
  assumes "store_ok s" "ValidateRunConfig config = None" "roomy s" "CreateRun config s = (run, s')"
  shows "store_ok s'" "st_nextID s' \<le> st_nextID s + 65" "store_step s None s'"
proof -
  have d: "st_nextID s + draws config \<le> MaxInt64"
    using draws_valid [OF assms(2)] assms(3) by (simp add: roomy_def MaxInt64_def)
  show st: "store_step s None s'"
    using CreateRun_step [OF d] assms(4) by simp
  from assms(4) have "add_run config [] s = (run, s')" by (simp add: CreateRun_add_run)
  from within_add_run [OF assms(1-3) this] store_step_ok [OF st] assms(1)
  show "store_ok s'" "st_nextID s' \<le> st_nextID s + 65" by (auto simp: store_ok_def)
qed

lemma ok_CreateTarget:
  assumes "store_ok s" "roomy s"
  shows "store_ok (snd (CreateTarget t s))" "store_step s None (snd (CreateTarget t s))"
    "st_nextID (snd (CreateTarget t s)) \<le> st_nextID s + 1"
proof -
  have "st_nextID s + 1 \<le> MaxInt64" using assms(2) by (simp add: roomy_def MaxInt64_def)
  then show st: "store_step s None (snd (CreateTarget t s))" by (rule CreateTarget_step)
  from store_step_ok [OF st] assms(1) show "store_ok (snd (CreateTarget t s))"
    by (simp add: store_ok_def within_limits_def CreateTarget_def Let_def)
  have "in64 (st_nextID s + 1)" using assms by (simp add: store_ok_def wf_store_def roomy_def in64_def)
  then show "st_nextID (snd (CreateTarget t s)) \<le> st_nextID s + 1" by (simp add: CreateTarget_def Let_def i64_id)
qed

text \<open>Queueing a run of a search and storing the search.\<close>

lemma within_queue_search:
  assumes "store_ok s" "roomy s" "search_within a" "load \<in> {asc_StartLoad (as_Config a)..asc_MaxLoad (as_Config a)}"
    and "queueSearchRunLocked a load s = (a', s')"
  shows "within_limits (upd_search (as_ID a) a' s')" "st_nextID s' \<le> st_nextID s + 65"
proof -
  obtain run s1 where r: "add_run (search_run_config a load) (as_ID a) s = (run, s1)" by (rule prod.exhaust)
  have e: "a' = a\<lparr>as_RunIDs := as_RunIDs a @ [run_ID run]\<rparr>"
    "s' = s1\<lparr>st_searchRun := fmupd (run_ID run) (as_ID a) (st_searchRun s1)\<rparr>"
    using assms(5) by (simp_all add: queueSearchRun_add_run r)
  from within_add_run(1,2) [OF assms(1) search_run_within [OF assms(3,4)] assms(2) r] assms(3)
  show "within_limits (upd_search (as_ID a) a' s')" "st_nextID s' \<le> st_nextID s + 65"
    by (simp_all add: e within_limits_def search_within_def)
qed

lemma ok_advanceSearch:
  assumes "store_ok s" "roomy s"
  shows "store_ok (advanceSearch R s)" "store_step s None (advanceSearch R s)"
    "st_nextID (advanceSearch R s) \<le> st_nextID s + 65"
proof -
  have "st_nextID s + draws (asc_Run (as_Config a)) \<le> MaxInt64" if "fmlookup (st_searches s) k = Some a" for k a
  proof -
    have "search_within a" using assms(1) that by (simp add: store_ok_def within_limits_def)
    then have "draws (asc_Run (as_Config a)) \<le> 65"
      by (intro draws_valid search_loads) (simp add: search_within_def)
    then show ?thesis using assms(2) by (simp add: roomy_def MaxInt64_def)
  qed
  then show st: "store_step s None (advanceSearch R s)" by (intro AdvanceSearch_step) blast
  from store_step_ok [OF st] assms(1) have wf: "wf_store (advanceSearch R s)" by (simp add: store_ok_def)
  have "within_limits (advanceSearch R s) \<and> st_nextID (advanceSearch R s) \<le> st_nextID s + 65"
  proof (cases "fmlookup (st_searchRun s) R")
    case (Some S)
    then obtain a where a: "fmlookup (st_searches s) S = Some a" "as_ID a = S"
      using assms(1) by (fastforce simp: store_ok_def wf_store_def wf_searches_def)
    have sw: "search_within a" using assms(1) a(1) by (simp add: store_ok_def within_limits_def)
    let ?r = "get_or zero_Run (st_runs s) R"
    obtain a1 load more where adv: "AdvanceSearch a ?r = (a1, load, more)" by (metis prod.exhaust)
    have k: "search_keeps a a1" using search_keeps_AdvanceSearch [of a ?r] by (simp add: adv)
    then have a1: "search_within a1" "as_Config a1 = as_Config a" "as_ID a1 = S"
      using sw search_ladder(2) [OF sw] a(2) by (auto simp: search_keeps_def search_within_def)
    show ?thesis
    proof (cases "as_Status a = AutoSearchRunning")
      case False
      then show ?thesis using assms(1) by (simp add: advanceSearch_def Some a(1) Let_def store_ok_def)
    next
      case run: True
      show ?thesis
      proof (cases more)
        case False
        then have "advanceSearch R s = upd_search S a1 s"
          using run by (simp add: advanceSearch_def Some a(1) Let_def adv)
        then show ?thesis using assms(1) a1(1) by (simp add: store_ok_def within_limits_def)
      next
        case True
        have "load \<in> set (as_Ladder a)"
          using adv True search_ladder(2) [OF sw]
          by (auto simp: AdvanceSearch_def Let_def find_Some_iff split: if_splits option.splits)
        then have l: "load \<in> {asc_StartLoad (as_Config a1)..asc_MaxLoad (as_Config a1)}"
          using search_ladder(1) [OF sw] a1(2) by auto
        obtain a2 s2 where q: "queueSearchRunLocked a1 load s = (a2, s2)" by (rule prod.exhaust)
        have "advanceSearch R s = upd_search (as_ID a1) a2 s2"
          using run True a1(3) by (simp add: advanceSearch_def Some a(1) Let_def adv q)
        then show ?thesis using within_queue_search [OF assms a1(1) l q] by simp
      qed
    qed
  qed (use assms(1) in \<open>simp add: advanceSearch_def store_ok_def\<close>)
  with wf show "store_ok (advanceSearch R s)" "st_nextID (advanceSearch R s) \<le> st_nextID s + 65"
    by (simp_all add: store_ok_def)
qed

lemma ok_CreateSearch:
  assumes "store_ok s" "roomy s" "ValidateAutoSearchConfig config = None"
  shows "store_ok (snd (CreateSearch config s))" "store_step s None (snd (CreateSearch config s))"
    "st_nextID (snd (CreateSearch config s)) \<le> st_nextID s + 66"
proof -
  note L = search_loads [OF assms(3)]
  have d: "st_nextID s + 1 + draws (asc_Run config) \<le> MaxInt64"
    using draws_valid [OF L(1)] assms(2) by (simp add: roomy_def MaxInt64_def)
  then show st: "store_step s None (snd (CreateSearch config s))" by (rule CreateSearch_step)
  have n: "0 \<le> st_nextID s" using assms(1) by (simp add: store_ok_def wf_store_def)
  have i: "i64 (st_nextID s + 1) = st_nextID s + 1"
    using n assms(2) by (intro i64_id) (simp add: in64_def roomy_def)
  let ?s = "s\<lparr>st_nextID := st_nextID s + 1\<rparr>"
  let ?a = "zero_AutoSearch\<lparr>as_ID := ''search-'' @ dec_int (st_nextID s + 1),
            as_Status := AutoSearchRunning, as_Config := config, as_NextLoad := asc_StartLoad config,
            as_Ladder := SweepLadder (asc_StartLoad config) (asc_MaxLoad config)\<rparr>"
  obtain run s1 where r: "add_run (search_run_config ?a (asc_StartLoad config)) (as_ID ?a) ?s = (run, s1)" by (rule prod.exhaust)
  have sw: "search_within ?a" using assms(3) by (simp add: search_within_def)
  have v: "ValidateRunConfig (search_run_config ?a (asc_StartLoad config)) = None"
    using L(4) by (intro search_run_within [OF sw]) simp
  have e: "snd (CreateSearch config s) = upd_search (as_ID ?a) (?a\<lparr>as_RunIDs := [run_ID run]\<rparr>)
      (s1\<lparr>st_searchRun := fmupd (run_ID run) (as_ID ?a) (st_searchRun s1)\<rparr>)"
    using r by (simp add: CreateSearch_def i Let_def queueSearchRun_add_run zero_AutoSearch_def)
  have R: "run_within (new_run (search_run_config ?a (asc_StartLoad config)) sid m)" for sid m
    using v by (simp add: run_within_def new_run_def valid_workload)
  have "0 \<le> st_nextID ?s" "st_nextID ?s + draws (search_run_config ?a (asc_StartLoad config)) \<le> MaxInt64"
    using n d by simp_all
  from add_run_shape [OF this r] obtain m where m: "s1 = ?s\<lparr>st_nextID := st_nextID ?s + draws (search_run_config ?a (asc_StartLoad config)),
     st_runs := fmupd (''run-'' @ dec_int (st_nextID ?s + 1)) (new_run (search_run_config ?a (asc_StartLoad config)) (as_ID ?a) (st_nextID ?s + 1)) (st_runs ?s),
     st_shards := m\<rparr>" by blast
  have "within_limits s1" using assms(1) R by (simp add: m within_limits_def store_ok_def)
  then have "within_limits (snd (CreateSearch config s))"
    using assms(3) by (simp add: e within_limits_def search_within_def)
  with store_step_ok [OF st] assms(1) show "store_ok (snd (CreateSearch config s))" by (simp add: store_ok_def)
  show "st_nextID (snd (CreateSearch config s)) \<le> st_nextID s + 66" using draws_valid [OF v] by (simp add: e m)
qed

lemma ok_empty: "store_ok NewMemoryStore"
  using wf_empty by (simp add: store_ok_def within_limits_def NewMemoryStore_def)

end
