(* ===== verification/Ctl_Refine.thy ===== *)
theory Ctl_Refine
  imports Ctl_Demo Store_Limits
begin

text \<open>
  The controller as a refinement of the store: whatever requests arrive, and however the ticks of the
  monitor fall between them, the store goes through steps of \<open>Store_Machine\<close>, the assignments handed out
  are those in the responses, and every run in it has a configuration that passes the validation.
\<close>

subsection \<open>What the server is asked to do\<close>

datatype server_event = Request env "Target \<Rightarrow> bool \<Rightarrow> string" request | Tick env

definition event_env :: "server_event \<Rightarrow> env" where
  "event_env ev = (case ev of Request e _ _ \<Rightarrow> e | Tick e \<Rightarrow> e)"

definition given_by :: "api_value response \<Rightarrow> Assignment list" where
  "given_by res = (case payload res of JSON (V_Assignment a) \<Rightarrow> [a] | _ \<Rightarrow> [])"

definition serve_event :: "Assignment list \<times> Server \<Rightarrow> server_event \<Rightarrow> Assignment list \<times> Server" where
  "serve_event st ev = (case ev of
     Request e marshal_check r \<Rightarrow>
       let (res, s) = ServeHTTP e marshal_check r (snd st) in (fst st @ given_by res, s)
   | Tick e \<Rightarrow> (fst st, sampleServerMetrics e (snd st)))"

definition serve_all :: "server_event list \<Rightarrow> Server \<Rightarrow> Assignment list \<times> Server" where
  "serve_all events s = foldl serve_event ([], s) events"

subsection \<open>The simulation\<close>

definition simulates :: "int \<Rightarrow> Store \<Rightarrow> Assignment list \<Rightarrow> Store \<Rightarrow> bool" where
  "simulates n s as s' \<longleftrightarrow> store_exec s as s' \<and> store_ok s' \<and> st_nextID s' \<le> st_nextID s + n"

lemma simulates_refl: "store_ok s \<Longrightarrow> 0 \<le> n \<Longrightarrow> simulates n s [] s"
  by (simp add: simulates_def exec_start)

lemma exec_None: "store_exec a as b \<Longrightarrow> store_step b None c \<Longrightarrow> store_exec a as c"
  using exec_step [of a as b None c] by simp

lemma simulates_update:
  assumes "simulates n s as s1" "store_step s1 None s2" "updates s1 s2"
  shows "simulates n s as s2"
  using assms(1) exec_None [OF _ assms(2)] ok_updates [OF assms(3)] by (simp add: simulates_def)

lemma simulates_weaken: "simulates n s as s' \<Longrightarrow> n \<le> m \<Longrightarrow> simulates m s as s'"
  by (simp add: simulates_def)

lemma exec_trans: "store_exec s' bs s'' \<Longrightarrow> store_exec s as s' \<Longrightarrow> store_exec s (as @ bs) s''"
proof (induction rule: store_exec.induct)
  case (exec_step s' bs t l u)
  from exec_step(3) [OF exec_step(4)] exec_step(2)
  have "store_exec s ((as @ bs) @ (case l of None \<Rightarrow> [] | Some a \<Rightarrow> [a])) u" by (rule store_exec.exec_step)
  then show ?case by simp
qed simp

lemma simulates_trans: "simulates n s as s' \<Longrightarrow> simulates m s' bs s'' \<Longrightarrow> simulates (n + m) s (as @ bs) s''"
  using exec_trans by (fastforce simp: simulates_def)

lemma simulates_foldl:
  assumes "\<And>t x. simulates n s as (p t) \<Longrightarrow> simulates n s as (p (f t x))" "simulates n s as (p t)"
  shows "simulates n s as (p (foldl f t xs))"
  using assms(2) by (induction xs arbitrary: t) (simp_all add: assms(1))

lemmas simulates_updates [intro] =
  simulates_update [OF _ SetShardProgress_step updates_SetShardProgress]
  simulates_update [OF _ SetCreatedBy_step updates_SetCreatedBy]
  simulates_update [OF _ AddMonitoring_step updates_AddMonitoring]
  simulates_update [OF _ SetDetectedServer_step updates_SetDetectedServer]
  simulates_update [OF _ DeleteTarget_step updates_DeleteTarget]
  simulates_update [OF _ RecordCapture_step updates_RecordCapture]

lemma simulates_TouchAgent [intro]: "simulates n s as s1 \<Longrightarrow> simulates n s as (TouchAgent now s1)"
  by (rule simulates_update [OF _ TouchAgent_step]) (simp_all add: TouchAgent_def updates_other)

lemma simulates_DeleteCapture [intro]: "simulates n s as s1 \<Longrightarrow> simulates n s as (snd (DeleteCapture i s1))"
  by (rule simulates_update [OF _ DeleteCapture_step]) (simp_all add: DeleteCapture_def updates_other split: option.split)

lemma simulates_SetCaptureSettings [intro]: "simulates n s as s1 \<Longrightarrow> simulates n s as (snd (SetCaptureSettings c s1))"
  by (rule simulates_update [OF _ SetCaptureSettings_step]) (simp_all add: SetCaptureSettings_def Let_def updates_other)

lemma simulates_CancelRun [intro]:
  "simulates n s as s1 \<Longrightarrow> iter_order ord (st_shards s1) \<Longrightarrow> simulates n s as (snd (CancelRun ord i s1))"
  by (rule simulates_update [OF _ CancelRun_step]) (simp_all add: CancelRun_def updates_cancelRunLocked)

lemma simulates_CancelSearch [intro]:
  "simulates n s as s1 \<Longrightarrow> iter_order ord (st_shards s1) \<Longrightarrow> simulates n s as (snd (CancelSearch ord i s1))"
  by (rule simulates_update [OF _ CancelSearch_step]) (simp_all add: updates_CancelSearch)

lemma simulates_CompleteShard [intro]:
  assumes "simulates n s as s1" "iter_order ord (st_shards s1)" "\<forall>t. iter_order (tord t) t"
  shows "simulates n s as (snd (CompleteShard ord tord i result s1))"
  using assms by (intro simulates_update [OF assms(1) CompleteShard_step updates_CompleteShard])
    (simp_all add: simulates_def store_ok_def)

lemma simulates_ClaimRun:
  assumes "store_ok s" "iter_order ord (st_shards s)" "ClaimRun ord now s = (a, s')"
  shows "simulates 0 s (case a of None \<Rightarrow> [] | Some x \<Rightarrow> [x]) s'"
proof -
  from assms(1) have wf: "wf_store s" by (simp add: store_ok_def)
  have st: "store_step s a s'" by (rule ClaimRun_step [OF assms(2,3)])
  have "updates s s'" using ClaimRun_ok [OF wf assms(2)] assms(3) by auto
  then show ?thesis using exec_step [OF exec_start st] ok_updates [of s s'] assms(1) by (simp add: simulates_def)
qed

subsection \<open>Handlers\<close>

definition serves :: "Server \<Rightarrow> api_value response \<times> Server \<Rightarrow> bool" where
  "serves s p \<longleftrightarrow> simulates 66 (srv_store s) (given_by (fst p)) (srv_store (snd p))"

lemma given_by_simps [simp]:
  "given_by (Error m c) = []" "given_by NotFound = []" "given_by (WriteHeader c) = []"
  "given_by (Response c cookies loc NoBody) = []" "given_by (Response c cookies loc (Plain t)) = []"
  "given_by (writeJSON c v) = (case v of V_Assignment a \<Rightarrow> [a] | _ \<Rightarrow> [])"
  "given_by (Response c cookies loc (JSON v)) = (case v of V_Assignment a \<Rightarrow> [a] | _ \<Rightarrow> [])"
  by (simp_all add: given_by_def Error_def NotFound_def WriteHeader_def writeJSON_def)

lemma with_store_sel [simp]: "fst (with_store f s) = fst (f (srv_store s))"
  "srv_store (snd (with_store f s)) = snd (f (srv_store s))"
  by (simp_all add: with_store_def case_prod_beta Let_def)

lemma monitor_sample_store [simp]: "srv_store (snd (monitor_sample e s)) = srv_store s"
  by (simp add: monitor_sample_def case_prod_beta Let_def)

lemma add_monitoring_store: "srv_store (add_monitoring e i sample s) = AddMonitoring (en_now e div Second) i sample (srv_store s)"
  by (simp add: add_monitoring_def)

lemma serves_same: "store_ok (srv_store s) \<Longrightarrow> given_by res = [] \<Longrightarrow> serves s (res, s)"
  by (simp add: serves_def simulates_refl)

lemma simulates_start: "store_ok s \<Longrightarrow> simulates 0 s [] s"
  by (simp add: simulates_refl)

lemma serves_update: "simulates n (srv_store s) [] (srv_store s') \<Longrightarrow> n \<le> 66 \<Longrightarrow> given_by res = [] \<Longrightarrow> serves s (res, s')"
  by (simp add: serves_def simulates_weaken)

text \<open>One rule per construct of a handler.\<close>

lemma serves_if: "(c \<Longrightarrow> serves s a) \<Longrightarrow> (\<not> c \<Longrightarrow> serves s b) \<Longrightarrow> serves s (if c then a else b)"
  by simp

lemma serves_option: "(x = None \<Longrightarrow> serves s a) \<Longrightarrow> (\<And>y. x = Some y \<Longrightarrow> serves s (f y)) \<Longrightarrow>
    serves s (case x of None \<Rightarrow> a | Some y \<Rightarrow> f y)"
  by (simp split: option.split)

lemma serves_prod: "(\<And>a b. p = (a, b) \<Longrightarrow> serves s (f a b)) \<Longrightarrow> serves s (case p of (a, b) \<Rightarrow> f a b)"
  by (simp split: prod.split)

lemma serves_exchange: "(x = InvalidRequest \<Longrightarrow> serves s a) \<Longrightarrow> (\<And>n. x = ConnectionFailed n \<Longrightarrow> serves s (f n)) \<Longrightarrow>
    (\<And>u. x = Answered u \<Longrightarrow> serves s (g u)) \<Longrightarrow>
    serves s (case x of InvalidRequest \<Rightarrow> a | ConnectionFailed n \<Rightarrow> f n | Answered u \<Rightarrow> g u)"
  by (simp split: exchange.split)

lemmas serves_split = serves_if serves_option serves_prod serves_exchange

lemma serves_claimRun:
  assumes "env_ok e" "store_ok (srv_store s)"
  shows "serves s (claimRun e s)"
proof -
  obtain a st where c: "ClaimRun (order_of e (st_shards (srv_store s))) (en_now e div Second) (srv_store s) = (a, st)" by (rule prod.exhaust)
  from simulates_weaken [OF simulates_ClaimRun [OF assms(2) order_of [OF assms(1)] c], of 66] show ?thesis
    by (cases a) (simp_all add: serves_def claimRun_def with_store_def c)
qed

lemma serves_completeShard:
  assumes "env_ok e" "store_ok (srv_store s)" "roomy (srv_store s)"
  shows "serves s (completeShard e r s)"
proof -
  have ords: "\<forall>t. iter_order (en_tord e t) t" using assms(1) by (simp add: env_ok_def)
  have "serves s (completeShard e r s)" if "dec_RunResult (en_codecs e) (rq_Body r) = Some result"
      "shard_of_path (rq_Path r) ''/result'' = Some shard" for shard result
  proof -
    let ?c = "CompleteShard (order_of e (st_shards (srv_store s))) (en_tord e) shard result"
    have st: "simulates 0 (srv_store s) [] (snd (?c (srv_store s)))"
      using simulates_start [OF assms(2)] order_of [OF assms(1)] ords by blast
    obtain run ok s1 where c: "with_store ?c s = ((run, ok), s1)" by (metis prod.exhaust)
    then have s1: "srv_store s1 = snd (?c (srv_store s))" by (metis snd_conv with_store_sel(2))
    obtain sample s2 where m: "monitor_sample e s1 = (sample, s2)" by (rule prod.exhaust)
    then have s2: "srv_store s2 = srv_store s1" by (metis snd_conv monitor_sample_store)
    let ?s3 = "add_monitoring e (run_ID run) sample s2"
    have st3: "simulates 0 (srv_store s) [] (srv_store ?s3)"
      using st by (auto simp: add_monitoring_store s2 s1)
    then have "store_ok (srv_store ?s3)" "roomy (srv_store ?s3)"
      using assms(3) by (simp_all add: simulates_def roomy_def)
    from ok_advanceSearch [OF this, of "run_ID run"] exec_None st3
    have adv: "simulates 65 (srv_store s) [] (advanceSearch (run_ID run) (srv_store ?s3))"
      by (fastforce simp: simulates_def)
    have st1: "simulates 0 (srv_store s) [] (srv_store s1)" using st s1 by simp
    show ?thesis
      unfolding completeShard_def that option.case Let_def c m prod.case
      by (intro serves_split serves_update [OF st1] serves_update [of 65]) (simp_all add: adv)
  qed
  then show ?thesis using assms(2)
    by (cases "shard_of_path (rq_Path r) ''/result''"; cases "dec_RunResult (en_codecs e) (rq_Body r)")
      (simp_all add: completeShard_def serves_same)
qed

lemma serves_reportProgress: "store_ok (srv_store s) \<Longrightarrow> serves s (reportProgress e r s)"
  by (cases "shard_of_path (rq_Path r) ''/progress''"; cases "dec_RunProgress (en_codecs e) (rq_Body r)")
    (auto simp: reportProgress_def serves_same case_prod_beta intro!: serves_update [of 0] simulates_start)

lemma serves_createSearch:
  assumes "store_ok (srv_store s)" "roomy (srv_store s)"
  shows "serves s (createSearch e r s)"
proof -
  have "simulates 66 (srv_store s) [] (snd (CreateSearch c (srv_store s)))" if "ValidateAutoSearchConfig c = None" for c
    using ok_CreateSearch [OF assms that] exec_None [OF exec_start] by (simp add: simulates_def)
  then show ?thesis using assms(1)
    by (auto simp: createSearch_def serves_same Let_def case_prod_beta intro: serves_update [of 66] split: option.split)
qed

lemma serves_cancelSearch: "env_ok e \<Longrightarrow> store_ok (srv_store s) \<Longrightarrow> serves s (cancelSearch e r s)"
  by (auto simp: cancelSearch_def Let_def case_prod_beta intro!: serves_update [of 0] simulates_start order_of)

lemma serves_createTarget:
  assumes "store_ok (srv_store s)" "roomy (srv_store s)"
  shows "serves s (createTarget e r s)"
proof -
  have "simulates 1 (srv_store s) [] (snd (CreateTarget t (srv_store s)))" for t
    using ok_CreateTarget [OF assms] exec_None [OF exec_start] by (simp add: simulates_def)
  then show ?thesis using assms(1)
    by (auto simp: createTarget_def serves_same Let_def case_prod_beta intro: serves_update [of 1] split: option.split)
qed

lemma serves_deleteTarget: "env_ok e \<Longrightarrow> store_ok (srv_store s) \<Longrightarrow> serves s (deleteTarget e r s)"
  by (auto simp: deleteTarget_def Let_def case_prod_beta intro!: serves_update [of 0] simulates_start order_of
      split: DeleteTargetResult.split)

lemma serves_createRun:
  assumes "store_ok (srv_store s)" "roomy (srv_store s)"
  shows "serves s (createRun e user r s)"
proof -
  have new: "simulates 65 (srv_store s) [] (snd (CreateRun c (srv_store s)))" if "ValidateRunConfig c = None" for c
    using ok_CreateRun [OF assms(1) that assms(2) surjective_pairing] exec_None [OF exec_start] by (simp add: simulates_def)
  show ?thesis using assms(1) new
    by (auto simp: createRun_def serves_same Let_def case_prod_beta add_monitoring_store intro!: serves_update [of 65]
        simulates_updates(2,3) split: option.split)
qed

lemma serves_cancelRun: "env_ok e \<Longrightarrow> store_ok (srv_store s) \<Longrightarrow> serves s (cancelRun e r s)"
  by (auto simp: cancelRun_def Let_def case_prod_beta intro!: serves_update [of 0] simulates_start order_of)

lemma serves_deleteCapture: "store_ok (srv_store s) \<Longrightarrow> serves s (deleteCapture r s)"
  by (auto simp: deleteCapture_def Let_def case_prod_beta intro!: serves_update [of 0] simulates_start)

lemma serves_updateCaptureSettings: "store_ok (srv_store s) \<Longrightarrow> serves s (updateCaptureSettings e r s)"
  by (auto simp: updateCaptureSettings_def Let_def case_prod_beta getCaptureSettings_def serves_same
      intro!: serves_update [of 0] simulates_start split: option.split)

lemma recordCapture_sim: "env_ok e \<Longrightarrow> store_ok (srv_store s) \<Longrightarrow>
    simulates 0 (srv_store s) [] (srv_store (recordCapture e i raw r started now input body observed code ttft s))"
  by (auto simp: recordCapture_def Let_def intro!: simulates_start order_of)

lemma serves_captureCompletion:
  assumes "env_ok e" "store_ok (srv_store s)"
  shows "serves s (captureCompletion e r s)"
  unfolding captureCompletion_def Let_def
  by (intro serves_split serves_same [OF assms(2)] serves_update [OF recordCapture_sim [OF assms]]) simp_all

subsection \<open>Routing\<close>

text \<open>The handlers that change nothing.\<close>

lemma no_assignment [simp]: "given_by (getSearch r s) = []" "given_by (listTargets e s) = []"
    "given_by (getCaptureSettings s) = []" "given_by (checkTarget e m r s) = []" "given_by (getRun e r s) = []"
    "given_by (exportRun e r s) = []" "given_by (health e s) = []"
    "given_by (map_response V_User (Session user)) = []" "given_by Logout = []" "given_by (Login url g t r) = []" "given_by (Callback mac marshal ex v g now r) = []"
  by (simp_all add: getSearch_def listTargets_def getCaptureSettings_def checkTarget_def getRun_def exportRun_def health_def
      Session_def Logout_def Login_def Callback_def Let_def case_prod_beta WriteHeader_def Error_def writeJSON_def
      split: exchange.split option.split sum.split)

lemmas serves_handlers = serves_same serves_createTarget serves_updateCaptureSettings serves_deleteCapture
  serves_deleteTarget serves_createRun serves_cancelRun serves_createSearch serves_cancelSearch

lemma serves_humans:
  assumes "env_ok e" "store_ok (srv_store s)" "roomy (srv_store s)"
  shows "serves s (serveHumanAPI e m user r s)"
  unfolding serveHumanAPI_def by (intro serves_if serves_handlers assms) simp_all

lemma serves_ServeHTTP:
  assumes "env_ok e" "store_ok (srv_store s)" "roomy (srv_store s)"
  shows "serves s (ServeHTTP e m r s)"
proof -
  have refused: "given_by refusal = []" if "Require mac unmarshal g now r = Inl refusal" for mac unmarshal g now refusal
    using that by (auto simp: Require_def split: if_splits option.splits sum.splits)
  have r: "serves s (case Require (en_hmac e) (en_unmarshal e) (srv_auth s) (en_now e) r of
          Inl refusal \<Rightarrow> (refusal, s) | Inr user \<Rightarrow> serveHumanAPI e m user r s)"
    using serves_humans [OF assms] serves_same [OF assms(2)] refused by (auto split: sum.split)
  have t: "serves s (WriteHeader StatusNoContent, s\<lparr>srv_store := TouchAgent (en_now e) (srv_store s)\<rparr>)"
    using assms(2) by (auto intro!: serves_update [of 0] simulates_start)
  show ?thesis
    unfolding ServeHTTP_def
    by (intro serves_if r t serves_same assms serves_captureCompletion serves_claimRun
        serves_completeShard serves_reportProgress) simp_all
qed

lemma simulates_sampling:
  assumes "store_ok (srv_store s)"
  shows "simulates 0 (srv_store s) [] (srv_store (sampleServerMetrics e s))"
proof (cases "ActiveRunIDs (order_of e (st_runs (srv_store s))) (srv_store s) = []")
  case True
  then show ?thesis using assms by (simp add: sampleServerMetrics_def simulates_start)
next
  case False
  obtain sample s1 where m: "monitor_sample e s = (sample, s1)" by (rule prod.exhaust)
  then have s1: "srv_store s1 = srv_store s" by (metis snd_conv monitor_sample_store)
  obtain d calls where d: "ServerConfig_of (en_prometheus e) (srv_monitorURL s1) (rs_calls (srv_resolver s1)) = (d, calls)"
    by (rule prod.exhaust)
  show ?thesis
    unfolding sampleServerMetrics_def Let_def m prod.case d
    using False assms by (simp add: add_monitoring_store) (rule simulates_foldl, auto simp: add_monitoring_store s1 intro!: simulates_start)
qed

subsection \<open>Any sequence of requests and ticks\<close>

lemma simulates_event:
  assumes "env_ok (event_env ev)" "store_ok (srv_store s)" "roomy (srv_store s)"
  shows "\<exists>bs. fst (serve_event (as, s) ev) = as @ bs \<and>
    simulates 66 (srv_store s) bs (srv_store (snd (serve_event (as, s) ev)))"
proof (cases ev)
  case (Request e m r)
  obtain res s' where h: "ServeHTTP e m r s = (res, s')" by (rule prod.exhaust)
  from serves_ServeHTTP [of e s m r] assms have "simulates 66 (srv_store s) (given_by res) (srv_store s')"
    by (simp add: serves_def h Request event_env_def)
  then show ?thesis by (auto simp: serve_event_def Request h)
next
  case (Tick e)
  then show ?thesis using simulates_weaken [OF simulates_sampling [OF assms(2)], of 66 e] by (simp add: serve_event_def)
qed

lemma simulates_serve_all:
  assumes "\<forall>ev \<in> set events. env_ok (event_env ev)" "store_ok (srv_store s)"
    and "st_nextID (srv_store s) + 66 * int (length events) \<le> 2 ^ 62"
  shows "\<exists>bs. fst (foldl serve_event (as, s) events) = as @ bs \<and>
    simulates (66 * int (length events)) (srv_store s) bs (srv_store (snd (foldl serve_event (as, s) events)))"
  using assms
proof (induction events arbitrary: as s)
  case Nil
  then show ?case by (simp add: simulates_refl)
next
  case (Cons ev events)
  have "roomy (srv_store s)" using Cons.prems(3) by (simp add: roomy_def)
  with simulates_event [of ev s as] Cons.prems(1,2) obtain bs where
    bs: "fst (serve_event (as, s) ev) = as @ bs" "simulates 66 (srv_store s) bs (srv_store (snd (serve_event (as, s) ev)))"
    by auto
  obtain s1 where e: "serve_event (as, s) ev = (as @ bs, s1)" using bs(1) by (metis prod.collapse)
  have ok: "store_ok (srv_store s1)" "st_nextID (srv_store s1) + 66 * int (length events) \<le> 2 ^ 62"
    using bs(2) Cons.prems(3) by (simp_all add: e simulates_def)
  from Cons.IH [OF _ ok, of "as @ bs"] Cons.prems(1) obtain cs where
    cs: "fst (foldl serve_event (as @ bs, s1) events) = (as @ bs) @ cs"
      "simulates (66 * int (length events)) (srv_store s1) cs (srv_store (snd (foldl serve_event (as @ bs, s1) events)))"
    by auto
  from simulates_trans [OF bs(2) [unfolded e snd_conv] cs(2)] cs(1) show ?case
    by (intro exI [of _ "bs @ cs"]) (simp add: e algebra_simps)
qed

text \<open>C33. Whatever requests reach the controller and however the ticks of its
  monitor fall between them, with any answers of the identity provider, the model servers and
  Prometheus, up to 2^50 of them from the empty store: the store only makes the steps of its transition
  system, its assignments are exactly those the controller answered with, no shard is in two answers,
  and every run in the store, also one that a search queued, has a configuration that passes the
  validation, with at most 500 virtual users or 2000 requests per second for at most one hour.\<close>

theorem api_refines_the_store:
  assumes "\<forall>ev \<in> set events. env_ok (event_env ev)" "length events \<le> 2 ^ 50" "srv_store s0 = NewMemoryStore"
    and "serve_all events s0 = (as, s)"
  shows "store_exec NewMemoryStore as (srv_store s) \<and> distinct (map (\<lambda>a. sh_ID (asg_Shard a)) as) \<and>
    (\<forall>R run. fmlookup (st_runs (srv_store s)) R = Some run \<longrightarrow>
       ValidateRunConfig (run_Config run) = None \<and> rc_DurationSeconds (run_Config run) \<le> 3600 \<and>
       (rc_Mode (run_Config run) = LoadModeVU \<and> rc_VUs (run_Config run) \<le> 500 \<or>
        rc_Mode (run_Config run) = LoadModeRPS \<and> rc_RPS (run_Config run) \<le> 2000))"
proof -
  have "st_nextID (srv_store s0) + 66 * int (length events) \<le> 2 ^ 62"
    using assms(2) by (simp add: assms(3) NewMemoryStore_def)
  from simulates_serve_all [OF assms(1) _ this, of "[]"] ok_empty assms(3,4)
  have S: "store_exec NewMemoryStore as (srv_store s)" "store_ok (srv_store s)"
    by (auto simp: serve_all_def simulates_def)
  have v: "ValidateRunConfig (run_Config run) = None" if "fmlookup (st_runs (srv_store s)) R = Some run" for R run
    using S(2) that by (simp add: store_ok_def within_limits_def run_within_def)
  show ?thesis
    using S(1) exec_handed_out [OF S(1) wf_empty] run_config_checks(2,3) [OF v] v by simp blast
qed

theorem api_refines_the_store_witness:
  "\<exists>a s. serve_all [Request (demo_env 0) demo_check (demo_call ''POST'' ''/api/targets''),
       Request (demo_env 0) demo_check (demo_call ''POST'' ''/api/runs''),
       Request (demo_env (7 * Second)) demo_check (demo_call ''POST'' ''/api/agent/claim'')] demo_server = ([a], s) \<and>
     sh_ID (asg_Shard a) = ''shard-3'' \<and> store_exec NewMemoryStore [a] (srv_store s)"
proof -
  let ?events = "[Request (demo_env 0) demo_check (demo_call ''POST'' ''/api/targets''),
       Request (demo_env 0) demo_check (demo_call ''POST'' ''/api/runs''),
       Request (demo_env (7 * Second)) demo_check (demo_call ''POST'' ''/api/agent/claim'')]"
  obtain a s where c: "ServeHTTP (demo_env (7 * Second)) demo_check (demo_call ''POST'' ''/api/agent/claim'')
      (demo_server\<lparr>srv_store := demo_store2 0\<rparr>) = (writeJSON 200 (V_Assignment a), s)"
    "sh_ID (asg_Shard a) = ''shard-3''"
    using demo_claim by blast
  have s: "serve_all ?events demo_server = ([a], s)"
    by (simp add: serve_all_def serve_event_def demo_create_target demo_create_run c(1))
  have "\<forall>ev \<in> set ?events. env_ok (event_env ev)" "length ?events \<le> 2 ^ 50" "srv_store demo_server = NewMemoryStore"
    by (simp_all add: event_env_def demo_env_ok)
  from api_refines_the_store [OF this s] s c(2) show ?thesis by blast
qed

end
