(* ===== verification/Ctl_Access.thy ===== *)
theory Ctl_Access
  imports Ctl_Demo
begin

text \<open>
  Who gets through to the controller, and what the capture proxy records: the trust levels of
  \<open>ServeHTTP\<close>, where the keys of the targets go, and the tool calls of a stream.
\<close>

subsection \<open>Rules for handlers\<close>

text \<open>One rule per construct of a handler.\<close>

lemma handler_split:
  "(c \<Longrightarrow> P a) \<Longrightarrow> (\<not> c \<Longrightarrow> P b) \<Longrightarrow> P (if c then a else b)"
  "(x = None \<Longrightarrow> P a) \<Longrightarrow> (\<And>y. x = Some y \<Longrightarrow> P (f y)) \<Longrightarrow> P (case x of None \<Rightarrow> a | Some y \<Rightarrow> f y)"
  "(\<And>u v. p = (u, v) \<Longrightarrow> P (g u v)) \<Longrightarrow> P (case p of (u, v) \<Rightarrow> g u v)"
  "P a' \<Longrightarrow> (\<And>n. P (k n)) \<Longrightarrow> (\<And>u. P (h u)) \<Longrightarrow>
     P (case ex of InvalidRequest \<Rightarrow> a' | ConnectionFailed n \<Rightarrow> k n | Answered u \<Rightarrow> h u)"
  by (simp_all split: option.split prod.split exchange.split)

subsection \<open>Trust levels\<close>

text \<open>What needs no session: the login and the health check, the agents, and the capture proxy.\<close>

definition public_route :: "request \<Rightarrow> bool" where
  "public_route r \<longleftrightarrow> rq_Path r \<in> {''/auth/login'', ''/auth/callback'', ''/auth/logout''} \<or> exactly r ''GET'' ''/api/health''"

definition agent_route :: "request \<Rightarrow> bool" where
  "agent_route r \<longleftrightarrow>
     exactly r ''POST'' ''/api/agent/heartbeat'' \<or> exactly r ''POST'' ''/api/agent/claim'' \<or>
     under r ''POST'' ''/api/agent/runs/'' ''/result'' \<or> under r ''POST'' ''/api/agent/runs/'' ''/progress''"

definition capture_route :: "request \<Rightarrow> bool" where
  "capture_route r \<longleftrightarrow> under r ''POST'' ''/capture/'' []"

lemma behind_session: "\<not> public_route r \<Longrightarrow> \<not> agent_route r \<Longrightarrow> \<not> capture_route r \<Longrightarrow>
    ServeHTTP e m r s = (case Require (en_hmac e) (en_unmarshal e) (srv_auth s) (en_now e) r of
        Inl refusal \<Rightarrow> (refusal, s) | Inr user \<Rightarrow> serveHumanAPI e m user r s)"
  by (simp add: public_route_def agent_route_def capture_route_def ServeHTTP_def)

lemma behind_token: "\<not> public_route r \<Longrightarrow> capture_route r \<Longrightarrow> ServeHTTP e m r s = captureCompletion e r s"
  by (simp add: public_route_def capture_route_def ServeHTTP_def)

lemma Require_refuses: "Require mac unmarshal g now r = Inl refusal \<Longrightarrow> status refusal = 401"
  by (auto simp: Require_def split: if_splits option.splits sum.splits)

text \<open>The capture proxy changes the captures at most, and those only with the token.\<close>

definition captures_only :: "Server \<Rightarrow> 'a \<times> Server \<Rightarrow> bool" where
  "captures_only s p \<longleftrightarrow> (\<exists>captures. snd p = s\<lparr>srv_store := (srv_store s)\<lparr>st_captures := captures\<rparr>\<rparr>)"

lemma captures_only_same: "captures_only s (res, s)"
  unfolding captures_only_def by (rule exI [of _ "st_captures (srv_store s)"]) simp

lemma RecordCapture_captures: "\<exists>captures. snd (RecordCapture ord session event st) = st\<lparr>st_captures := captures\<rparr>"
  unfolding RecordCapture_def Let_def case_prod_beta snd_conv by (rule exI, rule refl)

lemma captures_only_recorded:
  "captures_only s (res, recordCapture e targetID rawSession r started now input body observed code ttft s)"
proof -
  have "\<exists>captures. snd (with_store (RecordCapture ord session event) s) =
      s\<lparr>srv_store := (srv_store s)\<lparr>st_captures := captures\<rparr>\<rparr>" for ord session event
    using RecordCapture_captures [of ord session event "srv_store s"]
    by (auto simp: with_store_def case_prod_beta)
  then show ?thesis by (simp add: captures_only_def recordCapture_def Let_def)
qed

lemma captures_only_proxy: "captures_only s (captureCompletion e r s)"
  unfolding captureCompletion_def Let_def
  by (intro handler_split [where P = "captures_only s"] captures_only_same captures_only_recorded)

lemma capture_refused:
  assumes "captureCredentials s = (tokenHash, on, configured)"
    and "\<not> (on \<and> configured \<and> hashCaptureToken e (TrimPrefix (rq_Header r ''Authorization'') ''Bearer '') = tokenHash)"
  shows "status (fst (captureCompletion e r s)) \<in> {401, 503} \<and> snd (captureCompletion e r s) = s"
  using assms by (auto simp: captureCompletion_def)

text \<open>C35. When login is enabled, a request outside the public routes (the
  login and the health check) and the agent routes is answered in one of three ways. A POST below
  \<open>/capture/\<close> has its own credential instead of a session: without the capture token it is refused and
  leaves the server as it was, with it it can change the recorded captures and nothing else. Any other
  request reaches the API only with a session cookie made of two parts of base64, the second of which is
  the HMAC of the first under the controller's key, with claims that have not expired, and then acts as
  the user of those claims; or it is answered with 401 and leaves the server as it was.\<close>

theorem no_session_no_access:
  assumes "enabled (gt_cfg (srv_auth s))" "\<not> public_route r" "\<not> agent_route r" "ServeHTTP e marshal_check r s = (res, s')"
  shows "if capture_route r
    then (let (tokenHash, on, configured) = captureCredentials s in
      if on \<and> configured \<and> hashCaptureToken e (TrimPrefix (rq_Header r ''Authorization'') ''Bearer '') = tokenHash
      then \<exists>captures. s' = s\<lparr>srv_store := (srv_store s)\<lparr>st_captures := captures\<rparr>\<rparr>
      else status res \<in> {401, 503} \<and> s' = s)
    else status res = 401 \<and> s' = s \<or>
      (\<exists>user exp claims part0 part1. Cookie r sessionCookie = Some (part0 @ ''.'' @ part1) \<and>
         ac_SessionKey (gt_cfg (srv_auth s)) \<noteq> [] \<and> DecodeString RawURLEncoding part0 = Some claims \<and>
         DecodeString RawURLEncoding part1 = Some (en_hmac e (ac_SessionKey (gt_cfg (srv_auth s))) claims) \<and>
         en_unmarshal e claims = Inr \<lparr>sc_User = user, sc_Exp = exp\<rparr> \<and> en_now e div Second \<le> exp \<and>
         (res, s') = serveHumanAPI e marshal_check (Some user) r s)"
proof (cases "capture_route r")
  case True
  obtain tokenHash on configured where c: "captureCredentials s = (tokenHash, on, configured)" by (rule prod_cases3)
  have "(res, s') = captureCompletion e r s"
    using assms(4) behind_token [OF assms(2) True] by simp
  with capture_refused [OF c, of e r] captures_only_proxy [of s e r] True show ?thesis
    by (simp add: c captures_only_def) (metis fst_conv snd_conv)
next
  case False
  note behind = behind_session [OF assms(2,3) False]
  show ?thesis
  proof (cases "Require (en_hmac e) (en_unmarshal e) (srv_auth s) (en_now e) r :: api_value response + User option")
    case (Inl refusal)
    then show ?thesis using assms(4) Require_refuses [OF Inl] False by (simp add: behind)
  next
    case (Inr ctx)
    from Require_signed [OF assms(1) Inr] obtain user part0 part1 claims exp where
      u: "ctx = Some user" "Cookie r sessionCookie = Some (part0 @ ''.'' @ part1)" "ac_SessionKey (gt_cfg (srv_auth s)) \<noteq> []"
        "DecodeString RawURLEncoding part0 = Some claims"
        "DecodeString RawURLEncoding part1 = Some (en_hmac e (ac_SessionKey (gt_cfg (srv_auth s))) claims)"
        "en_unmarshal e claims = Inr \<lparr>sc_User = user, sc_Exp = exp\<rparr>" "en_now e div Second \<le> exp"
      by blast
    have "(res, s') = serveHumanAPI e marshal_check (Some user) r s"
      using assms(4) by (simp add: behind Inr u(1))
    with u(2-) show ?thesis unfolding if_not_P [OF False] by blast
  qed
qed

text \<open>Without a cookie the answer is 401, and so it is without the capture token.\<close>

definition login_server :: Server where
  "login_server = WithAuth (NewGate demo_cfg) demo_server"

lemma login_server_sel [simp]: "srv_auth login_server = NewGate demo_cfg" "srv_store login_server = NewMemoryStore"
    "gt_cfg (NewGate demo_cfg) = demo_cfg" "enabled demo_cfg"
  by (simp_all add: login_server_def WithAuth_def NewGate_def enabled_def)

theorem no_session_no_access_witness:
  "status (fst (ServeHTTP (demo_env 0) demo_check (demo_call ''GET'' ''/api/runs'') login_server)) = 401 \<and>
   snd (ServeHTTP (demo_env 0) demo_check (demo_call ''POST'' ''/capture/target-1/v1/chat/completions'') login_server) = login_server"
proof -
  have n: "\<not> public_route (demo_call ''GET'' ''/api/runs'')" "\<not> agent_route (demo_call ''GET'' ''/api/runs'')"
    "\<not> capture_route (demo_call ''GET'' ''/api/runs'')"
    "\<not> public_route (demo_call ''POST'' ''/capture/target-1/v1/chat/completions'')"
    "\<not> agent_route (demo_call ''POST'' ''/capture/target-1/v1/chat/completions'')"
    "capture_route (demo_call ''POST'' ''/capture/target-1/v1/chat/completions'')"
    by (simp_all add: public_route_def agent_route_def capture_route_def exactly_def under_def demo_call_def
        HasPrefix_def HasSuffix_def)
  have c: "Cookie (demo_call ''GET'' ''/api/runs'') sessionCookie = None" by (simp add: Cookie_def demo_call_def)
  have t: "captureCredentials login_server = ([], False, False)"
    by (simp add: captureCredentials_def GetCaptureSettings_def NewMemoryStore_def login_server_def WithAuth_def newServer_def
        defaultCaptureSettings_def zero_CaptureSettings_def Let_def)
  show ?thesis
    using no_session_no_access [OF _ n(1,2) surjective_pairing, of login_server "demo_env 0" demo_check] n(3) c
      no_session_no_access [OF _ n(4,5) surjective_pairing, of login_server "demo_env 0" demo_check] n(6) t
    by auto
qed

subsection \<open>The keys of the targets\<close>

text \<open>The targets in an answer, value by value.\<close>

fun targets_in :: "api_value \<Rightarrow> Target list" where
  "targets_in (V_Target t) = [t]"
| "targets_in (V_Targets ts) = ts"
| "targets_in (V_Assignment a) = [asg_Target a]"
| "targets_in (V_Health controller agent queued running login capture) = []"
| "targets_in (V_User user) = []"
| "targets_in (V_Run view) = []"
| "targets_in (V_Runs views) = []"
| "targets_in (V_Search search) = []"
| "targets_in (V_Searches searches) = []"
| "targets_in (V_Captures sessions) = []"
| "targets_in (V_CaptureSettings on configured settings) = []"
| "targets_in (V_Check code millis accepted) = []"
| "targets_in (V_Export rows) = []"
| "targets_in (V_Upstream headers passed_on) = []"

definition targets_of :: "api_value response \<Rightarrow> Target list" where
  "targets_of res = (case payload res of NoBody \<Rightarrow> [] | Plain text \<Rightarrow> [] | JSON v \<Rightarrow> targets_in v)"

definition targetless :: "api_value response \<Rightarrow> bool" where
  "targetless res \<longleftrightarrow> targets_of res = []"

lemma targetless_simps [simp]: "targetless (Error m c)" "targetless NotFound" "targetless (WriteHeader c)"
    "targetless (Response c cs l NoBody)" "targetless (Response c cs l (Plain t))"
    "targetless (writeJSON c v) = (targets_in v = [])" "targetless (Response c cs l (JSON v)) = (targets_in v = [])"
  by (simp_all add: targetless_def targets_of_def Error_def NotFound_def WriteHeader_def writeJSON_def)

definition pure :: "api_value response \<times> Server \<Rightarrow> bool" where "pure p \<longleftrightarrow> targetless (fst p)"

lemmas pure_split = handler_split [where P = pure]

lemma pure_pair [simp]: "pure (res, s) = targetless res" by (simp add: pure_def)

lemma targetless_reads [simp]: "targetless (getSearch r s)" "targetless (getCaptureSettings s)"
    "targetless (checkTarget e m r s)" "targetless (getRun e r s)" "targetless (exportRun e r s)" "targetless (health e s)"
    "targetless (map_response V_User (Session user))" "targetless Logout" "targetless (Login url g t r)"
    "targetless (Callback mac marshal ex v g now r)"
  by (auto simp: getSearch_def getCaptureSettings_def checkTarget_def getRun_def exportRun_def health_def
      Session_def Logout_def Login_def Callback_def Let_def case_prod_beta WriteHeader_def Error_def writeJSON_def
      split: exchange.split option.split sum.split)

lemma pure_humans:
  assumes "\<not> exactly r ''POST'' ''/api/targets''" "\<not> exactly r ''GET'' ''/api/targets''"
  shows "pure (serveHumanAPI e m user r s)"
  unfolding serveHumanAPI_def deleteTarget_def createRun_def cancelRun_def createSearch_def
    cancelSearch_def deleteCapture_def updateCaptureSettings_def Let_def
  using assms by (intro pure_split) (simp_all split: DeleteTargetResult.split prod.split)

lemma pure_agents: "pure (captureCompletion e r s)" "pure (completeShard e r s)" "pure (reportProgress e r s)"
  unfolding captureCompletion_def completeShard_def reportProgress_def Let_def
  by (intro pure_split, simp_all split: prod.split)+

text \<open>The two routes whose answers have targets.\<close>

lemma target_routes:
  "exactly r ''POST'' ''/api/targets'' \<Longrightarrow> ServeHTTP e m r s =
     (case Require (en_hmac e) (en_unmarshal e) (srv_auth s) (en_now e) r of
        Inl refusal \<Rightarrow> (refusal, s) | Inr user \<Rightarrow> createTarget e r s)"
  "exactly r ''GET'' ''/api/targets'' \<Longrightarrow> ServeHTTP e m r s =
     (case Require (en_hmac e) (en_unmarshal e) (srv_auth s) (en_now e) r of
        Inl refusal \<Rightarrow> (refusal, s) | Inr user \<Rightarrow> (listTargets e s, s))"
  by (simp_all add: routing HasPrefix_def HasSuffix_def split: sum.split)

text \<open>Every target in the answer is a stored one, shown without its key.\<close>

definition keyless :: "api_value response \<times> Server \<Rightarrow> bool" where
  "keyless p \<longleftrightarrow> (\<forall>t \<in> set (targets_of (fst p)). \<exists>i t0. fmlookup (st_targets (srv_store (snd p))) i = Some t0 \<and>
     t = t0\<lparr>tgt_APIKey := [], tgt_HasAPIKey := (tgt_APIKey t0 \<noteq> [])\<rparr>)"

lemma pure_keyless: "pure p \<Longrightarrow> keyless p"
  by (cases p) (simp add: keyless_def targetless_def)

lemma keyless_refusal: "Require mac unmarshal g now r = Inl refusal \<Longrightarrow> keyless (refusal, s)"
  by (rule pure_keyless) (auto simp: Require_def split: if_splits option.splits sum.splits)

lemma foldl_collect: "foldl (\<lambda>ts (_, t). ts @ [t]) acc es = acc @ map snd es"
  by (induction es arbitrary: acc) auto

lemma publicTarget_eq: "publicTarget t = t\<lparr>tgt_APIKey := [], tgt_HasAPIKey := (tgt_APIKey t \<noteq> [])\<rparr>"
  by (cases t) (simp add: publicTarget_def)

lemma keyless_list: "keyless (listTargets e s, s)"
proof -
  have "ListTargets ord st = map snd (entries ord (st_targets st))" for ord st
    by (simp add: ListTargets_def foldl_collect)
  then show ?thesis
    by (auto simp: keyless_def targets_of_def listTargets_def writeJSON_def publicTarget_eq set_entries) blast
qed

lemma keyless_create: "keyless (createTarget e r s)"
  unfolding createTarget_def
  by (intro handler_split [where P = keyless])
    (auto simp: keyless_def targets_of_def Error_def writeJSON_def with_store_def CreateTarget_def publicTarget_eq Let_def)

text \<open>C40. The API key of a target leaves the controller in no answer but the one to
  an agent that claims a shard. Every target in another answer is one of the stored targets with an
  empty key and a flag that says whether the stored one has a key, whoever asks; and only the answers to
  creating a target and to listing the targets have one. (Texts, and the headers and bodies of the model
  servers that the capture proxy passes on, are not looked into.)\<close>

theorem api_keys_stay_inside:
  assumes "ServeHTTP e marshal_check r s = (res, s')" "\<not> exactly r ''POST'' ''/api/agent/claim''"
  shows "(\<forall>t \<in> set (targets_of res). \<exists>i t0. fmlookup (st_targets (srv_store s')) i = Some t0 \<and>
       t = t0\<lparr>tgt_APIKey := [], tgt_HasAPIKey := (tgt_APIKey t0 \<noteq> [])\<rparr>) \<and>
    (targets_of res \<noteq> [] \<longrightarrow> exactly r ''POST'' ''/api/targets'' \<or> exactly r ''GET'' ''/api/targets'')"
proof (cases "exactly r ''POST'' ''/api/targets'' \<or> exactly r ''GET'' ''/api/targets''")
  case True
  have "keyless (ServeHTTP e marshal_check r s)"
    using True by (auto simp: target_routes keyless_create keyless_list keyless_refusal split: sum.split)
  then show ?thesis using True assms(1) by (simp add: keyless_def)
next
  case False
  have "pure (case Require (en_hmac e) (en_unmarshal e) (srv_auth s) (en_now e) r of
          Inl refusal \<Rightarrow> (refusal, s) | Inr user \<Rightarrow> serveHumanAPI e marshal_check user r s)"
    using pure_humans False by (auto simp: Require_def split: sum.split option.split)
  then have "pure (ServeHTTP e marshal_check r s)"
    unfolding ServeHTTP_def using assms(2) by (intro pure_split pure_agents) simp_all
  then show ?thesis by (simp add: assms(1) targetless_def)
qed

theorem api_keys_stay_inside_witness:
  "(let res = fst (ServeHTTP (demo_env 0) demo_check (demo_call ''GET'' ''/api/targets'') (demo_server\<lparr>srv_store := demo_store1\<rparr>))
    in targets_of res \<noteq> [] \<and> (\<forall>t \<in> set (targets_of res). tgt_APIKey t = [] \<and> tgt_HasAPIKey t)) \<and>
   tgt_APIKey demo_stored = ''key''"
proof -
  let ?s = "demo_server\<lparr>srv_store := demo_store1\<rparr>"
  let ?p = "ServeHTTP (demo_env 0) demo_check (demo_call ''GET'' ''/api/targets'') ?s"
  have p: "?p = (writeJSON 200 (V_Targets [publicTarget demo_stored]), ?s)"
    by (simp add: routing demo_call_def HasPrefix_def HasSuffix_def Require_def listTargets_def ListTargets_def sorted_single entries_def)
  have k: "targets_of (fst ?p) \<noteq> []" unfolding p by (simp add: targets_of_def writeJSON_def)
  have stored: "fmlookup (st_targets (srv_store (snd ?p))) i = Some t0 \<Longrightarrow> tgt_APIKey t0 = ''key''" for i t0
    unfolding p by (auto simp: NewMemoryStore_def demo_stored_def demo_target_def split: if_splits)
  have "\<not> exactly (demo_call ''GET'' ''/api/targets'') ''POST'' ''/api/agent/claim''"
    by (simp add: exactly_def demo_call_def)
  from api_keys_stay_inside [OF surjective_pairing this, of "demo_env 0" demo_check ?s] k stored
  show ?thesis unfolding Let_def by (force simp: demo_stored_def demo_target_def)
qed

subsection \<open>Tool calls of a stream\<close>

lemma Contains_prefix: "HasPrefix t sub \<Longrightarrow> t \<noteq> [] \<Longrightarrow> Contains (x @ t @ y) sub"
proof (induction x)
  case Nil
  then obtain c t' where "t = c # t'" by (cases t) auto
  with Nil show ?case by (auto simp: HasPrefix_def) (metis append_take_drop_id append_Cons append_eq_append_conv_if append_eq_conv_conj append_assoc)
qed simp

lemma Split_lines:
  assumes "\<forall>t \<in> set texts. CHR 0x0A \<notin> set t"
  shows "Split (concat (map (\<lambda>t. t @ [CHR 0x0A]) texts)) [CHR 0x0A] = texts @ [[]]"
  using assms
proof (induction texts)
  case Nil
  show ?case by (subst Split.simps) simp
next
  case (Cons t texts)
  then show ?case by (subst Split.simps) (simp add: split_first_char)
qed

text \<open>The tool calls that a piece of JSON, and a line of the stream, adds.\<close>

definition calls_in :: "(string \<Rightarrow> captureResponse option) \<Rightarrow> string \<Rightarrow> int" where
  "calls_in decode data = (case decode data of None \<Rightarrow> 0
     | Some d \<Rightarrow> (\<Sum>ch\<leftarrow>cr_Choices d. int (ch_MessageToolCalls ch + ch_DeltaToolCalls ch)))"

definition line_calls :: "(string \<Rightarrow> captureResponse option) \<Rightarrow> string \<Rightarrow> int" where
  "line_calls decode t = (if data_of t \<noteq> [] \<and> data_of t \<noteq> ''[DONE]'' then calls_in decode (data_of t) else 0)"

lemma choices_calls: "cev_ToolCalls ev = i64 x \<Longrightarrow> cev_ToolCalls (foldl consume_choice ev chs) =
    i64 (x + (\<Sum>ch\<leftarrow>chs. int (ch_MessageToolCalls ch + ch_DeltaToolCalls ch)))"
proof (induction chs arbitrary: ev x)
  case (Cons ch chs)
  have "cev_ToolCalls (consume_choice ev ch) = i64 (x + int (ch_MessageToolCalls ch + ch_DeltaToolCalls ch))"
    using Cons.prems by (simp add: consume_choice_def Let_def i64_simps)
  from Cons.IH [OF this] show ?case by (simp add: add.assoc)
qed simp

lemma choices_frame: "cev_PromptTokens (foldl consume_choice ev chs) = cev_PromptTokens ev"
    "cev_OutputTokens (foldl consume_choice ev chs) = cev_OutputTokens ev"
  by (induction chs arbitrary: ev) (simp_all add: consume_choice_def Let_def)

text \<open>A stream that reports no usage, and no line of which holds a line break.\<close>

definition no_usage :: "(string \<Rightarrow> captureResponse option) \<Rightarrow> string list \<Rightarrow> bool" where
  "no_usage decode texts \<longleftrightarrow> decode [] = None \<and> (\<forall>t \<in> set texts. CHR 0x0A \<notin> set t \<and>
     (t = [] \<or> HasPrefix t ''data:'') \<and> (\<forall>d. decode (data_of t) = Some d \<longrightarrow> cr_PromptTokens d \<le> 0 \<and> cr_CompletionTokens d \<le> 0))"

lemma consume_line_calls:
  assumes "cev_ToolCalls ev = i64 x" "\<forall>d. decode (data_of t) = Some d \<longrightarrow> cr_PromptTokens d \<le> 0 \<and> cr_CompletionTokens d \<le> 0"
  shows "cev_ToolCalls (consume_line decode ev t) = i64 (x + line_calls decode t)"
    "cev_PromptTokens (consume_line decode ev t) = cev_PromptTokens ev"
    "cev_OutputTokens (consume_line decode ev t) = cev_OutputTokens ev"
  using assms by (auto simp: consume_line_def consume_def line_calls_def calls_in_def Let_def choices_calls choices_frame
      split: option.split)

lemma consume_lines_calls:
  assumes "cev_ToolCalls ev = i64 x" "no_usage decode texts"
  shows "cev_ToolCalls (foldl (consume_line decode) ev texts) = i64 (x + (\<Sum>t\<leftarrow>texts. line_calls decode t)) \<and>
    cev_PromptTokens (foldl (consume_line decode) ev texts) = cev_PromptTokens ev \<and>
    cev_OutputTokens (foldl (consume_line decode) ev texts) = cev_OutputTokens ev"
  using assms
proof (induction texts arbitrary: ev x)
  case (Cons t texts)
  have c: "\<forall>d. decode (data_of t) = Some d \<longrightarrow> cr_PromptTokens d \<le> 0 \<and> cr_CompletionTokens d \<le> 0"
    and rest: "no_usage decode texts" using Cons.prems(2) by (simp_all add: no_usage_def)
  note L = consume_line_calls [where decode = decode and t = t, OF Cons.prems(1) c]
  from Cons.IH [OF L(1) rest] show ?case by (simp add: L(2,3) add.assoc)
qed simp

lemma data_of_Nil [simp]: "data_of [] = []"
  by (simp add: data_of_def TrimPrefix_def HasPrefix_def TrimSpace_def)

lemma parse_line:
  assumes "no_usage decode texts" "t \<in> set texts"
  shows "parseCaptureResponse decode t ev = consume_line decode ev t"
proof (cases "t = []")
  case True
  then show ?thesis using assms(1)
    by (simp add: parseCaptureResponse_def consume_def consume_line_def no_usage_def)
next
  case False
  then have t: "HasPrefix t ''data:''" "CHR 0x0A \<notin> set t" using assms by (auto simp: no_usage_def)
  have "Contains t ''data:''" using Contains_prefix [OF t(1) False, of "[]" "[]"] by simp
  moreover have "Split t [CHR 0x0A] = [t]" using t(2) by (subst Split.simps) (simp add: split_first_None [symmetric] del: split_first_None)
  ultimately show ?thesis by (simp add: parseCaptureResponse_def)
qed

lemma proxy_lines:
  assumes "no_usage decode (map fst scanned)" "set texts \<subseteq> set (map fst scanned)" "texts = map fst rest"
    and "remaining = n" "int (length (concat (map (\<lambda>t. t @ [CHR 0x0A]) texts))) \<le> n"
    and "px_inspected p = (dst, remaining)"
  shows "px_observed (foldl (proxy_line decode started) p rest) = foldl (consume_line decode) (px_observed p) texts \<and>
    fst (px_inspected (foldl (proxy_line decode started) p rest)) = dst @ concat (map (\<lambda>t. t @ [CHR 0x0A]) texts)"
  using assms(2-)
proof (induction rest arbitrary: p texts dst n remaining)
  case (Cons line rest)
  obtain t now where line: "line = (t, now)" by (rule prod.exhaust)
  obtain ts where ts: "texts = t # ts" "ts = map fst rest" using Cons.prems(2) by (simp add: line)
  let ?p = "proxy_line decode started p line"
  let ?w = "t @ [CHR 0x0A]"
  have t: "t \<in> set (map fst scanned)" using Cons.prems(1) by (simp add: ts(1))
  have n: "int (length ?w) \<le> n" "int (length (concat (map (\<lambda>t. t @ [CHR 0x0A]) ts))) \<le> n - int (length ?w)"
    using Cons.prems(4) by (simp_all add: ts(1))
  have o: "px_observed ?p = consume_line decode (px_observed p) t"
    by (simp add: proxy_line_def line Let_def parse_line [OF assms(1) t])
  have w: "px_inspected ?p = (dst @ ?w, n - int (length ?w))"
    using n(1) Cons.prems(3,5) by (simp add: proxy_line_def line Let_def limited_write_def)
  have "set ts \<subseteq> set (map fst scanned)" using Cons.prems(1) by (simp add: ts(1))
  from Cons.IH [OF this ts(2) refl n(2) w] show ?case by (simp add: o ts(1))
qed simp

lemma capture_event_again:
  assumes "cev_PromptTokens observed = 0" "cev_OutputTokens observed = 0"
  shows "\<exists>ev. capture_event e started now input body observed code ttft =
    parseCaptureResponse (dec_captureResponse (en_codecs e)) body ev \<and> cev_ToolCalls ev = cev_ToolCalls observed"
  unfolding capture_event_def Let_def using assms by (intro exI conjI) (simp, simp)

text \<open>The tool calls of a streamed answer are counted twice when the model
  server reports no usage. While the lines pass through, the proxy counts the calls; at the end, because
  there are no token counts, \<open>recordCapture\<close> reads the inspected body once more on top of what was
  counted: the recorded event has twice the calls of the stream.\<close>

theorem tool_calls_counted_twice:
  assumes "Contains (up_ContentType u) ''text/event-stream''"
    and "no_usage (dec_captureResponse (en_codecs e)) (map fst (up_Lines u))" "\<exists>t \<in> set (map fst (up_Lines u)). t \<noteq> []"
    and "int (length (concat (map (\<lambda>t. t @ [CHR 0x0A]) (map fst (up_Lines u))))) \<le> maxCaptureInspectionBytes"
    and "p = proxy_body (dec_captureResponse (en_codecs e)) started u"
  shows "cev_ToolCalls (px_observed p) = i64 (\<Sum>t\<leftarrow>map fst (up_Lines u). line_calls (dec_captureResponse (en_codecs e)) t) \<and>
    cev_ToolCalls (capture_event e started now input (fst (px_inspected p)) (px_observed p) code ttft) =
      i64 (2 * (\<Sum>t\<leftarrow>map fst (up_Lines u). line_calls (dec_captureResponse (en_codecs e)) t))"
proof -
  let ?decode = "dec_captureResponse (en_codecs e)" and ?texts = "map fst (up_Lines u)"
  let ?n = "\<Sum>t\<leftarrow>?texts. line_calls ?decode t"
  let ?body = "concat (map (\<lambda>t. t @ [CHR 0x0A]) ?texts)"
  have p: "p = foldl (proxy_line ?decode started) proxy_start (up_Lines u)"
    using assms(1,5) by (simp add: proxy_body_def)
  have start: "px_observed proxy_start = zero_CaptureEvent" "px_inspected proxy_start = ([], maxCaptureInspectionBytes)"
    by (simp_all add: proxy_start_def)
  have P: "px_observed p = foldl (consume_line ?decode) zero_CaptureEvent ?texts" "fst (px_inspected p) = ?body"
    using proxy_lines [OF assms(2) subset_refl refl refl assms(4) start(2), of started] by (simp_all add: p start)
  have o: "cev_ToolCalls (px_observed p) = i64 ?n" "cev_PromptTokens (px_observed p) = 0" "cev_OutputTokens (px_observed p) = 0"
    using consume_lines_calls [where ev = zero_CaptureEvent and x = 0, OF _ assms(2)]
    by (simp_all add: P zero_CaptureEvent_def)
  obtain t where t: "t \<in> set ?texts" "t \<noteq> []" using assms(3) by blast
  then obtain before after where tx: "?texts = before @ t # after" by (meson split_list)
  have "HasPrefix t ''data:''" using assms(2) t by (auto simp: no_usage_def)
  from Contains_prefix [OF this t(2), of "concat (map (\<lambda>t. t @ [CHR 0x0A]) before)"
      "CHR 0x0A # concat (map (\<lambda>t. t @ [CHR 0x0A]) after)"]
  have "Contains ?body ''data:''" unfolding tx by simp
  moreover have "\<forall>t \<in> set ?texts. CHR 0x0A \<notin> set t" using assms(2) by (simp add: no_usage_def)
  note S = Split_lines [OF this]
  have none: "consume_line ?decode ev [] = ev" for ev by (simp add: consume_line_def)
  ultimately have again: "parseCaptureResponse ?decode ?body ev = foldl (consume_line ?decode) ev ?texts" for ev
    by (simp add: parseCaptureResponse_def S none del: map_map)
  obtain ev where ev: "cev_ToolCalls ev = i64 ?n"
    "capture_event e started now input (fst (px_inspected p)) (px_observed p) code ttft = parseCaptureResponse ?decode ?body ev"
    using capture_event_again [OF o(2,3)] o(1) P(2) by metis
  have "cev_ToolCalls (foldl (consume_line ?decode) ev ?texts) = i64 (?n + ?n)"
    using consume_lines_calls [OF ev(1) assms(2)] by blast
  then show ?thesis unfolding ev(2) again using o(1) by (metis mult_2)
qed

abbreviation "demo_stream \<equiv> \<lparr>up_Status = 200, up_StatusText = ''200 OK'', up_Headers = [],
   up_ContentType = ''text/event-stream'', up_Lines = demo_lines, up_Body = [], up_Now = 0, up_End = 0\<rparr>"

theorem tool_calls_counted_twice_witness:
  "cev_ToolCalls (capture_event (demo_env 0) 0 0 \<lparr>cq_MaxTokens = 16, cq_Messages = []\<rparr>
      (fst (px_inspected (proxy_body demo_response 0 demo_stream))) (px_observed (proxy_body demo_response 0 demo_stream)) 200 0) = 2"
proof -
  have d: "dec_captureResponse (en_codecs (demo_env 0)) = demo_response" by (simp add: demo_codecs_def)
  have t: "data_of ''data: {tool}'' = ''{tool}''" "data_of ''data: [DONE]'' = ''[DONE]''" by code_simp+
  have c: "Contains (up_ContentType demo_stream) ''text/event-stream''" by (simp add: HasPrefix_def)
  have n: "no_usage (dec_captureResponse (en_codecs (demo_env 0))) (map fst (up_Lines demo_stream))"
    by (simp add: no_usage_def demo_codecs_def demo_lines_def t demo_response_def HasPrefix_def)
  have x: "\<exists>t \<in> set (map fst (up_Lines demo_stream)). t \<noteq> []"
    "int (length (concat (map (\<lambda>t. t @ [CHR 0x0A]) (map fst (up_Lines demo_stream))))) \<le> maxCaptureInspectionBytes"
    by (simp_all add: demo_lines_def maxCaptureInspectionBytes_def)
  have l: "(\<Sum>t\<leftarrow>map fst (up_Lines demo_stream). line_calls (dec_captureResponse (en_codecs (demo_env 0))) t) = 1"
    by (simp add: demo_lines_def line_calls_def t calls_in_def demo_codecs_def demo_response_def)
  from tool_calls_counted_twice [OF c n x refl, of 0 0 "\<lparr>cq_MaxTokens = 16, cq_Messages = []\<rparr>" 200 0]
  show ?thesis unfolding l unfolding d by (simp add: i64_small)
qed

end
