(* ===== verification/Agent_Program.thy ===== *)
theory Agent_Program
  imports Agent_Events Agent_Workload Agent_Stream
begin

text \<open>
  The goroutines of the agent as programs: the functions of \<open>internal/agent/runner.go\<close> between
  \<open>RunTargetWithProgress\<close> and \<open>doRequest\<close>. A program is a tree of operations on what the goroutines
  share (the measurements, the contexts, the slots of requests in flight) and on the outside (the clock,
  the target, timers); an operation that returns a value has the rest of the program as a function of it.
  A function of the source that returns takes what follows it as its last argument. A loop that runs
  until its context is done is written out for a number of rounds, given as an argument; after them comes the
  operation \<open>Spent\<close>, at which a goroutine stands still and never ends. So a loop only ends the way the
  loop of the source ends, and the programs with all numbers of rounds cover all executions of finite
  length.
\<close>

subsection \<open>Operations\<close>

text \<open>The context that ends the issuing of a stage, the one of its requests, and the one of the run.\<close>

datatype run_context = IssueCtx | RequestCtx | RunCtx

text \<open>The body of a chat completion, with \<open>stream_options\<close> always asking for usage, and the request.\<close>

record chat_request =
  cr_Model :: string
  cr_Messages :: "chatMessage list"
  cr_MaxTokens :: int
  cr_Stream :: bool
  cr_IgnoreEOS :: bool
  cr_MinTokens :: "int option"

record target_request =
  tr_Method :: string
  tr_URL :: string
  tr_ContentType :: string
  tr_Authorization :: string
  tr_Chat :: "chat_request option"

datatype reply = SendFailed request_error | Replied int string response_body

datatype io =
    Halt
  | Panic
  | Spent                                        \<comment> \<open>the rounds written out are used up\<close>
  | BackOff run_context io
  | Done run_context "bool \<Rightarrow> io"
  | NextWork RunConfig "workload option \<Rightarrow> io"
  | NextUser "UserJourney list" "UserJourney option \<Rightarrow> io"
  | Begin string "int option" "attempt \<Rightarrow> io"
  | AddActive int io
  | AddWaiting int io
  | Send target_request "reply \<Rightarrow> io"
  | Now "int \<Rightarrow> io"
  | RecordSuccess attempt int modelTiming int TokenUsage RunConfig io
  | RecordHTTPFailure attempt int int string io
  | RecordTransportError attempt string io
  | RecordAborted attempt run_context request_error io
  | Wait int "bool \<Rightarrow> io"                       \<comment> \<open>whether the timer came before the end of issuing\<close>
  | TakeSlot int "bool \<Rightarrow> io"
  | FreeSlot io
  | RecordDropped io
  | SessionStart io
  | SessionEnd bool io
  | Go io io                                      \<comment> \<open>\<open>wg.Add(1)\<close> and a goroutine that ends with \<open>wg.Done()\<close>\<close>
  | WaitGroup io
  | Reset io
  | SetPhase string io
  | SetTargetLoad int io
  | OpenStage io io                               \<comment> \<open>new contexts, and the goroutine that issues the load\<close>
  | AwaitStage "bool \<Rightarrow> io"                       \<comment> \<open>whether the goroutine was done before the issue context\<close>
  | AwaitDrain "bool \<Rightarrow> io"                       \<comment> \<open>whether the goroutine was done before the drain time and the end of the run\<close>
  | CancelRequests io
  | AwaitDone io
  | AddDrained int io
  | Cooldown int io

subsection \<open>One request\<close>

text \<open>The URL and the body of a request.\<close>

definition request_url :: "Target \<Rightarrow> RunConfig \<Rightarrow> workload \<Rightarrow> string" where
  "request_url target config w =
     (if wl_varied w \<and> tgt_Type target = TargetTypeWeb then
        let separator = (if Contains (tgt_URL target) ''?'' then ''&'' else ''?'')
        in tgt_URL target @ separator @ ''__lo_run='' @ rc_WorkloadID config @ ''&__lo_request='' @ dec_int (wl_sequence w)
      else tgt_URL target)"

definition is_chat :: "Target \<Rightarrow> bool" where
  "is_chat target \<longleftrightarrow> tgt_Type target = TargetTypeModel \<or> HasSuffix (tgt_URL target) ''/v1/chat/completions''"

definition chat_body :: "Target \<Rightarrow> RunConfig \<Rightarrow> workload \<Rightarrow> chatMessage list \<Rightarrow> chat_request" where
  "chat_body target config w history =
     (let prompt = (if wl_varied w then variationPrefix (rc_WorkloadID config) (wl_sequence w) @ wl_prompt w
            else wl_prompt w)
      in \<lparr>cr_Model = tgt_Model target, cr_Messages = history @ [\<lparr>msg_Role = ''user'', msg_Content = prompt\<rparr>],
          cr_MaxTokens = wl_maxTokens w, cr_Stream = (tgt_Type target = TargetTypeModel),
          cr_IgnoreEOS = rc_IgnoreEOS config,
          cr_MinTokens = (if rc_IgnoreEOS config then Some (wl_maxTokens w) else None)\<rparr>)"

definition http_request :: "Target \<Rightarrow> RunConfig \<Rightarrow> workload \<Rightarrow> chatMessage list \<Rightarrow> target_request" where
  "http_request target config w history =
     \<lparr>tr_Method = (if is_chat target then ''POST'' else ''GET''), tr_URL = request_url target config w,
      tr_ContentType = (if is_chat target then ''application/json'' else []),
      tr_Authorization = (if tgt_APIKey target \<noteq> [] then ''Bearer '' @ tgt_APIKey target else []),
      tr_Chat = (if is_chat target then Some (chat_body target config w history) else None)\<rparr>"

text \<open>What the agent needs from libraries: the decoder of a stream event, which URLs
  \<open>http.NewRequestWithContext\<close> accepts, and the logarithm of the arrival times.\<close>

record agent_env =
  ae_decode :: "string \<Rightarrow> string + streamEvent"
  ae_valid_url :: "string \<Rightarrow> bool"
  ae_log :: "float64 \<Rightarrow> float64"

text \<open>What follows the answer of the target.\<close>

definition handle_reply ::
    "agent_env \<Rightarrow> run_context \<Rightarrow> Target \<Rightarrow> RunConfig \<Rightarrow> attempt \<Rightarrow> int \<Rightarrow> reply \<Rightarrow> (int \<times> string \<times> bool \<Rightarrow> io) \<Rightarrow> io" where
  "handle_reply a ctx target config call think reply return = (case reply of
     SendFailed err \<Rightarrow> RecordAborted call ctx err (return (0, [], False))
   | Replied status statusText body \<Rightarrow> Now (\<lambda>now.
       let timing = zero_modelTiming\<lparr>mt_ttft := Milliseconds (time_Sub now (at_startedAt call))\<rparr>;
           (timing, usage, err) = (if tgt_Type target = TargetTypeModel \<and> status \<ge> 200 \<and> status < 400
             then readModelResponse (ae_decode a) body (at_startedAt call) else (timing, zero_TokenUsage, None))
       in case err of
            Some e \<Rightarrow> RecordAborted call ctx e (return (0, [], False))
          | None \<Rightarrow> Now (\<lambda>now.
              let latency = Milliseconds (time_Sub now (at_scheduledAt call)) in
              if status < 200 \<or> status \<ge> 400
              then RecordHTTPFailure call latency status (''HTTP '' @ statusText) (return (0, [], False))
              else RecordSuccess call latency timing status usage config (return (think, mt_answer timing, True)))))"

text \<open>\<open>return\<close> gets the think time, the answer and whether the request succeeded. The JSON of a chat
  request always encodes, so the branch for its error is left out.\<close>

definition doRequest ::
    "agent_env \<Rightarrow> run_context \<Rightarrow> Target \<Rightarrow> RunConfig \<Rightarrow> chatMessage list \<Rightarrow> int option \<Rightarrow>
     (int \<times> string \<times> bool \<Rightarrow> io) \<Rightarrow> io" where
  "doRequest a ctx target config history scheduled return =
     BackOff ctx (Done ctx (\<lambda>ended.
       if ended then return (0, [], False)
       else NextWork config (\<lambda>work. case work of
           None \<Rightarrow> Panic
         | Some w \<Rightarrow> Begin (wl_name w) scheduled (\<lambda>call. AddActive 1 (
             let return = (\<lambda>res. AddActive (- 1) (return res)) in
             if \<not> ae_valid_url a (request_url target config w)
             then RecordTransportError call ''create request'' (return (0, [], False))
             else Send (http_request target config w history) (\<lambda>reply.
               handle_reply a ctx target config call (wl_think w) reply return))))))"

subsection \<open>Sessions and journeys\<close>

text \<open>\<open>return\<close> gets whether the issue window was still open after the wait.\<close>

definition think :: "int \<Rightarrow> (bool \<Rightarrow> io) \<Rightarrow> io" where
  "think wait return =
     (if wait \<le> 0 then Done IssueCtx (\<lambda>ended. return (\<not> ended))
      else AddWaiting 1 (Wait wait (\<lambda>fired. AddWaiting (- 1) (return fired))))"

text \<open>The configuration of one step of a session.\<close>

definition session_step :: "RunConfig \<Rightarrow> ScenarioTask \<Rightarrow> chatMessage list \<Rightarrow> RunConfig" where
  "session_step config task history =
     (let step = config\<lparr>rc_Prompt := tsk_Prompt task\<rparr>;
          step = step\<lparr>rc_Scenario := [task]\<rparr>;
          step = (if tsk_MaxTokens task > 0 then step\<lparr>rc_MaxTokens := tsk_MaxTokens task\<rparr> else step)
      in if tsk_PromptTokens task > 0
         then let historyChars = content_length history
              in step\<lparr>rc_PromptPadTokens := max 0 (i64 (tsk_PromptTokens task -
                    quot (i64 (historyChars + int (length (tsk_Prompt task)))) charsPerToken)),
                  rc_PromptPadStdev := 0\<rparr>
         else step)"

fun session_loop ::
    "agent_env \<Rightarrow> Target \<Rightarrow> RunConfig \<Rightarrow> int option \<Rightarrow> bool \<Rightarrow> chatMessage list \<Rightarrow> ScenarioTask list \<Rightarrow> io \<Rightarrow> io" where
  "session_loop a target config scheduled completed history [] return = SessionEnd completed return"
| "session_loop a target config scheduled completed history (task # tasks) return =
     Done IssueCtx (\<lambda>ended. if ended then return else
       let request = (\<lambda>scheduled. doRequest a RequestCtx target (session_step config task history) history scheduled
             (\<lambda>(wait, answer, succeeded).
                let history = (if rc_AccumulateContext config
                      then trimHistory (history @ [\<lparr>msg_Role = ''user'', msg_Content = tsk_Prompt task\<rparr>,
                        \<lparr>msg_Role = ''assistant'', msg_Content = answer\<rparr>]) else history);
                    wait = (if tsk_ThinkTimeMillis task > 0 then i64 (tsk_ThinkTimeMillis task * Millisecond) else wait)
                in think wait (\<lambda>open_window. if \<not> open_window then return
                     else session_loop a target config None (completed \<and> succeeded) history tasks return)))
       in case scheduled of Some t \<Rightarrow> request (Some t) | None \<Rightarrow> Now (\<lambda>now. request (Some now)))"

definition runAgentSession :: "agent_env \<Rightarrow> Target \<Rightarrow> RunConfig \<Rightarrow> int \<Rightarrow> io \<Rightarrow> io" where
  "runAgentSession a target config scheduled return =
     (if rc_Scenario config = [] then return
      else SessionStart (session_loop a target config (Some scheduled) True [] (rc_Scenario config) return))"

definition runJourney :: "agent_env \<Rightarrow> Target \<Rightarrow> RunConfig \<Rightarrow> int \<Rightarrow> io \<Rightarrow> io" where
  "runJourney a target config scheduled return =
     (if rc_Journeys config = [] then
        if rc_AgentWorkflow config then runAgentSession a target config scheduled return
        else doRequest a RequestCtx target config [] (Some scheduled) (\<lambda>_. return)
      else NextUser (rc_Journeys config) (\<lambda>user. case user of
          None \<Rightarrow> Panic
        | Some journey \<Rightarrow>
            let journeyConfig = config\<lparr>rc_AgentWorkflow := jr_AgentWorkflow journey, rc_Scenario := jr_Scenario journey\<rparr>
            in if jr_AgentWorkflow journey then runAgentSession a target journeyConfig scheduled return
               else doRequest a RequestCtx target journeyConfig [] (Some scheduled)
                 (\<lambda>(wait, _, _). think wait (\<lambda>_. return))))"

subsection \<open>Workers\<close>

text \<open>The loops that end with their issue context, with so many rounds written out.\<close>

fun rounds :: "(io \<Rightarrow> io) \<Rightarrow> nat \<Rightarrow> io" where
  "rounds body 0 = Spent"
| "rounds body (Suc n) = Done IssueCtx (\<lambda>ended. if ended then Halt else body (rounds body n))"

fun session_rounds :: "(io \<Rightarrow> io) \<Rightarrow> RunConfig \<Rightarrow> int \<Rightarrow> nat \<Rightarrow> io" where
  "session_rounds body config sessions 0 = Spent"
| "session_rounds body config sessions (Suc n) = Done IssueCtx (\<lambda>ended.
     if \<not> ended \<and> (rc_SessionsPerVU config = 0 \<or> sessions < rc_SessionsPerVU config)
     then body (session_rounds body config (sessions + 1) n) else Halt)"

definition runWorker :: "agent_env \<Rightarrow> Target \<Rightarrow> RunConfig \<Rightarrow> nat \<Rightarrow> io" where
  "runWorker a target config n =
     (if rc_Journeys config \<noteq> [] then rounds (\<lambda>again. Now (\<lambda>now. runJourney a target config now again)) n
      else if rc_AgentWorkflow config
      then session_rounds (\<lambda>again. Now (\<lambda>now. runAgentSession a target config now again)) config 0 n
      else rounds (\<lambda>again. Now (\<lambda>now. doRequest a RequestCtx target config [] (Some now)
        (\<lambda>(wait, _, _). think wait (\<lambda>_. again)))) n)"

fun go_workers :: "nat \<Rightarrow> io \<Rightarrow> io" where
  "go_workers 0 p = WaitGroup Halt"
| "go_workers (Suc i) p = Go p (go_workers i p)"

definition runVUs :: "agent_env \<Rightarrow> Target \<Rightarrow> RunConfig \<Rightarrow> nat \<Rightarrow> io" where
  "runVUs a target config n = go_workers (nat (rc_VUs config)) (runWorker a target config n)"

subsection \<open>Arrivals\<close>

definition in_flight_limit :: "RunConfig \<Rightarrow> int" where
  "in_flight_limit config = (if rc_MaxInFlight config = 0 then MaxVUs else rc_MaxInFlight config)"

fun rps_loop :: "agent_env \<Rightarrow> Target \<Rightarrow> RunConfig \<Rightarrow> arrivalSchedule \<Rightarrow> int \<Rightarrow> nat \<Rightarrow> io" where
  "rps_loop a target config schedule dueAt 0 = Spent"
| "rps_loop a target config schedule dueAt (Suc n) =
     (let (gap, schedule) = next_arrival (ae_log a) schedule; dueAt = dueAt + gap in
      Now (\<lambda>now. Wait (time_Sub dueAt now) (\<lambda>fired.
        if \<not> fired then WaitGroup Halt
        else TakeSlot (in_flight_limit config) (\<lambda>taken.
          if \<not> taken then RecordDropped (rps_loop a target config schedule dueAt n)
          else Go (runJourney a target config dueAt (FreeSlot Halt)) (rps_loop a target config schedule dueAt n)))))"

definition runRPS :: "agent_env \<Rightarrow> Target \<Rightarrow> RunConfig \<Rightarrow> nat \<Rightarrow> io" where
  "runRPS a target config n =
     Now (\<lambda>now. rps_loop a target config (newArrivalSchedule (rc_ArrivalPattern config) (rc_RPS config)) now n)"

text \<open>When an event of a trace is due, and the configuration of its request.\<close>

definition trace_offset :: "RunConfig \<Rightarrow> TraceEvent \<Rightarrow> int" where
  "trace_offset config event =
     (let scale = (if fle (rc_TraceTimeScale config) fzero then f_of_int 1 else rc_TraceTimeScale config);
          traceStart = tev_TimestampMillis (hd (rc_Trace config))
      in int64_of (fmul (fdiv (f_of_int (i64 (tev_TimestampMillis event - traceStart))) scale) (f_of_int Millisecond)))"

definition event_config :: "RunConfig \<Rightarrow> TraceEvent \<Rightarrow> RunConfig" where
  "event_config config event =
     (let eventConfig = config\<lparr>rc_Trace := [], rc_Journeys := [], rc_AgentWorkflow := False\<rparr>;
          prompt = (if tev_Prompt event = [] then rc_Prompt config else tev_Prompt event);
          name = (if tev_Name event = [] then ''trace'' else tev_Name event);
          maxTokens = (if tev_MaxTokens event = 0 then rc_MaxTokens config else tev_MaxTokens event);
          eventConfig = eventConfig\<lparr>rc_Scenario := [\<lparr>tsk_Name = name, tsk_Prompt = prompt, tsk_Weight = 1,
            tsk_ThinkTimeMillis = 0, tsk_MaxTokens = maxTokens, tsk_PromptTokens = 0\<rparr>], rc_PromptPadTokens := 0\<rparr>
      in if tev_PromptTokens event > 0
         then eventConfig\<lparr>rc_PromptPadTokens :=
           max 0 (i64 (tev_PromptTokens event - quot (int (length prompt)) charsPerToken))\<rparr>
         else eventConfig)"

fun trace_loop :: "agent_env \<Rightarrow> Target \<Rightarrow> RunConfig \<Rightarrow> int \<Rightarrow> TraceEvent list \<Rightarrow> io" where
  "trace_loop a target config started [] = WaitGroup Halt"
| "trace_loop a target config started (event # events) =
     (let dueAt = started + trace_offset config event in
      Now (\<lambda>now. Wait (time_Sub dueAt now) (\<lambda>fired.
        if \<not> fired then WaitGroup Halt
        else TakeSlot (in_flight_limit config) (\<lambda>taken.
          if \<not> taken then RecordDropped (trace_loop a target config started events)
          else Go (runJourney a target (event_config config event) dueAt (FreeSlot Halt))
                 (trace_loop a target config started events)))))"

definition runTrace :: "agent_env \<Rightarrow> Target \<Rightarrow> RunConfig \<Rightarrow> io" where
  "runTrace a target config =
     (if rc_Trace config = [] then WaitGroup Halt
      else Now (\<lambda>now. trace_loop a target config now (rc_Trace config)))"

subsection \<open>Stages and the run\<close>

definition runStage :: "agent_env \<Rightarrow> Target \<Rightarrow> RunConfig \<Rightarrow> nat \<Rightarrow> io \<Rightarrow> io" where
  "runStage a target config n return =
     OpenStage (if rc_Trace config \<noteq> [] then runTrace a target config
                else if rc_Mode config = LoadModeRPS then runRPS a target config n else runVUs a target config n)
      (AwaitStage (\<lambda>finished. if finished then return
        else Done RunCtx (\<lambda>over.
          if over \<or> rc_DrainSeconds config \<le> 0 then CancelRequests (AwaitDone return)
          else SetPhase phaseDrain (Now (\<lambda>drainStarted.
            let drained = Now (\<lambda>now. AddDrained (int64_of (Seconds (time_Sub now drainStarted))) (SetPhase phaseLoad return))
            in AwaitDrain (\<lambda>finished. if finished then drained else CancelRequests (AwaitDone drained)))))))"

definition stage_config :: "RunConfig \<Rightarrow> LoadStage \<Rightarrow> RunConfig" where
  "stage_config config stage =
     (let stageConfig = config\<lparr>rc_DurationSeconds := stg_DurationSeconds stage\<rparr>
      in if rc_Mode config = LoadModeRPS then stageConfig\<lparr>rc_RPS := stg_TargetLoad stage\<rparr>
         else stageConfig\<lparr>rc_VUs := stg_TargetLoad stage\<rparr>)"

fun run_stages :: "agent_env \<Rightarrow> Target \<Rightarrow> RunConfig \<Rightarrow> nat \<Rightarrow> LoadStage list \<Rightarrow> io \<Rightarrow> io" where
  "run_stages a target config n [] return = return"
| "run_stages a target config n (stage # stages) return =
     Done RunCtx (\<lambda>over. if over then return
       else SetTargetLoad (stg_TargetLoad stage)
         (runStage a target (stage_config config stage) n (run_stages a target config n stages return)))"

fun warmups :: "agent_env \<Rightarrow> Target \<Rightarrow> RunConfig \<Rightarrow> nat \<Rightarrow> io \<Rightarrow> io" where
  "warmups a target config 0 return = return"
| "warmups a target config (Suc i) return =
     Now (\<lambda>now. doRequest a RunCtx target config [] (Some now) (\<lambda>_. warmups a target config i return))"

definition RunTargetWithProgress :: "agent_env \<Rightarrow> Target \<Rightarrow> RunConfig \<Rightarrow> nat \<Rightarrow> io" where
  "RunTargetWithProgress a target config n =
     warmups a target config (nat (rc_WarmupRequests config)) (Reset (
       let stages = (if rc_Stages config = []
             then [\<lparr>stg_DurationSeconds = rc_DurationSeconds config, stg_TargetLoad = load config\<rparr>]
             else rc_Stages config)
       in SetPhase phaseLoad (run_stages a target config n stages (SetTargetLoad 0 (
            let finish = SetPhase phaseDone Halt
            in if rc_CooldownSeconds config > 0
               then Done RunCtx (\<lambda>over. if over then finish
                 else SetPhase phaseCooldown (Cooldown (rc_CooldownSeconds config) finish))
               else finish)))))"

end
