(* ===== verification/Agent_Goroutines.thy ===== *)
theory Agent_Goroutines
  imports Agent_Program
begin

text \<open>
  The goroutines of a run, executed: each move lets one of them do its next operation, in any order and
  with any readings of the clock, answers and timers. \<open>ok\<close> is a type of programs; a run is well typed,
  and well-typed goroutines only produce the executions of \<open>Agent_Events\<close>, with nothing in flight when
  the run has ended.
\<close>

subsection \<open>What the goroutines share\<close>

record agent =
  ag_m :: measurements
  ag_slots :: int
  ag_issueOver :: bool
  ag_requestsOver :: bool
  ag_cancelled :: bool           \<comment> \<open>the context the run was started with is done\<close>
  ag_main :: io
  ag_gen :: io                   \<comment> \<open>the goroutine of the stage that issues the load\<close>
  ag_workers :: "io list"
  ag_log :: "agent_event list"   \<comment> \<open>the operations on the measurements since they were reset\<close>

record input =
  in_now :: int
  in_random :: "int \<Rightarrow> int"
  in_reply :: reply
  in_flag :: bool

definition run_over :: "agent \<Rightarrow> bool" where
  "run_over a \<longleftrightarrow> ag_cancelled a \<or> me_runCancelled (ag_m a)"

definition ctx_done :: "run_context \<Rightarrow> agent \<Rightarrow> bool" where
  "ctx_done c a = (case c of IssueCtx \<Rightarrow> ag_issueOver a \<or> run_over a | RequestCtx \<Rightarrow> ag_requestsOver a
     | RunCtx \<Rightarrow> run_over a)"

definition emit :: "agent_event \<Rightarrow> agent \<Rightarrow> agent" where
  "emit e a = a\<lparr>ag_m := event_step (ag_m a) e, ag_log := ag_log a @ [e]\<rparr>"

definition is_Halt :: "io \<Rightarrow> bool" where
  "is_Halt p \<longleftrightarrow> (case p of Halt \<Rightarrow> True | _ \<Rightarrow> False)"

lemma is_Halt_iff [simp]: "is_Halt p \<longleftrightarrow> p = Halt"
  by (simp add: is_Halt_def split: io.split)

definition workers_done :: "agent \<Rightarrow> bool" where
  "workers_done a \<longleftrightarrow> list_all is_Halt (ag_workers a)"

text \<open>One operation of a goroutine. An operation that waits for other goroutines stays where it is
  until they are done.\<close>

fun advance :: "input \<Rightarrow> io \<Rightarrow> agent \<Rightarrow> io \<times> agent" where
  "advance i Halt a = (Halt, a)"
| "advance i Panic a = (Panic, a)"
| "advance i Spent a = (Spent, a)"
| "advance i (BackOff ctx k) a = (k, emit (Backoff (in_random i)) a)"
| "advance i (Done ctx k) a = (k (ctx_done ctx a), a)"
| "advance i (NextWork config k) a =
     (let a = emit NextSequence a in (k (nextWorkload config (me_sequence (ag_m a))), a))"
| "advance i (NextUser journeys k) a =
     (let a = emit NextJourney a in (k (nextJourney journeys (me_journeySequence (ag_m a))), a))"
| "advance i (Begin name scheduled k) a =
     (k (fst (beginAttempt name scheduled (in_now i) (ag_m a))), emit (Issue name scheduled (in_now i)) a)"
| "advance i (AddActive d k) a = (k, emit (Active d) a)"
| "advance i (AddWaiting d k) a = (k, emit (Waiting d) a)"
| "advance i (Send request k) a = (k (in_reply i), a)"
| "advance i (Now k) a = (k (in_now i), a)"
| "advance i (RecordSuccess call latency timing status usage config k) a =
     (k, emit (Succeed call latency timing status usage config (in_now i)) a)"
| "advance i (RecordHTTPFailure call latency status message k) a =
     (k, emit (FailHTTP call latency status message (in_now i)) a)"
| "advance i (RecordTransportError call message k) a = (k, emit (FailTransport call message (in_now i)) a)"
| "advance i (RecordAborted call ctx err k) a = (k, emit (Abort call (ctx_done ctx a) err (in_now i)) a)"
| "advance i (Wait d k) a = (k (in_flag i \<or> \<not> ctx_done IssueCtx a), a)"
| "advance i (TakeSlot limit k) a =
     (if ag_slots a < limit then (k True, a\<lparr>ag_slots := ag_slots a + 1\<rparr>) else (k False, a))"
| "advance i (FreeSlot k) a = (k, a\<lparr>ag_slots := ag_slots a - 1\<rparr>)"
| "advance i (RecordDropped k) a = (k, emit DropArrival a)"
| "advance i (SessionStart k) a = (k, emit StartSession a)"
| "advance i (SessionEnd completed k) a = (k, emit (CompleteSession completed) a)"
| "advance i (Go p k) a = (k, a\<lparr>ag_workers := ag_workers a @ [p]\<rparr>)"
| "advance i (WaitGroup k) a = (if workers_done a then k else WaitGroup k, a)"
| "advance i (Reset k) a = (k, a\<lparr>ag_m := reset (in_now i) (ag_m a), ag_log := []\<rparr>)"
| "advance i (SetPhase phase k) a = (k, emit (Phase phase) a)"
| "advance i (SetTargetLoad n k) a = (k, emit (TargetLoad n) a)"
| "advance i (OpenStage p k) a = (k, a\<lparr>ag_gen := p, ag_issueOver := False, ag_requestsOver := False, ag_slots := 0\<rparr>)"
| "advance i (AwaitStage k) a =
     (if is_Halt (ag_gen a) \<and> (in_flag i \<or> \<not> ctx_done IssueCtx a) then k True
      else if ctx_done IssueCtx a then k False else AwaitStage k, a)"
| "advance i (AwaitDrain k) a =
     (if is_Halt (ag_gen a) \<and> in_flag i then k True else if \<not> in_flag i then k False else AwaitDrain k, a)"
| "advance i (CancelRequests k) a = (k, a\<lparr>ag_requestsOver := True\<rparr>)"
| "advance i (AwaitDone k) a = (if is_Halt (ag_gen a) then k else AwaitDone k, a)"
| "advance i (AddDrained d k) a = (k, emit (Drained d) a)"
| "advance i (Cooldown d k) a = (k, a)"

text \<open>What can happen: a goroutine moves, the sampler ticks, the time of the stage is up, the run is
  cancelled from outside, and the goroutine of \<open>runStage\<close> that watches the run cancels the requests.\<close>

datatype move = MoveMain input | MoveGen input | MoveWorker nat input | Tick int | IssueTimeout | CancelRun | WatchRun

definition agent_move :: "agent \<Rightarrow> move \<Rightarrow> agent" where
  "agent_move a mv = (case mv of
     MoveMain i \<Rightarrow> (let (p, a) = advance i (ag_main a) a in a\<lparr>ag_main := p\<rparr>)
   | MoveGen i \<Rightarrow> (let (p, a) = advance i (ag_gen a) a in a\<lparr>ag_gen := p\<rparr>)
   | MoveWorker j i \<Rightarrow>
       if j < length (ag_workers a)
       then (let (p, a) = advance i (ag_workers a ! j) a in a\<lparr>ag_workers := (ag_workers a)[j := p]\<rparr>) else a
   | Tick now \<Rightarrow> emit (Gauges now) a
   | IssueTimeout \<Rightarrow> a\<lparr>ag_issueOver := True\<rparr>
   | CancelRun \<Rightarrow> a\<lparr>ag_cancelled := True\<rparr>
   | WatchRun \<Rightarrow> if run_over a then a\<lparr>ag_requestsOver := True\<rparr> else a)"

definition start_agent :: "agent_env \<Rightarrow> Target \<Rightarrow> RunConfig \<Rightarrow> nat \<Rightarrow> int \<Rightarrow> agent" where
  "start_agent e target config n now =
     \<lparr>ag_m = new_measurements now config, ag_slots = 0, ag_issueOver = False, ag_requestsOver = False,
      ag_cancelled = False, ag_main = RunTargetWithProgress e target config n, ag_gen = Halt, ag_workers = [],
      ag_log = []\<rparr>"

subsection \<open>Types of programs\<close>

text \<open>A worker, the issuer of a stage, and the main goroutine before the reset, with no stage open, and
  with a stage open.\<close>

datatype role = Worker | Issuer | Warmup | Idle | Staged

text \<open>What the main goroutine does after the warmup when the run is over already: no stage is opened.\<close>

inductive unissued :: "io \<Rightarrow> bool" where
  halt: "unissued Halt"
| phase: "unissued k \<Longrightarrow> unissued (SetPhase phase k)"
| target_load: "unissued k \<Longrightarrow> unissued (SetTargetLoad n k)"
| cooldown: "unissued k \<Longrightarrow> unissued (Cooldown d k)"
| over: "unissued (k True) \<Longrightarrow> unissued (Done RunCtx k)"

text \<open>\<open>ok p r own\<close>: the program keeps to the role, and ends the request it owns, if any, and each that it
  begins, exactly once before it begins another, stops, or waits for others.\<close>

primrec ok :: "io \<Rightarrow> role \<Rightarrow> attempt option \<Rightarrow> bool" where
  "ok Halt r own \<longleftrightarrow> own = None \<and> (r = Worker \<or> r = Idle)"
| "ok Panic r own \<longleftrightarrow> True"
| "ok Spent r own \<longleftrightarrow> own = None \<and> r \<in> {Worker, Issuer}"
| "ok (BackOff ctx k) r own \<longleftrightarrow> ok k r own"
| "ok (Done ctx k) r own \<longleftrightarrow> (\<forall>b. ok (k b) r own)"
| "ok (NextWork config k) r own \<longleftrightarrow> (\<forall>w. ok (k w) r own)"
| "ok (NextUser journeys k) r own \<longleftrightarrow> (\<forall>j. ok (k j) r own)"
| "ok (Begin name scheduled k) r own \<longleftrightarrow> own = None \<and> (r = Worker \<or> r = Warmup) \<and> (\<forall>call. ok (k call) r (Some call))"
| "ok (AddActive d k) r own \<longleftrightarrow> ok k r own"
| "ok (AddWaiting d k) r own \<longleftrightarrow> ok k r own"
| "ok (Send request k) r own \<longleftrightarrow> (\<forall>reply. ok (k reply) r own)"
| "ok (Now k) r own \<longleftrightarrow> (\<forall>now. ok (k now) r own)"
| "ok (RecordSuccess call latency timing status usage config k) r own \<longleftrightarrow> own = Some call \<and> ok k r None"
| "ok (RecordHTTPFailure call latency status message k) r own \<longleftrightarrow> own = Some call \<and> ok k r None"
| "ok (RecordTransportError call message k) r own \<longleftrightarrow> own = Some call \<and> ok k r None"
| "ok (RecordAborted call ctx err k) r own \<longleftrightarrow> own = Some call \<and> ok k r None"
| "ok (Wait d k) r own \<longleftrightarrow> (\<forall>b. ok (k b) r own)"
| "ok (TakeSlot limit k) r own \<longleftrightarrow> (\<forall>b. ok (k b) r own)"
| "ok (FreeSlot k) r own \<longleftrightarrow> ok k r own"
| "ok (RecordDropped k) r own \<longleftrightarrow> ok k r own"
| "ok (SessionStart k) r own \<longleftrightarrow> ok k r own"
| "ok (SessionEnd completed k) r own \<longleftrightarrow> ok k r own"
| "ok (Go p k) r own \<longleftrightarrow> r = Issuer \<and> own = None \<and> ok p Worker None \<and> ok k r None"
| "ok (WaitGroup k) r own \<longleftrightarrow> r = Issuer \<and> own = None \<and> is_Halt k"
| "ok (Reset k) r own \<longleftrightarrow> r = Warmup \<and> own = None \<and> ok k Idle None \<and> unissued k"
| "ok (SetPhase phase k) r own \<longleftrightarrow> ok k r own"
| "ok (SetTargetLoad n k) r own \<longleftrightarrow> ok k r own"
| "ok (OpenStage p k) r own \<longleftrightarrow> r = Idle \<and> own = None \<and> ok p Issuer None \<and> ok k Staged None"
| "ok (AwaitStage k) r own \<longleftrightarrow> r = Staged \<and> own = None \<and> ok (k True) Idle None \<and> ok (k False) Staged None"
| "ok (AwaitDrain k) r own \<longleftrightarrow> r = Staged \<and> own = None \<and> ok (k True) Idle None \<and> ok (k False) Staged None"
| "ok (CancelRequests k) r own \<longleftrightarrow> ok k r own"
| "ok (AwaitDone k) r own \<longleftrightarrow> r = Staged \<and> own = None \<and> ok k Idle None"
| "ok (AddDrained d k) r own \<longleftrightarrow> ok k r own"
| "ok (Cooldown d k) r own \<longleftrightarrow> ok k r own"

subsection \<open>The programs of the agent are well typed\<close>

lemma ok_handle_reply:
  assumes "\<And>res. ok (return res) r None"
  shows "ok (handle_reply e ctx target config call pause reply return) r (Some call)"
  using assms by (auto simp: handle_reply_def Let_def split: reply.split option.split prod.split)

lemma ok_doRequest:
  assumes "\<And>res. ok (return res) r None" "r = Worker \<or> r = Warmup"
  shows "ok (doRequest e ctx target config history scheduled return) r None"
  using assms by (auto simp: doRequest_def Let_def intro!: ok_handle_reply split: option.split)

lemma ok_think: "(\<And>b. ok (return b) r own) \<Longrightarrow> ok (think wait return) r own"
  by (simp add: think_def)

lemma ok_session_loop:
  "ok return Worker None \<Longrightarrow> ok (session_loop e target config scheduled completed history tasks return) Worker None"
  by (induction tasks arbitrary: scheduled completed history)
    (auto simp: Let_def intro!: ok_doRequest ok_think split: option.split)

lemma ok_runAgentSession: "ok return Worker None \<Longrightarrow> ok (runAgentSession e target config scheduled return) Worker None"
  by (simp add: runAgentSession_def ok_session_loop)

lemma ok_runJourney: "ok return Worker None \<Longrightarrow> ok (runJourney e target config scheduled return) Worker None"
  by (auto simp: runJourney_def Let_def intro!: ok_runAgentSession ok_doRequest ok_think split: option.split)

lemma ok_rounds: "(\<And>k. ok k Worker None \<Longrightarrow> ok (body k) Worker None) \<Longrightarrow> ok (rounds body n) Worker None"
  by (induction n) simp_all

lemma ok_session_rounds:
  "(\<And>k. ok k Worker None \<Longrightarrow> ok (body k) Worker None) \<Longrightarrow> ok (session_rounds body config sessions n) Worker None"
  by (induction n arbitrary: sessions) simp_all

lemma ok_runWorker: "ok (runWorker e target config n) Worker None"
  by (auto simp: runWorker_def intro!: ok_rounds ok_session_rounds ok_runJourney ok_runAgentSession ok_doRequest ok_think)

lemma ok_go_workers: "ok p Worker None \<Longrightarrow> ok (go_workers i p) Issuer None"
  by (induction i) simp_all

lemma ok_rps_loop: "ok (rps_loop e target config schedule dueAt n) Issuer None"
  by (induction n arbitrary: schedule dueAt) (auto simp: Let_def intro!: ok_runJourney split: prod.split)

lemma ok_trace_loop: "ok (trace_loop e target config started events) Issuer None"
  by (induction events) (auto simp: Let_def intro!: ok_runJourney)

lemma ok_runStage: "ok return Idle None \<Longrightarrow> ok (runStage e target config n return) Idle None"
  by (simp add: runStage_def Let_def runTrace_def runRPS_def runVUs_def ok_rps_loop ok_trace_loop ok_go_workers ok_runWorker)

lemma ok_run_stages: "ok return Idle None \<Longrightarrow> ok (run_stages e target config n stages return) Idle None"
  by (induction stages) (simp_all add: ok_runStage)

lemma unissued_run_stages: "unissued return \<Longrightarrow> unissued (run_stages e target config n stages return)"
  by (cases stages) (auto intro: unissued.over)

lemma ok_warmups: "ok return Warmup None \<Longrightarrow> ok (warmups e target config i return) Warmup None"
  by (induction i) (simp_all add: ok_doRequest)

lemma ok_run: "ok (RunTargetWithProgress e target config n) Warmup None"
  unfolding RunTargetWithProgress_def Let_def
  by (intro ok_warmups) (auto simp: ok_run_stages intro!: unissued.intros unissued_run_stages)

subsection \<open>Well-typed goroutines produce executions\<close>

definition owned :: "attempt option \<Rightarrow> attempt multiset" where
  "owned own = (case own of None \<Rightarrow> {#} | Some call \<Rightarrow> {#call#})"

lemma owned_simps [simp]: "owned None = {#}" "owned (Some call) = {#call#}"
  by (simp_all add: owned_def)

text \<open>Operations that concern no other goroutine.\<close>

definition alone :: "io \<Rightarrow> bool" where
  "alone p \<longleftrightarrow> (case p of Go _ _ \<Rightarrow> False | WaitGroup _ \<Rightarrow> False | Reset _ \<Rightarrow> False | OpenStage _ _ \<Rightarrow> False
     | AwaitStage _ \<Rightarrow> False | AwaitDrain _ \<Rightarrow> False | AwaitDone _ \<Rightarrow> False | _ \<Rightarrow> True)"

lemma emit_sel [simp]: "ag_workers (emit e a) = ag_workers a" "ag_gen (emit e a) = ag_gen a" "ag_main (emit e a) = ag_main a"
  by (simp_all add: emit_def)

definition runs :: "measurements \<Rightarrow> attempt multiset \<Rightarrow> agent \<Rightarrow> bool" where
  "runs m0 flight a \<longleftrightarrow> agent_run m0 (ag_log a) flight (ag_m a)"

definition quiet :: "agent_event \<Rightarrow> bool" where
  "quiet e \<longleftrightarrow> ended e = None \<and> \<not> is_issue e"

lemma quiet_simps [simp]: "quiet DropArrival" "quiet StartSession" "quiet (CompleteSession b)" "quiet (Gauges now)"
    "quiet (Backoff f)" "quiet (Active d)" "quiet (Waiting d)" "quiet (TargetLoad n)" "quiet (Phase ph)" "quiet (Drained d)"
    "quiet NextSequence" "quiet NextJourney"
  by (simp_all add: quiet_def is_issue_def)

lemma runs_quiet [simp]: "quiet e \<Longrightarrow> runs m0 flight a \<Longrightarrow> runs m0 flight (emit e a)"
  unfolding runs_def quiet_def emit_def by (simp add: agent_run.other)

lemma runs_issue: "runs m0 flight a \<Longrightarrow>
    runs m0 (add_mset (fst (beginAttempt name scheduled now (ag_m a))) flight) (emit (Issue name scheduled now) a)"
  using agent_run.issue [of m0 "ag_log a" flight "ag_m a" name scheduled now] by (simp add: runs_def emit_def)

lemma runs_finish: "runs m0 (add_mset call flight) a \<Longrightarrow> ended e = Some (call, k) \<Longrightarrow> runs m0 flight (emit e a)"
  using agent_run.finish [of m0 "ag_log a" "add_mset call flight" "ag_m a" e call k] by (simp add: runs_def emit_def)

lemma runs_frame [simp]: "runs m0 flight (a\<lparr>ag_slots := n\<rparr>) = runs m0 flight a"
    "runs m0 flight (a\<lparr>ag_requestsOver := b\<rparr>) = runs m0 flight a" "runs m0 flight (a\<lparr>ag_issueOver := b\<rparr>) = runs m0 flight a"
    "runs m0 flight (a\<lparr>ag_cancelled := b\<rparr>) = runs m0 flight a" "runs m0 flight (a\<lparr>ag_main := q\<rparr>) = runs m0 flight a"
    "runs m0 flight (a\<lparr>ag_gen := q\<rparr>) = runs m0 flight a" "runs m0 flight (a\<lparr>ag_workers := ps\<rparr>) = runs m0 flight a"
  by (simp_all add: runs_def)

lemma advance_alone:
  assumes "alone p" "ok p r own" "runs m0 (owned own + F) a" "advance i p a = (p', a')"
  shows "\<exists>own'. ok p' r own' \<and> runs m0 (owned own' + F) a' \<and>
    (own = None \<and> r \<noteq> Worker \<and> r \<noteq> Warmup \<longrightarrow> own' = None) \<and>
    ag_workers a' = ag_workers a \<and> ag_gen a' = ag_gen a \<and> ag_main a' = ag_main a"
proof (cases p)
  case (Begin name scheduled k)
  then have own: "own = None" "r = Worker \<or> r = Warmup" and k: "\<forall>call. ok (k call) r (Some call)"
    using assms(2) by simp_all
  from runs_issue [OF assms(3), of name scheduled "in_now i"] k show ?thesis
    using assms(4) by (intro exI [of _ "Some (fst (beginAttempt name scheduled (in_now i) (ag_m a)))"])
      (auto simp: Begin own)
next
  case (RecordSuccess call latency timing status usage config k)
  with assms show ?thesis by (intro exI [of _ None]) (auto intro!: runs_finish)
next
  case (RecordHTTPFailure call latency status message k)
  with assms show ?thesis by (intro exI [of _ None]) (auto intro!: runs_finish)
next
  case (RecordTransportError call message k)
  with assms show ?thesis by (intro exI [of _ None]) (auto intro!: runs_finish)
next
  case (RecordAborted call ctx err k)
  with assms show ?thesis by (intro exI [of _ None]) (auto intro!: runs_finish)
qed (use assms in \<open>auto intro!: exI [of _ own] simp: alone_def Let_def split: if_splits\<close>)

definition flight_of :: "attempt option list \<Rightarrow> attempt multiset" where
  "flight_of owns = sum_list (map owned owns)"

lemma flight_of_split: "j < length owns \<Longrightarrow> flight_of owns = owned (owns ! j) + flight_of (owns[j := None])"
proof (induction owns arbitrary: j)
  case (Cons own owns)
  then show ?case by (cases j) (simp_all add: flight_of_def ac_simps)
qed simp

lemma flight_of_update: "j < length owns \<Longrightarrow> flight_of (owns[j := own]) = owned own + flight_of (owns[j := None])"
  using flight_of_split [of j "owns[j := own]"] by simp

lemma done_flight: "list_all2 (\<lambda>p own. ok p Worker own) ps owns \<Longrightarrow> list_all is_Halt ps \<Longrightarrow> flight_of owns = {#}"
  by (induction rule: list_all2_induct) (auto simp: flight_of_def)

text \<open>The invariant: who owns which request, and that a stage has been awaited before the next begins.\<close>

definition agent_inv :: "agent \<Rightarrow> measurements \<Rightarrow> role \<Rightarrow> attempt option \<Rightarrow> attempt option list \<Rightarrow> bool" where
  "agent_inv a m0 r own owns \<longleftrightarrow>
     ok (ag_main a) r own \<and> r \<in> {Warmup, Idle, Staged} \<and>
     list_all2 (\<lambda>p own. ok p Worker own) (ag_workers a) owns \<and>
     runs m0 (owned own + flight_of owns) a \<and>
     (r = Warmup \<or> (\<exists>t m1. m0 = reset t m1)) \<and>
     (ag_gen a = Halt \<and> workers_done a \<or> r = Staged \<and> ok (ag_gen a) Issuer None)"

lemma inv_worker:
  assumes "agent_inv a m0 r own owns" "j < length (ag_workers a)"
  shows "\<exists>owns'. agent_inv (agent_move a (MoveWorker j i)) m0 r own owns'"
proof -
  have len: "length owns = length (ag_workers a)" using assms(1) by (auto simp: agent_inv_def dest: list_all2_lengthD)
  have p: "ok (ag_workers a ! j) Worker (owns ! j)" using assms by (auto simp: agent_inv_def dest: list_all2_nthD)
  then have "alone (ag_workers a ! j)" by (cases "ag_workers a ! j") (simp_all add: alone_def)
  have run: "runs m0 (owned (owns ! j) + (owned own + flight_of (owns[j := None]))) a"
    using assms flight_of_split [of j owns] len by (simp add: agent_inv_def ac_simps)
  obtain p' a' where adv: "advance i (ag_workers a ! j) a = (p', a')" by (rule prod.exhaust)
  from advance_alone [OF \<open>alone _\<close> p run adv] obtain own' where
    o: "ok p' Worker own'" "runs m0 (owned own' + (owned own + flight_of (owns[j := None]))) a'"
      "ag_workers a' = ag_workers a" "ag_gen a' = ag_gen a" "ag_main a' = ag_main a" by blast
  have halted: "workers_done a \<Longrightarrow> p' = Halt"
    using adv assms(2) by (auto simp: workers_done_def list_all_length)
  have "agent_inv (a'\<lparr>ag_workers := (ag_workers a)[j := p']\<rparr>) m0 r own (owns[j := own'])"
    using assms(1) o len assms(2) flight_of_update [of j owns own'] halted
    by (auto simp: agent_inv_def list_all2_update_cong workers_done_def list_all_length nth_list_update ac_simps)
  then show ?thesis using assms(2) o(3) by (auto simp: agent_move_def adv)
qed

lemma inv_gen:
  assumes "agent_inv a m0 r own owns"
  shows "\<exists>owns'. agent_inv (agent_move a (MoveGen i)) m0 r own owns'"
proof (cases "ag_gen a = Halt")
  case True
  then have "agent_move a (MoveGen i) = a" by (simp add: agent_move_def)
  then show ?thesis using assms by auto
next
  case False
  then have g: "r = Staged" "ok (ag_gen a) Issuer None" and run: "runs m0 (owned None + (owned own + flight_of owns)) a"
    using assms by (auto simp: agent_inv_def)
  obtain p' a' where adv: "advance i (ag_gen a) a = (p', a')" by (rule prod.exhaust)
  show ?thesis
  proof (cases "alone (ag_gen a)")
    case True
    from advance_alone [OF True g(2) run adv] obtain own' where
      o: "ok p' Issuer own'" "runs m0 (owned own' + (owned own + flight_of owns)) a'" "own' = None"
        "ag_workers a' = ag_workers a" "ag_main a' = ag_main a" by auto
    have "agent_inv (agent_move a (MoveGen i)) m0 r own owns"
      using assms g o by (auto simp: agent_inv_def agent_move_def adv workers_done_def)
    then show ?thesis ..
  next
    case False
    then consider (go) p k where "ag_gen a = Go p k" | (wait) "ag_gen a = WaitGroup Halt"
      using g(2) by (cases "ag_gen a") (auto simp: alone_def)
    then show ?thesis
    proof cases
      case go
      then have "agent_inv (agent_move a (MoveGen i)) m0 r own (owns @ [None])"
        using assms g by (auto simp: agent_inv_def agent_move_def flight_of_def workers_done_def intro!: list_all2_appendI)
      then show ?thesis ..
    next
      case wait
      then have "agent_inv (agent_move a (MoveGen i)) m0 r own owns"
        using assms g by (auto simp: agent_inv_def agent_move_def workers_done_def)
      then show ?thesis ..
    qed
  qed
qed

lemma inv_idle:
  assumes "agent_inv a m0 r own owns" "r \<noteq> Staged \<or> ag_gen a = Halt"
  shows "ag_gen a = Halt" "workers_done a" "flight_of owns = {#}"
proof -
  show "ag_gen a = Halt" "workers_done a" using assms by (auto simp: agent_inv_def)
  then show "flight_of owns = {#}" using assms(1) done_flight by (auto simp: agent_inv_def workers_done_def)
qed

lemma inv_main:
  assumes "agent_inv a m0 r own owns"
  shows "\<exists>m0' r' own' owns'. agent_inv (agent_move a (MoveMain i)) m0' r' own' owns'"
proof -
  have main: "ok (ag_main a) r own" "r \<in> {Warmup, Idle, Staged}" and run: "runs m0 (owned own + flight_of owns) a"
    using assms by (simp_all add: agent_inv_def)
  obtain p' a' where adv: "advance i (ag_main a) a = (p', a')" by (rule prod.exhaust)
  show ?thesis
  proof (cases "alone (ag_main a)")
    case True
    from advance_alone [OF True main(1) run adv] obtain own' where
      o: "ok p' r own'" "runs m0 (owned own' + flight_of owns) a'" "ag_workers a' = ag_workers a"
        "ag_gen a' = ag_gen a" by auto
    have "agent_inv (agent_move a (MoveMain i)) m0 r own' owns"
      using assms o by (auto simp: agent_inv_def agent_move_def adv workers_done_def)
    then show ?thesis by blast
  next
    case False
    then consider (reset) k where "ag_main a = Reset k" | (open_stage) p k where "ag_main a = OpenStage p k"
      | (await) k where "ag_main a = AwaitStage k" | (drain) k where "ag_main a = AwaitDrain k"
      | (await_done) k where "ag_main a = AwaitDone k"
      using main by (cases "ag_main a") (auto simp: alone_def)
    then show ?thesis
    proof cases
      case reset
      then have r: "r = Warmup" "own = None" "ok k Idle None" using main by simp_all
      note idle = inv_idle [OF assms]
      have "agent_inv (agent_move a (MoveMain i)) (reset (in_now i) (ag_m a)) Idle None owns"
        using assms r idle reset by (auto simp: agent_inv_def agent_move_def workers_done_def runs_def agent_run.start)
      then show ?thesis by blast
    next
      case open_stage
      then have r: "r = Idle" "own = None" "ok k Staged None" "ok p Issuer None" using main by simp_all
      have "agent_inv (agent_move a (MoveMain i)) m0 Staged None owns"
        using assms r open_stage by (auto simp: agent_inv_def agent_move_def workers_done_def runs_def)
      then show ?thesis by blast
    next
      case await
      then have r: "r = Staged" "own = None" "ok (k True) Idle None" "ok (k False) Staged None" using main by simp_all
      have "agent_inv (agent_move a (MoveMain i)) m0 (if p' = k True \<and> ag_gen a = Halt then Idle else Staged) None owns"
        using assms r await inv_idle [OF assms] adv
        by (auto simp: agent_inv_def agent_move_def workers_done_def split: if_splits)
      then show ?thesis by blast
    next
      case drain
      then have r: "r = Staged" "own = None" "ok (k True) Idle None" "ok (k False) Staged None" using main by simp_all
      have "agent_inv (agent_move a (MoveMain i)) m0 (if p' = k True \<and> ag_gen a = Halt then Idle else Staged) None owns"
        using assms r drain inv_idle [OF assms] adv
        by (auto simp: agent_inv_def agent_move_def workers_done_def split: if_splits)
      then show ?thesis by blast
    next
      case await_done
      then have r: "r = Staged" "own = None" "ok k Idle None" using main by simp_all
      have "agent_inv (agent_move a (MoveMain i)) m0 (if ag_gen a = Halt then Idle else Staged) None owns"
        using assms r await_done inv_idle [OF assms] adv
        by (auto simp: agent_inv_def agent_move_def workers_done_def split: if_splits)
      then show ?thesis by blast
    qed
  qed
qed

definition well_typed :: "agent \<Rightarrow> bool" where
  "well_typed a \<longleftrightarrow> (\<exists>m0 r own owns. agent_inv a m0 r own owns)"

lemma well_typed_move:
  assumes "well_typed a"
  shows "well_typed (agent_move a mv)"
proof -
  from assms obtain m0 r own owns where inv: "agent_inv a m0 r own owns" unfolding well_typed_def by blast
  have same: "well_typed (agent_move a mv)" if "agent_inv (agent_move a mv) m0 r own owns"
    using that unfolding well_typed_def by blast
  show ?thesis
  proof (cases mv)
    case (MoveMain i)
    then show ?thesis using inv_main [OF inv, of i] by (simp add: well_typed_def)
  next
    case (MoveGen i)
    then show ?thesis using inv_gen [OF inv, of i] unfolding well_typed_def by blast
  next
    case (MoveWorker j i)
    show ?thesis
    proof (cases "j < length (ag_workers a)")
      case True
      then show ?thesis using inv_worker [OF inv True, of i] unfolding well_typed_def MoveWorker by blast
    next
      case False
      then show ?thesis using assms by (simp add: MoveWorker agent_move_def)
    qed
  qed (rule same, use inv in \<open>simp add: agent_move_def agent_inv_def workers_done_def\<close>)+
qed

lemma well_typed_moves: "well_typed a \<Longrightarrow> well_typed (foldl agent_move a moves)"
  by (induction moves arbitrary: a) (simp_all add: well_typed_move)

lemma well_typed_start: "well_typed (start_agent e target config n now)"
proof -
  have "agent_inv (start_agent e target config n now) (new_measurements now config) Warmup None []"
    by (simp add: agent_inv_def start_agent_def ok_run runs_def flight_of_def agent_run.start workers_done_def)
  then show ?thesis unfolding well_typed_def by blast
qed

text \<open>When the main goroutine has ended, nothing is in flight and the measurements were reset.\<close>

lemma finished_run:
  assumes "well_typed a" "ag_main a = Halt"
  shows "\<exists>t m1. agent_run (reset t m1) (ag_log a) {#} (ag_m a)"
proof -
  from assms(1) obtain m0 r own owns where inv: "agent_inv a m0 r own owns" unfolding well_typed_def by blast
  then have r: "r = Idle" "own = None" using assms(2) by (auto simp: agent_inv_def)
  have "flight_of owns = {#}" by (rule inv_idle(3) [OF inv]) (simp add: r)
  then show ?thesis using inv r by (auto simp: agent_inv_def runs_def)
qed

end
