(* ===== verification/Agent_Liveness.thy ===== *)
theory Agent_Liveness
  imports Agent_Goroutines
begin

text \<open>
  Why a run of the agent can always reach its end. \<open>ends_soon p\<close> says that a goroutine with the program \<open>p\<close>
  neither panics nor uses up the rounds that are written out once the time of its stage is up and its
  timers are late; \<open>lasts m p\<close> that this is so after each of its next \<open>m\<close> operations. Goroutines that end
  let the wait groups and channels go on, up to the end of the main goroutine.
\<close>

subsection \<open>Programs that end\<close>

text \<open>What a goroutine does next, and what it starts.\<close>

fun nexts :: "io \<Rightarrow> io set" where
  "nexts Halt = {}"
| "nexts Panic = {}"
| "nexts Spent = {}"
| "nexts (BackOff ctx k) = {k}"
| "nexts (Done ctx k) = range k"
| "nexts (NextWork config k) = range (\<lambda>q. k (nextWorkload config q))"
| "nexts (NextUser journeys k) = range (\<lambda>q. k (nextJourney journeys q))"
| "nexts (Begin name scheduled k) = range k"
| "nexts (AddActive d k) = {k}"
| "nexts (AddWaiting d k) = {k}"
| "nexts (Send request k) = range k"
| "nexts (Now k) = range k"
| "nexts (RecordSuccess call latency timing status usage config k) = {k}"
| "nexts (RecordHTTPFailure call latency status message k) = {k}"
| "nexts (RecordTransportError call message k) = {k}"
| "nexts (RecordAborted call ctx err k) = {k}"
| "nexts (Wait d k) = range k"
| "nexts (TakeSlot limit k) = range k"
| "nexts (FreeSlot k) = {k}"
| "nexts (RecordDropped k) = {k}"
| "nexts (SessionStart k) = {k}"
| "nexts (SessionEnd completed k) = {k}"
| "nexts (Go p k) = {p, k}"
| "nexts (WaitGroup k) = {k}"
| "nexts (Reset k) = {k}"
| "nexts (SetPhase phase k) = {k}"
| "nexts (SetTargetLoad n k) = {k}"
| "nexts (OpenStage p k) = {p, k}"
| "nexts (AwaitStage k) = range k"
| "nexts (AwaitDrain k) = range k"
| "nexts (CancelRequests k) = {k}"
| "nexts (AwaitDone k) = {k}"
| "nexts (AddDrained d k) = {k}"
| "nexts (Cooldown d k) = {k}"

primrec ends_soon :: "io \<Rightarrow> bool" where
  "ends_soon Halt \<longleftrightarrow> True"
| "ends_soon Panic \<longleftrightarrow> False"
| "ends_soon Spent \<longleftrightarrow> False"
| "ends_soon (BackOff ctx k) \<longleftrightarrow> ends_soon k"
| "ends_soon (Done ctx k) \<longleftrightarrow> (\<forall>b. ctx = IssueCtx \<and> \<not> b \<or> ends_soon (k b))"
| "ends_soon (NextWork config k) \<longleftrightarrow> (\<forall>q. ends_soon (k (nextWorkload config q)))"
| "ends_soon (NextUser journeys k) \<longleftrightarrow> (\<forall>q. ends_soon (k (nextJourney journeys q)))"
| "ends_soon (Begin name scheduled k) \<longleftrightarrow> (\<forall>call. ends_soon (k call))"
| "ends_soon (AddActive d k) \<longleftrightarrow> ends_soon k"
| "ends_soon (AddWaiting d k) \<longleftrightarrow> ends_soon k"
| "ends_soon (Send request k) \<longleftrightarrow> (\<forall>reply. ends_soon (k reply))"
| "ends_soon (Now k) \<longleftrightarrow> (\<forall>now. ends_soon (k now))"
| "ends_soon (RecordSuccess call latency timing status usage config k) \<longleftrightarrow> ends_soon k"
| "ends_soon (RecordHTTPFailure call latency status message k) \<longleftrightarrow> ends_soon k"
| "ends_soon (RecordTransportError call message k) \<longleftrightarrow> ends_soon k"
| "ends_soon (RecordAborted call ctx err k) \<longleftrightarrow> ends_soon k"
| "ends_soon (Wait d k) \<longleftrightarrow> ends_soon (k False)"
| "ends_soon (TakeSlot limit k) \<longleftrightarrow> (\<forall>b. ends_soon (k b))"
| "ends_soon (FreeSlot k) \<longleftrightarrow> ends_soon k"
| "ends_soon (RecordDropped k) \<longleftrightarrow> ends_soon k"
| "ends_soon (SessionStart k) \<longleftrightarrow> ends_soon k"
| "ends_soon (SessionEnd completed k) \<longleftrightarrow> ends_soon k"
| "ends_soon (Go p k) \<longleftrightarrow> ends_soon p \<and> ends_soon k"
| "ends_soon (WaitGroup k) \<longleftrightarrow> ends_soon k"
| "ends_soon (Reset k) \<longleftrightarrow> ends_soon k"
| "ends_soon (SetPhase phase k) \<longleftrightarrow> ends_soon k"
| "ends_soon (SetTargetLoad n k) \<longleftrightarrow> ends_soon k"
| "ends_soon (OpenStage p k) \<longleftrightarrow> ends_soon p \<and> ends_soon k"
| "ends_soon (AwaitStage k) \<longleftrightarrow> (\<forall>b. ends_soon (k b))"
| "ends_soon (AwaitDrain k) \<longleftrightarrow> (\<forall>b. ends_soon (k b))"
| "ends_soon (CancelRequests k) \<longleftrightarrow> ends_soon k"
| "ends_soon (AwaitDone k) \<longleftrightarrow> ends_soon k"
| "ends_soon (AddDrained d k) \<longleftrightarrow> ends_soon k"
| "ends_soon (Cooldown d k) \<longleftrightarrow> ends_soon k"

fun lasts :: "nat \<Rightarrow> io \<Rightarrow> bool" where
  "lasts 0 p \<longleftrightarrow> ends_soon p"
| "lasts (Suc m) p \<longleftrightarrow> ends_soon p \<and> (\<forall>q \<in> nexts p. lasts m q)"

lemma lasts_ends: "lasts m p \<Longrightarrow> ends_soon p"
  by (cases m) simp_all

lemma lasts_Suc: "lasts (Suc m) p \<Longrightarrow> lasts m p"
proof (induction m arbitrary: p)
  case (Suc m)
  then show ?case by (metis lasts.simps(2))
qed simp

lemma lasts_into:
  assumes "ends_soon p" "\<forall>q \<in> nexts p. lasts m q"
  shows "lasts m p"
proof (cases m)
  case (Suc m')
  then show ?thesis using assms lasts_Suc by simp
qed (simp add: assms)

text \<open>Padding that can be built always gives a request, and a list of users always gives a user.\<close>

lemma pick_weighted_in: "pick_weighted weight pick xs = Some x \<Longrightarrow> x \<in> set xs"
  by (induction xs arbitrary: pick) (auto simp: Let_def split: if_splits)

lemma nextJourney_in:
  assumes "journeys \<noteq> []"
  shows "\<exists>j \<in> set journeys. nextJourney journeys q = Some j"
  using assms pick_weighted_in by (fastforce simp: nextJourney_def Let_def neq_Nil_conv split: option.split)

lemma lasts_next_work:
  assumes "padding_ok config" "\<And>w. lasts m (k (Some w))"
  shows "lasts m (NextWork config k)"
proof (rule lasts_into)
  have each: "lasts m (k (nextWorkload config q))" for q
    using nextWorkload_some [OF assms(1), of q] assms(2) by metis
  then show "ends_soon (NextWork config k)" "\<forall>p \<in> nexts (NextWork config k). lasts m p"
    by (auto intro: lasts_ends)
qed

lemma lasts_next_user:
  assumes "journeys \<noteq> []" "\<And>j. j \<in> set journeys \<Longrightarrow> lasts m (k (Some j))"
  shows "lasts m (NextUser journeys k)"
proof (rule lasts_into)
  have each: "lasts m (k (nextJourney journeys q))" for q
    using nextJourney_in [OF assms(1), of q] assms(2) by metis
  then show "ends_soon (NextUser journeys k)" "\<forall>p \<in> nexts (NextUser journeys k). lasts m p"
    by (auto intro: lasts_ends)
qed

lemma lasts_simple:
  "lasts m Halt"
  "lasts m k \<Longrightarrow> lasts m (BackOff ctx k)"
  "lasts m k \<Longrightarrow> lasts m (AddActive d k)"
  "lasts m k \<Longrightarrow> lasts m (AddWaiting d k)"
  "lasts m k \<Longrightarrow> lasts m (RecordSuccess call latency timing status usage config k)"
  "lasts m k \<Longrightarrow> lasts m (RecordHTTPFailure call latency status message k)"
  "lasts m k \<Longrightarrow> lasts m (RecordTransportError call message k)"
  "lasts m k \<Longrightarrow> lasts m (RecordAborted call ctx err k)"
  "lasts m k \<Longrightarrow> lasts m (FreeSlot k)"
  "lasts m k \<Longrightarrow> lasts m (RecordDropped k)"
  "lasts m k \<Longrightarrow> lasts m (SessionStart k)"
  "lasts m k \<Longrightarrow> lasts m (SessionEnd completed k)"
  "lasts m p \<Longrightarrow> lasts m k \<Longrightarrow> lasts m (Go p k)"
  "lasts m k \<Longrightarrow> lasts m (WaitGroup k)"
  "lasts m k \<Longrightarrow> lasts m (Reset k)"
  "lasts m k \<Longrightarrow> lasts m (SetPhase phase k)"
  "lasts m k \<Longrightarrow> lasts m (SetTargetLoad n k)"
  "lasts m p \<Longrightarrow> lasts m k \<Longrightarrow> lasts m (OpenStage p k)"
  "lasts m k \<Longrightarrow> lasts m (CancelRequests k)"
  "lasts m k \<Longrightarrow> lasts m (AwaitDone k)"
  "lasts m k \<Longrightarrow> lasts m (AddDrained d k)"
  "lasts m k \<Longrightarrow> lasts m (Cooldown d k)"
  by (rule lasts_into; simp add: lasts_ends)+

lemma lasts_branch:
  "(\<And>b. lasts m (k1 b)) \<Longrightarrow> lasts m (Done ctx k1)"
  "(\<And>call. lasts m (k2 call)) \<Longrightarrow> lasts m (Begin name scheduled k2)"
  "(\<And>reply. lasts m (k3 reply)) \<Longrightarrow> lasts m (Send request k3)"
  "(\<And>now. lasts m (k4 now)) \<Longrightarrow> lasts m (Now k4)"
  "(\<And>b. lasts m (k1 b)) \<Longrightarrow> lasts m (Wait d k1)"
  "(\<And>b. lasts m (k1 b)) \<Longrightarrow> lasts m (TakeSlot limit k1)"
  "(\<And>b. lasts m (k1 b)) \<Longrightarrow> lasts m (AwaitStage k1)"
  "(\<And>b. lasts m (k1 b)) \<Longrightarrow> lasts m (AwaitDrain k1)"
  by (rule lasts_into; auto intro: lasts_ends)+

lemmas lasts_intros = lasts_simple lasts_branch lasts_next_work lasts_next_user

text \<open>A loop with \<open>n + 1\<close> rounds written out lasts for \<open>n\<close> operations.\<close>

lemma lasts_rounds: "(\<And>m k. lasts m k \<Longrightarrow> lasts m (body k)) \<Longrightarrow> lasts n (rounds body (Suc n))"
  by (induction n) (auto intro: lasts_simple(1))

lemma lasts_session_rounds:
  "(\<And>m k. lasts m k \<Longrightarrow> lasts m (body k)) \<Longrightarrow> lasts n (session_rounds body config sessions (Suc n))"
  by (induction n arbitrary: sessions) (auto intro: lasts_simple(1))

subsection \<open>One more operation\<close>

lemma advance_next: "fst (advance i p a) \<in> insert p (nexts p)"
  by (cases p) (auto simp: Let_def)

lemma lasts_advance:
  assumes "lasts (Suc m) p"
  shows "lasts m (fst (advance i p a))"
  using advance_next [of i p a] assms lasts_Suc [OF assms] by auto

lemma ends_advance:
  assumes "ends_soon p" "ag_issueOver a" "\<not> in_flag i"
  shows "ends_soon (fst (advance i p a))"
proof -
  have over: "ctx_done IssueCtx a" using assms(2) by (simp add: ctx_done_def)
  show ?thesis
  proof (cases p)
    case (Done ctx k)
    then have "ctx = IssueCtx \<and> \<not> ctx_done ctx a \<or> ends_soon (k (ctx_done ctx a))" using assms(1) by simp
    then show ?thesis using over Done by auto
  qed (use assms(1,3) over in \<open>simp_all add: Let_def\<close>)
qed

text \<open>A property of the programs of all goroutines.\<close>

definition everyone :: "(io \<Rightarrow> bool) \<Rightarrow> agent \<Rightarrow> bool" where
  "everyone P a \<longleftrightarrow> P (ag_main a) \<and> P (ag_gen a) \<and> list_all P (ag_workers a)"

text \<open>What an operation leaves to the other goroutines, with those it starts.\<close>

lemma advance_others:
  "ag_main (snd (advance i p a)) = ag_main a"
  "ag_gen (snd (advance i p a)) = ag_gen a \<or> (\<exists>k. p = OpenStage (ag_gen (snd (advance i p a))) k)"
  "ag_workers (snd (advance i p a)) = ag_workers a \<or> (\<exists>q k. p = Go q k \<and> ag_workers (snd (advance i p a)) = ag_workers a @ [q])"
  by (cases p; simp add: Let_def emit_def)+

lemma everyone_advance:
  assumes "everyone P a" "\<And>q k. p = Go q k \<or> p = OpenStage q k \<Longrightarrow> P q"
  shows "everyone P (snd (advance i p a))"
  using assms advance_others [of i p a] by (auto simp: everyone_def)

lemma everyone_move:
  assumes "everyone P a" "\<And>p i. P p \<Longrightarrow> Q (fst (advance i p a))" "\<And>p. P p \<Longrightarrow> Q p"
    "\<And>p q k. P p \<Longrightarrow> p = Go q k \<or> p = OpenStage q k \<Longrightarrow> Q q"
  shows "everyone Q (agent_move a mv)"
proof -
  have q: "everyone Q a" using assms(1,3) by (auto simp: everyone_def list_all_iff)
  have step: "Q (fst (advance i p a)) \<and> everyone Q (snd (advance i p a))" if "P p" for i p
    using assms(2,4) that everyone_advance [OF q, of p i] by blast
  show ?thesis
  proof (cases mv)
    case (MoveMain i)
    from step [of "ag_main a" i] assms(1) show ?thesis
      by (auto simp: MoveMain agent_move_def everyone_def split: prod.split)
  next
    case (MoveGen i)
    from step [of "ag_gen a" i] assms(1) show ?thesis
      by (auto simp: MoveGen agent_move_def everyone_def split: prod.split)
  next
    case (MoveWorker j i)
    show ?thesis
    proof (cases "j < length (ag_workers a)")
      case True
      then have "P (ag_workers a ! j)" using assms(1) by (simp add: everyone_def list_all_length)
      from step [OF this, of i] q True show ?thesis
        by (auto simp: MoveWorker agent_move_def everyone_def list_all_iff split: prod.split
            dest!: set_update_subset_insert [THEN subsetD])
    qed (use q in \<open>simp add: MoveWorker agent_move_def\<close>)
  qed (use q in \<open>simp_all add: agent_move_def everyone_def\<close>)
qed

lemma lasts_move: "everyone (lasts (Suc m)) a \<Longrightarrow> everyone (lasts m) (agent_move a mv)"
  by (rule everyone_move [of "lasts (Suc m)"]) (auto intro: lasts_advance lasts_Suc simp del: lasts.simps simp: lasts.simps(2))

lemma lasts_moves:
  assumes "everyone (lasts m) a" "length moves \<le> m"
  shows "everyone ends_soon (foldl agent_move a moves)"
  using assms
proof (induction moves arbitrary: a m)
  case Nil
  then show ?case by (auto simp: everyone_def list_all_iff intro: lasts_ends)
next
  case (Cons mv moves)
  then obtain m' where m: "m = Suc m'" by (cases m) auto
  from Cons.IH [OF lasts_move [OF Cons.prems(1) [unfolded m]]] show ?case using Cons.prems(2) m by simp
qed

subsection \<open>The wait groups and channels cannot block for ever\<close>

definition panicked :: "agent \<Rightarrow> bool" where
  "panicked a \<longleftrightarrow> Panic \<in> {ag_main a, ag_gen a} \<union> set (ag_workers a)"

lemma ends_not_panicked: "everyone ends_soon a \<Longrightarrow> \<not> panicked a"
  by (auto simp: everyone_def panicked_def list_all_iff)

text \<open>The input of the moves that finish a run: no reply, no randomness, and timers that are late.\<close>

definition late_input :: input where
  "late_input = \<lparr>in_now = 0, in_random = (\<lambda>n. 0), in_reply = SendFailed \<lparr>err_context = False, err_text = []\<rparr>, in_flag = False\<rparr>"

lemma late_flag [simp]: "\<not> in_flag late_input"
  by (simp add: late_input_def)

definition finishes :: "agent \<Rightarrow> (agent \<Rightarrow> bool) \<Rightarrow> bool" where
  "finishes a P \<longleftrightarrow> (\<exists>moves. P (foldl agent_move a moves))"

lemma finishes_now: "P a \<Longrightarrow> finishes a P"
  unfolding finishes_def by (rule exI [of _ "[]"]) simp

lemma finishes_move: "finishes (agent_move a mv) P \<Longrightarrow> finishes a P"
  unfolding finishes_def by (metis foldl_Cons)

lemma finishes_trans:
  assumes "finishes a P" "\<And>b. P b \<Longrightarrow> finishes b Q"
  shows "finishes a Q"
proof -
  from assms obtain moves moves' where "Q (foldl agent_move (foldl agent_move a moves) moves')"
    unfolding finishes_def by blast
  then have "Q (foldl agent_move a (moves @ moves'))" by simp
  then show ?thesis unfolding finishes_def by blast
qed

text \<open>An operation that does not have to wait goes on with a smaller program.\<close>

definition ready :: "input \<Rightarrow> io \<Rightarrow> agent \<Rightarrow> bool" where
  "ready i p a \<longleftrightarrow> (case p of Halt \<Rightarrow> False | Panic \<Rightarrow> False | Spent \<Rightarrow> False | WaitGroup _ \<Rightarrow> workers_done a
     | AwaitStage _ \<Rightarrow> ctx_done IssueCtx a | AwaitDrain _ \<Rightarrow> \<not> in_flag i
     | AwaitDone _ \<Rightarrow> is_Halt (ag_gen a) | _ \<Rightarrow> True)"

lemma ready_induct:
  assumes "\<And>p. (\<And>i a. ready i p a \<Longrightarrow> P (fst (advance i p a))) \<Longrightarrow> P p"
  shows "P p"
  by (induction p) (rule assms, auto simp: ready_def Let_def split: if_splits)+

lemma alone_ready: "alone p \<Longrightarrow> ends_soon p \<Longrightarrow> p = Halt \<or> ready i p a"
  by (cases p) (simp_all add: alone_def ready_def)

lemma advance_frame: "alone p \<Longrightarrow> ag_workers (snd (advance i p a)) = ag_workers a \<and>
    ag_gen (snd (advance i p a)) = ag_gen a \<and> ag_main (snd (advance i p a)) = ag_main a \<and>
    ag_issueOver (snd (advance i p a)) = ag_issueOver a"
  by (cases p) (simp_all add: alone_def Let_def emit_def)

lemma ok_advance: "alone p \<Longrightarrow> ok p r own \<Longrightarrow> \<exists>own'. ok (fst (advance i p a)) r own'"
  by (cases p) (auto simp: alone_def Let_def)

lemma worker_alone: "ok p Worker own \<Longrightarrow> alone p"
  by (cases p) (simp_all add: alone_def)

text \<open>A worker alone reaches its end when the time of its stage is up, and moves nothing else.\<close>

lemma worker_finishes:
  assumes "ag_workers a ! j = p" "ok p Worker own" "ends_soon p" "ag_issueOver a" "j < length (ag_workers a)"
  shows "finishes a (\<lambda>b. ag_workers b = (ag_workers a)[j := Halt] \<and> ag_gen b = ag_gen a \<and> ag_main b = ag_main a \<and>
    ag_issueOver b)"
  using assms
proof (induction p arbitrary: a own rule: ready_induct)
  case (1 p)
  note p = worker_alone [OF 1(3)]
  show ?case
  proof (cases "p = Halt")
    case True
    have "(ag_workers a)[j := p] = ag_workers a" using 1(2) list_update_id by metis
    then show ?thesis using True 1(5) by (intro finishes_now) auto
  next
    case False
    then have ready: "ready late_input p a" using alone_ready [OF p 1(4)] by blast
    let ?b = "agent_move a (MoveWorker j late_input)" and ?p = "fst (advance late_input p a)"
    note F = advance_frame [OF p, of late_input a]
    have b: "ag_workers ?b = (ag_workers a)[j := ?p]" "ag_gen ?b = ag_gen a" "ag_main ?b = ag_main a" "ag_issueOver ?b"
      using 1(2,5,6) F by (auto simp: agent_move_def split: prod.split)
    obtain own' where ok: "ok ?p Worker own'" using ok_advance [OF p 1(3)] by blast
    have "ends_soon ?p" using ends_advance [OF 1(4,5)] by simp
    from 1(1) [OF ready _ ok this b(4)] 1(6) b
    have "finishes ?b (\<lambda>c. ag_workers c = (ag_workers a)[j := Halt] \<and> ag_gen c = ag_gen a \<and> ag_main c = ag_main a \<and>
        ag_issueOver c)"
      by simp
    then show ?thesis by (rule finishes_move)
  qed
qed

definition workers_ok :: "agent \<Rightarrow> bool" where
  "workers_ok a \<longleftrightarrow> (\<forall>p \<in> set (ag_workers a). ends_soon p \<and> (\<exists>own. ok p Worker own))"

lemma workers_finish:
  assumes "workers_ok a" "ag_issueOver a"
  shows "finishes a (\<lambda>b. workers_done b \<and> ag_gen b = ag_gen a \<and> ag_main b = ag_main a \<and> ag_issueOver b)"
proof -
  have "n \<le> length (ag_workers a) \<Longrightarrow> finishes a (\<lambda>b. length (ag_workers b) = length (ag_workers a) \<and>
      ag_gen b = ag_gen a \<and> ag_main b = ag_main a \<and> ag_issueOver b \<and> (\<forall>j < n. ag_workers b ! j = Halt) \<and>
      (\<forall>j \<ge> n. j < length (ag_workers a) \<longrightarrow> ag_workers b ! j = ag_workers a ! j))" for n
  proof (induction n)
    case 0
    show ?case by (rule finishes_now) (simp add: assms)
  next
    case (Suc n)
    then have n: "n < length (ag_workers a)" by simp
    have "ends_soon (ag_workers a ! n) \<and> (\<exists>own. ok (ag_workers a ! n) Worker own)"
      using assms(1) nth_mem [OF n] unfolding workers_ok_def by (rule bspec)
    then obtain own where own: "ok (ag_workers a ! n) Worker own" "ends_soon (ag_workers a ! n)" by blast
    show ?case
    proof (rule finishes_trans [OF Suc.IH])
      fix b :: agent assume b: "length (ag_workers b) = length (ag_workers a) \<and> ag_gen b = ag_gen a \<and> ag_main b = ag_main a \<and>
        ag_issueOver b \<and> (\<forall>j < n. ag_workers b ! j = Halt) \<and>
        (\<forall>j \<ge> n. j < length (ag_workers a) \<longrightarrow> ag_workers b ! j = ag_workers a ! j)"
      then have "ag_workers b ! n = ag_workers a ! n" "ag_issueOver b" "n < length (ag_workers b)" using n by simp_all
      from worker_finishes [OF this(1) own this(2,3)]
      show "finishes b (\<lambda>c. length (ag_workers c) = length (ag_workers a) \<and> ag_gen c = ag_gen a \<and> ag_main c = ag_main a \<and>
        ag_issueOver c \<and> (\<forall>j < Suc n. ag_workers c ! j = Halt) \<and>
        (\<forall>j \<ge> Suc n. j < length (ag_workers a) \<longrightarrow> ag_workers c ! j = ag_workers a ! j))"
        by (rule finishes_trans) (rule finishes_now, use b n in \<open>auto simp: nth_list_update less_Suc_eq\<close>)
    qed (use n in simp)
  qed
  from this [OF order_refl] show ?thesis
    by (rule finishes_trans) (intro finishes_now, auto simp: workers_done_def list_all_length)
qed

lemma ok_advance_issuer: "alone p \<Longrightarrow> ok p Issuer None \<Longrightarrow> ok (fst (advance i p a)) Issuer None"
  by (cases p) (auto simp: alone_def Let_def)

text \<open>So does the goroutine that issues the load, with the workers it waits for.\<close>

lemma gen_finishes:
  assumes "ag_gen a = p" "ok p Issuer None" "ends_soon p" "workers_ok a" "ag_issueOver a"
  shows "finishes a (\<lambda>b. ag_gen b = Halt \<and> ag_main b = ag_main a)"
  using assms
proof (induction p arbitrary: a rule: ready_induct)
  case (1 p)
  have move: ?case if "ready late_input p a" "ok (fst (advance late_input p a)) Issuer None"
    "workers_ok (agent_move a (MoveGen late_input))" "ag_main (agent_move a (MoveGen late_input)) = ag_main a"
    "ag_issueOver (agent_move a (MoveGen late_input))"
  proof -
    have "ag_gen (agent_move a (MoveGen late_input)) = fst (advance late_input p a)"
      using 1(2) by (simp add: agent_move_def split: prod.split)
    from 1(1) [OF that(1) this that(2) ends_advance [OF 1(4,6) late_flag] that(3,5)] that(4)
    have "finishes (agent_move a (MoveGen late_input)) (\<lambda>b. ag_gen b = Halt \<and> ag_main b = ag_main a)" by simp
    then show ?thesis by (rule finishes_move)
  qed
  show ?case
  proof (cases "alone p")
    case True
    note F = advance_frame [OF True, of late_input a]
    show ?thesis
    proof (cases "p = Halt")
      case True
      then show ?thesis using 1(2) by (intro finishes_now) simp
    next
      case False
      then have "ready late_input p a" using alone_ready [OF True 1(4)] by blast
      then show ?thesis using ok_advance_issuer [OF True 1(3)] F 1(2,5,6)
        by (intro move) (auto simp: agent_move_def workers_ok_def split: prod.split)
    qed
  next
    case False
    then consider (go) q k where "p = Go q k" | (wait) "p = WaitGroup Halt"
      using 1(3) by (cases p) (auto simp: alone_def)
    then show ?thesis
    proof cases
      case go
      then show ?thesis using 1(2-6) by (intro move) (auto simp: ready_def agent_move_def workers_ok_def)
    next
      case wait
      show ?thesis
      proof (rule finishes_trans [OF workers_finish [OF 1(5,6)]])
        fix b :: agent assume b: "workers_done b \<and> ag_gen b = ag_gen a \<and> ag_main b = ag_main a \<and> ag_issueOver b"
        have "finishes (agent_move b (MoveGen late_input)) (\<lambda>b. ag_gen b = Halt \<and> ag_main b = ag_main a)"
          by (rule finishes_now) (use b 1(2) wait in \<open>simp add: agent_move_def\<close>)
        then show "finishes b (\<lambda>b. ag_gen b = Halt \<and> ag_main b = ag_main a)" by (rule finishes_move)
      qed
    qed
  qed
qed

lemma finishes_typed: "well_typed a \<Longrightarrow> finishes a P \<Longrightarrow> finishes a (\<lambda>b. well_typed b \<and> P b)"
  unfolding finishes_def using well_typed_moves by blast

lemma agent_inv_parts:
  assumes "agent_inv a m0 r own owns"
  shows "ok (ag_main a) r own" "r \<in> {Warmup, Idle, Staged}" "ag_gen a = Halt \<or> ok (ag_gen a) Issuer None"
    "ag_gen a = Halt \<Longrightarrow> workers_done a" "ag_main a = Halt \<Longrightarrow> ag_gen a = Halt"
  using assms by (auto simp: agent_inv_def)

lemma agent_inv_workers:
  assumes "agent_inv a m0 r own owns" "everyone ends_soon a"
  shows "workers_ok a"
  unfolding workers_ok_def
proof
  fix p assume "p \<in> set (ag_workers a)"
  then obtain j where j: "j < length (ag_workers a)" "ag_workers a ! j = p" by (auto simp: in_set_conv_nth)
  have "list_all2 (\<lambda>p. ok p Worker) (ag_workers a) owns" using assms by (simp add: agent_inv_def)
  then have "ok (ag_workers a ! j) Worker (owns ! j)" using j(1) by (rule list_all2_nthD)
  then show "ends_soon p \<and> (\<exists>own. ok p Worker own)" using j assms(2) by (auto simp: everyone_def list_all_length)
qed

text \<open>The issuer comes to its end, and the main goroutine keeps its place.\<close>

lemma issuer_finishes:
  assumes "well_typed a" "everyone ends_soon a" "ag_issueOver a"
  shows "finishes a (\<lambda>b. well_typed b \<and> everyone ends_soon b \<and> ag_gen b = Halt \<and> ag_main b = ag_main a)"
proof -
  from assms(1) obtain m0 r own owns where inv: "agent_inv a m0 r own owns" unfolding well_typed_def by blast
  have "finishes a (\<lambda>b. ag_gen b = Halt \<and> ag_main b = ag_main a)"
  proof (cases "ag_gen a = Halt")
    case False
    then have "ok (ag_gen a) Issuer None" using agent_inv_parts(3) [OF inv] by blast
    moreover have "ends_soon (ag_gen a)" using assms(2) by (simp add: everyone_def)
    ultimately show ?thesis by (rule gen_finishes [OF refl _ _ agent_inv_workers [OF inv assms(2)] assms(3)])
  qed (simp add: finishes_now)
  from finishes_typed [OF assms(1) this] show ?thesis
  proof (rule finishes_trans)
    fix b :: agent assume b: "well_typed b \<and> ag_gen b = Halt \<and> ag_main b = ag_main a"
    then have "workers_done b" unfolding well_typed_def using agent_inv_parts(4) by blast
    then have "everyone ends_soon b"
      using b assms(2) by (auto simp: everyone_def workers_done_def list_all_iff)
    then show "finishes b (\<lambda>b. well_typed b \<and> everyone ends_soon b \<and> ag_gen b = Halt \<and> ag_main b = ag_main a)"
      using b by (intro finishes_now) blast
  qed
qed

lemma main_finishes:
  assumes "ag_main a = p" "well_typed a" "everyone ends_soon a"
  shows "finishes a (\<lambda>b. well_typed b \<and> ag_main b = Halt)"
  using assms
proof (induction p arbitrary: a rule: ready_induct)
  case (1 p)
  let ?P = "\<lambda>b. well_typed b \<and> ag_main b = Halt"
  have step: "finishes b ?P" if "ready late_input p b" "ag_main b = p" "well_typed b" "everyone ends_soon b" "ag_issueOver b" for b
  proof -
    have "ag_main (agent_move b (MoveMain late_input)) = fst (advance late_input p b)"
      using that(2) by (simp add: agent_move_def split: prod.split)
    moreover have "everyone ends_soon (snd (advance late_input p b))"
      using that(2,4) by (intro everyone_advance) (auto simp: everyone_def)
    moreover have "ends_soon (fst (advance late_input p b))"
      using that(2,4) by (intro ends_advance that(5)) (simp_all add: everyone_def)
    ultimately have "everyone ends_soon (agent_move b (MoveMain late_input))"
      using that(2) by (auto simp: everyone_def agent_move_def split: prod.split)
    from finishes_move [OF 1(1) [OF that(1) _ well_typed_move [OF that(3)] this]] show ?thesis
      using that(2) by (simp add: agent_move_def split: prod.split)
  qed
  define b where "b = agent_move a IssueTimeout"
  have b: "ag_main b = p" "well_typed b" "everyone ends_soon b" "ag_issueOver b"
    using 1(2,4) well_typed_move [OF 1(3), of IssueTimeout] by (simp_all add: b_def agent_move_def everyone_def)
  have "finishes b ?P"
  proof (cases "ready late_input p b \<or> p = Halt")
    case True
    then show ?thesis using step [OF _ b] b by (auto intro: finishes_now)
  next
    case False
    from b(2) obtain m0 r own owns where inv: "agent_inv b m0 r own owns" unfolding well_typed_def by blast
    have "ends_soon p" using b(1,3) by (simp add: everyone_def)
    then have later: "ready late_input p c" if "ag_gen c = Halt" for c
      using agent_inv_parts(1,2) [OF inv] False b(1,4) that
      by (cases p) (auto simp: ready_def ctx_done_def)
    show ?thesis
    proof (rule finishes_trans [OF issuer_finishes [OF b(2-4)]])
      fix c :: agent assume c: "well_typed c \<and> everyone ends_soon c \<and> ag_gen c = Halt \<and> ag_main c = ag_main b"
      define d where "d = agent_move c IssueTimeout"
      have "ag_main d = p" "well_typed d" "everyone ends_soon d" "ag_issueOver d" "ag_gen d = Halt"
        using c b(1) well_typed_move [of c IssueTimeout] by (auto simp: d_def agent_move_def everyone_def)
      from step [OF later [OF this(5)] this(1-4)] show "finishes c ?P"
        unfolding d_def by (rule finishes_move)
    qed
  qed
  then show ?case unfolding b_def by (rule finishes_move)
qed

text \<open>When the main goroutine has ended, so have all others.\<close>

lemma finished_all:
  assumes "well_typed a" "ag_main a = Halt"
  shows "ag_gen a = Halt" "workers_done a" "\<not> panicked a"
proof -
  from assms(1) obtain m0 r own owns where inv: "agent_inv a m0 r own owns" unfolding well_typed_def by blast
  show g: "ag_gen a = Halt" by (rule agent_inv_parts(5) [OF inv assms(2)])
  show w: "workers_done a" by (rule agent_inv_parts(4) [OF inv g])
  show "\<not> panicked a" using assms(2) g w by (auto simp: panicked_def workers_done_def list_all_iff)
qed

end
