(* ===== verification/Agent_Run.thy ===== *)
theory Agent_Run
  imports Agent_Liveness Agent_History Core_Target
begin

text \<open>
  Whole runs of the agent (\<open>internal/agent/runner.go\<close>, \<open>RunTargetWithProgress\<close>): what the goroutines
  of \<open>Agent_Goroutines\<close> do under every schedule, and which programs \<open>lasts\<close> of \<open>Agent_Liveness\<close> holds of.
\<close>

subsection \<open>Prompts that can be padded\<close>

text \<open>The sizes under which a prompt can be padded: those of the configuration, of the tasks of a
  conversation without history, and of the events of a trace.\<close>

definition task_fits :: "RunConfig \<Rightarrow> ScenarioTask \<Rightarrow> bool" where
  "task_fits config task \<longleftrightarrow> tsk_PromptTokens task \<le> 0 \<or>
     \<not> rc_AccumulateContext config \<and> tsk_PromptTokens task \<le> MaxModelTokens \<and> length (tsk_Prompt task) < 2 ^ 60"

definition event_fits :: "RunConfig \<Rightarrow> TraceEvent \<Rightarrow> bool" where
  "event_fits config event \<longleftrightarrow> tev_PromptTokens event \<le> MaxModelTokens \<and>
     length (if tev_Prompt event = [] then rc_Prompt config else tev_Prompt event) < 2 ^ 60"

definition fits :: "RunConfig \<Rightarrow> bool" where
  "fits config \<longleftrightarrow> padding_ok config \<and> list_all (task_fits config) (rc_Scenario config) \<and>
     list_all (\<lambda>j. list_all (task_fits config) (jr_Scenario j)) (rc_Journeys config) \<and>
     list_all (event_fits config) (rc_Trace config)"

lemma padded_small:
  assumes "tokens \<le> MaxModelTokens" "0 < tokens" "0 \<le> chars" "chars < 2 ^ 60"
  shows "0 \<le> max 0 (i64 (tokens - quot chars charsPerToken))" "max 0 (i64 (tokens - quot chars charsPerToken)) < 2 ^ 59"
proof -
  have "quot chars charsPerToken = chars div 4" using assms(3) by (simp add: charsPerToken_def quot_nonneg_eq)
  moreover have "0 \<le> chars div 4" "chars div 4 < 2 ^ 60" using assms(3,4) by auto
  ultimately have "i64 (tokens - quot chars charsPerToken) = tokens - chars div 4"
    using assms(1,2) by (intro i64_small [THEN trans]) (auto simp: MaxModelTokens_def)
  then show "0 \<le> max 0 (i64 (tokens - quot chars charsPerToken))" "max 0 (i64 (tokens - quot chars charsPerToken)) < 2 ^ 59"
    using assms(1) \<open>0 \<le> chars div 4\<close> by (auto simp: MaxModelTokens_def)
qed

lemma padding_session_step:
  assumes "padding_ok config" "task_fits config task" "rc_AccumulateContext config \<or> history = []"
  shows "padding_ok (session_step config task history)"
proof (cases "tsk_PromptTokens task > 0")
  case False
  then show ?thesis using assms(1) by (simp add: session_step_def padding_ok_def Let_def)
next
  case True
  let ?n = "int (length (tsk_Prompt task))"
  have t: "history = []" "tsk_PromptTokens task \<le> MaxModelTokens" "?n < 2 ^ 60"
    using assms(2,3) True by (auto simp: task_fits_def)
  have "i64 (content_length history + ?n) = ?n" using t(1,3) by (simp add: content_length_def i64_small)
  with padded_small [OF t(2) True _ t(3)] show ?thesis
    using True by (simp add: session_step_def padding_ok_def Let_def)
qed

lemma padding_event_config:
  assumes "event_fits config event" "padding_ok config"
  shows "padding_ok (event_config config event)"
proof -
  define prompt where "prompt = (if tev_Prompt event = [] then rc_Prompt config else tev_Prompt event)"
  have e: "tev_PromptTokens event \<le> MaxModelTokens" "int (length prompt) < 2 ^ 60"
    using assms(1) by (simp_all add: event_fits_def prompt_def)
  have "rc_PromptPadTokens (event_config config event) =
      (if tev_PromptTokens event > 0 then max 0 (i64 (tev_PromptTokens event - quot (int (length prompt)) charsPerToken)) else 0)"
    "rc_PromptPadStdev (event_config config event) = rc_PromptPadStdev config"
    by (simp_all add: event_config_def Let_def prompt_def)
  with padded_small [OF e(1) _ _ e(2)] assms(2) show ?thesis by (simp add: padding_ok_def)
qed

subsection \<open>The programs of the agent last\<close>

lemma lasts_handle_reply:
  "(\<And>res. lasts m (return res)) \<Longrightarrow> lasts m (handle_reply e ctx target config call pause reply return)"
  by (auto simp: handle_reply_def Let_def intro!: lasts_intros split: reply.split option.split prod.split)

lemma lasts_doRequest:
  "(\<And>res. lasts m (return res)) \<Longrightarrow> padding_ok config \<Longrightarrow>
   lasts m (doRequest e ctx target config history scheduled return)"
  by (auto simp: doRequest_def Let_def intro!: lasts_intros lasts_handle_reply)

lemma lasts_think: "(\<And>b. lasts m (return b)) \<Longrightarrow> lasts m (think wait return)"
  by (auto simp: think_def intro!: lasts_intros)

lemma lasts_session_loop:
  assumes "lasts m return" "padding_ok config" "list_all (task_fits config) tasks"
    "rc_AccumulateContext config \<or> history = []"
  shows "lasts m (session_loop e target config scheduled completed history tasks return)"
  using assms(3,4)
proof (induction tasks arbitrary: scheduled completed history)
  case (Cons task tasks)
  then have p: "padding_ok (session_step config task history)"
    by (intro padding_session_step assms) auto
  show ?case
    using Cons p assms(1) by (auto simp: Let_def intro!: lasts_intros lasts_doRequest lasts_think split: option.split)
qed (simp add: assms(1) lasts_intros)

lemma lasts_runAgentSession:
  "lasts m return \<Longrightarrow> padding_ok config \<Longrightarrow> list_all (task_fits config) (rc_Scenario config) \<Longrightarrow>
   lasts m (runAgentSession e target config scheduled return)"
  by (simp add: runAgentSession_def lasts_session_loop lasts_intros)

lemma task_fits_cong: "rc_AccumulateContext config' = rc_AccumulateContext config \<Longrightarrow> task_fits config' = task_fits config"
  by (simp add: task_fits_def fun_eq_iff)

lemma lasts_runJourney:
  assumes "lasts m return" "padding_ok config" "list_all (task_fits config) (rc_Scenario config)"
    "list_all (\<lambda>j. list_all (task_fits config) (jr_Scenario j)) (rc_Journeys config)"
  shows "lasts m (runJourney e target config scheduled return)"
proof -
  have p: "padding_ok (config\<lparr>rc_AgentWorkflow := b, rc_Scenario := tasks\<rparr>)" for b tasks
    using assms(2) by (simp add: padding_ok_def)
  have t: "task_fits (config\<lparr>rc_AgentWorkflow := b, rc_Scenario := tasks\<rparr>) = task_fits config" for b tasks
    by (rule task_fits_cong) simp
  show ?thesis
    using assms by (auto simp: runJourney_def Let_def p t list_all_iff
        intro!: lasts_intros lasts_runAgentSession lasts_doRequest lasts_think)
qed

lemma fits_parts: "fits config \<Longrightarrow> padding_ok config" "fits config \<Longrightarrow> list_all (task_fits config) (rc_Scenario config)"
    "fits config \<Longrightarrow> list_all (\<lambda>j. list_all (task_fits config) (jr_Scenario j)) (rc_Journeys config)"
  by (simp_all add: fits_def)

lemmas lasts_journey = lasts_runJourney [OF _ fits_parts]
lemmas lasts_session = lasts_runAgentSession [OF _ fits_parts(1,2)]

lemma lasts_runWorker: "fits config \<Longrightarrow> lasts n (runWorker e target config (Suc n))"
  by (auto simp: runWorker_def fits_parts(1) simp del: rounds.simps session_rounds.simps intro!: lasts_rounds lasts_session_rounds lasts_intros lasts_journey
      lasts_session lasts_doRequest lasts_think)

lemma lasts_go_workers: "lasts m p \<Longrightarrow> lasts m (go_workers i p)"
  by (induction i) (simp_all add: lasts_intros)

lemma lasts_rps_loop: "fits config \<Longrightarrow> lasts n (rps_loop e target config schedule dueAt (Suc n))"
proof (induction n arbitrary: schedule dueAt)
  case (Suc n)
  then show ?case
    by (subst rps_loop.simps(2))
      (auto simp: Let_def simp del: rps_loop.simps intro!: lasts_intros lasts_journey split: prod.split)
qed (simp add: Let_def split: prod.split)

lemma fits_event_config:
  assumes "fits config" "event \<in> set (rc_Trace config)"
  shows "fits (event_config config event)"
proof -
  have e: "event_fits config event" using assms by (simp add: fits_def list_all_iff)
  have s: "\<exists>task. rc_Scenario (event_config config event) = [task] \<and> tsk_PromptTokens task = 0"
    "rc_Journeys (event_config config event) = []" "rc_Trace (event_config config event) = []"
    by (simp_all add: event_config_def Let_def)
  with padding_event_config [OF e fits_parts(1) [OF assms(1)]] show ?thesis
    by (auto simp: fits_def task_fits_def)
qed

lemma lasts_trace_loop:
  "fits config \<Longrightarrow> set events \<subseteq> set (rc_Trace config) \<Longrightarrow> lasts m (trace_loop e target config started events)"
  by (induction events) (auto simp: Let_def intro!: lasts_intros lasts_journey fits_event_config)

lemma lasts_runStage: "fits config \<Longrightarrow> lasts n return \<Longrightarrow> lasts n (runStage e target config (Suc n) return)"
  by (auto simp: runStage_def Let_def runTrace_def runRPS_def runVUs_def simp del: rps_loop.simps
      intro!: lasts_intros lasts_rps_loop
      lasts_trace_loop lasts_go_workers lasts_runWorker)

lemma fits_stage_config:
  assumes "fits config"
  shows "fits (stage_config config stage)"
proof -
  have "task_fits (stage_config config stage) = task_fits config" "event_fits (stage_config config stage) = event_fits config"
    "padding_ok (stage_config config stage) = padding_ok config"
    by (auto simp: stage_config_def task_fits_def event_fits_def padding_ok_def Let_def fun_eq_iff)
  with assms show ?thesis by (simp add: fits_def) (simp add: stage_config_def Let_def)
qed

lemma lasts_run_stages: "fits config \<Longrightarrow> lasts n return \<Longrightarrow> lasts n (run_stages e target config (Suc n) stages return)"
  by (induction stages) (auto intro!: lasts_intros lasts_runStage fits_stage_config)

lemma lasts_warmups: "padding_ok config \<Longrightarrow> lasts m return \<Longrightarrow> lasts m (warmups e target config i return)"
  by (induction i) (auto intro!: lasts_intros lasts_doRequest)

lemma lasts_run: "fits config \<Longrightarrow> lasts n (RunTargetWithProgress e target config (Suc n))"
  unfolding RunTargetWithProgress_def Let_def
  by (intro lasts_warmups fits_parts(1) lasts_simple lasts_run_stages) (auto intro!: lasts_intros)

lemma lasts_start: "fits config \<Longrightarrow> everyone (lasts n) (start_agent e target config (Suc n) now)"
  by (simp add: everyone_def start_agent_def lasts_run lasts_intros)

subsection \<open>A run\<close>

text \<open>A small configuration: one virtual user, and its worker does one round.\<close>

definition one_user :: RunConfig where
  "one_user = zero_RunConfig\<lparr>rc_Mode := LoadModeVU, rc_VUs := 1, rc_DurationSeconds := 1, rc_Prompt := ''hello'', rc_MaxTokens := 16\<rparr>"

definition one_target :: Target where
  "one_target = zero_Target\<lparr>tgt_ID := ''target-1'', tgt_Type := TargetTypeWeb, tgt_URL := ''http://a.internal''\<rparr>"

definition one_env :: agent_env where
  "one_env = \<lparr>ae_decode = (\<lambda>line. Inl ''no event''), ae_valid_url = (\<lambda>url. True), ae_log = (\<lambda>x. fzero)\<rparr>"

lemma one_user_fits: "fits one_user"
  by (simp add: fits_def one_user_def padding_ok_def zero_RunConfig_def)

text \<open>The schedule: the main goroutine opens the stage, the issuer starts the worker, the worker sends one
  request that is refused, the time of the stage is up, and each goroutine goes on to its end.\<close>

definition at_time :: "int \<Rightarrow> input" where
  "at_time now = \<lparr>in_now = now, in_random = (\<lambda>n. 0), in_reply = SendFailed \<lparr>err_context = False, err_text = []\<rparr>,
     in_flag = True\<rparr>"

definition one_schedule :: "move list" where
  "one_schedule = replicate 5 (MoveMain (at_time 0)) @ [MoveGen (at_time 0)] @ replicate 10 (MoveWorker 0 (at_time 7)) @
     [IssueTimeout] @ replicate 2 (MoveWorker 0 (at_time 8)) @ [MoveGen (at_time 9)] @ replicate 3 (MoveMain (at_time 9))"

definition one_run :: agent where
  "one_run = foldl agent_move (start_agent one_env one_target one_user 2 0) one_schedule"

lemma one_user_sel [simp]:
  "rc_WarmupRequests one_user = 0" "rc_Stages one_user = []" "rc_Trace one_user = []" "rc_Mode one_user = LoadModeVU"
  "rc_VUs one_user = 1" "rc_Journeys one_user = []" "rc_AgentWorkflow one_user = False" "rc_CooldownSeconds one_user = 0"
  "rc_DurationSeconds one_user = 1"
  by (simp_all add: one_user_def zero_RunConfig_def)

lemma one_stage: "stage_config one_user \<lparr>stg_DurationSeconds = 1, stg_TargetLoad = 1\<rparr> = one_user"
  by (simp add: stage_config_def one_user_def zero_RunConfig_def)

text \<open>What its requests are.\<close>

definition one_workload :: "int \<Rightarrow> workload" where
  "one_workload q = the (nextWorkload one_user q)"

lemma one_workload: "nextWorkload one_user q = Some (one_workload q)" "wl_think (one_workload q) = 0"
proof -
  have "rc_Scenario one_user = []" by (simp add: one_user_def zero_RunConfig_def)
  moreover obtain w where w: "nextWorkload one_user q = Some w"
    using nextWorkload_some [OF fits_parts(1) [OF one_user_fits]] by blast
  ultimately show "nextWorkload one_user q = Some (one_workload q)" "wl_think (one_workload q) = 0"
    by (auto simp: one_workload_def nextWorkload_def Let_def total_weight_def)
qed

lemma not_cancelled_step:
  assumes "\<forall>call latency timing status usage config now. e \<noteq> Succeed call latency timing status usage config now"
  shows "me_runCancelled (event_step m e) = me_runCancelled m"
  using stop_other [OF assms] by blast

lemmas not_cancelled = not_cancelled_step [of "Phase x" for x] not_cancelled_step [of "TargetLoad x" for x]
  not_cancelled_step [of "Backoff x" for x] not_cancelled_step [of "Issue x y z" for x y z]
  not_cancelled_step [of "Abort x y z t" for x y z t] not_cancelled_step [of NextSequence] not_cancelled_step [of "Active x" for x]

lemma not_cancelled_start: "\<not> me_runCancelled (new_measurements t' config)"
  by (simp add: new_measurements_def)

lemma refused: "handle_reply e ctx target config call pause (SendFailed err) return = RecordAborted call ctx err (return (0, [], False))"
  by (simp add: handle_reply_def)

lemmas run_simps = agent_move_def emit_def run_over_def ctx_done_def at_time_def Let_def
  not_cancelled not_cancelled_start workers_done_def one_workload one_stage refused

lemma one_run_end: "ag_main one_run = Halt" "map is_issue (ag_log one_run) = replicate 4 False @ [True] @ replicate 5 False"
  unfolding one_run_def one_schedule_def
  by (simp_all add: eval_nat_numeral start_agent_def RunTargetWithProgress_def load_def runStage_def runVUs_def
      runWorker_def doRequest_def think_def one_env_def run_simps is_issue_def del: event_step.simps)

lemma one_run_log: "length (ag_log one_run) \<le> 2 ^ 46"
proof -
  have "length (ag_log one_run) = length (map is_issue (ag_log one_run))" by simp
  also have "\<dots> = 10" unfolding one_run_end(2) by simp
  finally show ?thesis by simp
qed

subsection \<open>Properties\<close>

text \<open>C7. Under every schedule of the goroutines of a run, with every
  reading of the clock, answer and timer, each goroutine keeps to its role (a worker, the issuer of a
  stage, or the main goroutine before the warmup ends, between stages, and in a stage), the operations
  on the measurements are an execution in which every request ends at most once, and the requests in
  flight are those that the main goroutine and the workers each hold, one at most.\<close>

theorem goroutines_own_their_requests:
  "let a = foldl agent_move (start_agent e target config n now) moves in
   \<exists>m0 r own owns. ok (ag_main a) r own \<and> r \<in> {Warmup, Idle, Staged} \<and>
     (ag_gen a = Halt \<or> r = Staged \<and> ok (ag_gen a) Issuer None) \<and>
     list_all2 (\<lambda>p own. ok p Worker own) (ag_workers a) owns \<and>
     agent_run m0 (ag_log a) (owned own + flight_of owns) (ag_m a)"
proof -
  define a where "a = foldl agent_move (start_agent e target config n now) moves"
  have "well_typed a" unfolding a_def by (rule well_typed_moves [OF well_typed_start])
  then obtain m0 r own owns where inv: "agent_inv a m0 r own owns" unfolding well_typed_def by blast
  have "ok (ag_main a) r own \<and> r \<in> {Warmup, Idle, Staged} \<and> (ag_gen a = Halt \<or> r = Staged \<and> ok (ag_gen a) Issuer None) \<and>
     list_all2 (\<lambda>p own. ok p Worker own) (ag_workers a) owns \<and> agent_run m0 (ag_log a) (owned own + flight_of owns) (ag_m a)"
    using inv unfolding agent_inv_def runs_def by blast
  then show ?thesis unfolding Let_def a_def [symmetric] by blast
qed

text \<open>C6. When \<open>RunTargetWithProgress\<close> has returned, whatever the
  schedule was, the result it reports has every request that was issued after the warmup exactly once:
  as a success, a failure with a status, a transport error or a cancellation.\<close>

theorem finished_run_reports_every_request:
  assumes "a = foldl agent_move (start_agent e target config n now) moves" "ag_main a = Halt"
    and "length (ag_log a) \<le> 2 ^ 46"
  shows "let r = measured_result config ord t (ag_m a) in
    rr_Issued r = tally is_issue (ag_log a) \<and>
    rr_Issued r = rr_Successes r + rr_HTTPFailures r + rr_TransportErrors r + rr_Cancelled r"
proof -
  have "well_typed a" unfolding assms(1) by (rule well_typed_moves [OF well_typed_start])
  from finished_run [OF this assms(2)] obtain t0 m1 where run: "agent_run (reset t0 m1) (ag_log a) {#} (ag_m a)" by blast
  have "length (ag_log a) < 2 ^ 62" using assms(3) by simp
  then have "rr_Issued (measured_result config ord t (ag_m a)) = tally is_issue (ag_log a)"
    using run_counters [OF run] by (simp add: measured_result_def Let_def split del: if_split)
  with result_accounts [OF run assms(3), of config ord t] show ?thesis by (simp add: Let_def)
qed

theorem finished_run_reports_every_request_witness:
  "let r = measured_result one_user [] 9 (ag_m one_run) in rr_Issued r = 1 \<and>
     rr_Issued r = rr_Successes r + rr_HTTPFailures r + rr_TransportErrors r + rr_Cancelled r"
proof -
  have "tally is_issue (ag_log one_run) = 1"
  proof -
    have "length (filter is_issue es) = length (filter (\<lambda>b. b) (map is_issue es))" for es
      by (induction es) simp_all
    from this [of "ag_log one_run"] show ?thesis unfolding one_run_end(2) tally_def by (simp add: eval_nat_numeral)
  qed
  then show ?thesis
    using finished_run_reports_every_request [OF one_run_def one_run_end(1) one_run_log, where ord = "[]" and t = 9]
    by (simp add: Let_def)
qed



end
