(* ===== verification/Agent_Warmup.thy ===== *)
theory Agent_Warmup
  imports Agent_Run
begin

text \<open>
  A run whose guardrail trips during the warmup (\<open>internal/agent/runner.go\<close>): from the reset on, under
  every schedule, no stage is opened and no request is sent, and the result does not tell why.
\<close>

subsection \<open>The guardrail has cancelled the run\<close>

definition stop_recorded :: "measurements \<Rightarrow> bool" where
  "stop_recorded m \<longleftrightarrow> (me_stopped m \<longrightarrow> me_runCancelled m \<and> me_guardrail m \<noteq> [])"

lemma stop_recorded_step: "stop_recorded m \<Longrightarrow> stop_recorded (event_step m e)"
  using stops_now [of m e] stopped_keeps [of m e] unfolding stop_recorded_def by metis

lemma advance_measurements: "ag_m (snd (advance i p a)) \<in>
    insert (ag_m a) (insert (reset (in_now i) (ag_m a)) (range (event_step (ag_m a))))"
  by (cases p) (simp_all add: Let_def emit_def del: event_step.simps)

lemma stop_recorded_advance: "stop_recorded (ag_m a) \<Longrightarrow> stop_recorded (ag_m (snd (advance i p a)))"
  using advance_measurements [of i p a] stop_recorded_step by (auto simp: stop_recorded_def)

lemma stop_recorded_move: "stop_recorded (ag_m a) \<Longrightarrow> stop_recorded (ag_m (agent_move a mv))"
  using stop_recorded_advance [of a] stop_recorded_step
  by (auto simp: agent_move_def emit_def simp del: event_step.simps split: move.split prod.split) (metis snd_conv)+

lemma stop_recorded_moves: "stop_recorded (ag_m a) \<Longrightarrow> stop_recorded (ag_m (foldl agent_move a moves))"
  by (induction moves arbitrary: a) (simp_all add: stop_recorded_move)

subsection \<open>What is left of the run\<close>

text \<open>The operations that a run without load performs.\<close>

definition loadless :: "agent_event \<Rightarrow> bool" where
  "loadless e \<longleftrightarrow> (case e of Phase _ \<Rightarrow> True | TargetLoad _ \<Rightarrow> True | Gauges _ \<Rightarrow> True | _ \<Rightarrow> False)"

definition verdict :: "measurements \<Rightarrow> bool \<times> string \<times> int \<times> int \<times> int \<times> int \<times> string list" where
  "verdict m = (me_stopped m, me_guardrail m, me_issued m, me_successes m, me_httpFailures m, me_transportErrors m, me_errors m)"

lemma verdict_loadless: "loadless e \<Longrightarrow> verdict (event_step m e) = verdict m \<and> me_runCancelled (event_step m e) = me_runCancelled m"
  by (cases e) (simp_all add: loadless_def verdict_def event_defs)

definition forgotten :: "agent \<Rightarrow> bool" where
  "forgotten a \<longleftrightarrow> me_runCancelled (ag_m a) \<and> unissued (ag_main a) \<and> ag_gen a = Halt \<and> workers_done a \<and>
     list_all loadless (ag_log a) \<and> verdict (ag_m a) = (False, [], 0, 0, 0, 0, [])"

lemma forgotten_emit: "forgotten a \<Longrightarrow> loadless e \<Longrightarrow> unissued p \<Longrightarrow> forgotten (emit e a\<lparr>ag_main := p\<rparr>)"
  by (simp add: forgotten_def emit_def verdict_loadless workers_done_def)

lemma forgotten_frame: "forgotten (a\<lparr>ag_main := p\<rparr>) \<longleftrightarrow> forgotten (a\<lparr>ag_main := Halt\<rparr>) \<and> unissued p"
  by (auto simp: forgotten_def workers_done_def intro: unissued.halt)

lemma forgotten_main:
  assumes "forgotten a"
  shows "forgotten (agent_move a (MoveMain i))"
proof -
  have main: "unissued (ag_main a)" and over: "ctx_done RunCtx a" and rest: "forgotten (a\<lparr>ag_main := Halt\<rparr>)"
    using assms by (simp_all add: forgotten_def ctx_done_def run_over_def workers_done_def unissued.halt)
  note emits = forgotten_emit [OF assms]
  from main show ?thesis
  proof cases
    case halt
    then show ?thesis using rest by (simp add: agent_move_def)
  next
    case (phase k ph)
    then show ?thesis using emits [of "Phase ph" k] by (simp add: agent_move_def loadless_def del: event_step.simps)
  next
    case (target_load k n)
    then show ?thesis using emits [of "TargetLoad n" k] by (simp add: agent_move_def loadless_def del: event_step.simps)
  next
    case (cooldown k d)
    then show ?thesis using rest by (simp add: agent_move_def forgotten_frame [where a = a and p = k])
  next
    case (over k)
    then show ?thesis using rest \<open>ctx_done RunCtx a\<close> by (simp add: agent_move_def forgotten_frame [where a = a and p = "k True"])
  qed
qed

lemma forgotten_move:
  assumes "forgotten a"
  shows "forgotten (agent_move a mv)"
proof (cases mv)
  case (MoveMain i)
  then show ?thesis using forgotten_main [OF assms] by simp
next
  case (MoveGen i)
  then show ?thesis using assms by (simp add: agent_move_def forgotten_def workers_done_def)
next
  case (MoveWorker j i)
  have "ag_workers a ! j = Halt" if "j < length (ag_workers a)"
    using assms that by (simp add: forgotten_def workers_done_def list_all_length)
  then have "agent_move a (MoveWorker j i) = a"
    using list_update_id [of "ag_workers a" j] by (cases "j < length (ag_workers a)") (simp_all add: agent_move_def)
  then show ?thesis using assms MoveWorker by simp
next
  case (Tick now)
  then show ?thesis using forgotten_emit [OF assms, of "Gauges now" "ag_main a"] assms
    by (simp add: agent_move_def loadless_def emit_def forgotten_def)
qed (use assms in \<open>simp_all add: agent_move_def forgotten_def workers_done_def\<close>)

lemma forgotten_moves: "forgotten a \<Longrightarrow> forgotten (foldl agent_move a moves)"
  by (induction moves arbitrary: a) (simp_all add: forgotten_move)

lemma reset_forgets:
  assumes "well_typed a" "ag_main a = Reset k" "me_runCancelled (ag_m a)"
  shows "forgotten (agent_move a (MoveMain i))"
proof -
  from assms(1) obtain m0 r own owns where inv: "agent_inv a m0 r own owns" unfolding well_typed_def by blast
  then have r: "r = Warmup" "unissued k" using assms(2) by (auto simp: agent_inv_def)
  have "r \<noteq> Staged \<or> ag_gen a = Halt" using r(1) by simp
  from inv_idle [OF inv this] show ?thesis
    using assms(2,3) r(2) by (simp add: forgotten_def agent_move_def verdict_def reset_def workers_done_def)
qed

subsection \<open>Ten slow requests\<close>

text \<open>Ten warmup requests of 500 ms each, against a limit of 100 ms.\<close>

definition warm_user :: RunConfig where
  "warm_user = one_user\<lparr>rc_WarmupRequests := 10, rc_MaxP95Millis := 100\<rparr>"

definition slow_input :: "int \<Rightarrow> input" where
  "slow_input now = (at_time now)\<lparr>in_reply := Replied 200 ''200 OK'' \<lparr>rb_stream = False, rb_lines = [],
     rb_scanError = None, rb_json = Inl \<lparr>err_context = False, err_text = []\<rparr>, rb_end = now, rb_end2 = now\<rparr>\<rparr>"

definition slow_moves :: "move list" where
  "slow_moves = replicate 7 (MoveMain (slow_input 0)) @ replicate 4 (MoveMain (slow_input 500000000))"

definition scored :: "measurements \<Rightarrow> bool \<times> bool \<times> int \<times> sampleSet \<times> int \<times> int" where
  "scored m = (me_stopped m, me_runCancelled m, me_steadySamples m, me_latencies m, me_started m, me_steadyAfter m)"

lemma scored_other:
  assumes "\<forall>call latency timing status usage config now. e \<noteq> Succeed call latency timing status usage config now"
  shows "scored (event_step m e) = scored m"
  using assms stop_other [OF assms, of m] by (cases e) (simp_all add: scored_def event_defs)

lemmas scored_others = scored_other [of "Backoff x" for x] scored_other [of "Issue x y z" for x y z]
  scored_other [of NextSequence] scored_other [of "Active x" for x]

lemma warm_user_sel [simp]:
  "rc_WarmupRequests warm_user = 10" "rc_MaxP95Millis warm_user = 100" "rc_SteadyStateSeconds warm_user = 0"
  by (simp_all add: warm_user_def one_user_def zero_RunConfig_def)

lemma warm_work: "\<exists>w. nextWorkload warm_user q = Some w \<and> wl_think w = 0"
proof -
  have "rc_Scenario warm_user = []" by (simp add: warm_user_def one_user_def zero_RunConfig_def)
  moreover have "padding_ok warm_user" by (simp add: padding_ok_def warm_user_def one_user_def zero_RunConfig_def)
  from nextWorkload_some [OF this] obtain w where "nextWorkload warm_user q = Some w" by blast
  ultimately show ?thesis by (auto simp: nextWorkload_def Let_def total_weight_def)
qed

lemma warm_request:
  assumes "ag_main a = warmups one_env one_target warm_user (Suc i) return" "\<not> run_over a"
    and "me_started (ag_m a) = 0" "me_steadyAfter (ag_m a) = 0" "b = foldl agent_move a slow_moves"
  shows "\<exists>m call timing. scored m = scored (ag_m a) \<and> at_steady call \<and>
    ag_main b = warmups one_env one_target warm_user i return \<and> ag_cancelled b = ag_cancelled a \<and>
    scored (ag_m b) = scored (event_step m (Succeed call 500 timing 200 zero_TokenUsage warm_user 500000000))"
proof -
  define m2 where "m2 = event_step (event_step (ag_m a) (Backoff (\<lambda>n. 0))) NextSequence"
  obtain w where w: "nextWorkload warm_user (me_sequence m2) = Some w" "wl_think w = 0" using warm_work by blast
  define call where "call = fst (beginAttempt (wl_name w) (Some 0) 0 m2)"
  define m4 where "m4 = event_step (event_step m2 (Issue (wl_name w) (Some 0) 0)) (Active 1)"
  define timing where "timing = zero_modelTiming\<lparr>mt_ttft := 500\<rparr>"
  have m2: "scored m2 = scored (ag_m a)" by (simp add: m2_def scored_others del: event_step.simps)
  then have m4: "scored m4 = scored (ag_m a)" by (simp add: m4_def scored_others del: event_step.simps)
  have "me_started m2 = 0" "me_steadyAfter m2 = 0" using m2 assms(3,4) by (simp_all add: scored_def)
  then have call: "at_steady call" "at_scheduledAt call = 0" "at_startedAt call = 0"
    by (simp_all add: call_def beginAttempt_def Let_def time_Sub_def sat64_def)
  have ms: "Milliseconds (time_Sub 500000000 0) = 500"
    by (simp add: Milliseconds_def time_Sub_def sat64_def quot_nonneg_eq Millisecond_def)
  have type: "tgt_Type one_target = TargetTypeWeb" by (simp add: one_target_def)
  have over: "\<not> ag_cancelled a" "\<not> me_runCancelled (ag_m a)" using assms(2) by (simp_all add: run_over_def)
  have "ag_main b = warmups one_env one_target warm_user i return \<and> ag_cancelled b = ag_cancelled a \<and>
    ag_m b = event_step (event_step m4 (Succeed call 500 timing 200 zero_TokenUsage warm_user 500000000)) (Active (- 1))"
    unfolding assms(5) slow_moves_def
    by (simp add: eval_nat_numeral assms(1) agent_move_def emit_def Let_def ctx_done_def doRequest_def
      slow_input_def at_time_def w m2_def [symmetric] call_def [symmetric] m4_def [symmetric] timing_def [symmetric]
      not_cancelled over run_over_def handle_reply_def one_env_def type call ms del: event_step.simps)
  then show ?thesis using m4 call(1) by (auto simp: scored_others simp del: event_step.simps)
qed

text \<open>After \<open>n\<close> of them.\<close>

definition warm :: "nat \<Rightarrow> agent \<Rightarrow> bool" where
  "warm n a \<longleftrightarrow> \<not> ag_cancelled a \<and>
     scored (ag_m a) = (n = 10, n = 10, int n, sample_addAll (replicate n 500) zero_sampleSet, 0, 0)"

lemma ten_slow: "slo_violated warm_user m" if "me_latencies m = sample_addAll (replicate 10 500) zero_sampleSet"
proof -
  have "ss_values (me_latencies m) = replicate 10 500"
    unfolding that using evenly_spaced [of "replicate 10 500"] by (auto simp: maxSamplesPerMetric_def)
  moreover have "p95 (replicate 10 500) = 500" by code_simp
  ultimately have p: "p95 (ss_values (me_latencies m)) = 500" by (simp only:)
  show ?thesis unfolding slo_violated_def p by simp
qed

lemma maybeStop_frame:
  "me_steadySamples (maybeStopLocked config m) = me_steadySamples m" "me_latencies (maybeStopLocked config m) = me_latencies m"
  by (simp_all add: maybeStop_cases)

lemma warm_step:
  assumes "warm n a" "n < 10" "ag_main a = warmups one_env one_target warm_user (Suc i) return"
  shows "warm (Suc n) (foldl agent_move a slow_moves) \<and>
    ag_main (foldl agent_move a slow_moves) = warmups one_env one_target warm_user i return"
proof -
  have a: "\<not> run_over a" "me_started (ag_m a) = 0" "me_steadyAfter (ag_m a) = 0"
    using assms(1,2) by (auto simp: warm_def scored_def run_over_def)
  let ?b = "foldl agent_move a slow_moves" and ?e = "\<lambda>call timing. Succeed call 500 timing 200 zero_TokenUsage warm_user 500000000"
  from warm_request [OF assms(3) a refl] obtain m call timing where
    r: "scored m = scored (ag_m a)" "at_steady call" "ag_main ?b = warmups one_env one_target warm_user i return"
      "ag_cancelled ?b = ag_cancelled a" "scored (ag_m ?b) = scored (event_step m (?e call timing))" by blast
  obtain m' where m': "event_step m (?e call timing) = maybeStopLocked warm_user m'"
    "me_stopped m' = me_stopped m" "me_runCancelled m' = me_runCancelled m"
    using recordSuccess_stop unfolding event_step.simps(2) by blast
  have m: "\<not> me_stopped m" "\<not> me_runCancelled m" "me_steadySamples m = int n"
    "me_latencies m = sample_addAll (replicate n 500) zero_sampleSet" "me_started m = 0" "me_steadyAfter m = 0"
    using r(1) assms(1,2) by (simp_all add: warm_def scored_def)
  have "me_steadySamples (event_step m (?e call timing)) = i64 (int n + 1)"
    using m(3) r(2) assms(2) by (subst ev_steady.get_step) (simp_all add: in64_def)
  moreover have "i64 (int n + 1) = int n + 1" using assms(2) by (intro i64_small) auto
  moreover have "me_latencies (event_step m (?e call timing)) = sample_addAll (replicate (Suc n) 500) zero_sampleSet"
    using r(2) m(4) by (subst ev_latencies.get_step)
      (simp add: sample_addAll_append [symmetric] replicate_append_same del: replicate.simps event_step.simps, simp)
  ultimately have s: "me_steadySamples m' = int n + 1" "me_latencies m' = sample_addAll (replicate (Suc n) 500) zero_sampleSet"
    by (simp_all add: m'(1) maybeStop_frame del: event_step.simps)
  have viol: "slo_violated warm_user m'" if "Suc n = 10"
    using s(2) that by (intro ten_slow) simp
  have "scored (event_step m (?e call timing)) =
      (Suc n = 10, Suc n = 10, int (Suc n), sample_addAll (replicate (Suc n) 500) zero_sampleSet, 0, 0)"
    using fold_frame [of m "[?e call timing]"] m m'(2,3) s viol assms(2)
    by (auto simp: m'(1) scored_def maybeStop_cases simp del: event_step.simps replicate.simps)
  then show ?thesis using r(3-5) assms(1) by (simp add: warm_def)
qed

lemma warm_steps:
  assumes "warm n a" "n + i \<le> 10" "ag_main a = warmups one_env one_target warm_user i return"
  shows "warm (n + i) (foldl agent_move a (concat (replicate i slow_moves))) \<and>
    ag_main (foldl agent_move a (concat (replicate i slow_moves))) = return"
  using assms
proof (induction i arbitrary: n a)
  case (Suc i)
  then have "n < 10" by simp
  from warm_step [OF Suc.prems(1) this Suc.prems(3)] Suc.IH [of "Suc n" "foldl agent_move a slow_moves"] Suc.prems(2)
  show ?case by simp
qed simp

definition warm_moves :: "move list" where
  "warm_moves = concat (replicate 10 slow_moves)"

definition warm_run :: agent where
  "warm_run = foldl agent_move (start_agent one_env one_target warm_user 2 0) warm_moves"

lemma warm_run_stopped: "\<exists>k. ag_main warm_run = Reset k" "me_stopped (ag_m warm_run)"
proof -
  let ?a = "start_agent one_env one_target warm_user 2 0"
  have "warm 0 ?a"
    by (simp add: warm_def start_agent_def scored_def new_measurements_def sample_addAll_def)
  moreover obtain k where "ag_main ?a = warmups one_env one_target warm_user 10 (Reset k)"
    by (simp add: start_agent_def RunTargetWithProgress_def)
  ultimately have "warm 10 warm_run \<and> ag_main warm_run = Reset k"
    using warm_steps [of 0 ?a 10] unfolding warm_run_def warm_moves_def by simp
  then show "\<exists>k. ag_main warm_run = Reset k" "me_stopped (ag_m warm_run)"
    by (auto simp: warm_def scored_def)
qed

subsection \<open>Properties\<close>

text \<open>C32. The guardrail also watches the warmup requests. When it has tripped by the end
  of the warmup, with a message, then under every schedule of what follows no stage is opened, no
  goroutine is started and no request is issued, because the context of the run is cancelled; and the
  reset after the warmup has erased the verdict: at every later moment, the end included, the result is
  one of zero requests that says it was not stopped and gives neither a message nor an error.\<close>

theorem warmup_guardrail_is_forgotten:
  assumes "a = foldl agent_move (start_agent e target config n now) moves"
    and "ag_main a = Reset k" "me_stopped (ag_m a)"
  shows "me_guardrail (ag_m a) \<noteq> [] \<and>
    (let b = foldl agent_move a (MoveMain i # later); r = measured_result config' ord t (ag_m b) in
       list_all (\<lambda>e. \<not> is_issue e) (ag_log b) \<and> ag_gen b = Halt \<and> workers_done b \<and>
       rr_Issued r = 0 \<and> rr_Total r = 0 \<and> \<not> rr_StoppedByGuardrail r \<and> rr_GuardrailMessage r = [] \<and> rr_Errors r = [])"
proof -
  have "well_typed a" unfolding assms(1) by (rule well_typed_moves [OF well_typed_start])
  have "stop_recorded (ag_m a)"
    unfolding assms(1) by (rule stop_recorded_moves) (simp add: start_agent_def stop_recorded_def new_measurements_def)
  then have c: "me_runCancelled (ag_m a)" "me_guardrail (ag_m a) \<noteq> []" using assms(3) by (simp_all add: stop_recorded_def)
  define b where "b = foldl agent_move a (MoveMain i # later)"
  have f: "forgotten b"
    unfolding b_def foldl_Cons by (rule forgotten_moves [OF reset_forgets [OF \<open>well_typed a\<close> assms(2) c(1)]])
  moreover have "\<not> is_issue e" if "loadless e" for e
    using that by (cases e) (simp_all add: loadless_def is_issue_def)
  ultimately show ?thesis
    using c(2) unfolding b_def [symmetric] Let_def
    by (auto simp: forgotten_def verdict_def measured_result_def Let_def list_all_iff)
qed

theorem warmup_guardrail_is_forgotten_witness:
  "me_guardrail (ag_m warm_run) \<noteq> [] \<and>
   rr_GuardrailMessage (measured_result warm_user [] 9 (ag_m (foldl agent_move warm_run (replicate 9 (MoveMain (at_time 1)))))) = []"
proof -
  from warm_run_stopped(1) obtain k where k: "ag_main warm_run = Reset k" by blast
  have "replicate 9 (MoveMain (at_time 1)) = MoveMain (at_time 1) # replicate 8 (MoveMain (at_time 1))"
    by (simp add: numeral_eq_Suc)
  then show ?thesis
    using warmup_guardrail_is_forgotten [OF warm_run_def k warm_run_stopped(2), of "at_time 1" "replicate 8 (MoveMain (at_time 1))"
        warm_user "[]" 9]
    by (simp only: Let_def simp_thms)
qed

end
