(* ===== verification/Agent_Attempt.thy ===== *)
theory Agent_Attempt
  imports Agent_Program
begin

text \<open>
  What one attempt of the agent begins with (\<open>internal/agent/runner.go\<close>): how long
  \<open>backoffBeforeAttempt\<close> holds it back, and the message that \<open>doRequest\<close> makes of its workload.
\<close>

subsection \<open>The message of a task\<close>

lemma chat_message:
  assumes "is_chat target"
  shows "\<exists>body. tr_Chat (http_request target config w history) = Some body \<and>
    cr_Messages body = history @ [\<lparr>msg_Role = ''user'', msg_Content =
      (if wl_varied w then variationPrefix (rc_WorkloadID config) (wl_sequence w) else []) @ wl_prompt w\<rparr>]"
  using assms by (simp add: http_request_def chat_body_def Let_def)


definition two_tasks :: RunConfig where
  "two_tasks = zero_RunConfig\<lparr>rc_Scenario :=
     [\<lparr>tsk_Name = ''ask'', tsk_Prompt = ''hello'', tsk_Weight = 2, tsk_ThinkTimeMillis = 10,
       tsk_MaxTokens = 0, tsk_PromptTokens = 0\<rparr>,
      \<lparr>tsk_Name = ''code'', tsk_Prompt = ''write'', tsk_Weight = 1, tsk_ThinkTimeMillis = 0,
       tsk_MaxTokens = 64, tsk_PromptTokens = 0\<rparr>]\<rparr>"

abbreviation "chat_target \<equiv> zero_Target\<lparr>tgt_Type := TargetTypeModel\<rparr>"


subsection \<open>Backing off\<close>

lemma failures_if: "me_consecutiveFailures (if b then m else m') = (if b then me_consecutiveFailures m else me_consecutiveFailures m')"
  by simp

text \<open>C28. A request is held back only after three or more failures in a row, where a
  failing status or a transport error counts one more and a success starts again from zero. Then the
  planned delay is between one half and all of \<open>500 ms * 2 ^ (failures - 3)\<close>, capped at 30 seconds,
  whatever the random source returns, and never less than 250 ms; it is counted as one backoff of so many
  milliseconds. (The wait itself ends early when the context of the request does.) Before that, nothing
  is planned or counted.\<close>

theorem backoff_is_bounded:
  assumes "\<forall>k > 0. 0 \<le> Int63n k \<and> Int63n k < k" and "me_consecutiveFailures m < 2 ^ 63"
  shows "let failures = me_consecutiveFailures m; (delay, m') = backoffBeforeAttempt Int63n m;
      ceiling = min (30 * Second) (500 * Millisecond * 2 ^ nat (min 6 (failures - 3)))
    in (failures < 3 \<longrightarrow> delay = 0 \<and> m' = m) \<and>
       (failures \<ge> 3 \<longrightarrow> ceiling div 2 \<le> delay \<and> delay \<le> ceiling \<and> 250 * Millisecond \<le> delay \<and>
          m' = m\<lparr>me_backoffEvents := i64 (me_backoffEvents m + 1),
                me_backoffMillis := i64 (me_backoffMillis m + delay div Millisecond)\<rparr>) \<and>
       (\<forall>call latency timing status usage config message now.
          me_consecutiveFailures (recordSuccess call latency timing status usage config now m) = 0 \<and>
          me_consecutiveFailures (recordHTTPFailure call latency status message now m) = i64 (failures + 1) \<and>
          me_consecutiveFailures (recordTransportError call message now m) = i64 (failures + 1))"
proof -
  define failures where "failures = me_consecutiveFailures m"
  define delay where "delay = backoffDelay Int63n failures"
  have frame: "me_consecutiveFailures (recordSuccess call latency timing status usage config now m) = 0 \<and>
      me_consecutiveFailures (recordHTTPFailure call latency status message now m) = i64 (failures + 1) \<and>
      me_consecutiveFailures (recordTransportError call message now m) = i64 (failures + 1)"
    for call latency timing status usage config message now
    by (simp add: event_defs failures_if failures_def cong: if_cong split del: if_split)
  show ?thesis
  proof (cases "failures < 3")
    case True
    then have "backoffBeforeAttempt Int63n m = (0, m)"
      by (simp add: backoffBeforeAttempt_def circuitBreakerThreshold_def failures_def)
    then show ?thesis using True frame by (simp add: Let_def failures_def)
  next
    case False
    then have b: "backoffBeforeAttempt Int63n m = (delay, m\<lparr>me_backoffEvents := i64 (me_backoffEvents m + 1),
        me_backoffMillis := i64 (me_backoffMillis m + Milliseconds delay)\<rparr>)"
      by (simp add: backoffBeforeAttempt_def circuitBreakerThreshold_def failures_def delay_def Let_def)
    have r: "let ceiling = min (30 * Second) (500 * Millisecond * 2 ^ nat (min 6 (failures - 3)))
        in ceiling div 2 \<le> delay \<and> delay \<le> ceiling \<and> 250 * Millisecond \<le> delay"
      using backoffDelay_range [OF assms(1), of failures] False assms(2)
      by (simp add: failures_def delay_def circuitBreakerThreshold_def baseBackoff_def maxBackoff_def)
    moreover have "0 \<le> delay" using r by (simp add: Let_def Millisecond_def)
    then have "Milliseconds delay = delay div Millisecond" by (simp add: Milliseconds_def quot_nonneg_eq Millisecond_def)
    ultimately show ?thesis
      unfolding b using False frame by (simp add: Let_def failures_def)
  qed
qed

theorem backoff_is_bounded_witness:
  "fst (backoffBeforeAttempt (\<lambda>k. k - 1) ((new_measurements 0 zero_RunConfig)\<lparr>me_consecutiveFailures := 4\<rparr>)) \<le> Second"
  using backoff_is_bounded [of "\<lambda>k. k - 1" "(new_measurements 0 zero_RunConfig)\<lparr>me_consecutiveFailures := 4\<rparr>"]
  by (auto simp: Let_def Second_def Millisecond_def split: prod.splits)

end
