(* ===== verification/Store_Persist.thy ===== *)
theory Store_Persist
  imports Store_State Store_Captures Store_Complete Go_Strings Go_Base64
begin

text \<open>
  \<open>Snapshot\<close> and \<open>Restore\<close> of \<open>internal/store/store.go\<close> and the encryption of API keys of
  \<open>internal/store/postgres_crypto.go\<close>. The text of a JSON document is identified with its value, for the
  strings of a store, which are valid UTF-8; the encodings of runs and the other structs of a snapshot are
  arguments (targets are modelled, because their keys are encrypted in the document), as is AES-GCM.
\<close>

subsection \<open>JSON documents\<close>

datatype jval = Null | Bool bool | Number string | Text string | Array "jval list" | Object "jval smap"

text \<open>What \<open>encoding/json\<close> does with the fields of a struct: a field that is missing or null keeps its
  zero value, a value of another type is an error.\<close>

definition string_field :: "string \<Rightarrow> jval smap \<Rightarrow> string option" where
  "string_field name flds = (case fmlookup flds name of
     None \<Rightarrow> Some [] | Some Null \<Rightarrow> Some [] | Some (Text t) \<Rightarrow> Some t | Some _ \<Rightarrow> None)"

definition bool_field :: "string \<Rightarrow> jval smap \<Rightarrow> bool option" where
  "bool_field name flds = (case fmlookup flds name of
     None \<Rightarrow> Some False | Some Null \<Rightarrow> Some False | Some (Bool b) \<Rightarrow> Some b | Some _ \<Rightarrow> None)"

definition int_text :: "string \<Rightarrow> int option" where
  "int_text t = (let negative = (t \<noteq> [] \<and> hd t = CHR ''-''); ds = (if negative then tl t else t);
       n = (if negative then - int (undec ds) else int (undec ds))
     in if ds \<noteq> [] \<and> list_all (\<lambda>c. of_char c \<in> {48..57 :: nat}) ds \<and> i64 n = n then Some n else None)"

definition int_field :: "string \<Rightarrow> jval smap \<Rightarrow> int option" where
  "int_field name flds = (case fmlookup flds name of
     None \<Rightarrow> Some 0 | Some Null \<Rightarrow> Some 0 | Some (Number t) \<Rightarrow> int_text t | Some _ \<Rightarrow> None)"

text \<open>A map of values, \<open>None\<close> when one of them does not decode; a map that is missing or null is nil.\<close>

definition decode_map :: "(jval \<Rightarrow> 'a option) \<Rightarrow> jval smap \<Rightarrow> 'a smap option" where
  "decode_map decode m = (if fBall (fmran m) (\<lambda>v. decode v \<noteq> None) then Some (fmmap (the \<circ> decode) m) else None)"

definition map_field :: "(jval \<Rightarrow> 'a option) \<Rightarrow> string \<Rightarrow> jval smap \<Rightarrow> 'a smap option" where
  "map_field decode name flds = (case fmlookup flds name of
     None \<Rightarrow> Some fmempty | Some Null \<Rightarrow> Some fmempty | Some (Object m) \<Rightarrow> decode_map decode m | Some _ \<Rightarrow> None)"

definition encode_map :: "('a \<Rightarrow> jval option) \<Rightarrow> 'a smap \<Rightarrow> jval option" where
  "encode_map encode m =
     (if fBall (fmran m) (\<lambda>v. encode v \<noteq> None) then Some (Object (fmmap (the \<circ> encode) m)) else None)"

text \<open>Targets: three of their fields have \<open>omitempty\<close>.\<close>

definition omitempty :: "bool \<Rightarrow> string \<Rightarrow> jval \<Rightarrow> (string \<times> jval) list" where
  "omitempty absent name v = (if absent then [] else [(name, v)])"

definition encode_Target :: "Target \<Rightarrow> jval" where
  "encode_Target t = Object (fmap_of_list
     ([(''id'', Text (tgt_ID t)), (''name'', Text (tgt_Name t)), (''type'', Text (tgt_Type t)), (''url'', Text (tgt_URL t))] @
      omitempty (tgt_Model t = []) ''model'' (Text (tgt_Model t)) @
      omitempty (tgt_APIKey t = []) ''api_key'' (Text (tgt_APIKey t)) @
      omitempty (\<not> tgt_HasAPIKey t) ''has_api_key'' (Bool (tgt_HasAPIKey t))))"

definition decode_Target :: "jval \<Rightarrow> Target option" where
  "decode_Target v = (case v of
     Object f \<Rightarrow>
       (case (string_field ''id'' f, string_field ''name'' f, string_field ''type'' f, string_field ''url'' f,
              string_field ''model'' f, string_field ''api_key'' f, bool_field ''has_api_key'' f) of
          (Some i, Some n, Some ty, Some u, Some m, Some k, Some h) \<Rightarrow>
            Some \<lparr>tgt_ID = i, tgt_Name = n, tgt_Type = ty, tgt_URL = u, tgt_Model = m, tgt_APIKey = k, tgt_HasAPIKey = h\<rparr>
        | _ \<Rightarrow> None)
   | Null \<Rightarrow> Some zero_Target
   | _ \<Rightarrow> None)"

subsection \<open>Snapshot and Restore\<close>

record snapshot_codec =
  enc_Run :: "Run \<Rightarrow> jval option"
  dec_Run :: "jval \<Rightarrow> Run option"
  enc_Search :: "AutoSearch \<Rightarrow> jval option"
  dec_Search :: "jval \<Rightarrow> AutoSearch option"
  enc_Shard :: "Shard \<Rightarrow> jval option"
  dec_Shard :: "jval \<Rightarrow> Shard option"
  enc_Result :: "RunResult \<Rightarrow> jval option"
  dec_Result :: "jval \<Rightarrow> RunResult option"
  enc_Capture :: "CaptureSession \<Rightarrow> jval option"
  dec_Capture :: "jval \<Rightarrow> CaptureSession option"
  enc_Settings :: "CaptureSettings \<Rightarrow> jval option"
  dec_Settings :: "jval \<Rightarrow> CaptureSettings option"

definition decode_text :: "jval \<Rightarrow> string option" where
  "decode_text v = (case v of Text t \<Rightarrow> Some t | Null \<Rightarrow> Some [] | _ \<Rightarrow> None)"

text \<open>\<open>None\<close> is an error of \<open>json.Marshal\<close>: a number that is not finite.\<close>

definition Snapshot :: "snapshot_codec \<Rightarrow> Store \<Rightarrow> jval option" where
  "Snapshot c s =
     (case (encode_map (\<lambda>t. Some (encode_Target t)) (st_targets s), encode_map (enc_Run c) (st_runs s),
            encode_map (enc_Search c) (st_searches s), encode_map (\<lambda>t. Some (Text t)) (st_searchRun s),
            encode_map (enc_Shard c) (st_shards s), encode_map (enc_Result c) (st_shardResults s),
            encode_map (enc_Capture c) (st_captures s), enc_Settings c (st_captureSettings s)) of
        (Some targets, Some runs, Some searches, Some searchRun, Some shards, Some shardResults, Some captures,
         Some settings) \<Rightarrow>
          Some (Object (fmap_of_list [(''next_id'', Number (dec_int (st_nextID s))), (''targets'', targets), (''runs'', runs),
            (''searches'', searches), (''search_run'', searchRun), (''shards'', shards), (''shard_results'', shardResults),
            (''captures'', captures), (''capture_settings'', settings)]))
      | _ \<Rightarrow> None)"

definition settings_field :: "snapshot_codec \<Rightarrow> jval smap \<Rightarrow> CaptureSettings option" where
  "settings_field c flds = (case fmlookup flds ''capture_settings'' of
     None \<Rightarrow> Some zero_CaptureSettings | Some Null \<Rightarrow> Some zero_CaptureSettings | Some v \<Rightarrow> dec_Settings c v)"

text \<open>\<open>None\<close> is the error of \<open>json.Unmarshal\<close>; progress and the time of the agent are not touched.\<close>

definition Restore :: "snapshot_codec \<Rightarrow> jval \<Rightarrow> Store \<Rightarrow> Store option" where
  "Restore c data s = (case data of
     Object f \<Rightarrow>
       (case (int_field ''next_id'' f, map_field decode_Target ''targets'' f, map_field (dec_Run c) ''runs'' f,
              map_field (dec_Search c) ''searches'' f, map_field decode_text ''search_run'' f,
              map_field (dec_Shard c) ''shards'' f, map_field (dec_Result c) ''shard_results'' f,
              map_field (dec_Capture c) ''captures'' f, settings_field c f) of
          (Some nextID, Some targets, Some runs, Some searches, Some searchRun, Some shards, Some shardResults,
           Some captures, Some settings) \<Rightarrow>
            Some (s\<lparr>st_nextID := nextID, st_targets := targets, st_runs := runs, st_searches := searches,
              st_searchRun := searchRun, st_shards := shards, st_shardResults := shardResults,
              st_captures := captures, st_captureSettings := settings\<rparr>)
        | _ \<Rightarrow> None)
   | Null \<Rightarrow>
       Some (s\<lparr>st_nextID := 0, st_targets := fmempty, st_runs := fmempty, st_searches := fmempty,
         st_searchRun := fmempty, st_shards := fmempty, st_shardResults := fmempty, st_captures := fmempty,
         st_captureSettings := zero_CaptureSettings\<rparr>)
   | _ \<Rightarrow> None)"

subsection \<open>Encryption of API keys\<close>

text \<open>AES-GCM: the sealed text for a key, a nonce and a text, and the text for a key, a nonce and a sealed
  text, \<open>None\<close> when it was not made with that key and nonce. Its nonce has twelve bytes, its key 16, 24
  or 32.\<close>

record aead =
  gcm_Seal :: "string \<Rightarrow> string \<Rightarrow> string \<Rightarrow> string"
  gcm_Open :: "string \<Rightarrow> string \<Rightarrow> string \<Rightarrow> string option"

definition NonceSize :: nat where "NonceSize = 12"

definition aes_key :: "string \<Rightarrow> bool" where "aes_key key \<longleftrightarrow> length key \<in> {16, 24, 32}"

definition encryptedPrefix :: string where "encryptedPrefix = ''enc:v1:''"

definition DecodeEncryptionKey :: "string \<Rightarrow> string + string" where
  "DecodeEncryptionKey value = (case DecodeString StdEncoding value of
     None \<Rightarrow> Inl ''TARGET_API_KEY_ENCRYPTION_KEY must be base64-encoded 32 bytes''
   | Some key \<Rightarrow> if length key \<noteq> 32 then Inl ''TARGET_API_KEY_ENCRYPTION_KEY must be base64-encoded 32 bytes'' else Inr key)"

text \<open>The bytes that \<open>rand.Reader\<close> gave for the nonce are an argument, \<open>None\<close> when it failed.\<close>

definition encryptAPIKey :: "aead \<Rightarrow> string option \<Rightarrow> string \<Rightarrow> string \<Rightarrow> string + string" where
  "encryptAPIKey a random value key =
     (if \<not> aes_key key then Inl ''invalid key size''
      else case random of
          None \<Rightarrow> Inl ''random source failed''
        | Some nonce \<Rightarrow> Inr (encryptedPrefix @ EncodeToString StdEncoding (nonce @ gcm_Seal a key nonce value)))"

definition decryptAPIKey :: "aead \<Rightarrow> string \<Rightarrow> string \<Rightarrow> string + string" where
  "decryptAPIKey a value key =
     (if \<not> HasPrefix value encryptedPrefix then Inr value
      else case DecodeString StdEncoding (TrimPrefix value encryptedPrefix) of
          None \<Rightarrow> Inl ''illegal base64 data''
        | Some encoded \<Rightarrow>
            if \<not> aes_key key then Inl ''invalid key size''
            else if length encoded < NonceSize then Inl ''encrypted API key is too short''
            else (case gcm_Open a key (take NonceSize encoded) (drop NonceSize encoded) of
                None \<Rightarrow> Inl ''message authentication failed''
              | Some plain \<Rightarrow> Inr plain))"

text \<open>The step of the loop of \<open>transformSnapshot\<close> for one target, and the loop, over the identifiers in
  the order of the map.\<close>

definition transform_target :: "(string \<Rightarrow> string \<Rightarrow> string + string) \<Rightarrow> string \<Rightarrow> jval \<Rightarrow> string + jval" where
  "transform_target transform key target = (case target of
     Object flds \<Rightarrow>
       (case fmlookup flds ''api_key'' of
          Some (Text apiKey) \<Rightarrow>
            if apiKey \<noteq> [] then
              (case transform apiKey key of
                 Inl err \<Rightarrow> Inl err | Inr value \<Rightarrow> Inr (Object (fmupd ''api_key'' (Text value) flds)))
            else Inr target
        | _ \<Rightarrow> Inr target)
   | _ \<Rightarrow> Inr target)"

fun transform_loop ::
    "(string \<Rightarrow> string \<Rightarrow> string \<Rightarrow> string + string) \<Rightarrow> string \<Rightarrow> string list \<Rightarrow> jval smap \<Rightarrow> string + jval smap" where
  "transform_loop transform key [] targets = Inr targets"
| "transform_loop transform key (i # ids) targets =
     (case fmlookup targets i of
        None \<Rightarrow> transform_loop transform key ids targets
      | Some target \<Rightarrow>
          (case transform_target (transform i) key target of
             Inl err \<Rightarrow> Inl err
           | Inr target \<Rightarrow> transform_loop transform key ids (fmupd i target targets)))"

definition is_object :: "jval \<Rightarrow> bool" where
  "is_object v = (case v of Object _ \<Rightarrow> True | Null \<Rightarrow> True | _ \<Rightarrow> False)"

definition transformSnapshot ::
    "(string fset \<Rightarrow> string list) \<Rightarrow> (string \<Rightarrow> string \<Rightarrow> string \<Rightarrow> string + string) \<Rightarrow> jval \<Rightarrow> string \<Rightarrow> string + jval" where
  "transformSnapshot ord transform data key = (case data of
     Object state \<Rightarrow>
       (case fmlookup state ''targets'' of
          None \<Rightarrow> Inr data
        | Some Null \<Rightarrow> Inr data
        | Some (Object targets) \<Rightarrow>
            if \<not> fBall (fmran targets) is_object then Inl ''cannot unmarshal targets''
            else (case transform_loop transform key (ord (fmdom targets)) targets of
                Inl err \<Rightarrow> Inl err
              | Inr targets \<Rightarrow> Inr (Object (fmupd ''targets'' (Object targets) state)))
        | Some _ \<Rightarrow> Inl ''cannot unmarshal targets'')
   | Null \<Rightarrow> Inr Null
   | _ \<Rightarrow> Inl ''cannot unmarshal snapshot'')"

definition protectSnapshot :: "aead \<Rightarrow> (string \<Rightarrow> string option) \<Rightarrow> (string fset \<Rightarrow> string list) \<Rightarrow> jval \<Rightarrow> string \<Rightarrow> string + jval" where
  "protectSnapshot a random ord data key = transformSnapshot ord (\<lambda>i. encryptAPIKey a (random i)) data key"

definition unprotectSnapshot :: "aead \<Rightarrow> (string fset \<Rightarrow> string list) \<Rightarrow> jval \<Rightarrow> string \<Rightarrow> string + jval" where
  "unprotectSnapshot a ord data key = transformSnapshot ord (\<lambda>i. decryptAPIKey a) data key"

subsection \<open>Decrypting undoes encrypting\<close>

text \<open>What the code relies on: \<open>Open\<close> undoes \<open>Seal\<close> for the same key and nonce, the random source gives
  twelve bytes, and a loop over a map visits each key once.\<close>

definition aead_ok :: "aead \<Rightarrow> bool" where
  "aead_ok a \<longleftrightarrow> (\<forall>key nonce plain. length nonce = NonceSize \<longrightarrow> gcm_Open a key nonce (gcm_Seal a key nonce plain) = Some plain)"

definition random_ok :: "(string \<Rightarrow> string option) \<Rightarrow> bool" where
  "random_ok random \<longleftrightarrow> (\<forall>i. \<exists>nonce. random i = Some nonce \<and> length nonce = NonceSize)"

definition orders :: "(string fset \<Rightarrow> string list) \<Rightarrow> bool" where
  "orders ord \<longleftrightarrow> (\<forall>ks. distinct (ord ks) \<and> fset_of_list (ord ks) = ks)"

definition sealed :: "aead \<Rightarrow> string \<Rightarrow> string \<Rightarrow> string \<Rightarrow> string" where
  "sealed a key nonce value = encryptedPrefix @ EncodeToString StdEncoding (nonce @ gcm_Seal a key nonce value)"

lemma decrypt_sealed:
  assumes "aead_ok a" "aes_key key" "length nonce = NonceSize"
  shows "decryptAPIKey a (sealed a key nonce value) key = Inr value"
  using assms by (simp add: decryptAPIKey_def sealed_def HasPrefix_def TrimPrefix_def DecodeString_EncodeToString aead_ok_def)

lemma encrypt_sealed: "aes_key key \<Longrightarrow> random = Some nonce \<Longrightarrow> encryptAPIKey a random value key = Inr (sealed a key nonce value)"
  by (simp add: encryptAPIKey_def sealed_def)

lemma sealed_not_empty [simp]: "sealed a key nonce value \<noteq> []"
  by (simp add: sealed_def encryptedPrefix_def)

text \<open>The key of a target in the document, with its fields.\<close>

definition key_of :: "jval \<Rightarrow> (jval smap \<times> string) option" where
  "key_of target = (case target of
     Object flds \<Rightarrow>
       (case fmlookup flds ''api_key'' of Some (Text apiKey) \<Rightarrow> if apiKey \<noteq> [] then Some (flds, apiKey) else None | _ \<Rightarrow> None)
   | _ \<Rightarrow> None)"

lemma key_of_Some: "key_of target = Some (flds, apiKey) \<longleftrightarrow>
    target = Object flds \<and> fmlookup flds ''api_key'' = Some (Text apiKey) \<and> apiKey \<noteq> []"
  by (cases target) (auto simp: key_of_def split: option.split jval.split)

lemma transform_target_key: "transform_target transform key target = (case key_of target of
    None \<Rightarrow> Inr target
  | Some (flds, apiKey) \<Rightarrow> map_sum id (\<lambda>v. Object (fmupd ''api_key'' (Text v) flds)) (transform apiKey key))"
  by (cases target) (auto simp: transform_target_def key_of_def split: option.split jval.split sum.split)

text \<open>One target: encrypting always succeeds, and decrypting gives the target back.\<close>

definition seal_target :: "aead \<Rightarrow> string \<Rightarrow> string \<Rightarrow> jval \<Rightarrow> jval" where
  "seal_target a key nonce target = (case key_of target of
     None \<Rightarrow> target | Some (flds, apiKey) \<Rightarrow> Object (fmupd ''api_key'' (Text (sealed a key nonce apiKey)) flds))"

lemma seal_target_encrypts:
  "aes_key key \<Longrightarrow> random = Some nonce \<Longrightarrow> transform_target (encryptAPIKey a random) key target = Inr (seal_target a key nonce target)"
  by (simp add: transform_target_key seal_target_def encrypt_sealed split: option.split)

lemma fmupd_same: "fmlookup m k = Some v \<Longrightarrow> fmupd k v m = m"
  by (rule fmap_ext) auto

lemma seal_target_decrypts:
  assumes "aead_ok a" "aes_key key" "length nonce = NonceSize"
  shows "transform_target (decryptAPIKey a) key (seal_target a key nonce target) = Inr target"
proof (cases "key_of target")
  case None
  then show ?thesis by (simp add: seal_target_def transform_target_key)
next
  case (Some k)
  then obtain flds apiKey where k: "target = Object flds" "fmlookup flds ''api_key'' = Some (Text apiKey)" "apiKey \<noteq> []"
    by (cases k) (auto simp: key_of_Some)
  then have "key_of target = Some (flds, apiKey)"
    and "key_of (Object (fmupd ''api_key'' (Text (sealed a key nonce apiKey)) flds)) =
      Some (fmupd ''api_key'' (Text (sealed a key nonce apiKey)) flds, sealed a key nonce apiKey)"
    by (simp_all add: key_of_Some)
  then show ?thesis
    using k by (simp add: seal_target_def transform_target_key decrypt_sealed [OF assms] fmupd_same)
qed

lemma seal_target_object [simp]: "is_object (seal_target a key nonce target) = is_object target"
  by (auto simp: seal_target_def key_of_Some is_object_def split: option.split)

lemma all_values: "fBall (fmran m) P \<longleftrightarrow> (\<forall>k v. fmlookup m k = Some v \<longrightarrow> P v)"
  by (auto simp: fmlookup_ran_iff)

lemma transform_loop_all:
  assumes "distinct ids" "\<And>i v. i \<in> set ids \<Longrightarrow> fmlookup targets i = Some v \<Longrightarrow> transform_target (transform i) key v = Inr (f i v)"
  shows "\<exists>t. transform_loop transform key ids targets = Inr t \<and>
    (\<forall>i. fmlookup t i = (if i \<in> set ids then map_option (f i) (fmlookup targets i) else fmlookup targets i))"
  using assms
proof (induction ids arbitrary: targets)
  case (Cons i ids)
  show ?case
  proof (cases "fmlookup targets i")
    case None
    then show ?thesis using Cons.IH [of targets] Cons.prems by auto
  next
    case (Some v)
    have "transform_target (transform i) key v = Inr (f i v)" using Cons.prems(2) Some by simp
    moreover have "\<exists>t. transform_loop transform key ids (fmupd i (f i v) targets) = Inr t \<and>
      (\<forall>j. fmlookup t j = (if j \<in> set ids then map_option (f j) (fmlookup (fmupd i (f i v) targets) j)
         else fmlookup (fmupd i (f i v) targets) j))"
      by (rule Cons.IH) (use Cons.prems in \<open>auto split: if_splits\<close>)
    ultimately show ?thesis using Some Cons.prems(1) by (auto split: if_splits)
  qed
qed simp

text \<open>A document whose targets are objects: encrypting succeeds, and decrypting gives the document back.\<close>

lemma seal_loop:
  assumes "aes_key key" "random_ok random" "distinct ids"
  shows "\<exists>t. transform_loop (\<lambda>i. encryptAPIKey a (random i)) key ids targets = Inr t \<and>
    (\<forall>i. fmlookup t i = (if i \<in> set ids then map_option (seal_target a key (the (random i))) (fmlookup targets i)
       else fmlookup targets i))"
proof (rule transform_loop_all [OF assms(3)])
  fix i v
  from assms(2) obtain nonce where "random i = Some nonce" unfolding random_ok_def by blast
  then show "transform_target (encryptAPIKey a (random i)) key v = Inr (seal_target a key (the (random i)) v)"
    using seal_target_encrypts [OF assms(1)] by simp
qed

lemma ids_of: "orders ord \<Longrightarrow> distinct (ord ks) \<and> set (ord ks) = fset ks"
  unfolding orders_def by (metis fset_of_list.rep_eq)

lemma protect_targets:
  assumes "aes_key key" "random_ok random" "orders ord" "fmlookup state ''targets'' = Some (Object targets)"
    "fBall (fmran targets) is_object"
  shows "\<exists>t. protectSnapshot a random ord (Object state) key = Inr (Object (fmupd ''targets'' (Object t) state)) \<and>
    (\<forall>i. fmlookup t i = map_option (seal_target a key (the (random i))) (fmlookup targets i))"
proof -
  note ids = ids_of [OF assms(3), of "fmdom targets"]
  from seal_loop [OF assms(1,2), of "ord (fmdom targets)" a targets] ids
  obtain t where t: "transform_loop (\<lambda>i. encryptAPIKey a (random i)) key (ord (fmdom targets)) targets = Inr t"
    "\<And>i. fmlookup t i = (if i \<in> fset (fmdom targets) then map_option (seal_target a key (the (random i))) (fmlookup targets i)
       else fmlookup targets i)" by auto
  have "fmlookup t i = map_option (seal_target a key (the (random i))) (fmlookup targets i)" for i
    by (cases "fmlookup targets i") (simp_all add: t(2) fmlookup_dom_iff)
  moreover have "protectSnapshot a random ord (Object state) key = Inr (Object (fmupd ''targets'' (Object t) state))"
    using assms(4,5) t(1) by (simp add: protectSnapshot_def transformSnapshot_def)
  ultimately show ?thesis by blast
qed

lemma unprotect_targets:
  assumes "aead_ok a" "aes_key key" "random_ok random" "orders ord" "fmlookup state ''targets'' = Some (Object targets)"
    "fBall (fmran targets) is_object"
    and "\<And>i. fmlookup t i = map_option (seal_target a key (the (random i))) (fmlookup targets i)"
  shows "unprotectSnapshot a ord (Object (fmupd ''targets'' (Object t) state)) key = Inr (Object state)"
proof -
  let ?open = "\<lambda>i v. the (fmlookup targets i)"
  have "\<exists>u. transform_loop (\<lambda>i. decryptAPIKey a) key (ord (fmdom t)) t = Inr u \<and>
    (\<forall>i. fmlookup u i = (if i \<in> set (ord (fmdom t)) then map_option (?open i) (fmlookup t i) else fmlookup t i))"
  proof (rule transform_loop_all)
    fix i v assume v: "fmlookup t i = Some v"
    from assms(3) have "length (the (random i)) = NonceSize" unfolding random_ok_def by (metis option.sel)
    then show "transform_target (decryptAPIKey a) key v = Inr (the (fmlookup targets i))"
      using v assms(7) [of i] seal_target_decrypts [OF assms(1,2)] by auto
  qed (use ids_of [OF assms(4)] in blast)
  then obtain u where u: "transform_loop (\<lambda>i. decryptAPIKey a) key (ord (fmdom t)) t = Inr u"
    "\<And>i. fmlookup u i = (if i \<in> fset (fmdom t) then map_option (?open i) (fmlookup t i) else fmlookup t i)"
    using ids_of [OF assms(4), of "fmdom t"] by auto
  have "fmlookup u i = fmlookup targets i" for i
    using assms(7) [of i] by (cases "fmlookup targets i") (simp_all add: u(2) fmlookup_dom_iff)
  then have u': "u = targets" by (rule fmap_ext)
  have "fBall (fmran t) is_object"
    using assms(6) unfolding all_values by (auto simp: assms(7))
  then show ?thesis using u(1) assms(5) unfolding u'
    by (simp add: unprotectSnapshot_def transformSnapshot_def fmupd_same)
qed

subsection \<open>Restoring undoes taking a snapshot\<close>

definition codes :: "('a \<Rightarrow> jval option) \<Rightarrow> (jval \<Rightarrow> 'a option) \<Rightarrow> 'a \<Rightarrow> bool" where
  "codes enc dec x \<longleftrightarrow> (\<exists>v. enc x = Some v \<and> dec v = Some x)"

text \<open>The values of a store that encode and decode to themselves.\<close>

definition encodable :: "snapshot_codec \<Rightarrow> Store \<Rightarrow> bool" where
  "encodable c s \<longleftrightarrow> fBall (fmran (st_runs s)) (codes (enc_Run c) (dec_Run c)) \<and>
     fBall (fmran (st_searches s)) (codes (enc_Search c) (dec_Search c)) \<and>
     fBall (fmran (st_shards s)) (codes (enc_Shard c) (dec_Shard c)) \<and>
     fBall (fmran (st_shardResults s)) (codes (enc_Result c) (dec_Result c)) \<and>
     fBall (fmran (st_captures s)) (codes (enc_Capture c) (dec_Capture c)) \<and>
     codes (enc_Settings c) (dec_Settings c) (st_captureSettings s) \<and> enc_Settings c (st_captureSettings s) \<noteq> Some Null \<and>
     i64 (st_nextID s) = st_nextID s"

lemma decode_encode_map:
  assumes "fBall (fmran m) (codes enc dec)"
  shows "\<exists>d. encode_map enc m = Some (Object d) \<and> decode_map dec d = Some m"
proof -
  have code: "codes enc dec x" if "fmlookup m i = Some x" for i x
    using assms that unfolding all_values by blast
  then have "fBall (fmran m) (\<lambda>v. enc v \<noteq> None)"
    unfolding all_values by (force simp: codes_def)
  moreover have "fBall (fmran (fmmap (the \<circ> enc) m)) (\<lambda>v. dec v \<noteq> None)"
    using code unfolding all_values by (force simp: codes_def)
  moreover have "fmmap (the \<circ> dec) (fmmap (the \<circ> enc) m) = m"
  proof (rule fmap_ext)
    fix i
    show "fmlookup (fmmap (the \<circ> dec) (fmmap (the \<circ> enc) m)) i = fmlookup m i"
      using code [of i] by (cases "fmlookup m i") (auto simp: codes_def)
  qed
  ultimately show ?thesis by (simp add: encode_map_def decode_map_def)
qed

lemma int_text_dec:
  assumes "i64 n = n"
  shows "int_text (dec_int n) = Some n"
proof -
  have digits: "list_all (\<lambda>c. of_char c \<in> {48..57 :: nat}) (dec_nat m)" for m
    using dec_nat_digits by (fastforce simp: list_all_iff)
  show ?thesis
  proof (cases "n < 0")
    case True
    then show ?thesis using digits [of "nat (- n)"] assms
      by (simp add: int_text_def dec_int_def undec_dec_nat)
  next
    case False
    have "hd (dec_nat (nat n)) \<noteq> CHR ''-''"
      using dec_nat_no_minus [of "nat n"] dec_nat_nonempty [of "nat n"] by (metis list.collapse)
    then show ?thesis using False digits [of "nat n"] assms
      by (simp add: int_text_def dec_int_def undec_dec_nat)
  qed
qed

lemma decode_encode_Target: "decode_Target (encode_Target t) = Some t"
  by (cases t) (simp add: encode_Target_def decode_Target_def omitempty_def string_field_def bool_field_def)

lemma targets_code: "fBall (fmran m) (codes (\<lambda>t. Some (encode_Target t)) decode_Target)"
  by (auto simp: codes_def decode_encode_Target)

lemma texts_code: "fBall (fmran m) (codes (\<lambda>t. Some (Text t)) decode_text)"
  by (auto simp: codes_def decode_text_def)

lemma encode_targets: "encode_map (\<lambda>t. Some (encode_Target t)) m = Some (Object (fmmap encode_Target m))"
  by (simp add: encode_map_def comp_def)

lemma restore_snapshot:
  assumes "encodable c s"
  shows "\<exists>f. Snapshot c s = Some (Object f) \<and>
    fmlookup f ''targets'' = Some (Object (fmmap encode_Target (st_targets s))) \<and>
    (\<forall>s0. Restore c (Object f) s0 = Some (s\<lparr>st_progress := st_progress s0, st_agentSeen := st_agentSeen s0\<rparr>))"
proof -
  note parts = assms [unfolded encodable_def]
  obtain runs where runs: "encode_map (enc_Run c) (st_runs s) = Some (Object runs)" "decode_map (dec_Run c) runs = Some (st_runs s)"
    using decode_encode_map parts by blast
  obtain searches where searches: "encode_map (enc_Search c) (st_searches s) = Some (Object searches)"
      "decode_map (dec_Search c) searches = Some (st_searches s)" using decode_encode_map parts by blast
  obtain shards where shards: "encode_map (enc_Shard c) (st_shards s) = Some (Object shards)"
      "decode_map (dec_Shard c) shards = Some (st_shards s)" using decode_encode_map parts by blast
  obtain results where results: "encode_map (enc_Result c) (st_shardResults s) = Some (Object results)"
      "decode_map (dec_Result c) results = Some (st_shardResults s)" using decode_encode_map parts by blast
  obtain captures where captures: "encode_map (enc_Capture c) (st_captures s) = Some (Object captures)"
      "decode_map (dec_Capture c) captures = Some (st_captures s)" using decode_encode_map parts by blast
  obtain searchRun where searchRun: "encode_map (\<lambda>t. Some (Text t)) (st_searchRun s) = Some (Object searchRun)"
      "decode_map decode_text searchRun = Some (st_searchRun s)" using decode_encode_map [OF texts_code] by blast
  have targets: "decode_map decode_Target (fmmap encode_Target (st_targets s)) = Some (st_targets s)"
    using decode_encode_map [OF targets_code, of "st_targets s"] by (simp add: encode_targets)
  obtain settings where settings: "enc_Settings c (st_captureSettings s) = Some settings"
      "dec_Settings c settings = Some (st_captureSettings s)" "settings \<noteq> Null" using parts by (auto simp: codes_def)
  have "int_text (dec_int (st_nextID s)) = Some (st_nextID s)" using parts by (simp add: int_text_dec)
  moreover have "settings_field c f = Some (st_captureSettings s)" if "fmlookup f ''capture_settings'' = Some settings" for f
    using settings(2,3) that by (cases settings) (simp_all add: settings_field_def)
  moreover have "s0\<lparr>st_nextID := st_nextID s, st_targets := st_targets s, st_runs := st_runs s, st_searches := st_searches s,
      st_searchRun := st_searchRun s, st_shards := st_shards s, st_shardResults := st_shardResults s,
      st_captures := st_captures s, st_captureSettings := st_captureSettings s\<rparr> =
    s\<lparr>st_progress := st_progress s0, st_agentSeen := st_agentSeen s0\<rparr>" for s0
    by (cases s, cases s0) simp
  ultimately show ?thesis
    using runs searches shards results captures searchRun targets settings(1)
    by (simp add: Snapshot_def Restore_def encode_targets int_field_def map_field_def)
qed

end
