(* ===== verification/Store_Postgres.thy ===== *)
theory Store_Postgres
  imports Store_Persist Store_History "HOL-Library.List_Lexorder" "HOL-Library.Char_ord"
begin

text \<open>
  \<open>PostgresStore\<close> of \<open>internal/store/postgres.go\<close>: the memory store with one row of a table that holds its
  snapshot, written after each operation that changes what a snapshot holds. The encodings, AES-GCM, the
  random source and the answers of the database are arguments. A restart gives the store back.
\<close>

record PostgresStore =
  pg_memory :: Store
  pg_row :: "jval option"      \<comment> \<open>the state column of the row, when there is one\<close>
  pg_key :: string

text \<open>What an operation takes from outside; \<open>pe_exec\<close> says whether the statement succeeds.\<close>

record pg_env =
  pe_codec :: snapshot_codec
  pe_aead :: aead
  pe_random :: "string \<Rightarrow> string option"
  pe_ord :: "string fset \<Rightarrow> string list"
  pe_exec :: bool

text \<open>Connecting, creating the table, and reading the row may each fail; \<open>read\<close> is false when the row is
  missing or cannot be read, which the code treats alike.\<close>

definition NewPostgresStore ::
    "pg_env \<Rightarrow> bool \<Rightarrow> bool \<Rightarrow> jval option \<Rightarrow> string \<Rightarrow> string + PostgresStore" where
  "NewPostgresStore e dialled read row key =
     (if length key \<noteq> 32 then Inl ''PostgreSQL API key encryption requires a 32-byte key''
      else if \<not> dialled then Inl ''connection failed''
      else if \<not> pe_exec e then Inl ''table not created''
      else let store = \<lparr>pg_memory = NewMemoryStore, pg_row = row, pg_key = key\<rparr>
           in case (if read then row else None) of
                None \<Rightarrow> Inr store
              | Some state \<Rightarrow>
                  (case unprotectSnapshot (pe_aead e) (pe_ord e) state key of
                     Inl err \<Rightarrow> Inl err
                   | Inr state \<Rightarrow>
                       (case Restore (pe_codec e) state (pg_memory store) of
                          None \<Rightarrow> Inl ''cannot unmarshal snapshot''
                        | Some memory \<Rightarrow> Inr (store\<lparr>pg_memory := memory\<rparr>))))"

definition persist :: "pg_env \<Rightarrow> PostgresStore \<Rightarrow> PostgresStore" where
  "persist e s =
     (case Snapshot (pe_codec e) (pg_memory s) of
        None \<Rightarrow> s
      | Some data \<Rightarrow>
          (case protectSnapshot (pe_aead e) (pe_random e) (pe_ord e) data (pg_key s) of
             Inl err \<Rightarrow> s
           | Inr data \<Rightarrow> if pe_exec e then s\<lparr>pg_row := Some data\<rparr> else s))"

subsection \<open>Operations\<close>

text \<open>An operation of the memory store alone, one that is followed by a write, and one that is followed by a
  write when it did something.\<close>

definition in_memory :: "(Store \<Rightarrow> 'a \<times> Store) \<Rightarrow> PostgresStore \<Rightarrow> 'a \<times> PostgresStore" where
  "in_memory f s = (let (r, m) = f (pg_memory s) in (r, s\<lparr>pg_memory := m\<rparr>))"

definition persisted_if :: "('a \<Rightarrow> bool) \<Rightarrow> pg_env \<Rightarrow> (Store \<Rightarrow> 'a \<times> Store) \<Rightarrow> PostgresStore \<Rightarrow> 'a \<times> PostgresStore" where
  "persisted_if changed e f s = (let (r, s) = in_memory f s in (r, if changed r then persist e s else s))"

abbreviation persisted :: "pg_env \<Rightarrow> (Store \<Rightarrow> 'a \<times> Store) \<Rightarrow> PostgresStore \<Rightarrow> 'a \<times> PostgresStore" where
  "persisted \<equiv> persisted_if (\<lambda>_. True)"

definition Pg_CreateTarget :: "pg_env \<Rightarrow> Target \<Rightarrow> PostgresStore \<Rightarrow> Target \<times> PostgresStore" where
  "Pg_CreateTarget e v = persisted e (CreateTarget v)"

definition Pg_GetTarget :: "string \<Rightarrow> PostgresStore \<Rightarrow> Target \<times> bool" where
  "Pg_GetTarget v s = GetTarget v (pg_memory s)"

definition Pg_ListTargets :: "string list \<Rightarrow> PostgresStore \<Rightarrow> Target list" where
  "Pg_ListTargets ord s = ListTargets ord (pg_memory s)"

definition Pg_DeleteTarget :: "pg_env \<Rightarrow> string list \<Rightarrow> string \<Rightarrow> PostgresStore \<Rightarrow> DeleteTargetResult \<times> PostgresStore" where
  "Pg_DeleteTarget e ord v = persisted_if (\<lambda>result. result = TargetDeleted) e (DeleteTarget ord v)"

definition Pg_CreateRun :: "pg_env \<Rightarrow> RunConfig \<Rightarrow> PostgresStore \<Rightarrow> Run \<times> PostgresStore" where
  "Pg_CreateRun e v = persisted e (CreateRun v)"

definition Pg_SetCreatedBy :: "pg_env \<Rightarrow> string \<Rightarrow> string \<Rightarrow> PostgresStore \<Rightarrow> PostgresStore" where
  "Pg_SetCreatedBy e i user s = snd (persisted e (\<lambda>m. ((), SetCreatedBy i user m)) s)"

definition Pg_GetRun :: "string list \<Rightarrow> string \<Rightarrow> PostgresStore \<Rightarrow> Run \<times> bool" where
  "Pg_GetRun ord v s = GetRun ord v (pg_memory s)"

definition Pg_CancelRun :: "pg_env \<Rightarrow> string list \<Rightarrow> string \<Rightarrow> PostgresStore \<Rightarrow> (Run \<times> bool) \<times> PostgresStore" where
  "Pg_CancelRun e ord v = persisted_if snd e (CancelRun ord v)"

definition Pg_ListRuns :: "string list \<Rightarrow> string list \<Rightarrow> PostgresStore \<Rightarrow> Run list" where
  "Pg_ListRuns ord shard_ord s = ListRuns ord shard_ord (pg_memory s)"

definition Pg_ClaimRun :: "pg_env \<Rightarrow> string list \<Rightarrow> int \<Rightarrow> PostgresStore \<Rightarrow> Assignment option \<times> PostgresStore" where
  "Pg_ClaimRun e ord now = persisted_if (\<lambda>r. r \<noteq> None) e (ClaimRun ord now)"

definition Pg_CompleteRun :: "pg_env \<Rightarrow> string \<Rightarrow> RunResult \<Rightarrow> PostgresStore \<Rightarrow> (Run \<times> bool) \<times> PostgresStore" where
  "Pg_CompleteRun e i r = persisted_if snd e (CompleteRun i r)"

definition Pg_CompleteShard ::
    "pg_env \<Rightarrow> string list \<Rightarrow> ((int, TimelinePoint) fmap \<Rightarrow> int list) \<Rightarrow> string \<Rightarrow> RunResult \<Rightarrow> PostgresStore
     \<Rightarrow> (Run \<times> bool) \<times> PostgresStore" where
  "Pg_CompleteShard e ord tord i r = persisted_if snd e (CompleteShard ord tord i r)"

definition Pg_SetShardProgress :: "string \<Rightarrow> RunProgress \<Rightarrow> PostgresStore \<Rightarrow> bool \<times> PostgresStore" where
  "Pg_SetShardProgress shardID progress = in_memory (SetShardProgress shardID progress)"

definition Pg_AddMonitoring :: "int \<Rightarrow> string \<Rightarrow> MonitoringSample \<Rightarrow> PostgresStore \<Rightarrow> PostgresStore" where
  "Pg_AddMonitoring now i sample s = snd (in_memory (\<lambda>m. ((), AddMonitoring now i sample m)) s)"

definition Pg_ActiveRunIDs :: "string list \<Rightarrow> PostgresStore \<Rightarrow> string list" where
  "Pg_ActiveRunIDs ord s = ActiveRunIDs ord (pg_memory s)"

definition Pg_SetDetectedServer :: "pg_env \<Rightarrow> string \<Rightarrow> ServerConfig \<Rightarrow> PostgresStore \<Rightarrow> PostgresStore" where
  "Pg_SetDetectedServer e i detected s = snd (persisted e (\<lambda>m. ((), SetDetectedServer i detected m)) s)"

definition Pg_TouchAgent :: "int \<Rightarrow> PostgresStore \<Rightarrow> PostgresStore" where
  "Pg_TouchAgent now s = snd (in_memory (\<lambda>m. ((), TouchAgent now m)) s)"

definition Pg_Health :: "string list \<Rightarrow> int \<Rightarrow> PostgresStore \<Rightarrow> int \<times> int \<times> bool" where
  "Pg_Health ord now s = Health ord now (pg_memory s)"

definition Pg_CreateSearch :: "pg_env \<Rightarrow> AutoSearchConfig \<Rightarrow> PostgresStore \<Rightarrow> AutoSearch \<times> PostgresStore" where
  "Pg_CreateSearch e v = persisted e (CreateSearch v)"

definition Pg_GetSearch :: "string \<Rightarrow> PostgresStore \<Rightarrow> AutoSearch \<times> bool" where
  "Pg_GetSearch v s = GetSearch v (pg_memory s)"

definition Pg_ListSearches :: "string list \<Rightarrow> PostgresStore \<Rightarrow> AutoSearch list" where
  "Pg_ListSearches ord s = ListSearches ord (pg_memory s)"

definition Pg_CancelSearch :: "pg_env \<Rightarrow> string list \<Rightarrow> string \<Rightarrow> PostgresStore \<Rightarrow> (AutoSearch \<times> bool) \<times> PostgresStore" where
  "Pg_CancelSearch e ord v = persisted_if snd e (CancelSearch ord v)"

definition Pg_AdvanceSearch :: "pg_env \<Rightarrow> string \<Rightarrow> PostgresStore \<Rightarrow> PostgresStore" where
  "Pg_AdvanceSearch e v s = snd (persisted e (\<lambda>m. ((), advanceSearch v m)) s)"

definition Pg_RecordCapture ::
    "pg_env \<Rightarrow> string list \<Rightarrow> CaptureSession \<Rightarrow> CaptureEvent \<Rightarrow> PostgresStore \<Rightarrow> CaptureSession \<times> PostgresStore" where
  "Pg_RecordCapture e ord v event = persisted e (RecordCapture ord v event)"

definition Pg_ListCaptures :: "string list \<Rightarrow> PostgresStore \<Rightarrow> CaptureSession list" where
  "Pg_ListCaptures ord s = ListCaptures ord (pg_memory s)"

definition Pg_DeleteCapture :: "pg_env \<Rightarrow> string \<Rightarrow> PostgresStore \<Rightarrow> bool \<times> PostgresStore" where
  "Pg_DeleteCapture e i = persisted_if (\<lambda>ok. ok) e (DeleteCapture i)"

definition Pg_GetCaptureSettings :: "PostgresStore \<Rightarrow> CaptureSettings" where
  "Pg_GetCaptureSettings s = GetCaptureSettings (pg_memory s)"

definition Pg_SetCaptureSettings :: "pg_env \<Rightarrow> CaptureSettings \<Rightarrow> PostgresStore \<Rightarrow> CaptureSettings \<times> PostgresStore" where
  "Pg_SetCaptureSettings e v = persisted e (SetCaptureSettings v)"

subsection \<open>A restart\<close>

text \<open>The text of the key of a target in the row.\<close>

definition fields_of :: "jval \<Rightarrow> jval smap" where
  "fields_of v = (case v of Object f \<Rightarrow> f | _ \<Rightarrow> fmempty)"

definition row_key :: "jval \<Rightarrow> string \<Rightarrow> jval option" where
  "row_key row i = (case fmlookup (fields_of row) ''targets'' of
     None \<Rightarrow> None
   | Some targets \<Rightarrow>
       (case fmlookup (fields_of targets) i of None \<Rightarrow> None | Some target \<Rightarrow> fmlookup (fields_of target) ''api_key''))"

lemma key_of_Target: "tgt_APIKey t \<noteq> [] \<Longrightarrow> \<exists>f. key_of (encode_Target t) = Some (f, tgt_APIKey t)"
  by (simp add: key_of_def encode_Target_def omitempty_def)

lemma sealed_key:
  assumes "tgt_APIKey t \<noteq> []"
  shows "fmlookup (fields_of (seal_target a key nonce (encode_Target t))) ''api_key'' = Some (Text (sealed a key nonce (tgt_APIKey t)))"
  using key_of_Target [OF assms] by (auto simp: seal_target_def fields_of_def)

lemma targets_are_objects: "fBall (fmran (fmmap encode_Target m)) is_object"
  by (auto simp: is_object_def encode_Target_def)

lemma persist_restores:
  assumes "length (pg_key s) = 32" "aead_ok (pe_aead e)" "random_ok (pe_random e)" "orders (pe_ord e)" "pe_exec e"
    "encodable (pe_codec e) (pg_memory s)"
  shows "\<exists>row. persist e s = s\<lparr>pg_row := Some row\<rparr> \<and>
    NewPostgresStore e True True (Some row) (pg_key s) =
      Inr (s\<lparr>pg_row := Some row, pg_memory := (pg_memory s)\<lparr>st_progress := fmempty, st_agentSeen := None\<rparr>\<rparr>) \<and>
    (\<forall>i t. fmlookup (st_targets (pg_memory s)) i = Some t \<longrightarrow> tgt_APIKey t \<noteq> [] \<longrightarrow>
      row_key row i = Some (Text (sealed (pe_aead e) (pg_key s) (the (pe_random e i)) (tgt_APIKey t))))"
proof -
  let ?targets = "fmmap encode_Target (st_targets (pg_memory s))"
  have key: "aes_key (pg_key s)" using assms(1) by (simp add: aes_key_def)
  from restore_snapshot [OF assms(6)] obtain f where f: "Snapshot (pe_codec e) (pg_memory s) = Some (Object f)"
    "fmlookup f ''targets'' = Some (Object ?targets)"
    "\<And>s0. Restore (pe_codec e) (Object f) s0 = Some ((pg_memory s)\<lparr>st_progress := st_progress s0, st_agentSeen := st_agentSeen s0\<rparr>)"
    by blast
  from protect_targets [OF key assms(3,4) f(2) targets_are_objects, of "pe_aead e"] obtain t where
    t: "protectSnapshot (pe_aead e) (pe_random e) (pe_ord e) (Object f) (pg_key s) = Inr (Object (fmupd ''targets'' (Object t) f))"
      "\<And>i. fmlookup t i = map_option (seal_target (pe_aead e) (pg_key s) (the (pe_random e i))) (fmlookup ?targets i)"
    by blast
  let ?row = "Object (fmupd ''targets'' (Object t) f)"
  have "unprotectSnapshot (pe_aead e) (pe_ord e) ?row (pg_key s) = Inr (Object f)"
    by (rule unprotect_targets [OF assms(2) key assms(3,4) f(2) targets_are_objects]) (rule t(2))
  then have "NewPostgresStore e True True (Some ?row) (pg_key s) =
      Inr (s\<lparr>pg_row := Some ?row, pg_memory := (pg_memory s)\<lparr>st_progress := fmempty, st_agentSeen := None\<rparr>\<rparr>)"
    using assms(1,5) by (cases s) (simp add: NewPostgresStore_def f(3) NewMemoryStore_def)
  moreover have "persist e s = s\<lparr>pg_row := Some ?row\<rparr>"
    using assms(5) f(1) t(1) by (simp add: persist_def)
  moreover have "row_key ?row i = Some (Text (sealed (pe_aead e) (pg_key s) (the (pe_random e i)) (tgt_APIKey x)))"
    if "fmlookup (st_targets (pg_memory s)) i = Some x" "tgt_APIKey x \<noteq> []" for i x
    using that sealed_key by (simp add: row_key_def t(2)) (simp add: fields_of_def t(2))
  ultimately show ?thesis by blast
qed

text \<open>The operations that write the row, when the operation of the memory store under them reports that it
  did something: the memory they leave, and the store.\<close>

inductive pg_write :: "pg_env \<Rightarrow> PostgresStore \<Rightarrow> Store \<Rightarrow> PostgresStore \<Rightarrow> bool" for e s where
  create_target: "CreateTarget v (pg_memory s) = (t, memory) \<Longrightarrow> pg_write e s memory (snd (Pg_CreateTarget e v s))"
| delete_target: "DeleteTarget ord i (pg_memory s) = (TargetDeleted, memory) \<Longrightarrow> pg_write e s memory (snd (Pg_DeleteTarget e ord i s))"
| create_run: "CreateRun config (pg_memory s) = (run, memory) \<Longrightarrow> pg_write e s memory (snd (Pg_CreateRun e config s))"
| set_created_by: "pg_write e s (SetCreatedBy i user (pg_memory s)) (Pg_SetCreatedBy e i user s)"
| cancel_run: "CancelRun ord i (pg_memory s) = ((run, True), memory) \<Longrightarrow> pg_write e s memory (snd (Pg_CancelRun e ord i s))"
| claim_run: "ClaimRun ord now (pg_memory s) = (Some assignment, memory) \<Longrightarrow> pg_write e s memory (snd (Pg_ClaimRun e ord now s))"
| complete_run: "CompleteRun i result (pg_memory s) = ((run, True), memory) \<Longrightarrow>
    pg_write e s memory (snd (Pg_CompleteRun e i result s))"
| complete_shard: "CompleteShard ord tord i result (pg_memory s) = ((run, True), memory) \<Longrightarrow>
    pg_write e s memory (snd (Pg_CompleteShard e ord tord i result s))"
| set_detected: "pg_write e s (SetDetectedServer i detected (pg_memory s)) (Pg_SetDetectedServer e i detected s)"
| create_search: "CreateSearch sconfig (pg_memory s) = (search, memory) \<Longrightarrow> pg_write e s memory (snd (Pg_CreateSearch e sconfig s))"
| cancel_search: "CancelSearch ord i (pg_memory s) = ((search, True), memory) \<Longrightarrow>
    pg_write e s memory (snd (Pg_CancelSearch e ord i s))"
| advance_search: "pg_write e s (advanceSearch i (pg_memory s)) (Pg_AdvanceSearch e i s)"
| record_capture: "RecordCapture ord session event (pg_memory s) = (c, memory) \<Longrightarrow>
    pg_write e s memory (snd (Pg_RecordCapture e ord session event s))"
| delete_capture: "DeleteCapture i (pg_memory s) = (True, memory) \<Longrightarrow> pg_write e s memory (snd (Pg_DeleteCapture e i s))"
| set_settings: "SetCaptureSettings settings (pg_memory s) = (stored, memory) \<Longrightarrow>
    pg_write e s memory (snd (Pg_SetCaptureSettings e settings s))"

lemmas pg_writers = Pg_CreateTarget_def Pg_DeleteTarget_def Pg_CreateRun_def Pg_SetCreatedBy_def Pg_CancelRun_def
  Pg_ClaimRun_def Pg_CompleteRun_def Pg_CompleteShard_def Pg_SetDetectedServer_def Pg_CreateSearch_def
  Pg_CancelSearch_def Pg_AdvanceSearch_def Pg_RecordCapture_def Pg_DeleteCapture_def Pg_SetCaptureSettings_def

lemma pg_write_persists: "pg_write e s memory s' \<Longrightarrow> s' = persist e (s\<lparr>pg_memory := memory\<rparr>)"
  by (induction rule: pg_write.induct) (simp_all add: pg_writers persisted_if_def in_memory_def)

subsection \<open>Properties\<close>

text \<open>C37. Take any of the fifteen operations that write the saved state (creating
  and deleting targets, creating, claiming, completing and cancelling runs, completing shards, the
  searches, the captures and the settings), when it reports that it did something, the database accepts
  the write, and what it leaves can be encoded (JSON has no infinite numbers: one of the findings is that
  a run can hold one). Then a controller that starts with the same key finds the store as the operation
  of the memory store leaves it, but for the progress of the shards and the last sign of life of an agent,
  which are live. In the row, the key of a target is not its text but the prefix and the encoded nonce and
  sealed key.\<close>

theorem restart_restores_the_store:
  assumes "pg_write e s memory s'" "length (pg_key s) = 32" "aead_ok (pe_aead e)" "random_ok (pe_random e)"
    and "orders (pe_ord e)" "pe_exec e" "encodable (pe_codec e) memory"
  shows "\<exists>row. s' = s\<lparr>pg_memory := memory, pg_row := Some row\<rparr> \<and>
    NewPostgresStore e True True (Some row) (pg_key s) =
      Inr \<lparr>pg_memory = memory\<lparr>st_progress := fmempty, st_agentSeen := None\<rparr>, pg_row = Some row, pg_key = pg_key s\<rparr> \<and>
    (\<forall>i t. fmlookup (st_targets memory) i = Some t \<longrightarrow> tgt_APIKey t \<noteq> [] \<longrightarrow>
      (\<exists>nonce. row_key row i = Some (Text (encryptedPrefix @
         EncodeToString StdEncoding (nonce @ gcm_Seal (pe_aead e) (pg_key s) nonce (tgt_APIKey t))))))"
proof -
  have "length (pg_key (s\<lparr>pg_memory := memory\<rparr>)) = 32" "encodable (pe_codec e) (pg_memory (s\<lparr>pg_memory := memory\<rparr>))"
    using assms(2,7) by simp_all
  from persist_restores [OF this(1) assms(3-6) this(2)] show ?thesis
    using pg_write_persists [OF assms(1)] by (cases s) (auto simp: sealed_def)
qed

text \<open>A store with one target that has a key.\<close>

definition empty_codec :: snapshot_codec where
  "empty_codec = \<lparr>enc_Run = (\<lambda>_. None), dec_Run = (\<lambda>_. None), enc_Search = (\<lambda>_. None), dec_Search = (\<lambda>_. None),
     enc_Shard = (\<lambda>_. None), dec_Shard = (\<lambda>_. None), enc_Result = (\<lambda>_. None), dec_Result = (\<lambda>_. None),
     enc_Capture = (\<lambda>_. None), dec_Capture = (\<lambda>_. None), enc_Settings = (\<lambda>_. Some (Object fmempty)),
     dec_Settings = (\<lambda>_. Some zero_CaptureSettings)\<rparr>"

definition tagging :: aead where
  "tagging = \<lparr>gcm_Seal = (\<lambda>key nonce plain. rev plain @ nonce),
     gcm_Open = (\<lambda>key nonce c. if drop (length c - length nonce) c = nonce then Some (rev (take (length c - length nonce) c)) else None)\<rparr>"

definition keyed_env :: pg_env where
  "keyed_env = \<lparr>pe_codec = empty_codec, pe_aead = tagging, pe_random = (\<lambda>_. Some ''twelve bytes''),
     pe_ord = sorted_list_of_fset, pe_exec = True\<rparr>"

definition keyed_target :: Target where
  "keyed_target = zero_Target\<lparr>tgt_Name := ''model'', tgt_URL := ''http://m.internal'', tgt_APIKey := ''secret''\<rparr>"

theorem restart_restores_the_store_witness:
  "\<exists>row. pg_row (snd (Pg_CreateTarget keyed_env keyed_target
        \<lparr>pg_memory = NewMemoryStore, pg_row = None, pg_key = replicate 32 (CHR ''k'')\<rparr>)) = Some row \<and>
    NewPostgresStore keyed_env True True (Some row) (replicate 32 (CHR ''k'')) =
      Inr \<lparr>pg_memory = snd (CreateTarget keyed_target NewMemoryStore), pg_row = Some row, pg_key = replicate 32 (CHR ''k'')\<rparr>"
proof -
  have create: "CreateTarget keyed_target NewMemoryStore = (keyed_target\<lparr>tgt_ID := ''target-1''\<rparr>, NewMemoryStore\<lparr>st_nextID := 1,
      st_targets := fmupd ''target-1'' (keyed_target\<lparr>tgt_ID := ''target-1''\<rparr>) fmempty\<rparr>)"
    by (simp add: CreateTarget_def NewMemoryStore_def Let_def i64_small)
  have e: "aead_ok (pe_aead keyed_env)" "random_ok (pe_random keyed_env)" "orders (pe_ord keyed_env)" "pe_exec keyed_env"
    by (simp_all add: aead_ok_def random_ok_def orders_def keyed_env_def tagging_def NonceSize_def
        sorted_list_of_fset.rep_eq fset_of_list.rep_eq fset_inject [symmetric])
  have m: "encodable (pe_codec keyed_env) (NewMemoryStore\<lparr>st_nextID := 1,
      st_targets := fmupd ''target-1'' (keyed_target\<lparr>tgt_ID := ''target-1''\<rparr>) fmempty\<rparr>)"
    by (simp add: encodable_def keyed_env_def empty_codec_def NewMemoryStore_def codes_def i64_small)
  let ?s = "\<lparr>pg_memory = NewMemoryStore, pg_row = None, pg_key = replicate 32 (CHR ''k'')\<rparr>"
  have "CreateTarget keyed_target (pg_memory ?s) = (keyed_target\<lparr>tgt_ID := ''target-1''\<rparr>, NewMemoryStore\<lparr>st_nextID := 1,
      st_targets := fmupd ''target-1'' (keyed_target\<lparr>tgt_ID := ''target-1''\<rparr>) fmempty\<rparr>)" using create by simp
  from restart_restores_the_store [where s = ?s and e = keyed_env, OF pg_write.create_target [OF this] _ e m] obtain row where
    "snd (Pg_CreateTarget keyed_env keyed_target ?s) = ?s\<lparr>pg_memory := NewMemoryStore\<lparr>st_nextID := 1,
      st_targets := fmupd ''target-1'' (keyed_target\<lparr>tgt_ID := ''target-1''\<rparr>) fmempty\<rparr>, pg_row := Some row\<rparr>"
    "NewPostgresStore keyed_env True True (Some row) (pg_key ?s) = Inr \<lparr>pg_memory = NewMemoryStore\<lparr>st_nextID := 1,
      st_targets := fmupd ''target-1'' (keyed_target\<lparr>tgt_ID := ''target-1''\<rparr>) fmempty\<rparr>
        \<lparr>st_progress := fmempty, st_agentSeen := None\<rparr>, pg_row = Some row, pg_key = pg_key ?s\<rparr>"
    by auto
  then show ?thesis
    by (intro exI [of _ row]) (simp add: create, simp add: NewMemoryStore_def)
qed

end
