(* ===== verification/Agent_Client.thy ===== *)
theory Agent_Client
  imports Core_Types Go_Strings
begin

text \<open>
  The HTTP client of the agent (\<open>internal/agent/client.go\<close>): one round of claiming a shard, running it and
  reporting its result, with the loops beside it that send heartbeats and look for a cancellation, and the
  loop of \<open>cmd/agent/main.go\<close>. The state \<open>'s\<close> is whatever the requests reach, an answer has a status and
  a body \<open>'b\<close>; what a request does, the encodings, and the run itself are arguments.
\<close>

record client_call =
  cc_Method :: string
  cc_URL :: string
  cc_ContentType :: string
  cc_Body :: string

text \<open>\<open>ce_send\<close> gives no answer when the request cannot be made or fails. \<open>ce_run_of\<close> is what decoding
  leaves in a zero \<open>Run\<close>, its error being ignored. \<open>ce_execute\<close> is \<open>RunTargetWithProgress\<close> with what the
  loops beside it do to the state.\<close>

record ('s, 'b) client_env =
  ce_send :: "client_call \<Rightarrow> 's \<Rightarrow> (int \<times> 'b) option \<times> 's"
  ce_assignment :: "'b \<Rightarrow> Assignment option"
  ce_run_of :: "'b \<Rightarrow> Run"
  ce_result :: "RunResult \<Rightarrow> string option"
  ce_progress :: "RunProgress \<Rightarrow> string option"
  ce_execute :: "string \<Rightarrow> Assignment \<Rightarrow> 's \<Rightarrow> RunResult \<times> 's"

definition get_call :: "string \<Rightarrow> client_call" where
  "get_call url = \<lparr>cc_Method = ''GET'', cc_URL = url, cc_ContentType = [], cc_Body = []\<rparr>"

definition post_call :: "string \<Rightarrow> client_call" where
  "post_call url = \<lparr>cc_Method = ''POST'', cc_URL = url, cc_ContentType = [], cc_Body = []\<rparr>"

definition post_json :: "string \<Rightarrow> string \<Rightarrow> client_call" where
  "post_json url body = \<lparr>cc_Method = ''POST'', cc_URL = url, cc_ContentType = ''application/json'', cc_Body = body\<rparr>"

definition shard_url :: "string \<Rightarrow> string \<Rightarrow> string \<Rightarrow> string \<Rightarrow> string" where
  "shard_url baseURL runID shardID what = baseURL @ ''/api/agent/runs/'' @ runID @ ''/shards/'' @ shardID @ what"

text \<open>The answer to a heartbeat, whatever it is, is not an error.\<close>

definition sendHeartbeat :: "('s, 'b) client_env \<Rightarrow> string \<Rightarrow> 's \<Rightarrow> bool \<times> 's" where
  "sendHeartbeat c baseURL s =
     (let (answer, s) = ce_send c (post_call (baseURL @ ''/api/agent/heartbeat'')) s in (answer \<noteq> None, s))"

definition sendProgress :: "('s, 'b) client_env \<Rightarrow> string \<Rightarrow> string \<Rightarrow> string \<Rightarrow> RunProgress \<Rightarrow> 's \<Rightarrow> 's" where
  "sendProgress c baseURL runID shardID progress s =
     (case ce_progress c progress of
        None \<Rightarrow> s
      | Some body \<Rightarrow> snd (ce_send c (post_json (shard_url baseURL runID shardID ''/progress'') body) s))"

text \<open>What the select of a loop receives: the end of its context, the end of the run, or its ticker, after
  what others did to the state in between.\<close>

datatype 's wakeup = CtxEnded | RunEnded | Ticked "'s \<Rightarrow> 's"

fun keepHeartbeat :: "('s, 'b) client_env \<Rightarrow> string \<Rightarrow> 's wakeup list \<Rightarrow> 's \<Rightarrow> 's" where
  "keepHeartbeat c baseURL [] s = s"
| "keepHeartbeat c baseURL (CtxEnded # ws) s = s"
| "keepHeartbeat c baseURL (RunEnded # ws) s = s"
| "keepHeartbeat c baseURL (Ticked others # ws) s = keepHeartbeat c baseURL ws (snd (sendHeartbeat c baseURL (others s)))"

definition sees_cancelled :: "('s, 'b) client_env \<Rightarrow> string \<Rightarrow> string \<Rightarrow> 's \<Rightarrow> bool \<times> 's" where
  "sees_cancelled c baseURL runID s =
     (case ce_send c (get_call (baseURL @ ''/api/runs/'' @ runID)) s of
        (None, s) \<Rightarrow> (False, s)
      | (Some (status, body), s) \<Rightarrow>
          (run_Status (if status = 200 then ce_run_of c body else zero_Run) = ''cancelled'', s))"

text \<open>Whether the loop cancels the run.\<close>

fun watchCancellation :: "('s, 'b) client_env \<Rightarrow> string \<Rightarrow> string \<Rightarrow> 's wakeup list \<Rightarrow> 's \<Rightarrow> bool \<times> 's" where
  "watchCancellation c baseURL runID [] s = (False, s)"
| "watchCancellation c baseURL runID (CtxEnded # ws) s = (False, s)"
| "watchCancellation c baseURL runID (RunEnded # ws) s = (False, s)"
| "watchCancellation c baseURL runID (Ticked others # ws) s =
     (let (cancelled, s) = sees_cancelled c baseURL runID (others s)
      in if cancelled then (True, s) else watchCancellation c baseURL runID ws s)"

text \<open>The error, or whether a shard was run.\<close>

definition RunOnce :: "('s, 'b) client_env \<Rightarrow> string \<Rightarrow> 's \<Rightarrow> (string + bool) \<times> 's" where
  "RunOnce c controllerURL s =
     (let baseURL = TrimSuffix controllerURL ''/'';
          (alive, s) = sendHeartbeat c baseURL s
      in if \<not> alive then (Inl ''heartbeat failed'', s)
         else case ce_send c (post_call (baseURL @ ''/api/agent/claim'')) s of
             (None, s) \<Rightarrow> (Inl ''claim failed'', s)
           | (Some (status, body), s) \<Rightarrow>
               if status = 204 then (Inr False, s)
               else if status \<noteq> 200 then (Inl (''claim run: HTTP '' @ dec_int status), s)
               else (case ce_assignment c body of
                   None \<Rightarrow> (Inl ''assignment not decoded'', s)
                 | Some assignment \<Rightarrow>
                     if run_ID (asg_Run assignment) = [] \<or> tgt_URL (asg_Target assignment) = []
                     then (Inl ''invalid assignment'', s)
                     else
                       let (result, s) = ce_execute c baseURL assignment s
                       in case ce_result c result of
                            None \<Rightarrow> (Inl ''result not encoded'', s)
                          | Some resultBody \<Rightarrow>
                              (case ce_send c (post_json (shard_url baseURL (run_ID (asg_Run assignment))
                                   (sh_ID (asg_Shard assignment)) ''/result'') resultBody) s of
                                 (None, s) \<Rightarrow> (Inl ''report failed'', s)
                               | (Some (status, _), s) \<Rightarrow>
                                   if status \<noteq> 200 then (Inl (''report result: HTTP '' @ dec_int status), s) else (Inr True, s))))"

text \<open>\<open>cmd/agent/main.go\<close>: where the controller is, and the rounds of the loop with the naps between them.\<close>

definition controller_url :: "(string \<Rightarrow> string) \<Rightarrow> string" where
  "controller_url Getenv =
     (if Getenv ''CONTROLLER_URL'' \<noteq> [] then Getenv ''CONTROLLER_URL''
      else let port = (if Getenv ''CONTROLLER_PORT'' = [] then ''8080'' else Getenv ''CONTROLLER_PORT'')
           in ''http://127.0.0.1:'' @ port)"

fun agent_main :: "('s, 'b) client_env \<Rightarrow> ('s \<Rightarrow> 's) \<Rightarrow> string \<Rightarrow> nat \<Rightarrow> 's \<Rightarrow> 's" where
  "agent_main c sleep controllerURL 0 s = s"
| "agent_main c sleep controllerURL (Suc n) s =
     (let (ran, s) = RunOnce c controllerURL s
      in agent_main c sleep controllerURL n (if ran = Inr True then s else sleep s))"

end
