(* ===== verification/Ctl_Agent.thy ===== *)
theory Ctl_Agent
  imports Ctl_Access Agent_Client
begin

text \<open>
  The agent and the controller together: the client of \<open>Agent_Client\<close> (\<open>internal/agent/client.go\<close>) with the
  handlers of \<open>Ctl_Server\<close> (\<open>internal/controller/server.go\<close>) as what its requests reach. Each request has
  an environment of its own, so the clock moves between them.
\<close>

definition agent_request :: "string \<Rightarrow> client_call \<Rightarrow> request" where
  "agent_request baseURL call = \<lparr>rq_Method = cc_Method call, rq_Path = drop (length baseURL) (cc_URL call),
     rq_Query = (\<lambda>_. []), rq_Header = (\<lambda>h. if h = ''Content-Type'' then cc_ContentType call else []),
     rq_Cookies = [], rq_TLS = False, rq_Body = cc_Body call\<rparr>"

definition controller_send ::
    "(nat \<Rightarrow> env) \<Rightarrow> (Target \<Rightarrow> bool \<Rightarrow> string) \<Rightarrow> string \<Rightarrow> client_call \<Rightarrow> nat \<times> Server \<Rightarrow>
     (int \<times> api_value body) option \<times> (nat \<times> Server)" where
  "controller_send envs check baseURL call = (\<lambda>(n, srv).
     let (res, srv) = ServeHTTP (envs n) check (agent_request baseURL call) srv
     in (Some (status res, payload res), (Suc n, srv)))"

definition agent_of ::
    "(nat \<Rightarrow> env) \<Rightarrow> (Target \<Rightarrow> bool \<Rightarrow> string) \<Rightarrow> string \<Rightarrow> (RunResult \<Rightarrow> string option) \<Rightarrow>
     (string \<Rightarrow> Assignment \<Rightarrow> nat \<times> Server \<Rightarrow> RunResult \<times> (nat \<times> Server)) \<Rightarrow> (nat \<times> Server, api_value body) client_env" where
  "agent_of envs check baseURL encode execute =
     \<lparr>ce_send = controller_send envs check baseURL,
      ce_assignment = (\<lambda>body. case body of JSON (V_Assignment a) \<Rightarrow> Some a | _ \<Rightarrow> None),
      ce_run_of = (\<lambda>body. case body of JSON (V_Run v) \<Rightarrow> vw_Run v | _ \<Rightarrow> zero_Run),
      ce_result = encode, ce_progress = (\<lambda>_. None), ce_execute = execute\<rparr>"

subsection \<open>Looking for a cancellation\<close>

lemma HasPrefix_append [simp]: "HasPrefix (p @ x) p"
  by (simp add: HasPrefix_def)

lemma HasSuffix_Nil [simp]: "HasSuffix x []"
  by (simp add: HasSuffix_def)

lemma poll_request:
  "rq_Method (agent_request baseURL (get_call (baseURL @ path))) = ''GET''"
  "rq_Path (agent_request baseURL (get_call (baseURL @ path))) = path"
  "rq_Cookies (agent_request baseURL (get_call (baseURL @ path))) = []"
  by (simp_all add: agent_request_def get_call_def)

lemma vw_Run_view [simp]: "vw_Run (run_view run) = run"
  by (simp add: run_view_def Let_def case_prod_beta)

lemma show_run:
  assumes r: "rq_Method r = ''GET''" "rq_Path r = ''/api/runs/'' @ runID"
    and i: "runID \<noteq> []" "\<not> HasSuffix (rq_Path r) ''/export.json''" "\<not> HasSuffix (rq_Path r) ''/export.csv''"
    and run: "fmlookup (st_runs (srv_store srv)) runID = Some run" and open_access: "\<not> enabled (gt_cfg (srv_auth srv))"
  shows "\<exists>v. ServeHTTP e check r srv = (writeJSON 200 (V_Run v), srv) \<and> run_Status (vw_Run v) = run_Status run"
proof -
  have "ServeHTTP e check r srv = serveHumanAPI e check None r srv"
    by (simp add: ServeHTTP_def exactly_def under_def r Require_def open_access HasPrefix_def)
  also have "\<dots> = (getRun e r srv, srv)"
    using i by (simp add: serveHumanAPI_def exactly_def under_def r HasPrefix_def)
  also have "getRun e r srv = writeJSON 200 (V_Run (run_view (run\<lparr>run_Progress :=
      runProgressLocked (order_of e (st_shards (srv_store srv))) runID (srv_store srv)\<rparr>)))"
    by (simp add: getRun_def get_run_def GetRun_def r TrimPrefix_def HasPrefix_def run)
  finally have "\<exists>x. ServeHTTP e check r srv = (writeJSON 200 (V_Run (run_view (run\<lparr>run_Progress := x\<rparr>))), srv)" by blast
  moreover have "run_Status (vw_Run (run_view (run\<lparr>run_Progress := x\<rparr>))) = run_Status run" for x by simp
  ultimately show ?thesis by blast
qed

lemma refuse_run:
  assumes r: "rq_Method r = ''GET''" "rq_Path r = ''/api/runs/'' @ runID" "rq_Cookies r = []"
    and login: "enabled (gt_cfg (srv_auth srv))"
  shows "ServeHTTP e check r srv = (Error ''not signed in'' 401, srv)"
  by (simp add: ServeHTTP_def exactly_def under_def r Require_def login HasPrefix_def Cookie_def)

lemma sees_cancelled_controller:
  assumes "runID \<noteq> []" "\<not> HasSuffix (''/api/runs/'' @ runID) ''/export.json''" "\<not> HasSuffix (''/api/runs/'' @ runID) ''/export.csv''"
    and "fmlookup (st_runs (srv_store srv)) runID = Some run" "run_Status run = ''cancelled''"
  shows "sees_cancelled (agent_of envs check baseURL encode execute) baseURL runID (n, srv) =
    (\<not> enabled (gt_cfg (srv_auth srv)), (Suc n, srv))"
proof -
  let ?r = "agent_request baseURL (get_call (baseURL @ ''/api/runs/'' @ runID))"
  note q = poll_request [of baseURL "''/api/runs/'' @ runID"]
  show ?thesis
  proof (cases "enabled (gt_cfg (srv_auth srv))")
    case True
    have "ServeHTTP (envs n) check ?r srv = (Error ''not signed in'' 401, srv)" by (rule refuse_run [OF q True])
    then show ?thesis
      unfolding sees_cancelled_def agent_of_def controller_send_def client_env.select_convs
      by (simp add: True Error_def zero_Run_def del: append_Cons append_assoc append.simps)
  next
    case False
    have "\<not> HasSuffix (rq_Path ?r) ''/export.json''" "\<not> HasSuffix (rq_Path ?r) ''/export.csv''"
      unfolding q(2) by (fact assms(2,3))+
    from show_run [OF q(1,2) assms(1) this assms(4) False, of "envs n" check] obtain v where
      "ServeHTTP (envs n) check ?r srv = (writeJSON 200 (V_Run v), srv)" "run_Status (vw_Run v) = ''cancelled''"
      unfolding assms(5) by blast
    then show ?thesis
      unfolding sees_cancelled_def agent_of_def controller_send_def client_env.select_convs
      by (simp add: False writeJSON_def del: append_Cons append_assoc append.simps)
  qed
qed

subsection \<open>A round of an agent\<close>

lemma post_request:
  "rq_Method (agent_request baseURL (post_json (baseURL @ path) body)) = ''POST''"
  "rq_Path (agent_request baseURL (post_json (baseURL @ path) body)) = path"
  "rq_Body (agent_request baseURL (post_json (baseURL @ path) body)) = body"
  "rq_Method (agent_request baseURL (post_call (baseURL @ path))) = ''POST''"
  "rq_Path (agent_request baseURL (post_call (baseURL @ path))) = path"
  by (simp_all add: agent_request_def post_json_def post_call_def)

text \<open>The path that the agent builds is the one that the controller takes apart.\<close>

lemma split_first_slash: "c \<notin> set a \<Longrightarrow> split_first (c # sep) (a @ c # sep @ b) = Some (a, b)"
  by (induction a) (auto simp: HasPrefix_def)

lemma split_first_no_slash: "c \<notin> set a \<Longrightarrow> split_first (c # sep) a = None"
  by (induction a) (auto simp: HasPrefix_def)

lemma Split_slash: "c \<notin> set a \<Longrightarrow> c \<notin> set b \<Longrightarrow> Split (a @ c # sep @ b) (c # sep) = [a, b]"
  by (subst Split.simps, subst Split.simps) (simp add: split_first_slash split_first_no_slash)

lemma path_of_shard:
  assumes "CHR ''/'' \<notin> set runID" "CHR ''/'' \<notin> set shardID" "shardID \<noteq> []"
  shows "shard_of_path (''/api/agent/runs/'' @ runID @ ''/shards/'' @ shardID @ ''/result'') ''/result'' = Some shardID"
proof -
  have trim: "TrimPrefix (p @ x) p = x" "TrimSuffix (x @ q) q = x" for p q x :: string
    by (simp_all add: TrimPrefix_def TrimSuffix_def HasPrefix_def HasSuffix_def)
  have "TrimSuffix (runID @ ''/shards/'' @ shardID @ ''/result'') ''/result'' = runID @ ''/shards/'' @ shardID"
    using trim(2) [of "runID @ ''/shards/'' @ shardID" "''/result''"] by (simp only: append_assoc)
  moreover have "Split (runID @ ''/shards/'' @ shardID) ''/shards/'' = [runID, shardID]"
    using Split_slash [OF assms(1,2), of "''shards/''"] by simp
  ultimately show ?thesis
    unfolding shard_of_path_def trim(1) by (simp only: list.case assms(3) if_False)
qed

lemma heartbeat_arrives:
  assumes "rq_Method r = ''POST''" "rq_Path r = ''/api/agent/heartbeat''"
  shows "ServeHTTP e check r srv = (WriteHeader 204, srv\<lparr>srv_store := TouchAgent (en_now e) (srv_store srv)\<rparr>)"
  by (simp add: ServeHTTP_def exactly_def under_def assms HasPrefix_def)

lemma claim_arrives:
  assumes "rq_Method r = ''POST''" "rq_Path r = ''/api/agent/claim''"
  shows "ServeHTTP e check r srv = claimRun e srv"
  by (simp add: ServeHTTP_def exactly_def under_def assms HasPrefix_def)

lemma result_arrives:
  assumes "rq_Method r = ''POST''" "rq_Path r = ''/api/agent/runs/'' @ x" "HasSuffix (rq_Path r) ''/result''"
  shows "ServeHTTP e check r srv = completeShard e r srv"
  using assms(3) by (simp add: ServeHTTP_def exactly_def under_def assms(1,2) HasPrefix_def)

lemma CompleteShard_found:
  assumes "fmlookup (st_shards s) i = Some shard"
  shows "\<exists>run s'. CompleteShard ord tord i result s = ((run, True), s')"
  using assms by (simp add: CompleteShard_def Let_def)

lemma completeShard_found:
  assumes "shard_of_path (rq_Path r) ''/result'' = Some i" "dec_RunResult (en_codecs e) (rq_Body r) = Some result"
    "CompleteShard (order_of e (st_shards (srv_store s))) (en_tord e) i result (srv_store s) = ((run, True), st)"
  shows "\<exists>v s'. completeShard e r s = (writeJSON 200 v, s') \<and> (if run_Status run = ''completed''
    then \<exists>now sample. srv_store s' = advanceSearch (run_ID run) (AddMonitoring now (run_ID run) sample st) else srv_store s' = st)"
proof (cases "run_Status run = ''completed''")
  case False
  then show ?thesis using assms by (simp add: completeShard_def with_store_def) blast
next
  case True
  obtain sample s1 where m: "monitor_sample e (s\<lparr>srv_store := st\<rparr>) = (sample, s1)" by (rule prod.exhaust)
  then have "srv_store s1 = st" by (auto simp: monitor_sample_def split: prod.splits)
  then show ?thesis
    using assms True m by (auto simp: completeShard_def with_store_def add_monitoring_def Let_def split: prod.split)
qed

subsection \<open>Properties\<close>

text \<open>C38. The loop of an agent that looks for a cancellation asks
  for its run without a session. When login is enabled the controller refuses each of its questions, so
  the agent never learns that the run was cancelled and runs the shard to its end; without login it
  learns it at the first tick.\<close>

theorem agent_sees_a_cancellation_iff_no_login:
  assumes "runID \<noteq> []" "\<not> HasSuffix (''/api/runs/'' @ runID) ''/export.json''" "\<not> HasSuffix (''/api/runs/'' @ runID) ''/export.csv''"
    and "fmlookup (st_runs (srv_store srv)) runID = Some run" "run_Status run = ''cancelled''"
  shows "fst (watchCancellation (agent_of envs check baseURL encode execute) baseURL runID
      (replicate (Suc k) (Ticked (\<lambda>s. s))) (n, srv)) \<longleftrightarrow> \<not> enabled (gt_cfg (srv_auth srv))"
proof (induction k arbitrary: n)
  case 0
  show ?case by (simp add: sees_cancelled_controller [OF assms])
next
  case (Suc k)
  show ?case
    using Suc.IH by (subst replicate.simps) (simp only: watchCancellation.simps sees_cancelled_controller [OF assms] Let_def prod.case fst_conv split: if_split, simp)
qed

text \<open>The controller with login enabled and a cancelled run.\<close>

definition cancelled_server :: Server where
  "cancelled_server = login_server\<lparr>srv_store := NewMemoryStore\<lparr>st_runs :=
     fmupd ''run-2'' (demo_run\<lparr>run_Status := ''cancelled''\<rparr>) fmempty\<rparr>\<rparr>"

theorem agent_sees_a_cancellation_iff_no_login_witness:
  "\<not> fst (watchCancellation (agent_of demo_env demo_check [] (\<lambda>_. None) (\<lambda>_ _ s. (zero_RunResult, s))) [] ''run-2''
     (replicate (Suc 3) (Ticked (\<lambda>s. s))) (0, cancelled_server))"
proof -
  have "fmlookup (st_runs (srv_store cancelled_server)) ''run-2'' = Some (demo_run\<lparr>run_Status := ''cancelled''\<rparr>)"
    by (simp add: cancelled_server_def)
  moreover have "enabled (gt_cfg (srv_auth cancelled_server))"
    by (simp add: cancelled_server_def)
  ultimately show ?thesis
    by (subst agent_sees_a_cancellation_iff_no_login [where run = "demo_run\<lparr>run_Status := ''cancelled''\<rparr>"])
      (simp_all add: HasSuffix_def)
qed

text \<open>C34. One round of the agent against the controller, without or
  with login: when the controller has a shard to hand out, the round ends without an error, and the
  result is stored for the shard that was claimed, whatever happened to the store meanwhile, as long as
  the shard is still there. A run that is completed by it is monitored once more and advances its search.\<close>

theorem agent_completes_the_shard_it_claims:
  fixes srv :: Server and n :: nat and envs :: "nat \<Rightarrow> env" and controllerURL :: string
  defines "st1 \<equiv> TouchAgent (en_now (envs n)) (srv_store srv)" and "baseURL \<equiv> TrimSuffix controllerURL ''/''"
  assumes claim: "ClaimRun (order_of (envs (Suc n)) (st_shards st1)) (en_now (envs (Suc n)) div Second) st1 = (Some a, st2)"
    and execute: "execute baseURL a (Suc (Suc n), srv\<lparr>srv_store := st2\<rparr>) = (result, (k, srv'))"
    and codec: "encode result = Some body" "dec_RunResult (en_codecs (envs k)) body = Some result"
    and there: "fmlookup (st_shards (srv_store srv')) (sh_ID (asg_Shard a)) = Some shard"
    and ids: "run_ID (asg_Run a) \<noteq> []" "tgt_URL (asg_Target a) \<noteq> []" "sh_ID (asg_Shard a) \<noteq> []"
      "CHR ''/'' \<notin> set (run_ID (asg_Run a))" "CHR ''/'' \<notin> set (sh_ID (asg_Shard a))"
  shows "\<exists>run st3 srv''. CompleteShard (order_of (envs k) (st_shards (srv_store srv'))) (en_tord (envs k))
      (sh_ID (asg_Shard a)) result (srv_store srv') = ((run, True), st3) \<and>
    RunOnce (agent_of envs check baseURL encode execute) controllerURL (n, srv) = (Inr True, (Suc k, srv'')) \<and>
    (if run_Status run = ''completed''
     then \<exists>now sample. srv_store srv'' = advanceSearch (run_ID run) (AddMonitoring now (run_ID run) sample st3)
     else srv_store srv'' = st3)"
proof -
  let ?c = "agent_of envs check baseURL encode execute" and ?i = "sh_ID (asg_Shard a)"
  let ?path = "''/api/agent/runs/'' @ run_ID (asg_Run a) @ ''/shards/'' @ ?i @ ''/result''"
  let ?report = "post_json (baseURL @ ?path) body"
  obtain run st3 where done_: "CompleteShard (order_of (envs k) (st_shards (srv_store srv'))) (en_tord (envs k)) ?i result (srv_store srv') =
      ((run, True), st3)" using CompleteShard_found [OF there] by blast
  have "shard_of_path (rq_Path (agent_request baseURL ?report)) ''/result'' = Some ?i"
    "dec_RunResult (en_codecs (envs k)) (rq_Body (agent_request baseURL ?report)) = Some result"
    using path_of_shard [OF ids(4,5,3)] codec(2) by (simp_all only: post_request)
  note found = completeShard_found [OF this done_]
  have report_route: "ServeHTTP (envs k) check (agent_request baseURL ?report) srv' = completeShard (envs k) (agent_request baseURL ?report) srv'"
  proof (rule result_arrives)
    show "rq_Method (agent_request baseURL ?report) = ''POST''" "rq_Path (agent_request baseURL ?report) = ?path"
      by (rule post_request)+
    have "suffix ''/result'' ?path" unfolding suffix_def by (metis append_assoc)
    then show "HasSuffix (rq_Path (agent_request baseURL ?report)) ''/result''"
      unfolding post_request HasSuffix_iff suffix_def by blast
  qed
  from found obtain v srv'' where
    report: "ServeHTTP (envs k) check (agent_request baseURL ?report) srv' = (writeJSON 200 v, srv'')" and
    store: "if run_Status run = ''completed''
     then \<exists>now sample. srv_store srv'' = advanceSearch (run_ID run) (AddMonitoring now (run_ID run) sample st3)
     else srv_store srv'' = st3"
    unfolding report_route by blast
  have "claimRun (envs (Suc n)) (srv\<lparr>srv_store := st1\<rparr>) = (writeJSON 200 (V_Assignment a), srv\<lparr>srv_store := st2\<rparr>)"
    using claim by (simp add: claimRun_def with_store_def)
  then have claimed: "ce_send ?c (post_call (baseURL @ ''/api/agent/claim'')) (Suc n, srv\<lparr>srv_store := st1\<rparr>) =
      (Some (200, JSON (V_Assignment a)), (Suc (Suc n), srv\<lparr>srv_store := st2\<rparr>))"
    unfolding agent_of_def controller_send_def client_env.select_convs prod.case claim_arrives [OF post_request(4,5)] by (simp add: writeJSON_def)
  have alive: "sendHeartbeat ?c baseURL (n, srv) = (True, (Suc n, srv\<lparr>srv_store := st1\<rparr>))"
    unfolding sendHeartbeat_def agent_of_def controller_send_def client_env.select_convs prod.case heartbeat_arrives [OF post_request(4,5)]
    by (simp add: st1_def)
  have reported: "ce_send ?c (post_json (shard_url baseURL (run_ID (asg_Run a)) ?i ''/result'') body) (k, srv') =
      (Some (200, JSON v), (Suc k, srv''))"
    unfolding agent_of_def controller_send_def client_env.select_convs prod.case shard_url_def report by (simp add: writeJSON_def)
  have codecs: "ce_assignment ?c (JSON (V_Assignment a)) = Some a" "ce_result ?c = encode" "ce_execute ?c = execute"
    by (simp_all add: agent_of_def)
  have "RunOnce ?c controllerURL (n, srv) = (Inr True, (Suc k, srv''))"
    unfolding RunOnce_def Let_def baseURL_def [symmetric] alive prod.case claimed option.case codecs execute codec(1) reported
    using ids(1,2) by simp
  then show ?thesis using done_ store by blast
qed

text \<open>The controller with one run of one shard, and an agent that reports an empty result.\<close>

theorem agent_completes_the_shard_it_claims_witness:
  "\<exists>srv. RunOnce (agent_of (\<lambda>_. demo_env (7 * Second)) demo_check ''http://c'' (\<lambda>_. Some ''{}'') (\<lambda>_ _ s. (zero_RunResult, s)))
     ''http://c/'' (0, demo_server\<lparr>srv_store := demo_store2 0\<rparr>) = (Inr True, (3, srv))"
proof -
  let ?e = "demo_env (7 * Second)"
  let ?st = "TouchAgent (en_now ?e) (demo_store2 0)"
  have claim: "\<exists>a st. ClaimRun (order_of ?e (st_shards ?st)) (en_now ?e div Second) ?st = (Some a, st) \<and>
      asg_Target a = demo_stored \<and> sh_ID (asg_Shard a) = ''shard-3'' \<and> run_ID (asg_Run a) = ''run-2'' \<and>
      fmlookup (st_shards st) ''shard-3'' \<noteq> None"
    unfolding demo_store2_eq
    by (simp add: TouchAgent_def ClaimRun_def entries_def Let_def sorted_single NewMemoryStore_def Second_def)
  then obtain a st shard where a: "ClaimRun (order_of ?e (st_shards ?st)) (en_now ?e div Second) ?st = (Some a, st)"
    "asg_Target a = demo_stored" "sh_ID (asg_Shard a) = ''shard-3''" "run_ID (asg_Run a) = ''run-2''"
    "fmlookup (st_shards st) ''shard-3'' = Some shard" by blast
  have u: "TrimSuffix ''http://c/'' ''/'' = ''http://c''" by (simp add: TrimSuffix_def HasSuffix_def)
  show ?thesis
    using agent_completes_the_shard_it_claims [where envs = "\<lambda>_. ?e" and n = 0 and srv = "demo_server\<lparr>srv_store := demo_store2 0\<rparr>"
        and controllerURL = "''http://c/''" and a = a and ?st2.0 = st and execute = "\<lambda>_ _ s. (zero_RunResult, s)"
        and result = zero_RunResult and k = 2 and srv' = "demo_server\<lparr>srv_store := st\<rparr>" and encode = "\<lambda>_. Some ''{}''"
        and body = "''{}''" and shard = shard and check = demo_check] a
    by (auto simp: u demo_codecs_def demo_stored_def demo_target_def eval_nat_numeral)
qed

end
