(* ===== verification/Ctl_Main.thy ===== *)
theory Ctl_Main
  imports Store_Postgres Ctl_Access
begin

text \<open>
  The start of the controller (\<open>cmd/controller/main.go\<close>): the store it opens and the server it serves, from
  the environment variables. \<open>Inl\<close> is the message it exits with. The address it listens on is not modelled.
\<close>

definition open_store ::
    "pg_env \<Rightarrow> bool \<Rightarrow> bool \<Rightarrow> jval option \<Rightarrow> (string \<Rightarrow> string) \<Rightarrow> string + Store" where
  "open_store e dialled row_read row Getenv =
     (if Getenv ''DATABASE_URL'' \<noteq> [] then
        (case DecodeEncryptionKey (Getenv ''TARGET_API_KEY_ENCRYPTION_KEY'') of
           Inl err \<Rightarrow> Inl err
         | Inr key \<Rightarrow>
             (case NewPostgresStore e dialled row_read row key of Inl err \<Rightarrow> Inl err | Inr postgres \<Rightarrow> Inr (pg_memory postgres)))
      else Inr NewMemoryStore)"

definition oidc_config :: "(string \<Rightarrow> string) \<Rightarrow> auth_Config" where
  "oidc_config Getenv = \<lparr>ac_IssuerURL = Getenv ''OIDC_ISSUER_URL'', ac_ClientID = Getenv ''OIDC_CLIENT_ID'',
     ac_ClientSecret = Getenv ''OIDC_CLIENT_SECRET'', ac_RedirectURL = Getenv ''OIDC_REDIRECT_URL'',
     ac_SessionKey = Getenv ''SESSION_SECRET''\<rparr>"

definition controller_main ::
    "pg_env \<Rightarrow> bool \<Rightarrow> bool \<Rightarrow> jval option \<Rightarrow> env \<Rightarrow> string \<Rightarrow> (string \<Rightarrow> string) \<Rightarrow> string + Server" where
  "controller_main p dialled row_read row e salt Getenv =
     (case open_store p dialled row_read row Getenv of
        Inl err \<Rightarrow> Inl err
      | Inr memory \<Rightarrow>
          let server = WithTargetAllowedHostSuffixes (Getenv ''TARGET_ALLOWED_HOST_SUFFIXES'')
                (WithCaptureProxy e (Getenv ''CAPTURE_PROXY_TOKEN'') (newServer salt (Getenv ''PROMETHEUS_URL'') memory))
          in if Getenv ''OIDC_ISSUER_URL'' \<noteq> [] then
               if length (Getenv ''SESSION_SECRET'') < 32
               then Inl ''SESSION_SECRET must be set to at least 32 bytes when OIDC_ISSUER_URL is configured''
               else Inr (WithAuth (NewGate (oidc_config Getenv)) server)
             else Inr server)"

subsection \<open>Login\<close>

text \<open>A controller that starts asks for a login exactly when an identity provider is configured, and then its
  sessions are signed with a key of at least 32 bytes.\<close>

lemma controller_login:
  assumes "controller_main p dialled row_read row e salt Getenv = Inr srv"
  shows "enabled (gt_cfg (srv_auth srv)) = (Getenv ''OIDC_ISSUER_URL'' \<noteq> [])"
    and "enabled (gt_cfg (srv_auth srv)) \<Longrightarrow> 32 \<le> length (ac_SessionKey (gt_cfg (srv_auth srv)))"
  using assms by (auto simp: controller_main_def oidc_config_def WithAuth_def WithTargetAllowedHostSuffixes_def
      WithCaptureProxy_def newServer_def NewGate_def enabled_def no_auth_def Let_def split: sum.splits if_splits)

text \<open>With a database whose row was written under the same key, the controller starts with the store that was
  saved.\<close>

lemma controller_finds_its_store:
  assumes "controller_main q dialled True (Some row) e salt Getenv = Inr srv" "Getenv ''DATABASE_URL'' \<noteq> []"
    and "DecodeEncryptionKey (Getenv ''TARGET_API_KEY_ENCRYPTION_KEY'') = Inr (pg_key s)" "dialled"
    and "NewPostgresStore q True True (Some row) (pg_key s) = Inr s"
  shows "srv_store srv = pg_memory s"
  using assms by (auto simp: controller_main_def open_store_def WithAuth_def WithTargetAllowedHostSuffixes_def
      WithCaptureProxy_def newServer_def Let_def split: if_splits)

end
